(* ===== verification/Prelude.thy ===== *)
theory Prelude
  imports Main "HOL-Library.List_Lexorder" "HOL-Library.Char_ord" "HOL-Library.Product_Lexorder"
    "HOL-Library.Sublist" "HOL-Library.Code_Target_Numeral"
begin

text \<open>
  Shared ground of the development. It holds the collections of named facts, the generic lemmas
  on lists, the loop that skips what has been seen before (the repository writes it out as a
  \<open>seen\<close> map in a dozen places), Go's fixed-width integers with the wrap-around written out,
  and the time constants. Instants of type \<open>time.Time\<close> are integers: nanoseconds since the Unix
  epoch. The \<open>time.Duration\<close> values are integers in nanoseconds.
\<close>

named_theorems go_simps \<open>evaluation of the Go library functions\<close>
named_theorems row_frame \<open>what an operation on the tables leaves unchanged\<close>
named_theorems inv_pres \<open>an operation keeps an invariant\<close>

section \<open>Go integers and time\<close>

text \<open>The two's complement value of a 64-bit sum or product.\<close>

definition wrap64 :: "int \<Rightarrow> int" where
  "wrap64 x = (x + 2 ^ 63) mod 2 ^ 64 - 2 ^ 63"

definition max_int64 :: int where
  "max_int64 = 2 ^ 63 - 1"

definition in_int64 :: "int \<Rightarrow> bool" where
  "in_int64 x \<longleftrightarrow> - (2 ^ 63) \<le> x \<and> x < 2 ^ 63"

lemma wrap64_id [simp]: "in_int64 x \<Longrightarrow> wrap64 x = x"
  by (simp add: wrap64_def in_int64_def)

lemma wrap64_range: "in_int64 (wrap64 x)"
  using pos_mod_bound [of "2 ^ 64" "x + 2 ^ 63"] pos_mod_sign [of "2 ^ 64" "x + 2 ^ 63"]
  by (simp add: wrap64_def in_int64_def)

lemma in_int64_mono: "in_int64 y \<Longrightarrow> 0 \<le> x \<Longrightarrow> x \<le> y \<Longrightarrow> in_int64 x"
  by (simp add: in_int64_def)

type_synonym duration = int
type_synonym gotime = int

definition Microsecond :: duration where "Microsecond = 1000"
definition Millisecond :: duration where "Millisecond = 1000000"
definition Second :: duration where "Second = 1000000000"
definition Minute :: duration where "Minute = 60000000000"
definition Hour :: duration where "Hour = 3600000000000"

lemmas duration_defs = Microsecond_def Millisecond_def Second_def Minute_def Hour_def

text \<open>The zero \<open>time.Time\<close>, 1 January of year 1.\<close>

definition zero_time :: gotime where
  "zero_time = - 62135596800000000000"

section \<open>The loop over a seen map\<close>

text \<open>
  Keep the first element for each key, in order. The seen map of the source is the list of keys
  met so far.
\<close>

fun dedup_seen :: "('a \<Rightarrow> 'k) \<Rightarrow> 'k list \<Rightarrow> 'a list \<Rightarrow> 'a list" where
  "dedup_seen f seen [] = []"
| "dedup_seen f seen (x # xs) =
     (if f x \<in> set seen then dedup_seen f seen xs
      else x # dedup_seen f (f x # seen) xs)"

definition dedup_by :: "('a \<Rightarrow> 'k) \<Rightarrow> 'a list \<Rightarrow> 'a list" where
  "dedup_by f xs = dedup_seen f [] xs"

lemma dedup_by_Nil [simp]: "dedup_by f [] = []"
  by (simp add: dedup_by_def)

lemma dedup_seen_subseq: "subseq (dedup_seen f seen xs) xs"
  by (induction f seen xs rule: dedup_seen.induct) (auto intro: subseq_Cons')

lemma set_dedup_seen: "set (dedup_seen f seen xs) \<subseteq> set xs"
  by (induction f seen xs rule: dedup_seen.induct) auto

lemma dedup_seen_keys: "f ` set (dedup_seen f seen xs) = f ` set xs - set seen"
  by (induction f seen xs rule: dedup_seen.induct) auto

lemma dedup_seen_distinct: "distinct (map f (dedup_seen f seen xs))"
proof (induction f seen xs rule: dedup_seen.induct)
  case (1 f seen)
  then show ?case by simp
next
  case (2 f seen x xs)
  then show ?case
    using dedup_seen_keys [of f "f x # seen" xs] by auto
qed

lemma dedup_seen_id:
  "distinct (map f xs) \<Longrightarrow> f ` set xs \<inter> set seen = {} \<Longrightarrow> dedup_seen f seen xs = xs"
  by (induction f seen xs rule: dedup_seen.induct) auto

lemma dedup_by_keys [simp]: "f ` set (dedup_by f xs) = f ` set xs"
  by (simp add: dedup_by_def dedup_seen_keys)

lemma set_dedup_by: "set (dedup_by f xs) \<subseteq> set xs"
  by (simp add: dedup_by_def set_dedup_seen)

lemma dedup_by_subseq: "subseq (dedup_by f xs) xs"
  by (simp add: dedup_by_def dedup_seen_subseq)

lemma dedup_by_distinct: "distinct (map f (dedup_by f xs))"
  by (simp add: dedup_by_def dedup_seen_distinct)

lemma dedup_by_id: "distinct (map f xs) \<Longrightarrow> dedup_by f xs = xs"
  by (simp add: dedup_by_def dedup_seen_id)

lemma dedup_by_idem [simp]: "dedup_by f (dedup_by f xs) = dedup_by f xs"
  by (simp add: dedup_by_distinct dedup_by_id)

lemma dedup_by_empty_iff [simp]: "dedup_by f xs = [] \<longleftrightarrow> xs = []"
  using dedup_by_keys [of f xs] by (metis dedup_by_Nil image_is_empty set_empty)

lemma set_dedup_id [simp]: "set (dedup_by (\<lambda>x. x) xs) = set xs"
  using dedup_by_keys [of "\<lambda>x. x" xs] by simp

lemma distinct_dedup_id [simp]: "distinct (dedup_by (\<lambda>x. x) xs)"
  using dedup_by_distinct [of "\<lambda>x. x" xs] by simp

section \<open>Lists\<close>

lemma find_Some_iff_set: "find P xs = Some x \<Longrightarrow> x \<in> set xs \<and> P x"
  by (auto simp: find_Some_iff)

lemma find_None_set: "find P xs = None \<longleftrightarrow> (\<forall>x \<in> set xs. \<not> P x)"
  by (auto simp: find_None_iff)

lemma map_if_id: "(\<And>x. x \<in> set xs \<Longrightarrow> \<not> P x) \<Longrightarrow> map (\<lambda>x. if P x then f x else x) xs = xs"
  by (simp add: map_idI)

lemma inj_on_fst_take: "distinct xs \<Longrightarrow> distinct (take n xs)"
  by simp

lemma length_filter_pos: "0 < length (filter P xs) \<longleftrightarrow> (\<exists>x \<in> set xs. P x)"
  by (induction xs) auto

lemma distinct_map_eq: "distinct (map f xs) \<Longrightarrow> x \<in> set xs \<Longrightarrow> y \<in> set xs \<Longrightarrow> f x = f y \<Longrightarrow> x = y"
  by (simp add: distinct_map inj_on_def)

section \<open>Results\<close>

text \<open>A fallible function returns \<open>Inl\<close> of its error or \<open>Inr\<close> of its value.\<close>

definition bind_res :: "'e + 'a \<Rightarrow> ('a \<Rightarrow> 'e + 'b) \<Rightarrow> 'e + 'b" where
  "bind_res r f = (case r of Inl e \<Rightarrow> Inl e | Inr x \<Rightarrow> f x)"

lemma bind_res_simps [simp]:
  "bind_res (Inl e) f = Inl e" "bind_res (Inr x) f = f x"
  by (simp_all add: bind_res_def)

lemma bind_res_Inr: "bind_res r f = Inr y \<longleftrightarrow> (\<exists>x. r = Inr x \<and> f x = Inr y)"
  by (cases r) auto

fun map_res :: "('a \<Rightarrow> 'e + 'b) \<Rightarrow> 'a list \<Rightarrow> 'e + 'b list" where
  "map_res f [] = Inr []"
| "map_res f (x # xs) =
     (case f x of Inl e \<Rightarrow> Inl e
      | Inr y \<Rightarrow> (case map_res f xs of Inl e \<Rightarrow> Inl e | Inr ys \<Rightarrow> Inr (y # ys)))"

lemma map_res_Inr: "map_res f xs = Inr ys \<longleftrightarrow> list_all2 (\<lambda>x y. f x = Inr y) xs ys"
proof (induction xs arbitrary: ys)
  case Nil
  then show ?case by auto
next
  case (Cons x xs)
  show ?case
    by (cases "f x"; cases "map_res f xs") (auto simp: list_all2_Cons1 Cons.IH [symmetric])
qed

lemma map_res_cong [fundef_cong]:
  "xs = ys \<Longrightarrow> (\<And>x. x \<in> set ys \<Longrightarrow> f x = g x) \<Longrightarrow> map_res f xs = map_res g ys"
  by (induction ys arbitrary: xs) (auto split: sum.split)

text \<open>A loop over a state that ends at the first error.\<close>

fun fold_res :: "('a \<Rightarrow> 's \<Rightarrow> 'e + 's) \<Rightarrow> 'a list \<Rightarrow> 's \<Rightarrow> 'e + 's" where
  "fold_res f [] s = Inr s"
| "fold_res f (x # xs) s = (case f x s of Inl e \<Rightarrow> Inl e | Inr s1 \<Rightarrow> fold_res f xs s1)"

end
