(* ===== verification/GoStrings.thy ===== *)
theory GoStrings
  imports Prelude
begin

text \<open>
  Go strings and the functions of the packages \<open>strings\<close> and \<open>strconv\<close> the program calls. A Go
  string is a sequence of bytes, here a list of 8-bit characters. \<open>TrimSpace\<close> removes every white
  space rune of Unicode, each as its UTF-8 bytes. \<open>ToLower\<close> and \<open>EqualFold\<close> are the ones of
  ASCII: the host names, tags, digests and states they are applied to are ASCII.
\<close>

section \<open>Prefixes, suffixes, search\<close>

definition HasPrefix :: "string \<Rightarrow> string \<Rightarrow> bool" where
  "HasPrefix s p \<longleftrightarrow> take (length p) s = p"

definition HasSuffix :: "string \<Rightarrow> string \<Rightarrow> bool" where
  "HasSuffix s p \<longleftrightarrow> length p \<le> length s \<and> drop (length s - length p) s = p"

definition TrimPrefix :: "string \<Rightarrow> string \<Rightarrow> string" where
  "TrimPrefix s p = (if HasPrefix s p then drop (length p) s else s)"

definition TrimSuffix :: "string \<Rightarrow> string \<Rightarrow> string" where
  "TrimSuffix s p = (if HasSuffix s p then take (length s - length p) s else s)"

text \<open>\<open>Index\<close>: \<open>None\<close> for Go's -1.\<close>

fun Index :: "string \<Rightarrow> string \<Rightarrow> nat option" where
  "Index [] p = (if p = [] then Some 0 else None)"
| "Index (c # s) p = (if HasPrefix (c # s) p then Some 0 else map_option Suc (Index s p))"

definition Contains :: "string \<Rightarrow> string \<Rightarrow> bool" where
  "Contains s p \<longleftrightarrow> Index s p \<noteq> None"

fun IndexAny :: "string \<Rightarrow> char set \<Rightarrow> nat option" where
  "IndexAny [] cs = None"
| "IndexAny (c # s) cs = (if c \<in> cs then Some 0 else map_option Suc (IndexAny s cs))"

definition ContainsAny :: "string \<Rightarrow> char set \<Rightarrow> bool" where
  "ContainsAny s cs \<longleftrightarrow> (\<exists>c \<in> set s. c \<in> cs)"

fun LastIndexByte :: "string \<Rightarrow> char \<Rightarrow> nat option" where
  "LastIndexByte [] b = None"
| "LastIndexByte (c # s) b =
     (case LastIndexByte s b of Some i \<Rightarrow> Some (Suc i) | None \<Rightarrow> if c = b then Some 0 else None)"

definition Cut :: "string \<Rightarrow> string \<Rightarrow> string \<times> string \<times> bool" where
  "Cut s sep = (case Index s sep of
     Some i \<Rightarrow> (take i s, drop (i + length sep) s, True) | None \<Rightarrow> (s, [], False))"

lemma HasPrefix_prefix: "HasPrefix s p \<longleftrightarrow> prefix p s"
  by (metis HasPrefix_def append_take_drop_id append_eq_conv_conj prefixE prefixI)

lemma HasPrefix_append [simp]: "HasPrefix (p @ s) p"
  by (simp add: HasPrefix_def)

lemma HasPrefix_Nil [simp]: "HasPrefix s []"
  by (simp add: HasPrefix_def)

lemma HasPrefix_Cons [simp]: "HasPrefix (c # s) (d # p) \<longleftrightarrow> c = d \<and> HasPrefix s p"
  by (simp add: HasPrefix_def)

lemma HasPrefix_empty [simp]: "HasPrefix [] p \<longleftrightarrow> p = []"
  by (auto simp: HasPrefix_def)

lemma HasSuffix_append [simp]: "HasSuffix (s @ p) p"
  by (simp add: HasSuffix_def)

lemma HasSuffix_suffix: "HasSuffix s p \<longleftrightarrow> suffix p s"
  by (metis HasSuffix_append HasSuffix_def suffix_def suffix_drop)

lemma TrimPrefix_append [simp]: "TrimPrefix (p @ s) p = s"
  by (simp add: TrimPrefix_def)

lemma LastIndexByte_None: "LastIndexByte s b = None \<longleftrightarrow> b \<notin> set s"
  by (induction s) (auto split: option.splits)

lemma LastIndexByte_Some:
  "LastIndexByte s b = Some i \<Longrightarrow>
   i < length s \<and> s ! i = b \<and> b \<notin> set (drop (Suc i) s)"
proof (induction s arbitrary: i)
  case Nil
  then show ?case by simp
next
  case (Cons c s)
  then show ?case
    by (auto simp: LastIndexByte_None split: option.splits if_splits)
qed

lemma Index_None_Nil: "Index s [] = Some 0"
  by (cases s) auto

lemma Index_Some: "Index s p = Some i \<Longrightarrow> i + length p \<le> length s \<and> HasPrefix (drop i s) p"
  by (induction s p arbitrary: i rule: Index.induct)
    (auto split: if_splits simp: HasPrefix_prefix dest: prefix_length_le)

lemma Index_None: "Index s p = None \<longleftrightarrow> (\<nexists>a b. s = a @ p @ b)"
proof (induction s p rule: Index.induct)
  case (1 p)
  then show ?case by auto
next
  case (2 c s p)
  show ?case
  proof (cases "HasPrefix (c # s) p")
    case True
    then obtain b where "c # s = [] @ p @ b" by (auto simp: HasPrefix_prefix prefix_def)
    with True show ?thesis by (metis Index.simps(2) option.distinct(1))
  next
    case False
    have "(\<exists>a b. c # s = a @ p @ b) \<longleftrightarrow> (\<exists>a b. s = a @ p @ b)"
    proof
      assume "\<exists>a b. c # s = a @ p @ b"
      then obtain a b where ab: "c # s = a @ p @ b" by blast
      with False have "a \<noteq> []" by (auto simp: HasPrefix_prefix prefix_def)
      with ab show "\<exists>a b. s = a @ p @ b" by (cases a) auto
    next
      assume "\<exists>a b. s = a @ p @ b"
      then show "\<exists>a b. c # s = a @ p @ b" by (metis append_Cons)
    qed
    with False 2 show ?thesis by auto
  qed
qed

lemma Contains_iff: "Contains s p \<longleftrightarrow> (\<exists>a b. s = a @ p @ b)"
  using Index_None [of s p] by (auto simp: Contains_def)

lemma Contains_sublist: "Contains s p \<longleftrightarrow> sublist p s"
  by (simp add: Contains_iff sublist_def)

lemma Contains_char: "Contains s [c] \<longleftrightarrow> c \<in> set s"
  by (auto simp: Contains_iff in_set_conv_decomp)

lemma Index_char: "d \<notin> set a \<Longrightarrow> Index (a @ d # b) [d] = Some (length a)"
  by (induction a) auto

lemma Index_char_None: "d \<notin> set s \<Longrightarrow> Index s [d] = None"
  by (induction s) auto

lemma Cut_char: "d \<notin> set a \<Longrightarrow> Cut (a @ d # b) [d] = (a, b, True)"
  by (simp add: Cut_def Index_char)

lemma Cut_char_None: "d \<notin> set s \<Longrightarrow> Cut s [d] = (s, [], False)"
  by (simp add: Cut_def Index_char_None)

lemma LastIndexByte_append:
  "LastIndexByte (a @ c) b = (case LastIndexByte c b of Some i \<Rightarrow> Some (length a + i) | None \<Rightarrow> LastIndexByte a b)"
  by (induction a) (auto split: option.splits)

lemma LastIndexByte_last: "b \<notin> set c \<Longrightarrow> LastIndexByte (a @ b # c) b = Some (length a)"
  by (simp add: LastIndexByte_append LastIndexByte_None [THEN iffD2])

lemma IndexAny_None: "IndexAny s cs = None \<longleftrightarrow> set s \<inter> cs = {}"
  by (induction s) auto

section \<open>White space\<close>

text \<open>The byte length of the white space rune a string starts with, 0 if there is none.\<close>

definition ascii_space :: "char \<Rightarrow> bool" where
  "ascii_space c \<longleftrightarrow> c \<in> {CHR 0x09, CHR 0x0A, CHR 0x0B, CHR 0x0C, CHR 0x0D, CHR 0x20}"

definition space_rune2 :: "char \<Rightarrow> char \<Rightarrow> bool" where
  "space_rune2 a b \<longleftrightarrow> a = CHR 0xC2 \<and> b \<in> {CHR 0x85, CHR 0xA0}"

definition space_rune3 :: "char \<Rightarrow> char \<Rightarrow> char \<Rightarrow> bool" where
  "space_rune3 a b c \<longleftrightarrow>
     (a = CHR 0xE1 \<and> b = CHR 0x9A \<and> c = CHR 0x80) \<or>
     (a = CHR 0xE2 \<and> b = CHR 0x80 \<and>
        c \<in> {CHR 0x80, CHR 0x81, CHR 0x82, CHR 0x83, CHR 0x84, CHR 0x85, CHR 0x86, CHR 0x87,
             CHR 0x88, CHR 0x89, CHR 0x8A, CHR 0xA8, CHR 0xA9, CHR 0xAF}) \<or>
     (a = CHR 0xE2 \<and> b = CHR 0x81 \<and> c = CHR 0x9F) \<or>
     (a = CHR 0xE3 \<and> b = CHR 0x80 \<and> c = CHR 0x80)"

definition lead_space :: "string \<Rightarrow> nat" where
  "lead_space s =
     (case s of [] \<Rightarrow> 0
      | a # s1 \<Rightarrow> if ascii_space a then 1 else
        (case s1 of [] \<Rightarrow> 0
         | b # s2 \<Rightarrow> if space_rune2 a b then 2 else
           (case s2 of [] \<Rightarrow> 0 | c # _ \<Rightarrow> if space_rune3 a b c then 3 else 0)))"

text \<open>The same for the last rune, read on the reversed string.\<close>

definition last_space :: "string \<Rightarrow> nat" where
  "last_space r =
     (case r of [] \<Rightarrow> 0
      | a # r1 \<Rightarrow> if ascii_space a then 1 else
        (case r1 of [] \<Rightarrow> 0
         | b # r2 \<Rightarrow> if space_rune2 b a then 2 else
           (case r2 of [] \<Rightarrow> 0 | c # _ \<Rightarrow> if space_rune3 c b a then 3 else 0)))"

lemma lead_space_Nil [simp]: "lead_space [] = 0"
  by (simp add: lead_space_def)

lemma last_space_Nil [simp]: "last_space [] = 0"
  by (simp add: last_space_def)

function TrimLeftSpace :: "string \<Rightarrow> string" where
  "TrimLeftSpace s = (if lead_space s = 0 then s else TrimLeftSpace (drop (lead_space s) s))"
  by pat_completeness auto
termination
proof (relation "measure length")
  fix s :: string
  assume "lead_space s \<noteq> 0"
  then show "(drop (lead_space s) s, s) \<in> measure length"
    by (cases s) auto
qed auto

function TrimRevSpace :: "string \<Rightarrow> string" where
  "TrimRevSpace r = (if last_space r = 0 then r else TrimRevSpace (drop (last_space r) r))"
  by pat_completeness auto
termination
proof (relation "measure length")
  fix r :: string
  assume "last_space r \<noteq> 0"
  then show "(drop (last_space r) r, r) \<in> measure length"
    by (cases r) auto
qed auto

declare TrimLeftSpace.simps [simp del] TrimRevSpace.simps [simp del]

definition TrimSpace :: "string \<Rightarrow> string" where
  "TrimSpace s = rev (TrimRevSpace (rev (TrimLeftSpace s)))"

lemma TrimLeftSpace_id: "lead_space s = 0 \<Longrightarrow> TrimLeftSpace s = s"
  by (subst TrimLeftSpace.simps) simp

lemma TrimRevSpace_id: "last_space r = 0 \<Longrightarrow> TrimRevSpace r = r"
  by (subst TrimRevSpace.simps) simp

lemma lead_space_TrimLeft: "lead_space (TrimLeftSpace s) = 0"
proof (induction s rule: TrimLeftSpace.induct)
  case (1 s)
  then show ?case by (subst TrimLeftSpace.simps) simp
qed

lemma last_space_TrimRev: "last_space (TrimRevSpace r) = 0"
proof (induction r rule: TrimRevSpace.induct)
  case (1 r)
  then show ?case by (subst TrimRevSpace.simps) simp
qed

lemma TrimRevSpace_suffix: "suffix (TrimRevSpace r) r"
proof (induction r rule: TrimRevSpace.induct)
  case (1 r)
  show ?case
  proof (cases "last_space r = 0")
    case True
    then show ?thesis by (simp add: TrimRevSpace_id)
  next
    case False
    with 1 have "suffix (TrimRevSpace (drop (last_space r) r)) (drop (last_space r) r)" by simp
    then have "suffix (TrimRevSpace (drop (last_space r) r)) r"
      by (meson suffix_drop suffix_order.trans)
    with False show ?thesis by (subst TrimRevSpace.simps) simp
  qed
qed

lemma prefix_lead_space: "prefix p s \<Longrightarrow> lead_space s = 0 \<Longrightarrow> lead_space p = 0"
  by (auto simp: lead_space_def prefix_def split: list.splits if_splits)

lemma TrimSpace_idem [simp]: "TrimSpace (TrimSpace s) = TrimSpace s"
proof -
  let ?l = "TrimLeftSpace s"
  let ?t = "TrimSpace s"
  have "suffix (TrimRevSpace (rev ?l)) (rev ?l)" by (rule TrimRevSpace_suffix)
  then have "prefix ?t ?l" by (simp add: TrimSpace_def suffix_to_prefix)
  then have "lead_space ?t = 0" using lead_space_TrimLeft prefix_lead_space by blast
  then have "TrimLeftSpace ?t = ?t" by (rule TrimLeftSpace_id)
  moreover have "last_space (rev ?t) = 0" by (simp add: TrimSpace_def last_space_TrimRev)
  then have "TrimRevSpace (rev ?t) = rev ?t" by (rule TrimRevSpace_id)
  ultimately show ?thesis by (simp add: TrimSpace_def [of ?t])
qed

lemma TrimLeftSpace_suffix: "suffix (TrimLeftSpace s) s"
proof (induction s rule: TrimLeftSpace.induct)
  case (1 s)
  then show ?case
    by (subst TrimLeftSpace.simps) (auto intro: suffix_order.trans [OF _ suffix_drop])
qed

lemma sublist_TrimSpace: "sublist (TrimSpace s) s"
proof -
  have "prefix (TrimSpace s) (TrimLeftSpace s)"
    using TrimRevSpace_suffix [of "rev (TrimLeftSpace s)"] by (simp add: TrimSpace_def suffix_to_prefix)
  then show ?thesis
    using TrimLeftSpace_suffix [of s]
    by (meson prefix_imp_sublist suffix_imp_sublist sublist_order.order.trans)
qed

lemma TrimSpace_Nil [simp]: "TrimSpace [] = []"
  by (simp add: TrimSpace_def TrimLeftSpace_id TrimRevSpace_id)

text \<open>
  A string of printable ASCII characters is left alone; the criterion is decidable, so a literal
  is trimmed by simplification.
\<close>

definition graphic :: "char \<Rightarrow> bool" where
  "graphic c \<longleftrightarrow> \<not> ascii_space c \<and> of_char c < (128 :: nat)"

lemma graphic_no_rune:
  assumes "graphic x"
  shows "\<not> space_rune2 x b" "\<not> space_rune2 a x" "\<not> space_rune3 x b c" "\<not> space_rune3 a b x"
    "\<not> ascii_space x"
proof -
  have lt: "of_char x < (128 :: nat)" and sp: "\<not> ascii_space x" using assms by (simp_all add: graphic_def)
  show "\<not> ascii_space x" by (rule sp)
  show "\<not> space_rune2 x b" using lt by (auto simp: space_rune2_def)
  show "\<not> space_rune2 a x" using lt by (auto simp: space_rune2_def)
  show "\<not> space_rune3 x b c" using lt by (auto simp: space_rune3_def)
  show "\<not> space_rune3 a b x" using lt by (auto simp: space_rune3_def)
qed

lemma lead_space_graphic: "s = [] \<or> graphic (hd s) \<Longrightarrow> lead_space s = 0"
  by (cases s) (simp_all add: lead_space_def graphic_no_rune split: list.split)

lemma last_space_graphic: "r = [] \<or> graphic (hd r) \<Longrightarrow> last_space r = 0"
  by (cases r) (simp_all add: last_space_def graphic_no_rune split: list.split)

lemma TrimSpace_graphic: "s = [] \<or> graphic (hd s) \<and> graphic (last s) \<Longrightarrow> TrimSpace s = s"
  by (auto simp: TrimSpace_def TrimLeftSpace_id TrimRevSpace_id lead_space_graphic
      last_space_graphic hd_rev)

lemma TrimSpace_all_graphic: "list_all graphic s \<Longrightarrow> TrimSpace s = s"
  by (rule TrimSpace_graphic) (cases s; auto simp: list_all_iff)

lemmas trim_eval = TrimSpace_graphic graphic_def ascii_space_def

section \<open>Case\<close>

definition lower_char :: "char \<Rightarrow> char" where
  "lower_char c = (let n = of_char c :: nat in if 65 \<le> n \<and> n \<le> 90 then char_of (n + 32) else c)"

definition ToLower :: "string \<Rightarrow> string" where
  "ToLower s = map lower_char s"

definition EqualFold :: "string \<Rightarrow> string \<Rightarrow> bool" where
  "EqualFold s t \<longleftrightarrow> ToLower s = ToLower t"

lemma lower_char_idem [simp]: "lower_char (lower_char c) = lower_char c"
  by (simp add: lower_char_def Let_def)

lemma ToLower_idem [simp]: "ToLower (ToLower s) = ToLower s"
  by (simp add: ToLower_def)

lemma ToLower_append [simp]: "ToLower (s @ t) = ToLower s @ ToLower t"
  by (simp add: ToLower_def)

lemma ToLower_Nil [simp]: "ToLower [] = []"
  by (simp add: ToLower_def)

lemma ToLower_empty_iff [simp]: "ToLower s = [] \<longleftrightarrow> s = []"
  by (simp add: ToLower_def)

lemma EqualFold_refl [simp]: "EqualFold s s"
  by (simp add: EqualFold_def)

lemma EqualFold_sym: "EqualFold s t \<longleftrightarrow> EqualFold t s"
  by (auto simp: EqualFold_def)

section \<open>Splitting, joining, replacing\<close>

fun split_char :: "char \<Rightarrow> string \<Rightarrow> string list" where
  "split_char d [] = [[]]"
| "split_char d (c # s) =
     (if c = d then [] # split_char d s
      else (case split_char d s of [] \<Rightarrow> [[c]] | w # ws \<Rightarrow> (c # w) # ws))"

fun Join :: "string list \<Rightarrow> string \<Rightarrow> string" where
  "Join [] sep = []"
| "Join [w] sep = w"
| "Join (w # v # ws) sep = w @ sep @ Join (v # ws) sep"

lemma split_char_nonempty [simp]: "split_char d s \<noteq> []"
  by (induction s) (auto split: list.splits)

lemma Join_split_char: "Join (split_char d s) [d] = s"
proof (induction s)
  case Nil
  then show ?case by simp
next
  case (Cons c s)
  obtain w ws where w: "split_char d s = w # ws" by (meson list.exhaust split_char_nonempty)
  with Cons show ?case by (cases ws) auto
qed

lemma split_char_no_sep: "w \<in> set (split_char d s) \<Longrightarrow> d \<notin> set w"
proof (induction s arbitrary: w)
  case Nil
  then show ?case by simp
next
  case (Cons c s)
  obtain v vs where v: "split_char d s = v # vs" by (meson list.exhaust split_char_nonempty)
  with Cons show ?case by (auto split: if_splits)
qed

lemma split_char_first: "d \<notin> set a \<Longrightarrow> split_char d (a @ d # b) = a # split_char d b"
  by (induction a) auto

lemma split_char_none: "d \<notin> set a \<Longrightarrow> split_char d a = [a]"
  by (induction a) auto

lemma split_char_Join: "ws \<noteq> [] \<Longrightarrow> \<forall>w \<in> set ws. d \<notin> set w \<Longrightarrow> split_char d (Join ws [d]) = ws"
proof (induction ws "[d]" rule: Join.induct)
  case 1
  then show ?case by simp
next
  case (2 w)
  then have "d \<notin> set w" by simp
  then show ?case by (induction w) auto
next
  case (3 w v ws)
  then have IH: "split_char d (Join (v # ws) [d]) = v # ws" and "d \<notin> set w" by auto
  then show ?case by (induction w) auto
qed

lemma Join_inject:
  "length ws = length vs \<Longrightarrow> \<forall>w \<in> set ws. d \<notin> set w \<Longrightarrow> \<forall>w \<in> set vs. d \<notin> set w \<Longrightarrow>
   Join ws [d] = Join vs [d] \<Longrightarrow> ws = vs"
  by (metis length_0_conv split_char_Join)

text \<open>\<open>ReplaceAll\<close> with a non-empty pattern: leftmost occurrences first, not rescanned.\<close>

function ReplaceAll :: "string \<Rightarrow> string \<Rightarrow> string \<Rightarrow> string" where
  "ReplaceAll s old new =
     (case s of [] \<Rightarrow> []
      | c # r \<Rightarrow> if old \<noteq> [] \<and> HasPrefix s old then new @ ReplaceAll (drop (length old) s) old new
                 else c # ReplaceAll r old new)"
  by pat_completeness auto
termination
  by (relation "measure (\<lambda>(s, old, new). length s)") auto

declare ReplaceAll.simps [simp del]

lemma ReplaceAll_Nil [simp]: "ReplaceAll [] old new = []"
  by (simp add: ReplaceAll.simps)

lemma ReplaceAll_Cons:
  "ReplaceAll (c # r) old new =
     (if old \<noteq> [] \<and> HasPrefix (c # r) old then new @ ReplaceAll (drop (length old) (c # r)) old new
      else c # ReplaceAll r old new)"
  by (subst ReplaceAll.simps) simp

definition TrimCutset :: "string \<Rightarrow> char set \<Rightarrow> string" where
  "TrimCutset s cs = rev (dropWhile (\<lambda>c. c \<in> cs) (rev (dropWhile (\<lambda>c. c \<in> cs) s)))"

section \<open>Numbers\<close>

definition is_digit :: "char \<Rightarrow> bool" where
  "is_digit c \<longleftrightarrow> (48 :: nat) \<le> of_char c \<and> (of_char c :: nat) \<le> 57"

definition digit_val :: "char \<Rightarrow> nat" where
  "digit_val c = of_char c - 48"

definition digit_char :: "nat \<Rightarrow> char" where
  "digit_char n = char_of (48 + n)"

fun string_of_nat :: "nat \<Rightarrow> string" where
  "string_of_nat n = (if n < 10 then [digit_char n] else string_of_nat (n div 10) @ [digit_char (n mod 10)])"

declare string_of_nat.simps [simp del]

definition string_of_int :: "int \<Rightarrow> string" where
  "string_of_int i = (if i < 0 then CHR ''-'' # string_of_nat (nat (- i)) else string_of_nat (nat i))"

definition nat_of_digits :: "string \<Rightarrow> nat" where
  "nat_of_digits s = foldl (\<lambda>n c. 10 * n + digit_val c) 0 s"

lemma digit_char_props: "n < 10 \<Longrightarrow> is_digit (digit_char n) \<and> digit_val (digit_char n) = n"
  by (simp add: is_digit_def digit_char_def digit_val_def)

lemma string_of_nat_digits: "\<forall>c \<in> set (string_of_nat n). is_digit c"
proof (induction n rule: string_of_nat.induct)
  case (1 n)
  then show ?case
    by (subst string_of_nat.simps) (auto simp: digit_char_props)
qed

lemma string_of_nat_nonempty [simp]: "string_of_nat n \<noteq> []"
  by (subst string_of_nat.simps) simp

lemma nat_of_string_of_nat [simp]: "nat_of_digits (string_of_nat n) = n"
proof (induction n rule: string_of_nat.induct)
  case (1 n)
  show ?case
  proof (cases "n < 10")
    case True
    then show ?thesis
      by (subst string_of_nat.simps) (simp add: nat_of_digits_def digit_char_props)
  next
    case False
    then have "nat_of_digits (string_of_nat (n div 10)) = n div 10" using 1 by blast
    with False show ?thesis
      by (subst string_of_nat.simps) (simp add: nat_of_digits_def digit_char_props)
  qed
qed

lemma string_of_nat_inject [simp]: "string_of_nat m = string_of_nat n \<longleftrightarrow> m = n"
  by (metis nat_of_string_of_nat)

lemma digit_char_zero: "n < 10 \<Longrightarrow> digit_char n = CHR ''0'' \<Longrightarrow> n = 0"
  using digit_char_props [of n] by (simp add: digit_val_def)

lemma string_of_nat_zero: "string_of_nat n = CHR ''0'' # t \<Longrightarrow> n = 0 \<and> t = []"
proof (induction n arbitrary: t rule: string_of_nat.induct)
  case (1 n)
  show ?case
  proof (cases "n < 10")
    case True
    with 1(2) have "digit_char n = CHR ''0'' \<and> t = []" by (subst (asm) string_of_nat.simps) auto
    with True show ?thesis using digit_char_zero by blast
  next
    case False
    then obtain u where "string_of_nat (n div 10) = CHR ''0'' # u"
      using 1(2) by (subst (asm) string_of_nat.simps)
        (cases "string_of_nat (n div 10)", auto)
    with 1(1) False have "n div 10 = 0" by blast
    with False show ?thesis by simp
  qed
qed

lemma digit_char_val: "is_digit c \<Longrightarrow> digit_char (digit_val c) = c"
  by (simp add: is_digit_def digit_char_def digit_val_def)

lemma digit_val_less: "is_digit c \<Longrightarrow> digit_val c < 10"
  by (auto simp: is_digit_def digit_val_def)

text \<open>A numeral without a leading zero is the one printed for its value.\<close>

lemma string_of_nat_canonical:
  "s \<noteq> [] \<Longrightarrow> list_all is_digit s \<Longrightarrow> s = ''0'' \<or> hd s \<noteq> CHR ''0'' \<Longrightarrow> string_of_nat (nat_of_digits s) = s"
proof (induction s rule: rev_induct)
  case Nil
  then show ?case by simp
next
  case (snoc c t)
  then have c: "is_digit c" by simp
  have val: "nat_of_digits (t @ [c]) = 10 * nat_of_digits t + digit_val c" by (simp add: nat_of_digits_def)
  show ?case
  proof (cases "t = []")
    case True
    with val c show ?thesis by (simp add: nat_of_digits_def digit_char_val digit_val_less string_of_nat.simps)
  next
    case False
    with snoc.prems have hd: "hd t \<noteq> CHR ''0''" by (cases t) auto
    with False snoc have t: "string_of_nat (nat_of_digits t) = t" by simp
    moreover have "string_of_nat 0 = ''0''" by code_simp
    ultimately have "nat_of_digits t \<noteq> 0" using hd by (metis list.sel(1))
    then have "\<not> nat_of_digits (t @ [c]) < 10" "nat_of_digits (t @ [c]) div 10 = nat_of_digits t"
      "nat_of_digits (t @ [c]) mod 10 = digit_val c"
      using val digit_val_less [OF c] by auto
    with t c show ?thesis by (subst string_of_nat.simps) (simp add: digit_char_val)
  qed
qed

lemma char_dash_not_digit: "\<not> is_digit (CHR ''-'')"
  by (simp add: is_digit_def)

end
