(* ===== verification/Sanitizer.thy ===== *)
theory Sanitizer
  imports GoStrings
begin

text \<open>
  The package \<open>internal/sanitizer\<close>: how secrets are removed from every text the program stores or
  shows. \<open>normalizeTokens\<close> prepares the registered secrets, \<open>redactURLUserinfo\<close> is the scan of
  the regular expression \<open>urlWithUserinfo\<close> written as a function, \<open>Redact\<close> composes them. The main
  lemma says that a registered secret does not occur in what \<open>Redact\<close> returns.
\<close>

section \<open>Escapes of package url\<close>

definition hex_digit :: "nat \<Rightarrow> char" where
  "hex_digit n = (if n < 10 then char_of (48 + n) else char_of (55 + n))"

definition percent :: "char \<Rightarrow> string" where
  "percent c = (let n = of_char c :: nat in [CHR ''%'', hex_digit (n div 16), hex_digit (n mod 16)])"

definition is_letter :: "char \<Rightarrow> bool" where
  "is_letter c \<longleftrightarrow> (let n = of_char c :: nat in (65 \<le> n \<and> n \<le> 90) \<or> (97 \<le> n \<and> n \<le> 122))"

definition unreserved :: "char \<Rightarrow> bool" where
  "unreserved c \<longleftrightarrow> is_letter c \<or> is_digit c \<or> c \<in> set ''-_.~''"

definition PathEscape :: "string \<Rightarrow> string" where
  "PathEscape s = concat (map (\<lambda>c. if unreserved c \<or> c \<in> set ''$&+:=@'' then [c] else percent c) s)"

definition QueryEscape :: "string \<Rightarrow> string" where
  "QueryEscape s =
     concat (map (\<lambda>c. if unreserved c then [c] else if c = CHR '' '' then ''+'' else percent c) s)"

section \<open>The registered secrets\<close>

text \<open>The contribution of one token to the set \<open>seen\<close>.\<close>

definition token_forms :: "string \<Rightarrow> string list" where
  "token_forms raw =
     (let token = TrimSpace raw in
      if token = [] then []
      else [token] @ (if PathEscape token \<noteq> token then [PathEscape token] else [])
        @ (if QueryEscape token \<noteq> token then [QueryEscape token] else []))"

definition normalizeTokens :: "string list \<Rightarrow> string list" where
  "normalizeTokens tokens =
     sort_key (\<lambda>t. (- int (length t), t)) (dedup_by (\<lambda>t. t) (concat (map token_forms tokens)))"

lemma set_normalizeTokens: "set (normalizeTokens tokens) = (\<Union>t \<in> set tokens. set (token_forms t))"
  by (simp add: normalizeTokens_def)

lemma distinct_normalizeTokens: "distinct (normalizeTokens tokens)"
  by (simp add: normalizeTokens_def)

lemma PathEscape_empty_iff [simp]: "PathEscape s = [] \<longleftrightarrow> s = []"
  by (cases s) (auto simp: PathEscape_def percent_def Let_def)

lemma PathEscape_empty_iff' [simp]: "[] = PathEscape s \<longleftrightarrow> s = []"
  using PathEscape_empty_iff [of s] by (metis (no_types))

lemma QueryEscape_empty_iff [simp]: "QueryEscape s = [] \<longleftrightarrow> s = []"
  by (cases s) (auto simp: QueryEscape_def percent_def Let_def)

lemma QueryEscape_empty_iff' [simp]: "[] = QueryEscape s \<longleftrightarrow> s = []"
  using QueryEscape_empty_iff [of s] by (metis (no_types))

lemma token_forms_nonempty: "t \<in> set (token_forms raw) \<Longrightarrow> t \<noteq> []"
  by (auto simp: token_forms_def Let_def split: if_splits)

lemma normalizeTokens_nonempty: "t \<in> set (normalizeTokens tokens) \<Longrightarrow> t \<noteq> []"
  using token_forms_nonempty by (auto simp: set_normalizeTokens)

lemma normalizeTokens_raw:
  "raw \<in> set tokens \<Longrightarrow> TrimSpace raw \<noteq> [] \<Longrightarrow> TrimSpace raw \<in> set (normalizeTokens tokens)"
  by (force simp: set_normalizeTokens token_forms_def Let_def)

text \<open>Longer secrets come first, so that a secret is not cut by one it contains.\<close>

lemma normalizeTokens_order:
  "sorted_wrt (\<lambda>s t. length t \<le> length s) (normalizeTokens tokens)"
proof -
  have "sorted (map (\<lambda>t. (- int (length t), t)) (normalizeTokens tokens))"
    by (simp add: normalizeTokens_def)
  then have "sorted_wrt (\<lambda>s t. (- int (length s), s) \<le> (- int (length t), t)) (normalizeTokens tokens)"
    by (simp add: sorted_map)
  then show ?thesis
    by (rule sorted_wrt_mono_rel [rotated]) auto
qed

section \<open>URL credentials\<close>

text \<open>
  The expression is \<open>(?i)\b([a-z][a-z0-9+.-]*://)([^/\s@]+@)([^\s'"<>]+)\<close>. Case folding adds the
  two runes U+017F and U+212A to the letters. No class contains the character that follows it, so a
  match at a position is determined by maximal runs.
\<close>

definition scheme_unit :: "bool \<Rightarrow> string \<Rightarrow> nat" where
  "scheme_unit first s =
     (case s of [] \<Rightarrow> 0
      | a # r \<Rightarrow>
        if is_letter a \<or> (\<not> first \<and> (is_digit a \<or> a \<in> set ''+.-'')) then 1
        else if a = CHR 0xC5 \<and> HasPrefix r [CHR 0xBF] then 2
        else if a = CHR 0xE2 \<and> HasPrefix r [CHR 0x84, CHR 0xAA] then 3
        else 0)"

function scheme_run :: "bool \<Rightarrow> string \<Rightarrow> nat" where
  "scheme_run first s =
     (if scheme_unit first s = 0 then 0
      else scheme_unit first s + scheme_run False (drop (scheme_unit first s) s))"
  by pat_completeness auto
termination
proof (relation "measure (\<lambda>(first, s). length s)")
  fix first :: bool and s :: string
  assume "scheme_unit first s \<noteq> 0"
  then show "((False, drop (scheme_unit first s) s), (first, s)) \<in> measure (\<lambda>(first, s). length s)"
    by (cases s) (auto simp: scheme_unit_def)
qed auto

declare scheme_run.simps [simp del]

definition re_space :: "char \<Rightarrow> bool" where
  "re_space c \<longleftrightarrow> c \<in> {CHR 0x09, CHR 0x0A, CHR 0x0C, CHR 0x0D, CHR 0x20}"

definition run_length :: "(char \<Rightarrow> bool) \<Rightarrow> string \<Rightarrow> nat" where
  "run_length P s = length (takeWhile P s)"

text \<open>The lengths of the three groups of a match that starts here.\<close>

definition match_userinfo :: "string \<Rightarrow> (nat \<times> nat \<times> nat) option" where
  "match_userinfo s =
     (let n = scheme_run True s; s1 = drop n s in
      if n = 0 \<or> \<not> HasPrefix s1 ''://'' then None
      else
       (let s2 = drop 3 s1;
            u = run_length (\<lambda>c. c \<noteq> CHR ''/'' \<and> \<not> re_space c \<and> c \<noteq> CHR ''@'') s2;
            s3 = drop u s2 in
        if u = 0 \<or> \<not> HasPrefix s3 ''@'' then None
        else
         (let t = run_length (\<lambda>c. \<not> re_space c \<and> c \<noteq> CHR 0x27 \<and> c \<noteq> CHR 0x22 \<and> c \<noteq> CHR ''<'' \<and> c \<noteq> CHR ''>'')
                    (drop 1 s3) in
          if t = 0 then None else Some (n + 3, u + 1, t))))"

definition word_char :: "char \<Rightarrow> bool" where
  "word_char c \<longleftrightarrow> is_letter c \<or> is_digit c \<or> c = CHR ''_''"

definition word_boundary :: "char option \<Rightarrow> char \<Rightarrow> bool" where
  "word_boundary prev c \<longleftrightarrow> (case prev of None \<Rightarrow> False | Some p \<Rightarrow> word_char p) \<noteq> word_char c"

function redact_from :: "char option \<Rightarrow> string \<Rightarrow> string" where
  "redact_from prev s =
     (case s of [] \<Rightarrow> []
      | c # r \<Rightarrow>
        (case (if word_boundary prev c then match_userinfo s else None) of
           None \<Rightarrow> c # redact_from (Some c) r
         | Some (a, u, t) \<Rightarrow>
             take a s @ take t (drop (a + u) s)
               @ redact_from (Some (last (take (a + u + t) s))) (drop (a + u + t) s)))"
  by pat_completeness auto
termination
  by (relation "measure (\<lambda>(prev, s). length s)")
    (auto simp: match_userinfo_def Let_def split: if_splits)

declare redact_from.simps [simp del]

definition redactURLUserinfo :: "string \<Rightarrow> string" where
  "redactURLUserinfo s = redact_from None s"

definition StripURLUserinfo :: "string \<Rightarrow> string" where
  "StripURLUserinfo value = redactURLUserinfo value"

lemma set_redact_from: "set (redact_from prev s) \<subseteq> set s"
proof (induction prev s rule: redact_from.induct)
  case (1 prev s)
  show ?case
  proof (cases s)
    case Nil
    then show ?thesis by (subst redact_from.simps) simp
  next
    case (Cons c r)
    show ?thesis
    proof (cases "if word_boundary prev c then match_userinfo s else None")
      case None
      with 1(1) [OF Cons None] Cons show ?thesis by (subst redact_from.simps) auto
    next
      case (Some m)
      obtain a u t where m: "m = (a, u, t)" by (cases m)
      have "set (redact_from (Some (last (take (a + u + t) s))) (drop (a + u + t) s))
            \<subseteq> set (drop (a + u + t) s)"
        using 1(2) [OF Cons Some, of a "(u, t)" u t] m by simp
      note rest = this
      have "redact_from prev s = take a s @ take t (drop (a + u) s)
          @ redact_from (Some (last (take (a + u + t) s))) (drop (a + u + t) s)"
        using Some m Cons by (subst redact_from.simps) simp
      then have "set (redact_from prev s) = set (take a s) \<union> (set (take t (drop (a + u) s))
          \<union> set (redact_from (Some (last (take (a + u + t) s))) (drop (a + u + t) s)))"
        by (simp only: set_append)
      moreover have "set (take a s) \<subseteq> set s" by (rule set_take_subset)
      moreover have "set (take t (drop (a + u) s)) \<subseteq> set s"
        using set_take_subset set_drop_subset by (rule order_trans)
      moreover have "set (drop (a + u + t) s) \<subseteq> set s" by (rule set_drop_subset)
      ultimately show ?thesis using rest by blast
    qed
  qed
qed

section \<open>Redaction\<close>

definition redacted :: string where
  "redacted = ''[REDACTED]''"

definition Redact :: "string list \<Rightarrow> string \<Rightarrow> string" where
  "Redact tokens value =
     (let v1 = ReplaceAll value [CHR 0x0A] '' '';
          v2 = ReplaceAll v1 [CHR 0x0D] '' '';
          v3 = redactURLUserinfo v2;
          v4 = fold (\<lambda>token v. ReplaceAll v token redacted) tokens v3
      in if 1000 < length v4 then take 1000 v4 else v4)"

text \<open>\<open>sanitizer.Redact\<close>: a redactor built from raw values, applied once.\<close>

definition RedactWith :: "string \<Rightarrow> string list \<Rightarrow> string" where
  "RedactWith value tokens = Redact (normalizeTokens tokens) value"

lemma set_ReplaceAll: "set (ReplaceAll s old new) \<subseteq> set s \<union> set new"
proof (induction s old new rule: ReplaceAll.induct)
  case (1 s old new)
  show ?case
  proof (cases s)
    case Nil
    then show ?thesis by simp
  next
    case (Cons c r)
    then show ?thesis
      using 1(1) [OF Cons] 1(2) [OF Cons] set_drop_subset [of "length old" s]
      unfolding ReplaceAll.simps [of s old new] by (auto simp del: drop_Cons' set_drop_subset)
  qed
qed

lemma ReplaceAll_char_gone: "b \<notin> set new \<Longrightarrow> b \<notin> set (ReplaceAll s [b] new)"
proof (induction s "[b]" new rule: ReplaceAll.induct)
  case (1 s new)
  show ?case
  proof (cases s)
    case Nil
    then show ?thesis by simp
  next
    case (Cons c r)
    then show ?thesis using 1 by (auto simp: ReplaceAll_Cons)
  qed
qed

lemma set_fold_ReplaceAll:
  "set (fold (\<lambda>token v. ReplaceAll v token new) tokens v) \<subseteq> set v \<union> set new"
proof (induction tokens arbitrary: v)
  case Nil
  then show ?case by simp
next
  case (Cons t ts)
  then show ?case using set_ReplaceAll [of v t new] by fastforce
qed

lemma Redact_set:
  "set (Redact tokens v) \<subseteq>
     (set v \<union> set '' '' \<union> set redacted) - {CHR 0x0A, CHR 0x0D}"
proof -
  let ?v1 = "ReplaceAll v [CHR 0x0A] '' ''"
  let ?v2 = "ReplaceAll ?v1 [CHR 0x0D] '' ''"
  let ?v4 = "fold (\<lambda>token v. ReplaceAll v token redacted) tokens (redactURLUserinfo ?v2)"
  have "CHR 0x0A \<notin> set ?v1" by (rule ReplaceAll_char_gone) simp
  then have nl: "CHR 0x0A \<notin> set ?v2" using set_ReplaceAll [of ?v1 "[CHR 0x0D]" "'' ''"] by auto
  have cr: "CHR 0x0D \<notin> set ?v2" by (rule ReplaceAll_char_gone) simp
  have "set ?v2 \<subseteq> set v \<union> set '' ''"
    using set_ReplaceAll [of ?v1 "[CHR 0x0D]" "'' ''"] set_ReplaceAll [of v "[CHR 0x0A]" "'' ''"] by blast
  moreover have "set (redactURLUserinfo ?v2) \<subseteq> set ?v2"
    by (simp add: redactURLUserinfo_def set_redact_from)
  moreover have "set ?v4 \<subseteq> set (redactURLUserinfo ?v2) \<union> set redacted" by (rule set_fold_ReplaceAll)
  moreover have "CHR 0x0A \<notin> set redacted" "CHR 0x0D \<notin> set redacted" by (simp_all add: redacted_def)
  ultimately have "set ?v4 \<subseteq> (set v \<union> set '' '' \<union> set redacted) - {CHR 0x0A, CHR 0x0D}"
    using nl cr by blast
  moreover have "set (Redact tokens v) \<subseteq> set ?v4"
    by (auto simp: Redact_def Let_def dest: in_set_takeD)
  ultimately show ?thesis by blast
qed

lemma Redact_length: "length (Redact tokens v) \<le> 1000"
  by (simp add: Redact_def Let_def)

section \<open>No secret survives\<close>

text \<open>A secret that cannot be confused with the replacement text.\<close>

definition plain_secret :: "string \<Rightarrow> bool" where
  "plain_secret t \<longleftrightarrow> t \<noteq> [] \<and> CHR ''['' \<notin> set t \<and> CHR '']'' \<notin> set t \<and> \<not> Contains ''REDACTED'' t"

lemma prefix_ReplaceAll:
  "CHR ''['' \<notin> set t \<Longrightarrow> prefix t (ReplaceAll s old redacted) \<Longrightarrow> prefix t s"
proof (induction t arbitrary: s)
  case Nil
  then show ?case by simp
next
  case (Cons d t)
  show ?case
  proof (cases s)
    case Nil
    with Cons show ?thesis by simp
  next
    case (Cons c r)
    show ?thesis
    proof (cases "old \<noteq> [] \<and> HasPrefix s old")
      case True
      with Cons have "ReplaceAll s old redacted = CHR ''['' # drop 1 (redacted @ ReplaceAll (drop (length old) s) old redacted)"
        by (simp add: ReplaceAll_Cons redacted_def)
      then show ?thesis using Cons.prems by (metis Cons_prefix_Cons list.set_intros(1))
    next
      case False
      with Cons have "ReplaceAll s old redacted = c # ReplaceAll r old redacted"
        by (auto simp: ReplaceAll_Cons)
      then show ?thesis using Cons.prems Cons.IH [of r] Cons by auto
    qed
  qed
qed

lemma sublist_bracket:
  "CHR '']'' \<notin> set t \<Longrightarrow> sublist t (xs @ CHR '']'' # ys) \<Longrightarrow> sublist t xs \<or> sublist t ys"
proof (induction xs)
  case Nil
  then show ?case by (cases t) (auto simp: sublist_Cons_right)
next
  case (Cons x xs)
  show ?case
  proof (cases "prefix t (x # xs @ CHR '']'' # ys)")
    case True
    then have "prefix t ((x # xs) @ CHR '']'' # ys)" by simp
    then have "prefix t (x # xs)"
      using Cons.prems(1) by (auto simp: prefix_append prefix_Cons)
    then show ?thesis by (simp add: prefix_imp_sublist)
  next
    case False
    with Cons show ?thesis by (auto simp: sublist_Cons_right)
  qed
qed

lemma sublist_redacted:
  assumes "plain_secret t" and "sublist t (redacted @ s)"
  shows "sublist t s"
proof -
  have t: "t \<noteq> []" "CHR ''['' \<notin> set t" "CHR '']'' \<notin> set t" "\<not> sublist t ''REDACTED''"
    using assms(1) by (auto simp: plain_secret_def Contains_sublist)
  have "\<not> prefix t (CHR ''['' # ''REDACTED'' @ CHR '']'' # s)"
    using t(1,2) by (cases t) auto
  with assms(2) have "sublist t (''REDACTED'' @ CHR '']'' # s)"
    by (simp add: redacted_def sublist_Cons_right)
  with t sublist_bracket show ?thesis by blast
qed

lemma ReplaceAll_no_new:
  assumes "plain_secret t"
  shows "t = old \<or> \<not> sublist t s \<Longrightarrow> \<not> sublist t (ReplaceAll s old redacted)"
proof (induction s old redacted rule: ReplaceAll.induct)
  case (1 s old)
  have t: "t \<noteq> []" "CHR ''['' \<notin> set t" using assms by (auto simp: plain_secret_def)
  show ?case
  proof (cases s)
    case Nil
    with t show ?thesis by simp
  next
    case (Cons c r)
    show ?thesis
    proof (cases "old \<noteq> [] \<and> HasPrefix s old")
      case True
      have "t = old \<or> \<not> sublist t (drop (length old) s)"
        using 1(3) by (metis append_take_drop_id sublist_appendI sublist_order.order.trans sublist_append_leftI)
      then have "\<not> sublist t (ReplaceAll (drop (length old) s) old redacted)"
        using 1(1) [OF Cons] True Cons by simp
      then have "\<not> sublist t (redacted @ ReplaceAll (drop (length old) s) old redacted)"
        using sublist_redacted [OF assms] by blast
      with True Cons show ?thesis by (simp add: ReplaceAll_Cons)
    next
      case False
      have "t = old \<or> \<not> sublist t r" using 1(3) Cons by (auto simp: sublist_Cons_right)
      then have tail: "\<not> sublist t (ReplaceAll r old redacted)" using 1(2) [OF Cons] False Cons by simp
      have "\<not> prefix t s"
        using 1(3) False t by (metis HasPrefix_prefix prefix_imp_sublist)
      moreover have eq: "ReplaceAll s old redacted = c # ReplaceAll r old redacted"
        using False Cons by (auto simp: ReplaceAll_Cons)
      ultimately have "\<not> prefix t (c # ReplaceAll r old redacted)"
        using prefix_ReplaceAll [OF t(2)] by metis
      with tail eq show ?thesis by (simp add: sublist_Cons_right)
    qed
  qed
qed

lemma fold_ReplaceAll_gone:
  assumes "plain_secret t"
  shows "t \<in> set tokens \<or> \<not> sublist t v \<Longrightarrow>
    \<not> sublist t (fold (\<lambda>token v. ReplaceAll v token redacted) tokens v)"
proof (induction tokens arbitrary: v)
  case Nil
  then show ?case by simp
next
  case (Cons o' ts)
  have "t \<in> set ts \<or> \<not> sublist t (ReplaceAll v o' redacted)"
    using Cons.prems ReplaceAll_no_new [OF assms, of o' v] by auto
  with Cons.IH show ?case by simp
qed

lemma Redact_gone:
  assumes "plain_secret t" and "t \<in> set tokens"
  shows "\<not> Contains (Redact tokens v) t"
proof -
  let ?v4 = "fold (\<lambda>token v. ReplaceAll v token redacted) tokens
     (redactURLUserinfo (ReplaceAll (ReplaceAll v [CHR 0x0A] '' '') [CHR 0x0D] '' ''))"
  have "\<not> sublist t ?v4" using fold_ReplaceAll_gone [OF assms(1)] assms(2) by blast
  moreover have "sublist (Redact tokens v) ?v4" by (simp add: Redact_def Let_def sublist_take)
  ultimately show ?thesis
    unfolding Contains_sublist by (blast intro: sublist_order.order.trans)
qed

section \<open>Properties\<close>



end
