(* ===== verification/Sha256.thy ===== *)
theory Sha256
  imports GoStrings "HOL-Library.Word"
begin

text \<open>
  \<open>crypto/sha256\<close>, \<open>crypto/hmac\<close> and \<open>encoding/hex\<close>, which key the alert dedupe hashes and the
  fingerprint of the key file. Nothing is proved of the hash but its length; it is here so that the
  definitions that use it are functions of their inputs.
\<close>

unbundle bit_operations_syntax

type_synonym u32 = "32 word"

definition sha_k :: "u32 list" where
  "sha_k = [
   1116352408, 1899447441, 3049323471, 3921009573, 961987163, 1508970993, 2453635748, 2870763221,
   3624381080, 310598401, 607225278, 1426881987, 1925078388, 2162078206, 2614888103, 3248222580,
   3835390401, 4022224774, 264347078, 604807628, 770255983, 1249150122, 1555081692, 1996064986,
   2554220882, 2821834349, 2952996808, 3210313671, 3336571891, 3584528711, 113926993, 338241895,
   666307205, 773529912, 1294757372, 1396182291, 1695183700, 1986661051, 2177026350, 2456956037,
   2730485921, 2820302411, 3259730800, 3345764771, 3516065817, 3600352804, 4094571909, 275423344,
   430227734, 506948616, 659060556, 883997877, 958139571, 1322822218, 1537002063, 1747873779,
   1955562222, 2024104815, 2227730452, 2361852424, 2428436474, 2756734187, 3204031479, 3329325298]"

type_synonym sha_state = "u32 \<times> u32 \<times> u32 \<times> u32 \<times> u32 \<times> u32 \<times> u32 \<times> u32"

definition sha_h0 :: sha_state where
  "sha_h0 = (1779033703, 3144134277, 1013904242, 2773480762, 1359893119, 2600822924, 528734635, 1541459225)"

text \<open>The message schedule, most recent word first.\<close>

fun sha_extend :: "nat \<Rightarrow> u32 list \<Rightarrow> u32 list" where
  "sha_extend 0 r = r"
| "sha_extend (Suc n) r =
     (let x = r ! 14; y = r ! 1;
          s0 = word_rotr 7 x XOR word_rotr 18 x XOR drop_bit 3 x;
          s1 = word_rotr 17 y XOR word_rotr 19 y XOR drop_bit 10 y
      in sha_extend n ((r ! 15 + s0 + r ! 6 + s1) # r))"

fun sha_round :: "u32 \<times> u32 \<Rightarrow> sha_state \<Rightarrow> sha_state" where
  "sha_round (k, w) (a, b, c, d, e, f, g, h) =
     (let s1 = word_rotr 6 e XOR word_rotr 11 e XOR word_rotr 25 e;
          ch = (e AND f) XOR (NOT e AND g);
          t1 = h + s1 + ch + k + w;
          s0 = word_rotr 2 a XOR word_rotr 13 a XOR word_rotr 22 a;
          maj = (a AND b) XOR (a AND c) XOR (b AND c);
          t2 = s0 + maj
      in (t1 + t2, a, b, c, d + t1, e, f, g))"

definition word_of_bytes :: "nat list \<Rightarrow> u32" where
  "word_of_bytes bs = word_of_nat (foldl (\<lambda>n b. 256 * n + b) 0 bs)"

fun words_of_block :: "nat list \<Rightarrow> u32 list" where
  "words_of_block (a # b # c # d # r) = word_of_bytes [a, b, c, d] # words_of_block r"
| "words_of_block _ = []"

fun sha_add :: "sha_state \<Rightarrow> sha_state \<Rightarrow> sha_state" where
  "sha_add (a, b, c, d, e, f, g, h) (a', b', c', d', e', f', g', h') =
     (a + a', b + b', c + c', d + d', e + e', f + f', g + g', h + h')"

definition sha_block :: "nat list \<Rightarrow> sha_state \<Rightarrow> sha_state" where
  "sha_block blk st =
     sha_add st (fold sha_round (zip sha_k (rev (sha_extend 48 (rev (words_of_block blk))))) st)"

definition bytes_of :: "string \<Rightarrow> nat list" where
  "bytes_of s = map of_char s"

definition be_bytes :: "nat \<Rightarrow> nat \<Rightarrow> nat list" where
  "be_bytes k n = map (\<lambda>i. n div 256 ^ i mod 256) (rev [0..<k])"

definition sha_pad :: "nat list \<Rightarrow> nat list" where
  "sha_pad m = m @ [128] @ replicate ((119 - length m mod 64) mod 64) 0 @ be_bytes 8 (8 * length m)"

fun sha_blocks :: "nat \<Rightarrow> nat list \<Rightarrow> sha_state \<Rightarrow> sha_state" where
  "sha_blocks 0 m st = st"
| "sha_blocks (Suc n) m st = sha_blocks n (drop 64 m) (sha_block (take 64 m) st)"

fun state_words :: "sha_state \<Rightarrow> u32 list" where
  "state_words (a, b, c, d, e, f, g, h) = [a, b, c, d, e, f, g, h]"

definition Sum256 :: "nat list \<Rightarrow> nat list" where
  "Sum256 m = concat (map (\<lambda>w. be_bytes 4 (unat w))
     (state_words (sha_blocks (length (sha_pad m) div 64) (sha_pad m) sha_h0)))"

definition lower_hex :: "nat \<Rightarrow> char" where
  "lower_hex n = (if n < 10 then char_of (48 + n) else char_of (87 + n))"

definition EncodeToString :: "nat list \<Rightarrow> string" where
  "EncodeToString bs = concat (map (\<lambda>b. [lower_hex (b div 16), lower_hex (b mod 16)]) bs)"

text \<open>HMAC with a 64-byte block: a longer key is hashed first.\<close>

definition hmac_key :: "string \<Rightarrow> nat list" where
  "hmac_key key =
     (let k = (if 64 < length key then Sum256 (bytes_of key) else bytes_of key)
      in k @ replicate (64 - length k) 0)"

definition xor_byte :: "nat \<Rightarrow> nat \<Rightarrow> nat" where
  "xor_byte a b = unat ((word_of_nat a :: 8 word) XOR word_of_nat b)"

definition hmac_sha256 :: "string \<Rightarrow> string \<Rightarrow> nat list" where
  "hmac_sha256 key msg =
     (let k = hmac_key key in
      Sum256 (map (xor_byte 0x5c) k @ Sum256 (map (xor_byte 0x36) k @ bytes_of msg)))"

lemma length_be_bytes [simp]: "length (be_bytes k n) = k"
  by (simp add: be_bytes_def)

lemma length_Sum256 [simp]: "length (Sum256 m) = 32"
  by (cases "sha_blocks (length (sha_pad m) div 64) (sha_pad m) sha_h0" rule: state_words.cases)
    (simp add: Sum256_def)

lemma length_EncodeToString [simp]: "length (EncodeToString bs) = 2 * length bs"
  by (induction bs) (simp_all add: EncodeToString_def)

end
