(* ===== verification/AlertRetry.thy ===== *)
theory AlertRetry
  imports GoStrings
begin

text \<open>
  The retry policy of \<open>internal/storage/alerts.go\<close>: \<open>AlertRetryPolicy\<close> with \<open>normalized\<close> and
  \<open>backoff\<close>, and the loop \<open>retryAlertSQLiteBusy\<close> around every transaction on the alert tables.
  Durations are 64-bit; the doubling in \<open>backoff\<close> is written with its wrap-around and shown never
  to wrap. The backoff is then compared with its closed form.
\<close>

record AlertRetryPolicy =
  MaxAttempts :: int
  InitialInterval :: duration
  MaxInterval :: duration

definition defaultAlertMaxAttempts :: int where "defaultAlertMaxAttempts = 3"
definition defaultAlertInitialInterval :: duration where "defaultAlertInitialInterval = 10 * Second"
definition defaultAlertMaxInterval :: duration where "defaultAlertMaxInterval = 5 * Minute"

lemmas retry_defaults = defaultAlertMaxAttempts_def defaultAlertInitialInterval_def
  defaultAlertMaxInterval_def duration_defs

definition DefaultAlertRetryPolicy :: AlertRetryPolicy where
  "DefaultAlertRetryPolicy =
     \<lparr>MaxAttempts = defaultAlertMaxAttempts, InitialInterval = defaultAlertInitialInterval,
      MaxInterval = defaultAlertMaxInterval\<rparr>"

definition normalized :: "AlertRetryPolicy \<Rightarrow> AlertRetryPolicy" where
  "normalized policy =
     (let p1 = (if MaxAttempts policy \<le> 0 then policy\<lparr>MaxAttempts := defaultAlertMaxAttempts\<rparr> else policy);
          p2 = (if InitialInterval p1 \<le> 0 then p1\<lparr>InitialInterval := defaultAlertInitialInterval\<rparr> else p1);
          p3 = (if MaxInterval p2 \<le> 0 then p2\<lparr>MaxInterval := defaultAlertMaxInterval\<rparr> else p2)
      in if MaxInterval p3 < InitialInterval p3 then p3\<lparr>MaxInterval := InitialInterval p3\<rparr> else p3)"

text \<open>The loop of \<open>backoff\<close>, with the number of iterations left.\<close>

fun backoff_loop :: "duration \<Rightarrow> duration \<Rightarrow> nat \<Rightarrow> duration" where
  "backoff_loop maxi b 0 = (if maxi < b then maxi else b)"
| "backoff_loop maxi b (Suc n) =
     (if maxi \<le> b then maxi
      else if maxi div 2 < b then maxi
      else backoff_loop maxi (wrap64 (b * 2)) n)"

definition backoff :: "AlertRetryPolicy \<Rightarrow> int \<Rightarrow> duration" where
  "backoff policy n =
     (let p = normalized policy in
      if n \<le> 1 then InitialInterval p
      else backoff_loop (MaxInterval p) (InitialInterval p) (nat (n - 1)))"

definition policy_ok :: "AlertRetryPolicy \<Rightarrow> bool" where
  "policy_ok p \<longleftrightarrow> 0 < MaxAttempts p \<and> 0 < InitialInterval p \<and> InitialInterval p \<le> MaxInterval p"

definition policy_int64 :: "AlertRetryPolicy \<Rightarrow> bool" where
  "policy_int64 p \<longleftrightarrow> in_int64 (InitialInterval p) \<and> in_int64 (MaxInterval p)"

lemma normalized_ok: "policy_ok (normalized p)"
  by (auto simp: policy_ok_def normalized_def Let_def retry_defaults)

lemma normalized_id: "policy_ok p \<Longrightarrow> normalized p = p"
  by (auto simp: policy_ok_def normalized_def Let_def)

lemma normalized_idem [simp]: "normalized (normalized p) = normalized p"
  by (simp add: normalized_id normalized_ok)

lemma normalized_int64: "policy_int64 p \<Longrightarrow> policy_int64 (normalized p)"
  by (auto simp: policy_int64_def normalized_def Let_def retry_defaults in_int64_def)

lemma MaxAttempts_normalized_pos [simp]: "0 < MaxAttempts (normalized p)"
  using normalized_ok [of p] by (simp add: policy_ok_def)

lemma backoff_normalized [simp]: "backoff (normalized p) n = backoff p n"
  by (simp add: backoff_def)

text \<open>The loop doubles until the ceiling is reached, and then stays there.\<close>

lemma backoff_loop_closed:
  "0 < b \<Longrightarrow> b \<le> maxi \<Longrightarrow> in_int64 maxi \<Longrightarrow> backoff_loop maxi b n = min maxi (b * 2 ^ n)"
proof (induction n arbitrary: b)
  case 0
  then show ?case by simp
next
  case (Suc n)
  have pow: "(1 :: int) \<le> 2 ^ n" by simp
  show ?case
  proof (cases "maxi \<le> b \<or> maxi div 2 < b")
    case True
    then have "maxi < b * 2" using Suc.prems(1) by (elim disjE) linarith+
    then have "maxi \<le> b * 2 * 2 ^ n"
      using pow Suc.prems(1) mult_left_mono [OF pow, of "b * 2"] by linarith
    with True Suc.prems show ?thesis by (auto simp: min_def mult.assoc)
  next
    case False
    then have small: "b * 2 \<le> maxi" by linarith
    with Suc.prems have "wrap64 (b * 2) = b * 2"
      by (intro wrap64_id) (auto simp: in_int64_def)
    with Suc.IH [of "b * 2"] Suc.prems small False show ?thesis
      by (simp add: mult.assoc)
  qed
qed

lemma backoff_closed:
  assumes "policy_int64 p" and "1 \<le> n"
  shows "backoff p n =
    min (MaxInterval (normalized p)) (InitialInterval (normalized p) * 2 ^ nat (n - 1))"
proof -
  let ?q = "normalized p"
  have ok: "0 < InitialInterval ?q" "InitialInterval ?q \<le> MaxInterval ?q"
    using normalized_ok [of p] by (simp_all add: policy_ok_def)
  have m: "in_int64 (MaxInterval ?q)" using normalized_int64 [OF assms(1)] by (simp add: policy_int64_def)
  show ?thesis
  proof (cases "n \<le> 1")
    case True
    with assms(2) ok show ?thesis by (simp add: backoff_def Let_def)
  next
    case False
    then show ?thesis using backoff_loop_closed [OF ok m] by (simp add: backoff_def Let_def)
  qed
qed

lemma backoff_bounds:
  assumes "policy_int64 p" and "1 \<le> n"
  shows "InitialInterval (normalized p) \<le> backoff p n" and "backoff p n \<le> MaxInterval (normalized p)"
proof -
  have ok: "0 < InitialInterval (normalized p)" "InitialInterval (normalized p) \<le> MaxInterval (normalized p)"
    using normalized_ok [of p] by (simp_all add: policy_ok_def)
  have "InitialInterval (normalized p) * 1 \<le> InitialInterval (normalized p) * 2 ^ nat (n - 1)"
    using ok(1) by (intro mult_left_mono) auto
  with ok show "InitialInterval (normalized p) \<le> backoff p n"
    by (simp add: backoff_closed [OF assms])
  show "backoff p n \<le> MaxInterval (normalized p)"
    by (simp add: backoff_closed [OF assms])
qed

lemma backoff_pos: "policy_int64 p \<Longrightarrow> 1 \<le> n \<Longrightarrow> 0 < backoff p n"
  using backoff_bounds(1) [of p n] normalized_ok [of p] by (simp add: policy_ok_def)

lemma backoff_mono:
  assumes "policy_int64 p" and "1 \<le> m" and "m \<le> n"
  shows "backoff p m \<le> backoff p n"
proof -
  have "0 < InitialInterval (normalized p)" using normalized_ok [of p] by (simp add: policy_ok_def)
  then have "InitialInterval (normalized p) * 2 ^ nat (m - 1) \<le> InitialInterval (normalized p) * 2 ^ nat (n - 1)"
    using assms(3) by (intro mult_left_mono power_increasing) auto
  then show ?thesis using assms by (simp add: backoff_closed min_le_iff_disj)
qed

section \<open>Retrying a busy database\<close>

text \<open>
  \<open>run i s\<close> is the \<open>i\<close>-th attempt on the state, \<open>busy\<close> the predicate \<open>isSQLiteBusy\<close> on its error,
  \<open>elapsed i\<close> the time since the start after it, \<open>ctx_err i\<close> the context's error if the context
  ends during the wait. \<open>None\<close> is a loop that never returns.
\<close>

definition alertSQLiteBusyMaxRetryDuration :: duration where
  "alertSQLiteBusyMaxRetryDuration = 5 * Second"

definition retry_delay :: "nat \<Rightarrow> duration" where
  "retry_delay i =
     (let delay = (int i + 1) * 50 * Millisecond in
      if 250 * Millisecond < delay then 250 * Millisecond else delay)"

partial_function (option) retry_loop ::
  "(nat \<Rightarrow> 's \<Rightarrow> 's \<times> ('e + 'a)) \<Rightarrow> ('e \<Rightarrow> bool) \<Rightarrow> (nat \<Rightarrow> duration) \<Rightarrow> (nat \<Rightarrow> 'e option) \<Rightarrow>
   nat \<Rightarrow> 's \<Rightarrow> ('s \<times> ('e + 'a)) option" where
  "retry_loop run busy elapsed ctx_err i s =
     (case run i s of
        (s', Inr x) \<Rightarrow> Some (s', Inr x)
      | (s', Inl e) \<Rightarrow>
          if \<not> busy e then Some (s', Inl e)
          else if alertSQLiteBusyMaxRetryDuration \<le> elapsed i then Some (s', Inl e)
          else (case ctx_err i of
             Some e' \<Rightarrow> Some (s', Inl e')
           | None \<Rightarrow> retry_loop run busy elapsed ctx_err (Suc i) s'))"

definition retryAlertSQLiteBusy ::
  "(nat \<Rightarrow> 's \<Rightarrow> 's \<times> ('e + 'a)) \<Rightarrow> ('e \<Rightarrow> bool) \<Rightarrow> (nat \<Rightarrow> duration) \<Rightarrow> (nat \<Rightarrow> 'e option) \<Rightarrow>
   's \<Rightarrow> ('s \<times> ('e + 'a)) option" where
  "retryAlertSQLiteBusy run busy elapsed ctx_err s = retry_loop run busy elapsed ctx_err 0 s"

definition isSQLiteBusy :: "string \<Rightarrow> bool" where
  "isSQLiteBusy err \<longleftrightarrow>
     (let text = ToLower err in
      Contains text ''database is locked'' \<or> Contains text ''database table is locked'' \<or>
      Contains text ''sqlite_busy'' \<or> Contains text ''busy'')"

lemma retry_delay_bounds: "50 * Millisecond \<le> retry_delay i \<and> retry_delay i \<le> 250 * Millisecond"
  by (simp add: retry_delay_def Let_def duration_defs)

lemma retry_loop_returns:
  assumes "alertSQLiteBusyMaxRetryDuration \<le> elapsed (i + n)"
  shows "\<exists>r. retry_loop run busy elapsed ctx_err i s = Some r"
  using assms
proof (induction n arbitrary: i s)
  case 0
  then show ?case
    by (subst retry_loop.simps) (auto split: prod.split sum.split option.split)
next
  case (Suc n)
  then have "\<exists>r. retry_loop run busy elapsed ctx_err (Suc i) s' = Some r" for s' by simp
  then show ?case
    by (subst retry_loop.simps) (auto split: prod.split sum.split option.split)
qed

text \<open>An invariant of every attempt is one of the loop.\<close>

lemma retry_loop_invariant:
  assumes step: "\<And>i s. P s \<Longrightarrow> P (fst (run i s))"
    and ret: "retry_loop run busy elapsed ctx_err i s = Some r" and "P s"
  shows "P (fst r)"
proof -
  have "run = run \<longrightarrow> P s \<longrightarrow> P (fst r)"
  proof (rule retry_loop.raw_induct [where P = "\<lambda>run' busy' elapsed' ctx' i s r.
      run' = run \<longrightarrow> P s \<longrightarrow> P (fst r)", OF _ ret])
    fix f and run' :: "nat \<Rightarrow> 'a \<Rightarrow> 'a \<times> ('b + 'c)" and busy' elapsed' ctx' i s r
    assume IH: "\<And>run' busy' elapsed' ctx' i s r. f run' busy' elapsed' ctx' i s = Some r \<Longrightarrow>
        run' = run \<longrightarrow> P s \<longrightarrow> P (fst r)"
      and eq: "(case run' i s of (s', Inl e) \<Rightarrow>
           if \<not> busy' e then Some (s', Inl e)
           else if alertSQLiteBusyMaxRetryDuration \<le> elapsed' i then Some (s', Inl e)
           else (case ctx' i of None \<Rightarrow> f run' busy' elapsed' ctx' (Suc i) s'
                 | Some e' \<Rightarrow> Some (s', Inl e'))
         | (s', Inr x) \<Rightarrow> Some (s', Inr x)) = Some r"
    show "run' = run \<longrightarrow> P s \<longrightarrow> P (fst r)"
      using eq IH step [of s i]
      by (cases r) (auto split: prod.splits sum.splits option.splits if_splits)
  qed
  with \<open>P s\<close> show ?thesis by simp
qed

end
