(* ===== verification/AlertStore.thy ===== *)
theory AlertStore
  imports Sanitizer Sha256 AlertRetry
begin

text \<open>
  The alert tables of \<open>internal/storage\<close>: the rows of \<open>alert_events\<close> and \<open>alert_dispatches\<close> with
  the constraints of their schema (\<open>migrations.go\<close>), the part of \<open>Store\<close> the alert operations read
  and write, and the statements and helper functions of \<open>alerts.go\<close> that the operations of theory
  AlertOps are composed of. A table is the list of its rows in the order of their ids. Each instant
  is stored by the code twice, as text and in nanoseconds, from one value; the model stores it once.
  A transaction is atomic, since SQLite serializes the writers; an error rolls the tables back.
\<close>

section \<open>Statuses and errors\<close>

abbreviation AlertEventStatusPending :: string where "AlertEventStatusPending \<equiv> ''pending''"
abbreviation AlertEventStatusDelivered :: string where "AlertEventStatusDelivered \<equiv> ''delivered''"
abbreviation AlertEventStatusFailed :: string where "AlertEventStatusFailed \<equiv> ''failed''"
abbreviation AlertEventStatusPartial :: string where "AlertEventStatusPartial \<equiv> ''partial''"
abbreviation AlertEventStatusReset :: string where "AlertEventStatusReset \<equiv> ''reset''"

abbreviation AlertDispatchStatusPending :: string where "AlertDispatchStatusPending \<equiv> ''pending''"
abbreviation AlertDispatchStatusInFlight :: string where "AlertDispatchStatusInFlight \<equiv> ''in_flight''"
abbreviation AlertDispatchStatusDelivered :: string where "AlertDispatchStatusDelivered \<equiv> ''delivered''"
abbreviation AlertDispatchStatusDeadLettered :: string where "AlertDispatchStatusDeadLettered \<equiv> ''dead_lettered''"
abbreviation AlertDispatchStatusReset :: string where "AlertDispatchStatusReset \<equiv> ''reset''"
abbreviation AlertDispatchStatusSkipped :: string where "AlertDispatchStatusSkipped \<equiv> ''skipped''"

definition alertDispatchLeaseExpiredError :: string where
  "alertDispatchLeaseExpiredError = ''alert dispatch lease expired''"
definition alertDispatchRetryNoDiagnostic :: string where
  "alertDispatchRetryNoDiagnostic = ''retry requested by worker without diagnostic''"
definition alertDispatchDeadNoDiagnostic :: string where
  "alertDispatchDeadNoDiagnostic = ''dead-lettered by worker without diagnostic''"

datatype alert_error =
    AlertKindRequired | AlertOwnerRequired | AlertNewStateRequired | AlertDedupeKeyRequired
  | AlertStatusNotPending | AlertSinkEmpty | AlertSinkHasSecret | AlertSinkNotConfigured string
  | AlertSinkMissing | AlertConflictWithoutPending string
  | AlertClaimWorkerRequired | AlertClaimLeaseInvalid | AlertClaimLimitInvalid
  | AlertDispatchIDRequired | AlertDispatchWorkerRequired | AlertDispatchClaimRequired
  | AlertDispatchStatusInvalid
  | ErrAlertDispatchNotFound | ErrAlertDispatchClaimNotHeld | ErrAlertDispatchLeaseExpired
  | ErrAlertStateLocked string | ErrAlertDispatchTerminalConflict int string string

section \<open>Rows and store\<close>

record AlertEvent =
  evID :: int
  evKind :: string
  evServiceID :: string
  evTarget :: string
  evRepository :: string
  evAgent :: string
  evOldState :: string
  evNewState :: string
  evReason :: string
  evDedupeKey :: string
  evCooldownKey :: string
  evDedupeHash :: string
  evCreatedAt :: gotime
  evStatus :: string

record AlertDispatch =
  dID :: int
  dEventID :: int
  dSink :: string
  dStatus :: string
  dWorkerID :: string
  dClaimID :: string
  dAttempts :: int
  dLastError :: string
  dDeliveredAt :: "gotime option"
  dLeaseExpiresAt :: "gotime option"
  dNextAttemptAtNS :: int
  dUpdatedAt :: gotime

record AlertDelivery =
  delEvent :: AlertEvent
  delDispatch :: AlertDispatch

text \<open>
  The sequences are the counters of AUTOINCREMENT. \<open>dedupeKeyFile\<close> is what \<open>readAlertDedupeKey\<close>
  returns for the sidecar file now, \<open>None\<close> for an error; \<open>fingerprintRow\<close> the row of
  \<open>storage_metadata\<close>.
\<close>

record Store =
  alertEvents :: "AlertEvent list"
  alertDispatches :: "AlertDispatch list"
  eventSeq :: int
  dispatchSeq :: int
  fingerprintRow :: "string option"
  dedupeKeyFile :: "string option"
  redactionTokens :: "string list"
  alertDedupeKey :: string
  alertSinkNames :: "string list"
  alertSinkAllowlist :: bool
  alertStateDurableLockMsg :: string
  alertStateCleanupLockMsg :: string
  startupWarnings :: "string list"

definition redact :: "Store \<Rightarrow> string \<Rightarrow> string" where
  "redact store value = RedactWith value (redactionTokens store)"

definition DeliveryKey :: "AlertDispatch \<Rightarrow> string" where
  "DeliveryKey d = (if dID d \<le> 0 then [] else string_of_int (dID d))"

text \<open>The \<open>NextAttemptAt\<close> field of the Go struct, computed from the stored nanoseconds.\<close>

definition dNextAttemptAt :: "AlertDispatch \<Rightarrow> gotime option" where
  "dNextAttemptAt d = (if 0 < dNextAttemptAtNS d then Some (dNextAttemptAtNS d) else None)"

section \<open>Status predicates\<close>

definition terminalAlertDispatchStatus :: "string \<Rightarrow> bool" where
  "terminalAlertDispatchStatus s \<longleftrightarrow>
     s = AlertDispatchStatusDelivered \<or> s = AlertDispatchStatusDeadLettered \<or> s = AlertDispatchStatusSkipped"

definition validAlertDispatchResultStatus :: "string \<Rightarrow> bool" where
  "validAlertDispatchResultStatus s \<longleftrightarrow> s = AlertDispatchStatusPending \<or> terminalAlertDispatchStatus s"

definition validAlertDispatchStatus :: "string \<Rightarrow> bool" where
  "validAlertDispatchStatus s \<longleftrightarrow>
     s = AlertDispatchStatusPending \<or> s = AlertDispatchStatusInFlight \<or> s = AlertDispatchStatusReset \<or>
     terminalAlertDispatchStatus s"

definition validAlertEventStatus :: "string \<Rightarrow> bool" where
  "validAlertEventStatus s \<longleftrightarrow>
     s = AlertEventStatusPending \<or> s = AlertEventStatusDelivered \<or> s = AlertEventStatusFailed \<or>
     s = AlertEventStatusPartial \<or> s = AlertEventStatusReset"

definition open_dispatch :: "AlertDispatch \<Rightarrow> bool" where
  "open_dispatch d \<longleftrightarrow> dStatus d = AlertDispatchStatusPending \<or> dStatus d = AlertDispatchStatusInFlight"

section \<open>The lock on the alert state\<close>

definition alertStateLockMessage :: "Store \<Rightarrow> string" where
  "alertStateLockMessage store =
     (if alertStateDurableLockMsg store \<noteq> [] then alertStateDurableLockMsg store
      else alertStateCleanupLockMsg store)"

definition isAlertStateLocked :: "Store \<Rightarrow> bool" where
  "isAlertStateLocked store \<longleftrightarrow>
     alertStateDurableLockMsg store \<noteq> [] \<or> alertStateCleanupLockMsg store \<noteq> []"

definition ensureAlertStateUnlocked :: "Store \<Rightarrow> alert_error option" where
  "ensureAlertStateUnlocked store =
     (let message = alertStateLockMessage store in
      if message = [] then None else Some (ErrAlertStateLocked message))"

definition lockAlertState :: "Store \<Rightarrow> string \<Rightarrow> Store" where
  "lockAlertState store message =
     (if TrimSpace message = [] then store
      else
       (let s1 = (if alertStateDurableLockMsg store = []
                  then store\<lparr>alertStateDurableLockMsg := message\<rparr> else store)
        in if message \<in> set (startupWarnings s1) then s1
           else s1\<lparr>startupWarnings := startupWarnings s1 @ [message]\<rparr>))"

definition alertDedupeKeyFingerprint :: "string \<Rightarrow> string" where
  "alertDedupeKeyFingerprint key = EncodeToString (Sum256 (bytes_of key))"

definition alertDedupeHash :: "Store \<Rightarrow> string \<Rightarrow> string" where
  "alertDedupeHash store raw =
     (if alertDedupeKey store = [] then []
      else EncodeToString (hmac_sha256 (alertDedupeKey store) raw))"

definition lock_with :: "Store \<Rightarrow> string \<Rightarrow> Store \<times> alert_error option" where
  "lock_with store message = (lockAlertState store message, Some (ErrAlertStateLocked message))"

definition ensureAlertDedupeKeyCurrent :: "Store \<Rightarrow> Store \<times> alert_error option" where
  "ensureAlertDedupeKeyCurrent store =
     (if alertDedupeKey store = [] then
        lock_with store ''alert state locked: alert dedupe key is unavailable''
      else if (case dedupeKeyFile store of None \<Rightarrow> True
               | Some key \<Rightarrow> alertDedupeKeyFingerprint key \<noteq> alertDedupeKeyFingerprint (alertDedupeKey store))
      then
        lock_with store ''alert state locked: alert dedupe key sidecar changed or is unavailable while this process was running; restore it and restart all dashboard processes before writing alert state''
      else
        (case fingerprintRow store of
           None \<Rightarrow> lock_with store ''alert state locked: alert dedupe key fingerprint is missing; restart all dashboard processes after repairing alert state''
         | Some fingerprint \<Rightarrow>
             if fingerprint \<noteq> alertDedupeKeyFingerprint (alertDedupeKey store) then
               lock_with store ''alert state locked: alert dedupe key fingerprint changed while this process was running; restart all dashboard processes before writing alert state''
             else (store, None)))"

section \<open>Preparing rows\<close>

definition prepareAlertEvent :: "Store \<Rightarrow> AlertEvent \<Rightarrow> AlertEvent" where
  "prepareAlertEvent store event = event\<lparr>
     evKind := TrimSpace (redact store (evKind event)),
     evServiceID := TrimSpace (redact store (evServiceID event)),
     evTarget := TrimSpace (redact store (evTarget event)),
     evRepository := TrimSpace (redact store (evRepository event)),
     evAgent := TrimSpace (redact store (evAgent event)),
     evOldState := TrimSpace (redact store (evOldState event)),
     evNewState := TrimSpace (redact store (evNewState event)),
     evReason := TrimSpace (redact store (evReason event)),
     evDedupeKey := TrimSpace (redact store (evDedupeKey event)),
     evDedupeHash := TrimSpace (evDedupeHash event),
     evStatus := TrimSpace (evStatus event)\<rparr>"

definition prepareScannedAlertDispatch :: "Store \<Rightarrow> AlertDispatch \<Rightarrow> AlertDispatch" where
  "prepareScannedAlertDispatch store d = d\<lparr>
     dSink := TrimSpace (dSink d),
     dStatus := TrimSpace (dStatus d),
     dWorkerID := TrimSpace (redact store (dWorkerID d)),
     dClaimID := TrimSpace (dClaimID d),
     dLastError := TrimSpace (redact store (dLastError d))\<rparr>"

text \<open>Reading a row back; the \<open>CooldownKey\<close> field is not a column.\<close>

definition scanAlertEvent :: "Store \<Rightarrow> AlertEvent \<Rightarrow> AlertEvent" where
  "scanAlertEvent store row = prepareAlertEvent store (row\<lparr>evCooldownKey := []\<rparr>)"

definition scanAlertDispatch :: "Store \<Rightarrow> AlertDispatch \<Rightarrow> AlertDispatch" where
  "scanAlertDispatch store row = prepareScannedAlertDispatch store row"

definition scanAlertDelivery :: "Store \<Rightarrow> AlertEvent \<times> AlertDispatch \<Rightarrow> AlertDelivery" where
  "scanAlertDelivery store row =
     \<lparr>delEvent = scanAlertEvent store (fst row), delDispatch = prepareScannedAlertDispatch store (snd row)\<rparr>"

definition validateAlertSinkIdentity :: "Store \<Rightarrow> string \<Rightarrow> alert_error option" where
  "validateAlertSinkIdentity store sink =
     (if redact store sink \<noteq> sink then Some AlertSinkHasSecret
      else if alertSinkAllowlist store \<and> sink \<notin> set (alertSinkNames store)
      then Some (AlertSinkNotConfigured sink)
      else None)"

definition checked_sink :: "Store \<Rightarrow> string \<Rightarrow> alert_error + string" where
  "checked_sink store raw =
     (let sink = TrimSpace raw in
      if sink = [] then Inl AlertSinkEmpty
      else case validateAlertSinkIdentity store sink of Some e \<Rightarrow> Inl e | None \<Rightarrow> Inr sink)"

definition prepareAlertSinks :: "Store \<Rightarrow> string list \<Rightarrow> alert_error + string list" where
  "prepareAlertSinks store sinks =
     (case map_res (checked_sink store) sinks of
        Inl e \<Rightarrow> Inl e
      | Inr checked \<Rightarrow>
          (let prepared = dedup_by (\<lambda>s. s) checked in
           if prepared = [] then Inl AlertSinkMissing else Inr prepared))"

section \<open>Statements\<close>

definition dispatches_of :: "Store \<Rightarrow> int \<Rightarrow> AlertDispatch list" where
  "dispatches_of store eid = filter (\<lambda>d. dEventID d = eid) (alertDispatches store)"

text \<open>\<open>UPDATE alert_dispatches SET f WHERE P\<close>.\<close>

definition update_dispatches ::
  "(AlertDispatch \<Rightarrow> bool) \<Rightarrow> (AlertDispatch \<Rightarrow> AlertDispatch) \<Rightarrow> Store \<Rightarrow> Store" where
  "update_dispatches P f store =
     store\<lparr>alertDispatches := map (\<lambda>d. if P d then f d else d) (alertDispatches store)\<rparr>"

text \<open>\<open>UPDATE alert_events SET status=? WHERE id=?\<close>.\<close>

definition set_event_status :: "int \<Rightarrow> string \<Rightarrow> Store \<Rightarrow> Store" where
  "set_event_status eid s store =
     store\<lparr>alertEvents := map (\<lambda>e. if evID e = eid then e\<lparr>evStatus := s\<rparr> else e) (alertEvents store)\<rparr>"

text \<open>
  The insertion of an event with \<open>ON CONFLICT DO NOTHING\<close>: the partial unique index
  \<open>idx_alert_events_pending_dedupe_hash\<close> refuses a second pending row with the same non-empty hash.
\<close>

definition pending_conflict :: "Store \<Rightarrow> string \<Rightarrow> bool" where
  "pending_conflict store hash \<longleftrightarrow> hash \<noteq> [] \<and>
     (\<exists>e \<in> set (alertEvents store). evStatus e = AlertEventStatusPending \<and> evDedupeHash e = hash)"

definition insert_event :: "AlertEvent \<Rightarrow> Store \<Rightarrow> Store" where
  "insert_event event store = store\<lparr>
     eventSeq := eventSeq store + 1,
     alertEvents := alertEvents store @
       [event\<lparr>evID := eventSeq store + 1, evCooldownKey := [], evStatus := AlertEventStatusPending\<rparr>]\<rparr>"

text \<open>The insertion of one dispatch with \<open>ON CONFLICT(event_id, sink) DO NOTHING\<close>.\<close>

definition new_dispatch :: "int \<Rightarrow> int \<Rightarrow> string \<Rightarrow> gotime \<Rightarrow> AlertDispatch" where
  "new_dispatch i eid sink t =
     \<lparr>dID = i, dEventID = eid, dSink = sink, dStatus = AlertDispatchStatusPending, dWorkerID = [],
      dClaimID = [], dAttempts = 0, dLastError = [], dDeliveredAt = None, dLeaseExpiresAt = None,
      dNextAttemptAtNS = 0, dUpdatedAt = t\<rparr>"

definition insert_dispatch :: "int \<Rightarrow> gotime \<Rightarrow> string \<Rightarrow> Store \<Rightarrow> Store" where
  "insert_dispatch eid t sink store =
     (if \<exists>d \<in> set (alertDispatches store). dEventID d = eid \<and> dSink d = sink then store
      else store\<lparr>dispatchSeq := dispatchSeq store + 1,
                 alertDispatches := alertDispatches store @ [new_dispatch (dispatchSeq store + 1) eid sink t]\<rparr>)"

definition ensurePendingAlertDispatches :: "int \<Rightarrow> string list \<Rightarrow> gotime \<Rightarrow> Store \<Rightarrow> Store" where
  "ensurePendingAlertDispatches eid sinks updatedAt store =
     fold (insert_dispatch eid updatedAt) sinks store"

section \<open>Queries\<close>

definition latest_first :: "AlertEvent list \<Rightarrow> AlertEvent list" where
  "latest_first es = sort_key (\<lambda>e. (- evCreatedAt e, - evID e)) es"

definition pendingAlertEventForDedupeHash :: "Store \<Rightarrow> string \<Rightarrow> AlertEvent option" where
  "pendingAlertEventForDedupeHash store hash =
     (case latest_first (filter (\<lambda>e. evDedupeHash e = hash \<and> evStatus e = AlertEventStatusPending \<and>
              (\<exists>d \<in> set (dispatches_of store (evID e)). open_dispatch d)) (alertEvents store)) of
        [] \<Rightarrow> None | e # _ \<Rightarrow> Some (scanAlertEvent store e))"

text \<open>\<open>MAX(COALESCE(d.delivered_at_ns, d.updated_at_ns, 0))\<close> over the dispatches of a group.\<close>

definition dispatch_closed_at :: "AlertDispatch \<Rightarrow> gotime" where
  "dispatch_closed_at d = (case dDeliveredAt d of Some t \<Rightarrow> t | None \<Rightarrow> dUpdatedAt d)"

definition closed_at :: "Store \<Rightarrow> AlertEvent \<Rightarrow> gotime" where
  "closed_at store e =
     (case map dispatch_closed_at (dispatches_of store (evID e)) of [] \<Rightarrow> 0 | t # ts \<Rightarrow> fold max ts t)"

text \<open>The latest closed event that satisfies a condition: the two cooldown queries.\<close>

definition latest_closed :: "Store \<Rightarrow> (AlertEvent \<Rightarrow> bool) \<Rightarrow> (AlertEvent \<times> gotime) option" where
  "latest_closed store P =
     (case sort_key (\<lambda>e. (- closed_at store e, - evID e))
        (filter (\<lambda>e. P e \<and> evStatus e \<in> {AlertEventStatusDelivered, AlertEventStatusPartial} \<and>
            dispatches_of store (evID e) \<noteq> [] \<and>
            \<not> (\<exists>d \<in> set (dispatches_of store (evID e)). open_dispatch d) \<and> 0 < closed_at store e)
          (alertEvents store)) of
        [] \<Rightarrow> None | e # _ \<Rightarrow> Some (scanAlertEvent store e, closed_at store e))"

definition latestCooldownAlertEventForDedupeHash :: "Store \<Rightarrow> string \<Rightarrow> (AlertEvent \<times> gotime) option" where
  "latestCooldownAlertEventForDedupeHash store hash = latest_closed store (\<lambda>e. evDedupeHash e = hash)"

text \<open>\<open>time.Time.Sub\<close> saturates.\<close>

definition time_sub :: "gotime \<Rightarrow> gotime \<Rightarrow> duration" where
  "time_sub a b = max (- (2 ^ 63)) (min max_int64 (a - b))"

definition cooldownSuppressedAlertEvent :: "Store \<Rightarrow> string \<Rightarrow> gotime \<Rightarrow> duration \<Rightarrow> AlertEvent option" where
  "cooldownSuppressedAlertEvent store hash occurrenceAt cooldown =
     (if cooldown \<le> 0 then None
      else (case latestCooldownAlertEventForDedupeHash store hash of
        None \<Rightarrow> None
      | Some (event, closedAt) \<Rightarrow> if time_sub occurrenceAt closedAt < cooldown then Some event else None))"

definition cooldownSuppressedAlertEventForEvent ::
  "Store \<Rightarrow> string \<Rightarrow> AlertEvent \<Rightarrow> gotime \<Rightarrow> duration \<Rightarrow> AlertEvent option" where
  "cooldownSuppressedAlertEventForEvent store hash event occurrenceAt cooldown =
     (if TrimSpace (evCooldownKey event) = [] then cooldownSuppressedAlertEvent store hash occurrenceAt cooldown
      else if cooldown \<le> 0 then None
      else (case latest_closed store (\<lambda>e. evKind e = evKind event \<and> evServiceID e = evServiceID event \<and>
                 evTarget e = evTarget event \<and> evRepository e = evRepository event \<and>
                 evAgent e = evAgent event \<and> evOldState e = evOldState event \<and> evNewState e = evNewState event) of
        None \<Rightarrow> None
      | Some (latest, closedAt) \<Rightarrow> if occurrenceAt < closedAt + cooldown then Some latest else None))"

section \<open>The status of an event\<close>

definition count_status :: "AlertDispatch list \<Rightarrow> (AlertDispatch \<Rightarrow> bool) \<Rightarrow> nat" where
  "count_status ds P = length (filter P ds)"

definition derived_status :: "AlertDispatch list \<Rightarrow> string" where
  "derived_status ds =
     (let pending = count_status ds open_dispatch;
          delivered = count_status ds (\<lambda>d. dStatus d = AlertDispatchStatusDelivered);
          skipped = count_status ds (\<lambda>d. dStatus d = AlertDispatchStatusSkipped);
          deadLettered = count_status ds (\<lambda>d. dStatus d = AlertDispatchStatusDeadLettered);
          reset = count_status ds (\<lambda>d. dStatus d = AlertDispatchStatusReset);
          closed = delivered + skipped
      in if pending = 0 then
           (if 0 < closed \<and> deadLettered = 0 then AlertEventStatusDelivered
            else if 0 < closed \<and> 0 < deadLettered then AlertEventStatusPartial
            else if closed = 0 \<and> 0 < deadLettered then AlertEventStatusFailed
            else if closed = 0 \<and> deadLettered = 0 \<and> 0 < reset then AlertEventStatusReset
            else AlertEventStatusFailed)
         else AlertEventStatusPending)"

definition syncAlertEventStatus :: "int \<Rightarrow> Store \<Rightarrow> Store" where
  "syncAlertEventStatus eid store = set_event_status eid (derived_status (dispatches_of store eid)) store"

text \<open>The order of every listing of deliveries: \<open>e.created_at_ns, e.id, d.sink\<close>.\<close>

definition joined :: "Store \<Rightarrow> (AlertEvent \<times> AlertDispatch) list" where
  "joined store =
     concat (map (\<lambda>e. map (\<lambda>d. (e, d)) (dispatches_of store (evID e))) (alertEvents store))"

definition delivery_order :: "(AlertEvent \<times> AlertDispatch) list \<Rightarrow> (AlertEvent \<times> AlertDispatch) list" where
  "delivery_order rows = sort_key (\<lambda>(e, d). (evCreatedAt e, evID e, dSink d)) rows"

end
