(* ===== verification/AlertOps.thy ===== *)
theory AlertOps
  imports AlertStore
begin

text \<open>
  The operations of \<open>internal/storage/alerts.go\<close> on the alert tables: enqueueing an event with
  deduplication and cooldown, claiming due dispatches under a lease, recording the result of an
  attempt, the listings, and the retention sweep. Each \<open>...Once\<close> is one transaction; the exported
  operations add the check of the alert-state lock and the retry loop of theory AlertRetry.
\<close>

section \<open>Transactions\<close>

text \<open>
  Rolling back restores the tables, but not what the process keeps in memory (the lock message and
  the warnings).
\<close>

definition rollback :: "Store \<Rightarrow> Store \<Rightarrow> Store" where
  "rollback before after = after\<lparr>
     alertEvents := alertEvents before, alertDispatches := alertDispatches before,
     eventSeq := eventSeq before, dispatchSeq := dispatchSeq before\<rparr>"

definition commit_or_rollback :: "Store \<Rightarrow> Store \<times> (alert_error + 'a) \<Rightarrow> Store \<times> (alert_error + 'a)" where
  "commit_or_rollback before r =
     (case snd r of Inl e \<Rightarrow> (rollback before (fst r), Inl e) | Inr x \<Rightarrow> r)"

text \<open>
  What the environment decides of an operation: for each attempt whether SQLite reports an error and
  which, the clock, the time spent, and the end of the context.
\<close>

datatype tx_error = TxAlert alert_error | TxSQL string | TxContext string

record tx_env =
  txSQLError :: "nat \<Rightarrow> string option"
  txNow :: "nat \<Rightarrow> gotime"
  txElapsed :: "nat \<Rightarrow> duration"
  txCtxErr :: "nat \<Rightarrow> string option"

definition tx_busy :: "tx_error \<Rightarrow> bool" where
  "tx_busy e = (case e of TxSQL m \<Rightarrow> isSQLiteBusy m | _ \<Rightarrow> False)"

definition tx_attempt ::
  "tx_env \<Rightarrow> (gotime \<Rightarrow> Store \<Rightarrow> Store \<times> (alert_error + 'a)) \<Rightarrow> nat \<Rightarrow> Store \<Rightarrow> Store \<times> (tx_error + 'a)" where
  "tx_attempt env once i store =
     (case txSQLError env i of
        Some m \<Rightarrow> (store, Inl (TxSQL m))
      | None \<Rightarrow> (case once (txNow env i) store of
           (s, Inl e) \<Rightarrow> (s, Inl (TxAlert e)) | (s, Inr x) \<Rightarrow> (s, Inr x)))"

definition alert_tx ::
  "tx_env \<Rightarrow> (gotime \<Rightarrow> Store \<Rightarrow> Store \<times> (alert_error + 'a)) \<Rightarrow> Store \<Rightarrow> (Store \<times> (tx_error + 'a)) option" where
  "alert_tx env once store =
     (case ensureAlertStateUnlocked store of
        Some e \<Rightarrow> Some (store, Inl (TxAlert e))
      | None \<Rightarrow> retryAlertSQLiteBusy (tx_attempt env once) tx_busy (txElapsed env)
                 (\<lambda>i. map_option TxContext (txCtxErr env i)) store)"

section \<open>Enqueue\<close>

text \<open>The validation at the head of \<open>enqueueAlertEventInTx\<close>: the prepared event and sinks.\<close>

definition prepare_enqueue ::
  "gotime \<Rightarrow> Store \<Rightarrow> AlertEvent \<Rightarrow> string list \<Rightarrow> alert_error + (AlertEvent \<times> string list)" where
  "prepare_enqueue now store event sinks =
     (let rawDedupeKey = TrimSpace (evDedupeKey event);
          ev1 = prepareAlertEvent store event in
      if evKind ev1 = [] then Inl AlertKindRequired
      else if evServiceID ev1 = [] \<and> evRepository ev1 = [] \<and> evAgent ev1 = [] then Inl AlertOwnerRequired
      else if evNewState ev1 = [] then Inl AlertNewStateRequired
      else if rawDedupeKey = [] then Inl AlertDedupeKeyRequired
      else
       (let ev2 = ev1\<lparr>evDedupeKey := TrimSpace (redact store rawDedupeKey),
                      evDedupeHash := alertDedupeHash store rawDedupeKey\<rparr>;
            ev3 = (if evStatus ev2 = [] then ev2\<lparr>evStatus := AlertEventStatusPending\<rparr> else ev2) in
        if evStatus ev3 \<noteq> AlertEventStatusPending then Inl AlertStatusNotPending
        else
         (let ev4 = (if evCreatedAt ev3 = zero_time then ev3\<lparr>evCreatedAt := now\<rparr> else ev3) in
          case prepareAlertSinks store sinks of
            Inl e \<Rightarrow> Inl e
          | Inr prepared \<Rightarrow> Inr (ev4, prepared))))"

definition enqueue_prepared ::
  "Store \<Rightarrow> AlertEvent \<Rightarrow> string list \<Rightarrow> duration \<Rightarrow> Store \<times> (alert_error + (AlertEvent \<times> bool))" where
  "enqueue_prepared store event sinks cooldown =
     (case pendingAlertEventForDedupeHash store (evDedupeHash event) of
        Some existing \<Rightarrow>
          (ensurePendingAlertDispatches (evID existing) sinks (evCreatedAt event) store, Inr (existing, False))
      | None \<Rightarrow>
         (let cooldownHash = (if TrimSpace (evCooldownKey event) \<noteq> []
                              then alertDedupeHash store (evCooldownKey event) else evDedupeHash event) in
          case cooldownSuppressedAlertEventForEvent store cooldownHash event (evCreatedAt event) cooldown of
            Some existing \<Rightarrow> (store, Inr (existing, False))
          | None \<Rightarrow>
              if pending_conflict store (evDedupeHash event) then
                (case pendingAlertEventForDedupeHash store (evDedupeHash event) of
                   None \<Rightarrow> (store, Inl (AlertConflictWithoutPending (evDedupeHash event)))
                 | Some existing \<Rightarrow>
                     (ensurePendingAlertDispatches (evID existing) sinks (evCreatedAt event) store,
                      Inr (existing, False)))
              else
                (let s2 = insert_event event store;
                     stored = event\<lparr>evID := eventSeq s2, evStatus := AlertEventStatusPending\<rparr>
                 in (ensurePendingAlertDispatches (evID stored) sinks (evCreatedAt event) s2,
                     Inr (stored, True)))))"

definition enqueueAlertEventInTx ::
  "gotime \<Rightarrow> AlertEvent \<Rightarrow> string list \<Rightarrow> duration \<Rightarrow> Store \<Rightarrow> Store \<times> (alert_error + (AlertEvent \<times> bool))" where
  "enqueueAlertEventInTx now event sinks cooldown store =
     (case prepare_enqueue now store event sinks of
        Inl e \<Rightarrow> (store, Inl e)
      | Inr (prepared, sinks') \<Rightarrow>
          (case ensureAlertDedupeKeyCurrent store of
             (s1, Some e) \<Rightarrow> (s1, Inl e)
           | (s1, None) \<Rightarrow> enqueue_prepared s1 prepared sinks' cooldown))"

definition enqueueAlertEventOnce ::
  "AlertEvent \<Rightarrow> string list \<Rightarrow> duration \<Rightarrow> gotime \<Rightarrow> Store \<Rightarrow> Store \<times> (alert_error + (AlertEvent \<times> bool))" where
  "enqueueAlertEventOnce event sinks cooldown now store =
     commit_or_rollback store (enqueueAlertEventInTx now event sinks cooldown store)"

definition EnqueueAlertEvent ::
  "tx_env \<Rightarrow> AlertEvent \<Rightarrow> string list \<Rightarrow> duration \<Rightarrow> Store \<Rightarrow> (Store \<times> (tx_error + (AlertEvent \<times> bool))) option" where
  "EnqueueAlertEvent env event sinks cooldown store = alert_tx env (enqueueAlertEventOnce event sinks cooldown) store"

section \<open>Listings\<close>

definition ListUndeliveredAlertDeliveries :: "Store \<Rightarrow> int \<Rightarrow> AlertDelivery list" where
  "ListUndeliveredAlertDeliveries store limit =
     (let rows = delivery_order (filter (\<lambda>(e, d). open_dispatch d) (joined store)) in
      map (scanAlertDelivery store) (if 0 < limit then take (nat limit) rows else rows))"

definition ListUndeliveredAlertEvents :: "Store \<Rightarrow> int \<Rightarrow> AlertEvent list" where
  "ListUndeliveredAlertEvents store limit =
     dedup_by evID (map delEvent (ListUndeliveredAlertDeliveries store limit))"

definition alertDispatchByID :: "Store \<Rightarrow> int \<Rightarrow> AlertDispatch option" where
  "alertDispatchByID store i =
     map_option (scanAlertDispatch store) (find (\<lambda>d. dID d = i) (alertDispatches store))"

section \<open>Claim\<close>

definition lease_ns :: "AlertDispatch \<Rightarrow> gotime" where
  "lease_ns d = (case dLeaseExpiresAt d of Some t \<Rightarrow> t | None \<Rightarrow> 0)"

text \<open>In flight, the lease has run out, and this attempt was the last one allowed.\<close>

definition exhausted :: "gotime \<Rightarrow> int \<Rightarrow> AlertDispatch \<Rightarrow> bool" where
  "exhausted now maxAttempts d \<longleftrightarrow>
     dStatus d = AlertDispatchStatusInFlight \<and> lease_ns d \<le> now \<and> maxAttempts \<le> dAttempts d + 1"

definition dead_letter :: "gotime \<Rightarrow> AlertDispatch \<Rightarrow> AlertDispatch" where
  "dead_letter now d = d\<lparr>
     dAttempts := dAttempts d + 1, dStatus := AlertDispatchStatusDeadLettered, dWorkerID := [],
     dClaimID := [], dLeaseExpiresAt := None, dNextAttemptAtNS := 0,
     dLastError := alertDispatchLeaseExpiredError, dUpdatedAt := now\<rparr>"

definition deadLetterExpiredAlertDispatches :: "gotime \<Rightarrow> int \<Rightarrow> Store \<Rightarrow> Store \<times> int list" where
  "deadLetterExpiredAlertDispatches now maxAttempts store =
     (let eventIDs = dedup_by (\<lambda>i. i) (map dEventID (filter (exhausted now maxAttempts) (alertDispatches store))) in
      if eventIDs = [] then (store, [])
      else (update_dispatches (exhausted now maxAttempts) (dead_letter now) store, eventIDs))"

definition claimable :: "gotime \<Rightarrow> int \<Rightarrow> AlertDispatch \<Rightarrow> bool" where
  "claimable now maxAttempts d \<longleftrightarrow>
     (dStatus d = AlertDispatchStatusPending \<and> dNextAttemptAtNS d \<le> now) \<or>
     (dStatus d = AlertDispatchStatusInFlight \<and> lease_ns d \<le> now \<and> dAttempts d + 1 < maxAttempts)"

definition claim_ids :: "gotime \<Rightarrow> int \<Rightarrow> int \<Rightarrow> Store \<Rightarrow> int list" where
  "claim_ids now maxAttempts limit store =
     map (\<lambda>(e, d). dID d)
       (take (nat limit) (delivery_order (filter (\<lambda>(e, d). claimable now maxAttempts d) (joined store))))"

definition take_claim :: "gotime \<Rightarrow> string \<Rightarrow> string \<Rightarrow> gotime \<Rightarrow> AlertDispatch \<Rightarrow> AlertDispatch" where
  "take_claim now workerID claimID leaseExpiresAt d = d\<lparr>
     dStatus := AlertDispatchStatusInFlight, dWorkerID := workerID, dClaimID := claimID,
     dLeaseExpiresAt := Some leaseExpiresAt, dNextAttemptAtNS := 0,
     dAttempts := dAttempts d + (if dStatus d = AlertDispatchStatusInFlight then 1 else 0),
     dLastError := (if dStatus d = AlertDispatchStatusInFlight then alertDispatchLeaseExpiredError else dLastError d),
     dUpdatedAt := now\<rparr>"

definition claimed_rows :: "string \<Rightarrow> string \<Rightarrow> Store \<Rightarrow> (AlertEvent \<times> AlertDispatch) list" where
  "claimed_rows workerID claimID store =
     delivery_order (filter (\<lambda>(e, d). dStatus d = AlertDispatchStatusInFlight \<and> dWorkerID d = workerID \<and>
       dClaimID d = claimID) (joined store))"

text \<open>\<open>claimID\<close> is the result of \<open>randomAlertToken\<close>.\<close>

definition claim_tx :: "gotime \<Rightarrow> string \<Rightarrow> string \<Rightarrow> duration \<Rightarrow> int \<Rightarrow> AlertRetryPolicy \<Rightarrow> Store \<Rightarrow> Store" where
  "claim_tx now workerID claimID leaseDuration limit policy store =
     (let (s1, deadLetteredEventIDs) = deadLetterExpiredAlertDispatches now (MaxAttempts policy) store;
          s2 = fold syncAlertEventStatus deadLetteredEventIDs s1;
          ids = claim_ids now (MaxAttempts policy) limit s2
      in update_dispatches (\<lambda>d. dID d \<in> set ids) (take_claim now workerID claimID (now + leaseDuration)) s2)"

definition claimPendingAlertDeliveriesOnce ::
  "string \<Rightarrow> string \<Rightarrow> duration \<Rightarrow> int \<Rightarrow> AlertRetryPolicy \<Rightarrow> gotime \<Rightarrow> Store \<Rightarrow> Store \<times> (alert_error + AlertDelivery list)" where
  "claimPendingAlertDeliveriesOnce rawWorkerID claimID leaseDuration limit policy now store =
     (let workerID = TrimSpace (redact store rawWorkerID) in
      if workerID = [] then (store, Inl AlertClaimWorkerRequired)
      else if leaseDuration \<le> 0 then (store, Inl AlertClaimLeaseInvalid)
      else if limit \<le> 0 then (store, Inl AlertClaimLimitInvalid)
      else commit_or_rollback store
       (case ensureAlertDedupeKeyCurrent store of
          (s1, Some e) \<Rightarrow> (s1, Inl e)
        | (s1, None) \<Rightarrow>
           (let s2 = claim_tx now workerID claimID leaseDuration limit policy s1
            in (s2, Inr (map (scanAlertDelivery s2) (claimed_rows workerID claimID s2))))))"

definition ClaimPendingAlertDeliveriesWithRetryPolicy ::
  "tx_env \<Rightarrow> string \<Rightarrow> string \<Rightarrow> duration \<Rightarrow> int \<Rightarrow> AlertRetryPolicy \<Rightarrow> Store \<Rightarrow>
   (Store \<times> (tx_error + AlertDelivery list)) option" where
  "ClaimPendingAlertDeliveriesWithRetryPolicy env workerID claimID leaseDuration limit policy store =
     alert_tx env (claimPendingAlertDeliveriesOnce workerID claimID leaseDuration limit (normalized policy)) store"

section \<open>Record the result of an attempt\<close>

definition result_error :: "string \<Rightarrow> string \<Rightarrow> string" where
  "result_error status lastError =
     (if status = AlertDispatchStatusDelivered \<or> status = AlertDispatchStatusSkipped then []
      else if status = AlertDispatchStatusPending \<and> lastError = [] then alertDispatchRetryNoDiagnostic
      else if status = AlertDispatchStatusDeadLettered \<and> lastError = [] then alertDispatchDeadNoDiagnostic
      else lastError)"

definition result_status :: "AlertRetryPolicy \<Rightarrow> int \<Rightarrow> string \<Rightarrow> string" where
  "result_status policy nextAttempts status =
     (if status = AlertDispatchStatusPending \<and> MaxAttempts policy \<le> nextAttempts
      then AlertDispatchStatusDeadLettered else status)"

definition complete_dispatch ::
  "gotime \<Rightarrow> string \<Rightarrow> string \<Rightarrow> string \<Rightarrow> string \<Rightarrow> int \<Rightarrow> AlertDispatch \<Rightarrow> AlertDispatch" where
  "complete_dispatch now status workerID claimID lastError nextAttemptAtNS d = d\<lparr>
     dAttempts := dAttempts d + 1, dStatus := status, dWorkerID := workerID, dClaimID := claimID,
     dLeaseExpiresAt := None, dNextAttemptAtNS := nextAttemptAtNS, dLastError := lastError,
     dDeliveredAt := (if status = AlertDispatchStatusDelivered then Some now else None),
     dUpdatedAt := now\<rparr>"

definition held_by :: "int \<Rightarrow> string \<Rightarrow> string \<Rightarrow> AlertDispatch \<Rightarrow> bool" where
  "held_by i workerID claimID d \<longleftrightarrow>
     dID d = i \<and> dStatus d = AlertDispatchStatusInFlight \<and> dWorkerID d = workerID \<and> dClaimID d = claimID"

text \<open>\<open>noteExpiredAlertDispatchCompletion\<close>: whether a row was updated, and the tables after it.\<close>

definition noteExpiredAlertDispatchCompletion ::
  "int \<Rightarrow> string \<Rightarrow> string \<Rightarrow> gotime \<Rightarrow> Store \<Rightarrow> Store \<times> bool" where
  "noteExpiredAlertDispatchCompletion i workerID claimID now store =
     (let P = (\<lambda>d. held_by i workerID claimID d \<and> lease_ns d \<le> now)
      in (update_dispatches P (\<lambda>d. d\<lparr>dLastError := alertDispatchLeaseExpiredError, dUpdatedAt := now\<rparr>) store,
          length (filter P (alertDispatches store)) = 1))"

text \<open>The last part: the guarded UPDATE and what follows it.\<close>

definition record_update ::
  "AlertDispatch \<Rightarrow> string \<Rightarrow> string \<Rightarrow> string \<Rightarrow> string \<Rightarrow> AlertRetryPolicy \<Rightarrow> gotime \<Rightarrow> Store \<Rightarrow>
   Store \<times> (alert_error + AlertDispatch)" where
  "record_update dispatch workerID claimID status lastError policy now store =
     (let nextAttempts = dAttempts dispatch + 1;
          resultStatus = result_status policy nextAttempts status;
          lastError' = (if status = AlertDispatchStatusPending \<and> MaxAttempts policy \<le> nextAttempts \<and> lastError = []
                        then ''maximum alert dispatch attempts reached'' else lastError);
          nextAttemptAtNS = (if resultStatus = AlertDispatchStatusPending
                             then now + backoff policy nextAttempts else 0);
          P = (\<lambda>d. held_by (dID dispatch) workerID claimID d \<and> now < lease_ns d);
          s1 = update_dispatches P
                 (complete_dispatch now resultStatus workerID claimID lastError' nextAttemptAtNS) store
      in if length (filter P (alertDispatches store)) \<noteq> 1 then
           (case noteExpiredAlertDispatchCompletion (dID dispatch) workerID claimID now s1 of
              (s2, True) \<Rightarrow> (s2, Inl ErrAlertDispatchLeaseExpired)
            | (_, False) \<Rightarrow> (store, Inl ErrAlertDispatchClaimNotHeld))
         else
           (let s2 = syncAlertEventStatus (dEventID dispatch) s1 in
            case find (\<lambda>d. dID d = dID dispatch) (alertDispatches s2) of
              None \<Rightarrow> (store, Inl ErrAlertDispatchNotFound)
            | Some row \<Rightarrow> (s2, Inr (scanAlertDispatch s2 row))))"

definition recordAlertDispatchResultOnce ::
  "int \<Rightarrow> string \<Rightarrow> string \<Rightarrow> string \<Rightarrow> string \<Rightarrow> AlertRetryPolicy \<Rightarrow> gotime \<Rightarrow> Store \<Rightarrow>
   Store \<times> (alert_error + AlertDispatch)" where
  "recordAlertDispatchResultOnce dispatchID rawWorkerID rawClaimID rawStatus rawLastError policy now store =
     (let workerID = TrimSpace (redact store rawWorkerID);
          claimID = TrimSpace rawClaimID;
          status = TrimSpace rawStatus;
          lastError = result_error status (TrimSpace (redact store rawLastError)) in
      if dispatchID \<le> 0 then (store, Inl AlertDispatchIDRequired)
      else if workerID = [] then (store, Inl AlertDispatchWorkerRequired)
      else if claimID = [] then (store, Inl AlertDispatchClaimRequired)
      else if \<not> validAlertDispatchResultStatus status then (store, Inl AlertDispatchStatusInvalid)
      else
       (case ensureAlertDedupeKeyCurrent store of
          (s1, Some e) \<Rightarrow> (s1, Inl e)
        | (s1, None) \<Rightarrow>
           (case find (\<lambda>(e, d). dID d = dispatchID) (joined s1) of
              None \<Rightarrow> (s1, Inl ErrAlertDispatchNotFound)
            | Some (e, row) \<Rightarrow>
               (let dispatch = prepareScannedAlertDispatch s1 row in
                if terminalAlertDispatchStatus (dStatus dispatch) then
                  (if dWorkerID dispatch \<noteq> workerID \<or> dClaimID dispatch \<noteq> claimID
                   then (s1, Inl ErrAlertDispatchClaimNotHeld)
                   else if result_status policy (dAttempts dispatch) status \<noteq> dStatus dispatch
                   then (s1, Inl (ErrAlertDispatchTerminalConflict dispatchID (dStatus dispatch) status))
                   else (s1, Inr dispatch))
                else if dStatus dispatch = AlertDispatchStatusPending \<and> dWorkerID dispatch = workerID \<and>
                        dClaimID dispatch = claimID \<and> status = AlertDispatchStatusPending
                then (s1, Inr dispatch)
                else if dStatus dispatch \<noteq> AlertDispatchStatusInFlight \<or> dWorkerID dispatch \<noteq> workerID \<or>
                        dClaimID dispatch \<noteq> claimID
                then (s1, Inl ErrAlertDispatchClaimNotHeld)
                else record_update dispatch workerID claimID status lastError policy now s1))))"

definition RecordAlertDispatchResultWithRetryPolicy ::
  "tx_env \<Rightarrow> int \<Rightarrow> string \<Rightarrow> string \<Rightarrow> string \<Rightarrow> string \<Rightarrow> AlertRetryPolicy \<Rightarrow> Store \<Rightarrow>
   (Store \<times> (tx_error + AlertDispatch)) option" where
  "RecordAlertDispatchResultWithRetryPolicy env dispatchID workerID claimID status lastError policy store =
     alert_tx env (recordAlertDispatchResultOnce dispatchID workerID claimID status lastError (normalized policy)) store"

section \<open>Retention\<close>

definition DefaultAlertRetentionBatchSize :: int where
  "DefaultAlertRetentionBatchSize = 500"

definition prunable :: "gotime \<Rightarrow> AlertEvent \<Rightarrow> bool" where
  "prunable cutoff e \<longleftrightarrow>
     evStatus e \<in> {AlertEventStatusDelivered, AlertEventStatusFailed, AlertEventStatusPartial, AlertEventStatusReset} \<and>
     evCreatedAt e < cutoff"

text \<open>One DELETE, with the cascade to the dispatches.\<close>

definition delete_events :: "int list \<Rightarrow> Store \<Rightarrow> Store" where
  "delete_events ids store = store\<lparr>
     alertEvents := filter (\<lambda>e. evID e \<notin> set ids) (alertEvents store),
     alertDispatches := filter (\<lambda>d. dEventID d \<notin> set ids) (alertDispatches store)\<rparr>"

definition prune_ids :: "gotime \<Rightarrow> nat \<Rightarrow> Store \<Rightarrow> int list" where
  "prune_ids cutoff batch store = take batch (sort (map evID (filter (prunable cutoff) (alertEvents store))))"

text \<open>
  The loop: \<open>done i\<close> says whether the context has ended after batch \<open>i\<close>. The number of rows
  affected is the number of events deleted.
\<close>

function prune_loop :: "(nat \<Rightarrow> bool) \<Rightarrow> gotime \<Rightarrow> nat \<Rightarrow> nat \<Rightarrow> nat \<Rightarrow> Store \<Rightarrow> Store \<times> nat \<times> bool" where
  "prune_loop stop cutoff batch i tot store =
     (let ids = prune_ids cutoff batch store;
          s1 = delete_events ids store;
          affected = length (alertEvents store) - length (alertEvents s1)
      in if batch = 0 \<or> affected < batch then (s1, tot + affected, False)
         else if stop i then (s1, tot + affected, True)
         else prune_loop stop cutoff batch (Suc i) (tot + affected) s1)"
  by pat_completeness auto
termination
proof (relation "measure (\<lambda>(stop, cutoff, batch, i, tot, store). length (alertEvents store))")
  fix stop :: "nat \<Rightarrow> bool" and cutoff batch i tot store ids s1 affected
  assume ids: "ids = prune_ids cutoff batch store" and s1: "s1 = delete_events ids store"
    and aff: "affected = length (alertEvents store) - length (alertEvents s1)"
    and "\<not> (batch = 0 \<or> affected < batch)"
  then have "length (alertEvents s1) < length (alertEvents store)" by linarith
  then show "((stop, cutoff, batch, Suc i, tot + affected, s1), (stop, cutoff, batch, i, tot, store))
      \<in> measure (\<lambda>(stop, cutoff, batch, i, tot, store). length (alertEvents store))" by simp
qed auto

declare prune_loop.simps [simp del]

definition PruneTerminalAlertEvents ::
  "(nat \<Rightarrow> bool) \<Rightarrow> duration \<Rightarrow> int \<Rightarrow> gotime \<Rightarrow> Store \<Rightarrow> Store \<times> nat \<times> bool" where
  "PruneTerminalAlertEvents stop horizon batchSize now store =
     (if horizon \<le> 0 then (store, 0, False)
      else
       (let batch = (if batchSize \<le> 0 then DefaultAlertRetentionBatchSize else batchSize)
        in prune_loop stop (now - horizon) (nat batch) 0 0 store))"

end
