(* ===== verification/AlertInv.thy ===== *)
theory AlertInv
  imports AlertOps
begin

text \<open>
  The invariant of the alert tables: the constraints of the schema (keys, foreign key, one pending
  event for a dedupe hash) together with what the code keeps true between the two tables (the status
  of an event is the one derived from its dispatches; a lease is held exactly by a dispatch in
  flight). Each statement keeps it or says what it breaks until the next one; each operation keeps it.
\<close>

section \<open>The invariant\<close>

definition row_keys :: "Store \<Rightarrow> bool" where
  "row_keys s \<longleftrightarrow>
     distinct (map evID (alertEvents s)) \<and>
     (\<forall>e \<in> set (alertEvents s). 0 < evID e \<and> evID e \<le> eventSeq s) \<and>
     distinct (map dID (alertDispatches s)) \<and>
     (\<forall>d \<in> set (alertDispatches s). 0 < dID d \<and> dID d \<le> dispatchSeq s) \<and>
     distinct (map (\<lambda>d. (dEventID d, dSink d)) (alertDispatches s)) \<and>
     (\<forall>d \<in> set (alertDispatches s). dEventID d \<in> evID ` set (alertEvents s)) \<and>
     0 \<le> eventSeq s \<and> 0 \<le> dispatchSeq s"

definition row_ok :: "AlertDispatch \<Rightarrow> bool" where
  "row_ok d \<longleftrightarrow> validAlertDispatchStatus (dStatus d) \<and> 0 \<le> dAttempts d \<and>
     (dLeaseExpiresAt d \<noteq> None \<longleftrightarrow> dStatus d = AlertDispatchStatusInFlight) \<and>
     (dDeliveredAt d \<noteq> None \<longleftrightarrow> dStatus d = AlertDispatchStatusDelivered)"

definition pending_events :: "Store \<Rightarrow> AlertEvent list" where
  "pending_events s =
     filter (\<lambda>e. evStatus e = AlertEventStatusPending \<and> evDedupeHash e \<noteq> []) (alertEvents s)"

definition unique_pending :: "Store \<Rightarrow> bool" where
  "unique_pending s \<longleftrightarrow> distinct (map evDedupeHash (pending_events s))"

definition has_open :: "Store \<Rightarrow> int \<Rightarrow> bool" where
  "has_open s eid \<longleftrightarrow> (\<exists>d \<in> set (dispatches_of s eid). open_dispatch d)"

text \<open>The events outside \<open>A\<close> have the derived status.\<close>

definition synced_except :: "int set \<Rightarrow> Store \<Rightarrow> bool" where
  "synced_except A s \<longleftrightarrow> (\<forall>e \<in> set (alertEvents s).
     dispatches_of s (evID e) \<noteq> [] \<and>
     (has_open s (evID e) \<longrightarrow> evStatus e = AlertEventStatusPending) \<and>
     (evID e \<notin> A \<longrightarrow> evStatus e = derived_status (dispatches_of s (evID e))))"

definition alert_inv :: "Store \<Rightarrow> bool" where
  "alert_inv s \<longleftrightarrow> row_keys s \<and> (\<forall>d \<in> set (alertDispatches s). row_ok d) \<and> unique_pending s \<and> synced_except {} s"

text \<open>What an attempt may still be: the bound the retry policy puts on the attempts.\<close>

definition attempts_within :: "int \<Rightarrow> Store \<Rightarrow> bool" where
  "attempts_within m s \<longleftrightarrow> (\<forall>d \<in> set (alertDispatches s).
     0 \<le> dAttempts d \<and> dAttempts d \<le> m \<and> (open_dispatch d \<longrightarrow> dAttempts d < m))"

section \<open>The derived status\<close>

lemma count_status_0: "count_status ds P = 0 \<longleftrightarrow> (\<forall>d \<in> set ds. \<not> P d)"
  by (auto simp: count_status_def filter_empty_conv)

lemma count_status_pos: "0 < count_status ds P \<longleftrightarrow> (\<exists>d \<in> set ds. P d)"
  by (auto simp: count_status_def filter_empty_conv)

lemma derived_pending: "derived_status ds = AlertEventStatusPending \<longleftrightarrow> (\<exists>d \<in> set ds. open_dispatch d)"
  by (auto simp: derived_status_def Let_def count_status_0)

lemma derived_valid: "validAlertEventStatus (derived_status ds)"
  by (auto simp: derived_status_def Let_def validAlertEventStatus_def)

text \<open>The status depends only on the classes of the dispatches.\<close>

lemma derived_status_map:
  assumes "\<And>d. d \<in> set ds \<Longrightarrow> open_dispatch (f d) \<longleftrightarrow> open_dispatch d"
    and "\<And>d. d \<in> set ds \<Longrightarrow> \<not> open_dispatch d \<Longrightarrow> dStatus (f d) = dStatus d"
  shows "derived_status (map f ds) = derived_status ds"
proof -
  have st: "dStatus (f d) = v \<longleftrightarrow> dStatus d = v"
    if "d \<in> set ds" "v \<noteq> AlertDispatchStatusPending" "v \<noteq> AlertDispatchStatusInFlight" for d v
    using assms(1,2) [OF that(1)] that(2,3) by (auto simp: open_dispatch_def)
  have "count_status (map f ds) (\<lambda>d. dStatus d = v) = count_status ds (\<lambda>d. dStatus d = v)"
    if "v \<noteq> AlertDispatchStatusPending" "v \<noteq> AlertDispatchStatusInFlight" for v
    using st that by (simp add: count_status_def filter_map comp_def cong: filter_cong)
  moreover have "count_status (map f ds) open_dispatch = count_status ds open_dispatch"
    using assms(1) by (simp add: count_status_def filter_map comp_def cong: filter_cong)
  ultimately show ?thesis by (simp add: derived_status_def)
qed

lemma closed_valid_status:
  "row_ok d \<Longrightarrow> \<not> open_dispatch d \<Longrightarrow>
   dStatus d \<in> {AlertDispatchStatusDelivered, AlertDispatchStatusDeadLettered,
                AlertDispatchStatusSkipped, AlertDispatchStatusReset}"
  by (auto simp: row_ok_def open_dispatch_def validAlertDispatchStatus_def terminalAlertDispatchStatus_def)

section \<open>Row updates\<close>

definition key_preserving :: "(AlertDispatch \<Rightarrow> AlertDispatch) \<Rightarrow> bool" where
  "key_preserving f \<longleftrightarrow> (\<forall>d. dID (f d) = dID d \<and> dEventID (f d) = dEventID d \<and> dSink (f d) = dSink d)"

lemma key_preserving_ops [simp]:
  "key_preserving (dead_letter now)"
  "key_preserving (take_claim now w c l)"
  "key_preserving (complete_dispatch now st w c le na)"
  "key_preserving (\<lambda>d. d\<lparr>dLastError := m, dUpdatedAt := now\<rparr>)"
  by (simp_all add: key_preserving_def dead_letter_def take_claim_def complete_dispatch_def)

lemma update_fields [simp, row_frame]:
  "alertEvents (update_dispatches P f s) = alertEvents s"
  "eventSeq (update_dispatches P f s) = eventSeq s"
  "dispatchSeq (update_dispatches P f s) = dispatchSeq s"
  "redactionTokens (update_dispatches P f s) = redactionTokens s"
  "alertDedupeKey (update_dispatches P f s) = alertDedupeKey s"
  "dedupeKeyFile (update_dispatches P f s) = dedupeKeyFile s"
  "fingerprintRow (update_dispatches P f s) = fingerprintRow s"
  by (simp_all add: update_dispatches_def)

lemma set_event_status_fields [simp, row_frame]:
  "alertDispatches (set_event_status eid st s) = alertDispatches s"
  "eventSeq (set_event_status eid st s) = eventSeq s"
  "dispatchSeq (set_event_status eid st s) = dispatchSeq s"
  "redactionTokens (set_event_status eid st s) = redactionTokens s"
  "map evID (alertEvents (set_event_status eid st s)) = map evID (alertEvents s)"
  by (auto simp: set_event_status_def)

lemma set_event_status_ids [simp]:
  "evID ` set (alertEvents (set_event_status eid st s)) = evID ` set (alertEvents s)"
  by (metis list.set_map set_event_status_fields(5))

lemma sync_fields [simp, row_frame]:
  "alertDispatches (syncAlertEventStatus eid s) = alertDispatches s"
  "eventSeq (syncAlertEventStatus eid s) = eventSeq s"
  "dispatchSeq (syncAlertEventStatus eid s) = dispatchSeq s"
  "redactionTokens (syncAlertEventStatus eid s) = redactionTokens s"
  "map evID (alertEvents (syncAlertEventStatus eid s)) = map evID (alertEvents s)"
  by (simp_all add: syncAlertEventStatus_def)

lemma sync_key_fields [simp]:
  "alertDedupeKey (syncAlertEventStatus eid s) = alertDedupeKey s"
  "dedupeKeyFile (syncAlertEventStatus eid s) = dedupeKeyFile s"
  "fingerprintRow (syncAlertEventStatus eid s) = fingerprintRow s"
  by (simp_all add: syncAlertEventStatus_def set_event_status_def)

lemma dispatches_of_cong: "alertDispatches t = alertDispatches s \<Longrightarrow> dispatches_of t eid = dispatches_of s eid"
  by (simp add: dispatches_of_def)

lemma dispatches_of_sync [simp]: "dispatches_of (syncAlertEventStatus i s) eid = dispatches_of s eid"
  by (rule dispatches_of_cong) simp

lemma has_open_sync [simp]: "has_open (syncAlertEventStatus i s) eid = has_open s eid"
  by (simp add: has_open_def)

lemma map_update_keys:
  assumes "key_preserving f"
  shows "map dID (map (\<lambda>d. if P d then f d else d) ds) = map dID ds"
    and "map (\<lambda>d. (dEventID d, dSink d)) (map (\<lambda>d. if P d then f d else d) ds) = map (\<lambda>d. (dEventID d, dSink d)) ds"
  using assms by (simp_all add: key_preserving_def)

lemma dispatches_of_update:
  assumes "key_preserving f"
  shows "dispatches_of (update_dispatches P f s) eid = map (\<lambda>d. if P d then f d else d) (dispatches_of s eid)"
proof -
  have "dEventID (if P d then f d else d) = dEventID d" for d using assms by (simp add: key_preserving_def)
  then show ?thesis by (simp add: dispatches_of_def update_dispatches_def filter_map comp_def)
qed

lemma update_rows: "alertDispatches (update_dispatches P f s) = map (\<lambda>d. if P d then f d else d) (alertDispatches s)"
  by (simp add: update_dispatches_def)

lemma set_update: "set (alertDispatches (update_dispatches P f s)) = (\<lambda>d. if P d then f d else d) ` set (alertDispatches s)"
  by (simp add: update_dispatches_def)

lemma row_keys_update:
  assumes "key_preserving f"
  shows "row_keys (update_dispatches P f s) \<longleftrightarrow> row_keys s"
proof -
  have same: "dID (if P d then f d else d) = dID d" "dEventID (if P d then f d else d) = dEventID d"
    "dSink (if P d then f d else d) = dSink d" for d
    using assms by (simp_all add: key_preserving_def)
  have "(\<forall>d \<in> set (alertDispatches (update_dispatches P f s)). 0 < dID d \<and> dID d \<le> dispatchSeq s) \<longleftrightarrow>
        (\<forall>d \<in> set (alertDispatches s). 0 < dID d \<and> dID d \<le> dispatchSeq s)"
    by (simp only: set_update ball_simps same)
  moreover have "(\<forall>d \<in> set (alertDispatches (update_dispatches P f s)). dEventID d \<in> evID ` set (alertEvents s)) \<longleftrightarrow>
        (\<forall>d \<in> set (alertDispatches s). dEventID d \<in> evID ` set (alertEvents s))"
    by (simp only: set_update ball_simps same)
  moreover have "map dID (alertDispatches (update_dispatches P f s)) = map dID (alertDispatches s)"
    "map (\<lambda>d. (dEventID d, dSink d)) (alertDispatches (update_dispatches P f s)) =
     map (\<lambda>d. (dEventID d, dSink d)) (alertDispatches s)"
    unfolding update_rows by (rule map_update_keys [OF assms])+
  ultimately show ?thesis by (simp add: row_keys_def)
qed

lemma ball_image_cong: "f ` A = f ` B \<Longrightarrow> (\<forall>x \<in> A. P (f x)) \<longleftrightarrow> (\<forall>x \<in> B. P (f x))"
  by (metis imageE imageI)

lemma row_keys_sync [simp]: "row_keys (syncAlertEventStatus eid s) \<longleftrightarrow> row_keys s"
proof -
  have "evID ` set (alertEvents (syncAlertEventStatus eid s)) = evID ` set (alertEvents s)"
    by (simp add: syncAlertEventStatus_def)
  moreover have "(\<forall>e \<in> set (alertEvents (syncAlertEventStatus eid s)). 0 < evID e \<and> evID e \<le> n) \<longleftrightarrow>
      (\<forall>e \<in> set (alertEvents s). 0 < evID e \<and> evID e \<le> n)" for n
    by (rule ball_image_cong [where f = evID and P = "\<lambda>i. 0 < i \<and> i \<le> n"])
      (metis list.set_map sync_fields(5))
  ultimately show ?thesis by (simp add: row_keys_def)
qed

text \<open>Two rows with one id are the same row.\<close>

lemma row_keys_unique:
  "row_keys s \<Longrightarrow> d \<in> set (alertDispatches s) \<Longrightarrow> d' \<in> set (alertDispatches s) \<Longrightarrow> dID d = dID d' \<Longrightarrow> d = d'"
  by (auto simp: row_keys_def dest: distinct_map_eq)

lemma row_keys_event_unique:
  "row_keys s \<Longrightarrow> e \<in> set (alertEvents s) \<Longrightarrow> e' \<in> set (alertEvents s) \<Longrightarrow> evID e = evID e' \<Longrightarrow> e = e'"
  by (auto simp: row_keys_def dest: distinct_map_eq)

lemma find_row: "row_keys s \<Longrightarrow> d \<in> set (alertDispatches s) \<Longrightarrow> find (\<lambda>x. dID x = dID d) (alertDispatches s) = Some d"
proof (cases "find (\<lambda>x. dID x = dID d) (alertDispatches s)")
  case None
  assume "d \<in> set (alertDispatches s)"
  with None show ?thesis by (auto simp: find_None_set)
next
  case (Some x)
  assume "row_keys s" "d \<in> set (alertDispatches s)"
  with Some show ?thesis by (auto dest!: find_Some_iff_set dest: row_keys_unique)
qed

section \<open>Synchronizing statuses\<close>

lemma unique_pending_shrinks:
  assumes "unique_pending s" and "alertEvents t = map g (alertEvents s)"
    and "\<And>e. e \<in> set (alertEvents s) \<Longrightarrow> evDedupeHash (g e) = evDedupeHash e"
    and "\<And>e. e \<in> set (alertEvents s) \<Longrightarrow> evStatus (g e) = AlertEventStatusPending \<Longrightarrow> evStatus e = AlertEventStatusPending"
  shows "unique_pending t"
proof -
  have gen: "distinct (map evDedupeHash (filter (\<lambda>e. evStatus e = AlertEventStatusPending \<and> evDedupeHash e \<noteq> []) es)) \<Longrightarrow>
      (\<And>e. e \<in> set es \<Longrightarrow> evDedupeHash (g e) = evDedupeHash e) \<Longrightarrow>
      (\<And>e. e \<in> set es \<Longrightarrow> evStatus (g e) = AlertEventStatusPending \<Longrightarrow> evStatus e = AlertEventStatusPending) \<Longrightarrow>
      distinct (map evDedupeHash (filter (\<lambda>e. evStatus e = AlertEventStatusPending \<and> evDedupeHash e \<noteq> []) (map g es)))" for es
  proof (induction es)
    case Nil
    then show ?case by simp
  next
    case (Cons e es)
    let ?p = "\<lambda>e. evStatus e = AlertEventStatusPending \<and> evDedupeHash e \<noteq> []"
    have sub: "evDedupeHash ` set (filter ?p (map g es)) \<subseteq> evDedupeHash ` set (filter ?p es)"
    proof
      fix h assume "h \<in> evDedupeHash ` set (filter ?p (map g es))"
      then obtain x where x: "x \<in> set es" "?p (g x)" "h = evDedupeHash (g x)" by auto
      then have "?p x" "h = evDedupeHash x" using Cons.prems(2,3) [of x] by auto
      with x(1) show "h \<in> evDedupeHash ` set (filter ?p es)" by auto
    qed
    have d: "distinct (map evDedupeHash (filter ?p es))" using Cons.prems(1) by (simp split: if_splits)
    have IH: "distinct (map evDedupeHash (filter ?p (map g es)))"
      by (rule Cons.IH [OF d]) (use Cons.prems(2,3) in auto)
    show ?case
    proof (cases "?p (g e)")
      case True
      then have "?p e" "evDedupeHash (g e) = evDedupeHash e" using Cons.prems(2,3) [of e] by auto
      with Cons.prems(1) have "evDedupeHash (g e) \<notin> evDedupeHash ` set (filter ?p es)" by simp
      with sub have "evDedupeHash (g e) \<notin> evDedupeHash ` set (filter ?p (map g es))" by blast
      with IH True show ?thesis by simp
    next
      case False
      then have "filter ?p (map g (e # es)) = filter ?p (map g es)"
        by (simp only: list.map filter.simps if_False)
      with IH show ?thesis by simp
    qed
  qed
  from gen [of "alertEvents s"] assms show ?thesis by (simp add: unique_pending_def pending_events_def)
qed

lemma sync_event_status:
  "row_keys s \<Longrightarrow> e \<in> set (alertEvents (syncAlertEventStatus eid s)) \<Longrightarrow>
   (evID e = eid \<and> evStatus e = derived_status (dispatches_of s eid)) \<or> (evID e \<noteq> eid \<and> e \<in> set (alertEvents s))"
  by (auto simp: syncAlertEventStatus_def set_event_status_def)

lemma synced_except_sync:
  assumes "row_keys s" and "synced_except A s"
  shows "synced_except (A - {eid}) (syncAlertEventStatus eid s)"
  unfolding synced_except_def
proof (intro ballI conjI impI)
  fix e assume e: "e \<in> set (alertEvents (syncAlertEventStatus eid s))"
  then obtain e0 where e0: "e0 \<in> set (alertEvents s)" "evID e0 = evID e"
    by (auto simp: syncAlertEventStatus_def set_event_status_def split: if_splits)
  with assms(2) show "dispatches_of (syncAlertEventStatus eid s) (evID e) \<noteq> []"
    by (simp add: synced_except_def flip: e0(2))
  from sync_event_status [OF assms(1) e]
  show "evStatus e = AlertEventStatusPending" if "has_open (syncAlertEventStatus eid s) (evID e)"
    using that assms(2) by (auto simp: synced_except_def has_open_def derived_pending)
  from sync_event_status [OF assms(1) e]
  show "evStatus e = derived_status (dispatches_of (syncAlertEventStatus eid s) (evID e))"
    if "evID e \<notin> A - {eid}"
    using that assms(2) by (auto simp: synced_except_def)
qed

lemma unique_pending_sync:
  assumes "unique_pending s" and "synced_except A s"
  shows "unique_pending (syncAlertEventStatus eid s)"
proof -
  let ?g = "\<lambda>e. if evID e = eid then e\<lparr>evStatus := derived_status (dispatches_of s eid)\<rparr> else e"
  show ?thesis
  proof (rule unique_pending_shrinks [OF assms(1), where g = ?g])
    show "alertEvents (syncAlertEventStatus eid s) = map ?g (alertEvents s)"
      by (simp add: syncAlertEventStatus_def set_event_status_def)
  next
    fix e assume "e \<in> set (alertEvents s)" "evStatus (?g e) = AlertEventStatusPending"
    with assms(2) show "evStatus e = AlertEventStatusPending"
      by (auto simp: synced_except_def has_open_def derived_pending split: if_splits)
  qed simp
qed

lemma fold_sync_inv:
  assumes "row_keys s" and "unique_pending s" and "synced_except A s"
  shows "row_keys (fold syncAlertEventStatus ids s) \<and> unique_pending (fold syncAlertEventStatus ids s) \<and>
    synced_except (A - set ids) (fold syncAlertEventStatus ids s)"
  using assms
proof (induction ids arbitrary: s A)
  case Nil
  then show ?case by simp
next
  case (Cons i ids)
  have "row_keys (syncAlertEventStatus i s)" using Cons.prems(1) by simp
  moreover have "unique_pending (syncAlertEventStatus i s)" using Cons.prems(2,3) by (rule unique_pending_sync)
  moreover have "synced_except (A - {i}) (syncAlertEventStatus i s)" using Cons.prems(1,3) by (rule synced_except_sync)
  ultimately have "row_keys (fold syncAlertEventStatus ids (syncAlertEventStatus i s)) \<and>
    unique_pending (fold syncAlertEventStatus ids (syncAlertEventStatus i s)) \<and>
    synced_except (A - {i} - set ids) (fold syncAlertEventStatus ids (syncAlertEventStatus i s))"
    by (rule Cons.IH)
  moreover have "A - {i} - set ids = A - set (i # ids)" by auto
  ultimately show ?case by simp
qed

lemma fold_sync_fields [simp]:
  "alertDispatches (fold syncAlertEventStatus ids s) = alertDispatches s"
  "redactionTokens (fold syncAlertEventStatus ids s) = redactionTokens s"
  by (induction ids arbitrary: s) auto

text \<open>
  An update that turns open dispatches into open or closed ones, and leaves the closed ones closed:
  the events of the rows it touches have to be synchronized afterwards.
\<close>

lemma synced_except_update:
  assumes "synced_except A s" and "key_preserving f"
    and closed: "\<And>d. d \<in> set (alertDispatches s) \<Longrightarrow> P d \<Longrightarrow> open_dispatch (f d) \<Longrightarrow> open_dispatch d"
  shows "synced_except (A \<union> dEventID ` {d \<in> set (alertDispatches s). P d}) (update_dispatches P f s)"
  unfolding synced_except_def
proof (intro ballI conjI impI)
  fix e assume e: "e \<in> set (alertEvents (update_dispatches P f s))"
  then have e': "e \<in> set (alertEvents s)" by simp
  let ?h = "\<lambda>d. if P d then f d else d"
  have ds: "dispatches_of (update_dispatches P f s) (evID e) = map ?h (dispatches_of s (evID e))"
    by (rule dispatches_of_update [OF assms(2)])
  then show "dispatches_of (update_dispatches P f s) (evID e) \<noteq> []"
    using assms(1) e' by (simp add: synced_except_def)
  show "evStatus e = AlertEventStatusPending" if open_after: "has_open (update_dispatches P f s) (evID e)"
  proof -
    from open_after obtain d where d: "d \<in> set (dispatches_of s (evID e))" "open_dispatch (?h d)"
      by (auto simp: has_open_def ds)
    then have "open_dispatch d"
      using closed [of d] by (auto simp: dispatches_of_def split: if_splits)
    with d(1) have "has_open s (evID e)" by (auto simp: has_open_def)
    with assms(1) e' show ?thesis by (simp add: synced_except_def)
  qed
  show "evStatus e = derived_status (dispatches_of (update_dispatches P f s) (evID e))"
    if "evID e \<notin> A \<union> dEventID ` {d \<in> set (alertDispatches s). P d}"
  proof -
    have "map ?h (dispatches_of s (evID e)) = dispatches_of s (evID e)"
      using that by (intro map_if_id) (auto simp: dispatches_of_def image_iff)
    with that assms(1) e' show ?thesis by (simp add: ds synced_except_def)
  qed
qed

lemma unique_pending_update [simp]: "unique_pending (update_dispatches P f s) \<longleftrightarrow> unique_pending s"
  by (simp add: unique_pending_def pending_events_def)

text \<open>An update that keeps open dispatches open and touches no other needs no synchronization.\<close>

lemma synced_update_open:
  assumes "synced_except A s" and "key_preserving f"
    and "\<And>d. d \<in> set (alertDispatches s) \<Longrightarrow> P d \<Longrightarrow> open_dispatch d \<and> open_dispatch (f d)"
  shows "synced_except A (update_dispatches P f s)"
proof -
  have "derived_status (dispatches_of (update_dispatches P f s) eid) = derived_status (dispatches_of s eid)" for eid
    unfolding dispatches_of_update [OF assms(2)]
    by (rule derived_status_map) (use assms(3) in \<open>auto simp: dispatches_of_def\<close>)
  moreover have "has_open (update_dispatches P f s) eid = has_open s eid" for eid
  proof -
    have "open_dispatch (if P d then f d else d) = open_dispatch d" if "d \<in> set (dispatches_of s eid)" for d
      using assms(3) [of d] that by (auto simp: dispatches_of_def)
    then show ?thesis
      unfolding has_open_def dispatches_of_update [OF assms(2)] set_map ball_simps bex_simps by blast
  qed
  ultimately show ?thesis
    using assms(1) by (simp add: synced_except_def dispatches_of_update [OF assms(2)])
qed

lemma rows_ok_update:
  assumes "\<forall>d \<in> set (alertDispatches s). row_ok d"
    and "\<And>d. d \<in> set (alertDispatches s) \<Longrightarrow> P d \<Longrightarrow> row_ok d \<Longrightarrow> row_ok (f d)"
  shows "\<forall>d \<in> set (alertDispatches (update_dispatches P f s)). row_ok d"
  using assms by (auto simp: set_update)

end
