(* ===== verification/AlertSafe.thy ===== *)
theory AlertSafe
  imports AlertInv
begin

text \<open>
  Every operation on the alert tables keeps the invariant of theory AlertInv. Each operation is a
  composition of the statements of AlertStore; the lemmas follow that composition.
\<close>

section \<open>What does not touch the tables\<close>

definition same_tables :: "Store \<Rightarrow> Store \<Rightarrow> bool" where
  "same_tables s t \<longleftrightarrow> alertEvents t = alertEvents s \<and> alertDispatches t = alertDispatches s \<and>
     eventSeq t = eventSeq s \<and> dispatchSeq t = dispatchSeq s"

lemma same_tables_refl [simp]: "same_tables s s"
  by (simp add: same_tables_def)

lemma lock_with_tables: "same_tables s (fst (lock_with s m))"
  by (simp add: lock_with_def lockAlertState_def same_tables_def Let_def)

lemma ensure_tables: "same_tables s (fst (ensureAlertDedupeKeyCurrent s))"
  by (auto simp: ensureAlertDedupeKeyCurrent_def lock_with_tables split: option.splits)

lemma ensure_same:
  "ensureAlertDedupeKeyCurrent s = (t, Some e) \<Longrightarrow> same_tables s t"
  "ensureAlertDedupeKeyCurrent s = (t, None) \<Longrightarrow> t = s"
  using ensure_tables [of s]
  by (auto simp: ensureAlertDedupeKeyCurrent_def lock_with_def split: if_splits option.splits)

lemma ensure_cong:
  assumes "alertDedupeKey t = alertDedupeKey s" "dedupeKeyFile t = dedupeKeyFile s" "fingerprintRow t = fingerprintRow s"
    and "ensureAlertDedupeKeyCurrent s = (s, None)"
  shows "ensureAlertDedupeKeyCurrent t = (t, None)"
  using assms by (auto simp: ensureAlertDedupeKeyCurrent_def lock_with_def split: option.splits if_splits)

lemma rollback_tables [simp]: "same_tables s (rollback s t)"
  by (simp add: same_tables_def rollback_def)

lemma alert_inv_cong: "same_tables s t \<Longrightarrow> alert_inv t \<longleftrightarrow> alert_inv s"
  by (simp add: same_tables_def alert_inv_def row_keys_def unique_pending_def pending_events_def
      synced_except_def has_open_def dispatches_of_def)

lemma commit_inv:
  "alert_inv s \<Longrightarrow> (\<And>t x. r = (t, Inr x) \<Longrightarrow> alert_inv t) \<Longrightarrow> alert_inv (fst (commit_or_rollback s r))"
  by (cases r; cases "snd r")
    (auto simp: commit_or_rollback_def alert_inv_cong [OF rollback_tables])

text \<open>The invariant in the form the operations establish it.\<close>

lemma synced_iff:
  "synced_except {} s \<longleftrightarrow> (\<forall>e \<in> set (alertEvents s).
     dispatches_of s (evID e) \<noteq> [] \<and> evStatus e = derived_status (dispatches_of s (evID e)))"
  by (auto simp: synced_except_def has_open_def derived_pending)

lemma alert_invD:
  assumes "alert_inv s"
  shows "row_keys s" "\<forall>d \<in> set (alertDispatches s). row_ok d" "unique_pending s" "synced_except {} s"
  using assms by (simp_all add: alert_inv_def)

lemma alert_invI:
  "row_keys s \<Longrightarrow> \<forall>d \<in> set (alertDispatches s). row_ok d \<Longrightarrow> unique_pending s \<Longrightarrow> synced_except {} s \<Longrightarrow>
   alert_inv s"
  by (simp add: alert_inv_def)

section \<open>Rows of the join\<close>

lemma set_joined:
  "set (joined s) = {(e, d). e \<in> set (alertEvents s) \<and> d \<in> set (alertDispatches s) \<and> dEventID d = evID e}"
  by (auto simp: joined_def dispatches_of_def)

lemma distinct_map_filter: "distinct (map f xs) \<Longrightarrow> distinct (map f (filter P xs))"
  by (simp add: distinct_map inj_on_def)

lemma distinct_joined_aux:
  fixes ds :: "AlertDispatch list" and es :: "AlertEvent list"
  assumes "distinct (map dID ds)"
  shows "distinct (map evID es) \<Longrightarrow>
    distinct (map (\<lambda>(e, d). dID d) (concat (map (\<lambda>e. map (Pair e) (filter (\<lambda>d. dEventID d = evID e) ds)) es)))"
proof (induction es)
  case Nil
  then show ?case by simp
next
  case (Cons e es)
  let ?row = "\<lambda>e :: AlertEvent. map (Pair e) (filter (\<lambda>d. dEventID d = evID e) ds)"
  let ?id = "\<lambda>(e :: AlertEvent, d :: AlertDispatch). dID d"
  have "map ?id (?row e) = map dID (filter (\<lambda>d. dEventID d = evID e) ds)" by simp
  then have "distinct (map ?id (?row e))" using distinct_map_filter [OF assms] by metis
  moreover have "set (map ?id (?row e)) \<inter> set (map ?id (concat (map ?row es))) = {}"
  proof -
    have "dEventID d = evID e \<Longrightarrow> d' \<in> set ds \<Longrightarrow> e' \<in> set es \<Longrightarrow> dEventID d' = evID e' \<Longrightarrow>
        d \<in> set ds \<Longrightarrow> dID d = dID d' \<Longrightarrow> False" for d d' e'
      using Cons.prems distinct_map_eq [OF assms, of d d'] by (metis distinct.simps(2) imageI list.set_map list.simps(9))
    then show ?thesis by fastforce
  qed
  ultimately show ?case using Cons by simp
qed

lemma distinct_joined: "row_keys s \<Longrightarrow> distinct (map (\<lambda>(e, d). dID d) (joined s))"
  unfolding joined_def dispatches_of_def by (rule distinct_joined_aux) (simp_all add: row_keys_def)

lemma joined_row:
  assumes "row_keys s" and "d \<in> set (alertDispatches s)"
  obtains e where "(e, d) \<in> set (joined s)"
  using assms by (auto simp: set_joined row_keys_def)

lemma set_delivery_order [simp]: "set (delivery_order rows) = set rows"
  by (simp add: delivery_order_def)

lemma length_delivery_order [simp]: "length (delivery_order rows) = length rows"
  by (simp add: delivery_order_def)

lemma distinct_delivery_order:
  "distinct (map f rows) \<Longrightarrow> distinct (map f (delivery_order rows))"
  by (simp add: distinct_map delivery_order_def)

lemma sorted_delivery_order:
  "sorted (map (\<lambda>(e, d). (evCreatedAt e, evID e, dSink d)) (delivery_order rows))"
  by (simp add: delivery_order_def)

section \<open>Claim\<close>

lemma dead_letter_row_ok: "row_ok d \<Longrightarrow> exhausted now m d \<Longrightarrow> row_ok (dead_letter now d)"
  by (auto simp: row_ok_def dead_letter_def exhausted_def validAlertDispatchStatus_def terminalAlertDispatchStatus_def)

lemma deadLetter_fst:
  "fst (deadLetterExpiredAlertDispatches now m s) = update_dispatches (exhausted now m) (dead_letter now) s"
proof (cases "filter (exhausted now m) (alertDispatches s) = []")
  case True
  then have "map (\<lambda>d. if exhausted now m d then dead_letter now d else d) (alertDispatches s) = alertDispatches s"
    by (simp add: map_idI filter_empty_conv)
  with True show ?thesis by (simp add: deadLetterExpiredAlertDispatches_def update_dispatches_def Let_def)
next
  case False
  then show ?thesis by (simp add: deadLetterExpiredAlertDispatches_def Let_def)
qed

lemma deadLetter_snd:
  "set (snd (deadLetterExpiredAlertDispatches now m s)) = dEventID ` {d \<in> set (alertDispatches s). exhausted now m d}"
  by (auto simp: deadLetterExpiredAlertDispatches_def Let_def filter_empty_conv)

definition swept :: "gotime \<Rightarrow> int \<Rightarrow> Store \<Rightarrow> Store" where
  "swept now m s = fold syncAlertEventStatus (snd (deadLetterExpiredAlertDispatches now m s))
     (fst (deadLetterExpiredAlertDispatches now m s))"

lemma claim_tx_swept:
  "claim_tx now w c l limit p s =
   update_dispatches (\<lambda>d. dID d \<in> set (claim_ids now (MaxAttempts p) limit (swept now (MaxAttempts p) s)))
     (take_claim now w c (now + l)) (swept now (MaxAttempts p) s)"
  by (simp add: claim_tx_def swept_def split_beta Let_def)

lemma swept_rows:
  "alertDispatches (swept now m s) = map (\<lambda>d. if exhausted now m d then dead_letter now d else d) (alertDispatches s)"
  by (simp add: swept_def deadLetter_fst update_rows)

lemma swept_inv [inv_pres]:
  assumes "alert_inv s"
  shows "alert_inv (swept now m s)"
proof -
  let ?t = "update_dispatches (exhausted now m) (dead_letter now) s"
  note inv = alert_invD [OF assms]
  have keys: "row_keys ?t" using inv(1) by (simp add: row_keys_update)
  have "synced_except ({} \<union> dEventID ` {d \<in> set (alertDispatches s). exhausted now m d}) ?t"
    by (rule synced_except_update [OF inv(4)]) (auto simp: exhausted_def open_dispatch_def)
  then have "synced_except (dEventID ` {d \<in> set (alertDispatches s). exhausted now m d}) ?t" by simp
  from fold_sync_inv [OF keys _ this, of "snd (deadLetterExpiredAlertDispatches now m s)"] inv(3)
  have "row_keys (swept now m s)" "unique_pending (swept now m s)" "synced_except {} (swept now m s)"
    by (simp_all add: swept_def deadLetter_fst deadLetter_snd)
  moreover have "\<forall>d \<in> set (alertDispatches ?t). row_ok d"
    by (rule rows_ok_update [OF inv(2)]) (rule dead_letter_row_ok)
  then have "\<forall>d \<in> set (alertDispatches (swept now m s)). row_ok d"
    by (simp add: swept_def deadLetter_fst)
  ultimately show ?thesis by (intro alert_invI)
qed

lemma claim_ids_claimable:
  "i \<in> set (claim_ids now m limit s) \<Longrightarrow> \<exists>d \<in> set (alertDispatches s). dID d = i \<and> claimable now m d"
  by (auto simp: claim_ids_def set_joined dest!: in_set_takeD)

lemma claim_ids_row:
  "row_keys s \<Longrightarrow> d \<in> set (alertDispatches s) \<Longrightarrow> dID d \<in> set (claim_ids now m limit s) \<Longrightarrow> claimable now m d"
  by (metis claim_ids_claimable row_keys_unique)

lemma distinct_claim_ids: "row_keys s \<Longrightarrow> distinct (claim_ids now m limit s)"
  unfolding claim_ids_def
  by (subst take_map [symmetric]) (intro distinct_take distinct_delivery_order distinct_map_filter distinct_joined)

lemma length_claim_ids: "length (claim_ids now m limit s) \<le> nat limit"
  by (simp add: claim_ids_def)

lemma claimable_open: "claimable now m d \<Longrightarrow> open_dispatch d"
  by (auto simp: claimable_def open_dispatch_def)

lemma take_claim_row_ok: "row_ok d \<Longrightarrow> claimable now m d \<Longrightarrow> row_ok (take_claim t w c l d)"
  by (auto simp: row_ok_def take_claim_def claimable_def validAlertDispatchStatus_def)

lemma take_claim_open [simp]: "open_dispatch (take_claim t w c l d)"
  by (simp add: take_claim_def open_dispatch_def)

lemma claim_tx_inv [inv_pres]:
  assumes "alert_inv s"
  shows "alert_inv (claim_tx now w c l limit p s)"
proof -
  let ?s = "swept now (MaxAttempts p) s"
  note inv = alert_invD [OF swept_inv [OF assms, of now "MaxAttempts p"]]
  note row = claim_ids_row [OF inv(1)]
  show ?thesis unfolding claim_tx_swept
  proof (rule alert_invI)
    show "row_keys (update_dispatches (\<lambda>d. dID d \<in> set (claim_ids now (MaxAttempts p) limit ?s))
        (take_claim now w c (now + l)) ?s)"
      using inv(1) by (simp add: row_keys_update)
  next
    show "\<forall>d \<in> set (alertDispatches (update_dispatches (\<lambda>d. dID d \<in> set (claim_ids now (MaxAttempts p) limit ?s))
        (take_claim now w c (now + l)) ?s)). row_ok d"
      by (rule rows_ok_update [OF inv(2)]) (blast intro: take_claim_row_ok row)
  next
    show "unique_pending (update_dispatches (\<lambda>d. dID d \<in> set (claim_ids now (MaxAttempts p) limit ?s))
        (take_claim now w c (now + l)) ?s)"
      using inv(3) by simp
  next
    show "synced_except {} (update_dispatches (\<lambda>d. dID d \<in> set (claim_ids now (MaxAttempts p) limit ?s))
        (take_claim now w c (now + l)) ?s)"
      by (rule synced_update_open [OF inv(4)]) (auto intro: claimable_open row)
  qed
qed

lemma claim_once_inv [inv_pres]:
  assumes "alert_inv s"
  shows "alert_inv (fst (claimPendingAlertDeliveriesOnce w c l limit p now s))"
  using assms
  by (auto simp: claimPendingAlertDeliveriesOnce_def Let_def claim_tx_inv intro!: commit_inv
      split: prod.splits option.splits dest: ensure_same)

section \<open>Record\<close>

lemma held_row:
  "row_keys s \<Longrightarrow> d0 \<in> set (alertDispatches s) \<Longrightarrow> d \<in> set (alertDispatches s) \<Longrightarrow> held_by (dID d0) w c d \<Longrightarrow> d = d0"
  by (auto simp: held_by_def dest: row_keys_unique)

lemma result_status_valid:
  "validAlertDispatchResultStatus st \<Longrightarrow> validAlertDispatchResultStatus (result_status p n st)"
  by (simp add: result_status_def validAlertDispatchResultStatus_def terminalAlertDispatchStatus_def)

lemma complete_row_ok:
  "row_ok d \<Longrightarrow> validAlertDispatchResultStatus st \<Longrightarrow> row_ok (complete_dispatch now st w c le na d)"
  by (auto simp: row_ok_def complete_dispatch_def validAlertDispatchResultStatus_def validAlertDispatchStatus_def
      terminalAlertDispatchStatus_def)

lemma note_inv [inv_pres]:
  assumes "alert_inv s"
  shows "alert_inv (fst (noteExpiredAlertDispatchCompletion i w c now s))"
proof -
  note inv = alert_invD [OF assms]
  let ?P = "\<lambda>d. held_by i w c d \<and> lease_ns d \<le> now"
  let ?f = "\<lambda>d. d\<lparr>dLastError := alertDispatchLeaseExpiredError, dUpdatedAt := now\<rparr>"
  have "row_keys (update_dispatches ?P ?f s)" using inv(1) by (simp add: row_keys_update)
  moreover have "\<forall>d \<in> set (alertDispatches (update_dispatches ?P ?f s)). row_ok d"
    by (rule rows_ok_update [OF inv(2)]) (simp add: row_ok_def)
  moreover have "synced_except {} (update_dispatches ?P ?f s)"
    by (rule synced_update_open [OF inv(4)]) (auto simp: held_by_def open_dispatch_def)
  ultimately show ?thesis
    using inv(3) by (simp add: noteExpiredAlertDispatchCompletion_def Let_def alert_inv_def)
qed

lemma complete_inv:
  assumes "alert_inv s" and "d0 \<in> set (alertDispatches s)" and "validAlertDispatchResultStatus st"
  shows "alert_inv (syncAlertEventStatus (dEventID d0) (update_dispatches
    (\<lambda>d. held_by (dID d0) w c d \<and> now < lease_ns d) (complete_dispatch now st w' c' le na) s))"
proof -
  note inv = alert_invD [OF assms(1)]
  let ?P = "\<lambda>d. held_by (dID d0) w c d \<and> now < lease_ns d"
  let ?t = "update_dispatches ?P (complete_dispatch now st w' c' le na) s"
  have keys: "row_keys ?t" using inv(1) by (simp add: row_keys_update)
  have "synced_except ({} \<union> dEventID ` {d \<in> set (alertDispatches s). ?P d}) ?t"
    by (rule synced_except_update [OF inv(4)]) (auto simp: held_by_def open_dispatch_def)
  from synced_except_sync [OF keys this, of "dEventID d0"]
  have "synced_except ({} \<union> dEventID ` {d \<in> set (alertDispatches s). ?P d} - {dEventID d0}) (syncAlertEventStatus (dEventID d0) ?t)" .
  moreover have "{} \<union> dEventID ` {d \<in> set (alertDispatches s). ?P d} - {dEventID d0} = {}"
    using held_row [OF inv(1) assms(2)] by auto
  ultimately have "synced_except {} (syncAlertEventStatus (dEventID d0) ?t)" by (simp only:)
  moreover have "unique_pending (syncAlertEventStatus (dEventID d0) ?t)"
    using inv(3) \<open>synced_except ({} \<union> _) ?t\<close> by (intro unique_pending_sync) simp_all
  moreover have "\<forall>d \<in> set (alertDispatches ?t). row_ok d"
    by (rule rows_ok_update [OF inv(2)]) (rule complete_row_ok [OF _ assms(3)])
  ultimately show ?thesis using keys by (intro alert_invI) simp_all
qed

text \<open>
  The branch in which no row was updated: the first UPDATE had no row, so its result is the store.
\<close>

lemma update_none: "\<forall>d \<in> set (alertDispatches s). \<not> P d \<Longrightarrow> update_dispatches P f s = s"
  by (simp add: update_dispatches_def map_idI)

lemma filter_key_one:
  assumes "distinct (map key xs)" and "x \<in> set xs" and "P x" and "\<And>y. y \<in> set xs \<Longrightarrow> P y \<Longrightarrow> key y = key x"
  shows "filter P xs = [x]"
  using assms
proof (induction xs)
  case Nil
  then show ?case by simp
next
  case (Cons y ys)
  show ?case
  proof (cases "y = x")
    case True
    have fresh: "key x \<notin> key ` set ys" using Cons.prems(1) True by simp
    have "\<not> P z" if "z \<in> set ys" for z
    proof
      assume "P z"
      with Cons.prems(4) [of z] that have "key z = key x" by simp
      with fresh that show False by (metis imageI)
    qed
    with True Cons.prems(3) show ?thesis by (simp add: filter_empty_conv)
  next
    case False
    with Cons.prems(2) have "x \<in> set ys" by simp
    have "key y \<notin> key ` set ys" using Cons.prems(1) by simp
    with \<open>x \<in> set ys\<close> have "key y \<noteq> key x" by (metis imageI)
    with Cons.prems(4) [of y] have "\<not> P y" by auto
    moreover have "distinct (map key ys)" using Cons.prems(1) by simp
    then have "filter P ys = [x]"
      by (rule Cons.IH [OF _ \<open>x \<in> set ys\<close> Cons.prems(3)]) (rule Cons.prems(4), simp_all)
    ultimately show ?thesis by simp
  qed
qed

lemma guarded_one:
  assumes "row_keys s" and "d0 \<in> set (alertDispatches s)" and imp: "\<And>d. P d \<Longrightarrow> dID d = dID d0"
  shows "length (filter P (alertDispatches s)) = (if P d0 then 1 else 0)"
proof (cases "P d0")
  case True
  have "distinct (map dID (alertDispatches s))" using assms(1) by (simp add: row_keys_def)
  then have "filter P (alertDispatches s) = [d0]"
    by (rule filter_key_one [where P = P, OF _ assms(2) True]) (rule imp)
  with True show ?thesis by simp
next
  case False
  then have "\<forall>d \<in> set (alertDispatches s). \<not> P d" using assms row_keys_unique by blast
  with False show ?thesis by (simp add: filter_empty_conv)
qed

text \<open>The guarded UPDATE, by the lease: live, expired, or not held.\<close>

lemma record_update_cases:
  assumes "alert_inv s" and "d0 \<in> set (alertDispatches s)"
    and id: "dID dispatch = dID d0" "dEventID dispatch = dEventID d0"
    and r: "record_update dispatch w c st le p now s = (t, r)"
  obtains (live) na le' where "held_by (dID d0) w c d0" "now < lease_ns d0"
      "t = syncAlertEventStatus (dEventID d0) (update_dispatches (\<lambda>d. held_by (dID d0) w c d \<and> now < lease_ns d)
          (complete_dispatch now (result_status p (dAttempts dispatch + 1) st) w c le' na) s)"
      "na = (if result_status p (dAttempts dispatch + 1) st = AlertDispatchStatusPending
             then now + backoff p (dAttempts dispatch + 1) else 0)"
      "r = Inr (scanAlertDispatch t (complete_dispatch now (result_status p (dAttempts dispatch + 1) st) w c le' na d0))"
  | (expired) "held_by (dID d0) w c d0" "lease_ns d0 \<le> now"
      "t = fst (noteExpiredAlertDispatchCompletion (dID d0) w c now s)" "r = Inl ErrAlertDispatchLeaseExpired"
  | (lost) "\<not> held_by (dID d0) w c d0" "t = s" "r = Inl ErrAlertDispatchClaimNotHeld"
proof -
  note inv = alert_invD [OF assms(1)]
  define P where "P = (\<lambda>d. held_by (dID d0) w c d \<and> now < lease_ns d)"
  define Q where "Q = (\<lambda>d. held_by (dID d0) w c d \<and> lease_ns d \<le> now)"
  have one: "length (filter P (alertDispatches s)) = (if P d0 then 1 else 0)"
    by (rule guarded_one [OF inv(1) assms(2)]) (simp add: P_def held_by_def)
  have oneQ: "length (filter Q (alertDispatches s)) = (if Q d0 then 1 else 0)"
    by (rule guarded_one [OF inv(1) assms(2)]) (simp add: Q_def held_by_def)
  show thesis
  proof (cases "P d0")
    case True
    define na where "na = (if result_status p (dAttempts dispatch + 1) st = AlertDispatchStatusPending
             then now + backoff p (dAttempts dispatch + 1) else 0)"
    define le' where "le' = (if st = AlertDispatchStatusPending \<and> MaxAttempts p \<le> dAttempts dispatch + 1 \<and> le = []
                        then ''maximum alert dispatch attempts reached'' else le)"
    define f where "f = complete_dispatch now (result_status p (dAttempts dispatch + 1) st) w c le' na"
    define u where "u = syncAlertEventStatus (dEventID d0) (update_dispatches P f s)"
    have kp: "key_preserving f" by (simp add: f_def)
    then have "row_keys u" using inv(1) by (simp add: u_def row_keys_update)
    moreover have "f d0 \<in> set (alertDispatches u)" using assms(2) True by (auto simp: u_def set_update)
    ultimately have "find (\<lambda>d. dID d = dID (f d0)) (alertDispatches u) = Some (f d0)" by (rule find_row)
    moreover have "dID (f d0) = dID d0" using kp by (simp add: key_preserving_def)
    ultimately have fd: "find (\<lambda>d. dID d = dID d0) (alertDispatches u) = Some (f d0)" by simp
    have "record_update dispatch w c st le p now s = (u, Inr (scanAlertDispatch u (f d0)))"
      using one True fd
      unfolding record_update_def Let_def id P_def [symmetric] na_def [symmetric] le'_def [symmetric]
        f_def [symmetric] u_def [symmetric] by simp
    with r have tr: "t = u" "r = Inr (scanAlertDispatch t (f d0))" by auto
    show thesis
    proof (rule live)
      show "held_by (dID d0) w c d0" "now < lease_ns d0" using True by (simp_all add: P_def)
      show "t = syncAlertEventStatus (dEventID d0) (update_dispatches (\<lambda>d. held_by (dID d0) w c d \<and> now < lease_ns d)
          (complete_dispatch now (result_status p (dAttempts dispatch + 1) st) w c le' na) s)"
        using tr(1) by (simp only: u_def P_def f_def)
      show "r = Inr (scanAlertDispatch t (complete_dispatch now (result_status p (dAttempts dispatch + 1) st) w c le' na d0))"
        using tr(2) by (simp only: f_def)
    qed (rule na_def)
  next
    case False
    then have none: "update_dispatches P g s = s" for g
      using one by (intro update_none) (auto simp: filter_empty_conv)
    have q: "noteExpiredAlertDispatchCompletion (dID d0) w c now s =
        (fst (noteExpiredAlertDispatchCompletion (dID d0) w c now s), Q d0)"
      using oneQ by (simp add: noteExpiredAlertDispatchCompletion_def Let_def Q_def [symmetric])
    have "(t, r) = (case noteExpiredAlertDispatchCompletion (dID d0) w c now s of
        (s2, True) \<Rightarrow> (s2, Inl ErrAlertDispatchLeaseExpired) | (_, False) \<Rightarrow> (s, Inl ErrAlertDispatchClaimNotHeld))"
      using r one False by (simp add: record_update_def Let_def id P_def [symmetric] none)
    then show thesis using False expired lost by (subst (asm) q) (auto simp: P_def Q_def split: bool.splits)
  qed
qed

lemma record_update_inv [inv_pres]:
  assumes "alert_inv s" and "d0 \<in> set (alertDispatches s)"
    and "dID dispatch = dID d0" "dEventID dispatch = dEventID d0" and "validAlertDispatchResultStatus st"
  shows "alert_inv (fst (record_update dispatch w c st le p now s))"
proof -
  obtain t r where tr: "record_update dispatch w c st le p now s = (t, r)" by fastforce
  from assms(1-4) tr have "alert_inv t"
  proof (cases rule: record_update_cases)
    case live
    then show ?thesis by (simp only: complete_inv [OF assms(1,2) result_status_valid [OF assms(5)]])
  next
    case expired
    then show ?thesis by (simp only: note_inv [OF assms(1)])
  qed (use assms in simp)
  with tr show ?thesis by simp
qed

lemma scanned_fields [simp]:
  "dID (prepareScannedAlertDispatch s d) = dID d"
  "dEventID (prepareScannedAlertDispatch s d) = dEventID d"
  "dAttempts (prepareScannedAlertDispatch s d) = dAttempts d"
  "dLeaseExpiresAt (prepareScannedAlertDispatch s d) = dLeaseExpiresAt d"
  "dDeliveredAt (prepareScannedAlertDispatch s d) = dDeliveredAt d"
  "dNextAttemptAtNS (prepareScannedAlertDispatch s d) = dNextAttemptAtNS d"
  by (simp_all add: prepareScannedAlertDispatch_def)

text \<open>What recording does: nothing to the tables, or the guarded update of one row.\<close>

lemma record_once_cases:
  assumes "recordAlertDispatchResultOnce i rw rc rst rle p now s = (t, r)"
  obtains (unchanged) "same_tables s t"
    | (update) d0 where "d0 \<in> set (alertDispatches s)" "dID d0 = i"
        "validAlertDispatchResultStatus (TrimSpace rst)"
        "(t, r) = record_update (prepareScannedAlertDispatch s d0) (TrimSpace (redact s rw)) (TrimSpace rc)
           (TrimSpace rst) (result_error (TrimSpace rst) (TrimSpace (redact s rle))) p now s"
proof -
  obtain s1 e where ens: "ensureAlertDedupeKeyCurrent s = (s1, e)" by fastforce
  show thesis
  proof (cases "e = None")
    case False
    with ens have "same_tables s s1" by (auto dest: ensure_same)
    with assms ens False unchanged show thesis
      by (auto simp: recordAlertDispatchResultOnce_def Let_def split: if_splits)
  next
    case True
    with ens have [simp]: "s1 = s" by (simp add: ensure_same)
    show thesis
    proof (cases "find (\<lambda>(e, d). dID d = i) (joined s)")
      case None
      with assms ens True unchanged show thesis
        by (auto simp: recordAlertDispatchResultOnce_def Let_def split: if_splits)
    next
      case (Some row)
      obtain e0 d0 where row: "row = (e0, d0)" by fastforce
      with Some have d0: "d0 \<in> set (alertDispatches s)" "dID d0 = i"
        by (auto dest!: find_Some_iff_set simp: set_joined)
      let ?d = "prepareScannedAlertDispatch s d0"
      have trimmed: "dStatus ?d = TrimSpace (dStatus d0)" by (simp add: prepareScannedAlertDispatch_def)
      show thesis
        using assms ens True Some row unchanged update [OF d0]
        unfolding recordAlertDispatchResultOnce_def Let_def
        by (simp split: if_splits)
    qed
  qed
qed

lemma record_once_inv [inv_pres]:
  assumes "alert_inv s"
  shows "alert_inv (fst (recordAlertDispatchResultOnce i rw rc rst rle p now s))"
proof -
  obtain t r where tr: "recordAlertDispatchResultOnce i rw rc rst rle p now s = (t, r)" by fastforce
  then have "alert_inv t"
  proof (cases rule: record_once_cases)
    case unchanged
    with assms show ?thesis by (simp add: alert_inv_cong)
  next
    case (update d0)
    with record_update_inv [OF assms update(1) _ _ update(3)] show ?thesis
      by (metis fst_conv scanned_fields(1,2))
  qed
  with tr show ?thesis by simp
qed

section \<open>Enqueue\<close>

text \<open>
  The event \<open>eid\<close> is pending and about to receive dispatches, the others are synchronized.
\<close>

definition synced_for :: "int \<Rightarrow> Store \<Rightarrow> bool" where
  "synced_for eid s \<longleftrightarrow> (\<forall>e \<in> set (alertEvents s).
     (evID e \<noteq> eid \<longrightarrow> dispatches_of s (evID e) \<noteq> [] \<and> evStatus e = derived_status (dispatches_of s (evID e))) \<and>
     (evID e = eid \<longrightarrow> evStatus e = AlertEventStatusPending))"

definition enqueue_inv :: "int \<Rightarrow> Store \<Rightarrow> bool" where
  "enqueue_inv eid s \<longleftrightarrow> row_keys s \<and> (\<forall>d \<in> set (alertDispatches s). row_ok d) \<and> unique_pending s \<and>
     synced_for eid s \<and> eid \<in> evID ` set (alertEvents s)"

lemma insert_dispatch_events [simp, row_frame]:
  "alertEvents (insert_dispatch eid t sink s) = alertEvents s"
  "eventSeq (insert_dispatch eid t sink s) = eventSeq s"
  by (simp_all add: insert_dispatch_def)

lemma dispatches_of_insert:
  "dispatches_of (insert_dispatch eid t sink s) i =
   dispatches_of s i @ (if i = eid \<and> \<not> (\<exists>d \<in> set (alertDispatches s). dEventID d = eid \<and> dSink d = sink)
     then [new_dispatch (dispatchSeq s + 1) eid sink t] else [])"
  by (simp add: insert_dispatch_def dispatches_of_def new_dispatch_def)

lemma insert_dispatch_keys:
  assumes k: "row_keys s" "eid \<in> evID ` set (alertEvents s)"
  shows "row_keys (insert_dispatch eid t sink s)"
proof (cases "\<exists>d \<in> set (alertDispatches s). dEventID d = eid \<and> dSink d = sink")
  case True
  then show ?thesis using assms by (simp add: insert_dispatch_def)
next
  case False
  let ?n = "new_dispatch (dispatchSeq s + 1) eid sink t"
  have new: "dID ?n = dispatchSeq s + 1" "dEventID ?n = eid" "dSink ?n = sink"
    by (simp_all add: new_dispatch_def)
  have ds: "alertDispatches (insert_dispatch eid t sink s) = alertDispatches s @ [?n]"
    "dispatchSeq (insert_dispatch eid t sink s) = dispatchSeq s + 1"
    using False by (auto simp: insert_dispatch_def)
  have fresh: "dispatchSeq s + 1 \<notin> dID ` set (alertDispatches s)" using k(1) by (force simp: row_keys_def)
  have "(eid, sink) \<notin> (\<lambda>d. (dEventID d, dSink d)) ` set (alertDispatches s)" using False by auto
  then have "distinct (map (\<lambda>d. (dEventID d, dSink d)) (alertDispatches s @ [?n]))"
    using k(1) by (simp add: row_keys_def new)
  moreover have "distinct (map dID (alertDispatches s @ [?n]))"
    using k(1) fresh by (simp add: row_keys_def new)
  ultimately show ?thesis
    using k unfolding row_keys_def ds insert_dispatch_events by (simp add: new) force
qed

lemma insert_dispatch_enqueue_inv:
  assumes "enqueue_inv eid s"
  shows "enqueue_inv eid (insert_dispatch eid t sink s)"
proof (cases "\<exists>d \<in> set (alertDispatches s). dEventID d = eid \<and> dSink d = sink")
  case True
  then show ?thesis using assms by (simp add: insert_dispatch_def)
next
  case False
  let ?n = "new_dispatch (dispatchSeq s + 1) eid sink t"
  have new: "dID ?n = dispatchSeq s + 1" "dEventID ?n = eid" "dSink ?n = sink" "row_ok ?n"
    by (simp_all add: new_dispatch_def row_ok_def validAlertDispatchStatus_def)
  have ds: "alertDispatches (insert_dispatch eid t sink s) = alertDispatches s @ [?n]"
    "dispatchSeq (insert_dispatch eid t sink s) = dispatchSeq s + 1"
    using False by (auto simp: insert_dispatch_def)
  have k: "row_keys s" "eid \<in> evID ` set (alertEvents s)" using assms by (simp_all add: enqueue_inv_def)
  have "row_keys (insert_dispatch eid t sink s)" using k by (rule insert_dispatch_keys)
  moreover have "unique_pending (insert_dispatch eid t sink s)"
    using assms by (simp add: enqueue_inv_def unique_pending_def pending_events_def)
  moreover have "synced_for eid (insert_dispatch eid t sink s)"
    using assms by (simp add: enqueue_inv_def synced_for_def dispatches_of_insert)
  moreover have "\<forall>d \<in> set (alertDispatches (insert_dispatch eid t sink s)). row_ok d"
    using assms new(4) by (simp add: enqueue_inv_def ds)
  ultimately show ?thesis using k(2) by (simp add: enqueue_inv_def)
qed

lemma insert_dispatch_open:
  "has_open s eid \<or> dispatches_of s eid = [] \<Longrightarrow> has_open (insert_dispatch eid t sink s) eid"
  by (auto simp: has_open_def dispatches_of_insert new_dispatch_def open_dispatch_def)
    (auto simp: dispatches_of_def filter_empty_conv)

lemma ensure_pending_enqueue_inv:
  assumes "enqueue_inv eid s" and "has_open s eid \<or> dispatches_of s eid = []" and "sinks \<noteq> []"
  shows "enqueue_inv eid (ensurePendingAlertDispatches eid sinks t s) \<and>
    has_open (ensurePendingAlertDispatches eid sinks t s) eid"
proof -
  have gen: "enqueue_inv eid (fold (insert_dispatch eid t) ks u) \<and> has_open (fold (insert_dispatch eid t) ks u) eid"
    if "enqueue_inv eid u" "has_open u eid" for ks u
    using that by (induction ks arbitrary: u) (auto intro: insert_dispatch_enqueue_inv insert_dispatch_open)
  from assms(3) obtain k ks where "sinks = k # ks" by (cases sinks) auto
  with assms(1,2) gen [of "insert_dispatch eid t k s" ks] show ?thesis
    by (simp add: ensurePendingAlertDispatches_def insert_dispatch_enqueue_inv insert_dispatch_open)
qed

lemma has_open_nonempty: "has_open s eid \<Longrightarrow> dispatches_of s eid \<noteq> []"
  by (auto simp: has_open_def)

lemma enqueue_inv_alert_inv: "enqueue_inv eid s \<Longrightarrow> has_open s eid \<Longrightarrow> alert_inv s"
  unfolding enqueue_inv_def alert_inv_def synced_iff synced_for_def
  by (metis derived_pending has_open_def has_open_nonempty)

lemma alert_inv_enqueue_inv:
  "alert_inv s \<Longrightarrow> e \<in> set (alertEvents s) \<Longrightarrow> evStatus e = AlertEventStatusPending \<Longrightarrow> enqueue_inv (evID e) s"
  unfolding enqueue_inv_def alert_inv_def synced_iff synced_for_def by (metis imageI row_keys_event_unique)

lemma insert_event_fields [simp]:
  "alertEvents (insert_event ev s) = alertEvents s @
     [ev\<lparr>evID := eventSeq s + 1, evCooldownKey := [], evStatus := AlertEventStatusPending\<rparr>]"
  "alertDispatches (insert_event ev s) = alertDispatches s"
  "eventSeq (insert_event ev s) = eventSeq s + 1"
  "dispatchSeq (insert_event ev s) = dispatchSeq s"
  by (simp_all add: insert_event_def)

lemma insert_event_enqueue_inv:
  assumes "alert_inv s" and "\<not> pending_conflict s (evDedupeHash ev)"
  shows "enqueue_inv (eventSeq s + 1) (insert_event ev s)"
    and "dispatches_of (insert_event ev s) (eventSeq s + 1) = []"
proof -
  note inv = alert_invD [OF assms(1)]
  have ids: "evID e \<le> eventSeq s" if "e \<in> set (alertEvents s)" for e
    using inv(1) that by (simp add: row_keys_def)
  then have fresh: "eventSeq s + 1 \<notin> evID ` set (alertEvents s)" by force
  have fk: "dEventID d \<in> evID ` set (alertEvents s)" if "d \<in> set (alertDispatches s)" for d
    using inv(1) that by (simp add: row_keys_def)
  show none: "dispatches_of (insert_event ev s) (eventSeq s + 1) = []"
  proof -
    have "dEventID d \<noteq> eventSeq s + 1" if "d \<in> set (alertDispatches s)" for d
      using fresh fk [OF that] by metis
    then show ?thesis by (simp add: dispatches_of_def filter_empty_conv)
  qed
  have "row_keys (insert_event ev s)"
  proof -
    let ?e = "ev\<lparr>evID := eventSeq s + 1, evCooldownKey := [], evStatus := AlertEventStatusPending\<rparr>"
    have "distinct (map evID (alertEvents s @ [?e]))"
      using inv(1) fresh by (simp add: row_keys_def)
    then show ?thesis
      using inv(1) ids fk unfolding row_keys_def insert_event_fields by (simp add: image_iff) force
  qed
  moreover have "unique_pending (insert_event ev s)"
    using inv(3) assms(2) by (auto simp: unique_pending_def pending_events_def pending_conflict_def)
  moreover have "synced_for (eventSeq s + 1) (insert_event ev s)"
    using inv(4) fresh unfolding synced_iff by (auto simp: synced_for_def dispatches_of_def image_iff)
  ultimately show "enqueue_inv (eventSeq s + 1) (insert_event ev s)"
    using inv(2) by (simp add: enqueue_inv_def)
qed

text \<open>The dedupe query finds the pending row that refuses the insertion.\<close>

lemma latest_first_set [simp]: "set (latest_first es) = set es"
  by (simp add: latest_first_def)

lemma pendingForHash_Some:
  "pendingAlertEventForDedupeHash s h = Some x \<Longrightarrow>
   \<exists>e \<in> set (alertEvents s). x = scanAlertEvent s e \<and> evDedupeHash e = h \<and>
     evStatus e = AlertEventStatusPending \<and> has_open s (evID e)"
proof -
  let ?es = "latest_first (filter (\<lambda>e. evDedupeHash e = h \<and> evStatus e = AlertEventStatusPending \<and>
              (\<exists>d \<in> set (dispatches_of s (evID e)). open_dispatch d)) (alertEvents s))"
  assume "pendingAlertEventForDedupeHash s h = Some x"
  then obtain e es where e: "?es = e # es" "x = scanAlertEvent s e"
    by (auto simp: pendingAlertEventForDedupeHash_def split: list.splits)
  then have "e \<in> set ?es" by (simp only: list.set_intros)
  with e(2) show ?thesis by (auto simp: has_open_def)
qed

lemma pendingForHash_None:
  "pendingAlertEventForDedupeHash s h = None \<longleftrightarrow>
   \<not> (\<exists>e \<in> set (alertEvents s). evDedupeHash e = h \<and> evStatus e = AlertEventStatusPending \<and> has_open s (evID e))"
proof -
  have "latest_first es = [] \<longleftrightarrow> es = []" for es by (metis latest_first_set set_empty)
  moreover have "pendingAlertEventForDedupeHash s h = None \<longleftrightarrow>
      latest_first (filter (\<lambda>e. evDedupeHash e = h \<and> evStatus e = AlertEventStatusPending \<and>
              (\<exists>d \<in> set (dispatches_of s (evID e)). open_dispatch d)) (alertEvents s)) = []"
    by (simp add: pendingAlertEventForDedupeHash_def split: list.split)
  ultimately show ?thesis by (auto simp: has_open_def filter_empty_conv)
qed

lemma pending_has_open:
  "alert_inv s \<Longrightarrow> e \<in> set (alertEvents s) \<Longrightarrow> evStatus e = AlertEventStatusPending \<Longrightarrow> has_open s (evID e)"
  by (metis alert_invD(4) synced_iff derived_pending has_open_def)

lemma no_unseen_conflict:
  "alert_inv s \<Longrightarrow> pendingAlertEventForDedupeHash s h = None \<Longrightarrow> \<not> pending_conflict s h"
  unfolding pendingForHash_None pending_conflict_def using pending_has_open by blast

lemma scan_event_id [simp]: "evID (scanAlertEvent s e) = evID e"
  by (simp add: scanAlertEvent_def prepareAlertEvent_def)

lemma enqueue_prepared_inv:
  assumes "alert_inv s" and "sinks \<noteq> []"
  shows "alert_inv (fst (enqueue_prepared s ev sinks cd))"
proof (cases "pendingAlertEventForDedupeHash s (evDedupeHash ev)")
  case None
  note nc = no_unseen_conflict [OF assms(1) None]
  have "alert_inv (ensurePendingAlertDispatches (eventSeq s + 1) sinks t (insert_event ev s))" for t
    using ensure_pending_enqueue_inv [OF insert_event_enqueue_inv(1) [OF assms(1) nc]
        disjI2 [OF insert_event_enqueue_inv(2) [OF assms(1) nc]] assms(2)]
    by (blast intro: enqueue_inv_alert_inv)
  with None nc assms(1) show ?thesis
    by (simp add: enqueue_prepared_def Let_def split: option.split)
next
  case (Some x)
  then obtain e where e: "e \<in> set (alertEvents s)" "x = scanAlertEvent s e"
      "evStatus e = AlertEventStatusPending" "has_open s (evID e)"
    using pendingForHash_Some by blast
  have "alert_inv (ensurePendingAlertDispatches (evID e) sinks t s)" for t
    using ensure_pending_enqueue_inv [OF alert_inv_enqueue_inv [OF assms(1) e(1,3)] disjI1 [OF e(4)] assms(2)]
    by (blast intro: enqueue_inv_alert_inv)
  with Some e(2) show ?thesis by (simp add: enqueue_prepared_def)
qed

lemma prepareAlertSinks_nonempty: "prepareAlertSinks s ks = Inr ks' \<Longrightarrow> ks' \<noteq> []"
  by (auto simp: prepareAlertSinks_def Let_def split: sum.splits if_splits)

lemma prepare_enqueue_sinks: "prepare_enqueue now s ev ks = Inr (ev', ks') \<Longrightarrow> ks' \<noteq> []"
  by (auto simp: prepare_enqueue_def Let_def split: sum.splits if_splits dest: prepareAlertSinks_nonempty)

lemma enqueue_tx_inv [inv_pres]:
  assumes "alert_inv s"
  shows "alert_inv (fst (enqueueAlertEventInTx now ev sinks cd s))"
  using assms
  by (auto simp: enqueueAlertEventInTx_def alert_inv_cong intro!: enqueue_prepared_inv
      split: sum.splits prod.splits option.splits dest: ensure_same prepare_enqueue_sinks)

lemma enqueue_once_inv [inv_pres]:
  assumes "alert_inv s"
  shows "alert_inv (fst (enqueueAlertEventOnce ev sinks cd now s))"
  unfolding enqueueAlertEventOnce_def
  by (rule commit_inv [OF assms]) (metis assms enqueue_tx_inv fst_conv)

section \<open>Retention\<close>

lemma dispatches_of_delete:
  "eid \<notin> set ids \<Longrightarrow> dispatches_of (delete_events ids s) eid = dispatches_of s eid"
  by (auto simp: dispatches_of_def delete_events_def intro: filter_cong)

lemma delete_events_events: "alertEvents (delete_events ids s) = filter (\<lambda>e. evID e \<notin> set ids) (alertEvents s)"
  by (simp add: delete_events_def)

lemma delete_events_inv [inv_pres]:
  assumes "alert_inv s"
  shows "alert_inv (delete_events ids s)"
proof -
  note inv = alert_invD [OF assms]
  have "row_keys (delete_events ids s)"
    using inv(1) by (auto simp: row_keys_def delete_events_def distinct_map_filter)
  moreover have "unique_pending (delete_events ids s)"
  proof -
    have "pending_events (delete_events ids s) = filter (\<lambda>e. evID e \<notin> set ids) (pending_events s)"
      by (simp add: pending_events_def delete_events_def conj_commute)
    with inv(3) show ?thesis by (simp add: unique_pending_def distinct_map_filter)
  qed
  moreover have "synced_except {} (delete_events ids s)"
    using inv(4) dispatches_of_delete unfolding synced_iff
    by (simp add: delete_events_events)
  ultimately show ?thesis using inv(2) by (intro alert_invI) (auto simp: delete_events_def)
qed

lemma prune_loop_inv:
  "alert_inv s \<Longrightarrow> alert_inv (fst (prune_loop stop cutoff batch i tot s))"
  by (induction stop cutoff batch i tot s rule: prune_loop.induct)
    (subst prune_loop.simps, auto simp: Let_def delete_events_inv)

lemma prune_inv [inv_pres]: "alert_inv s \<Longrightarrow> alert_inv (fst (PruneTerminalAlertEvents stop h b now s))"
  by (simp add: PruneTerminalAlertEvents_def Let_def prune_loop_inv)

end
