(* ===== verification/AlertHistory.thy ===== *)
theory AlertHistory
  imports AlertSafe
begin

text \<open>
  The alert state machine: a step is one exported operation of the store (with its retry loop) or
  the environment replacing the key file. The reachable states satisfy the invariant, the retry
  policy bounds the attempts, and a closed dispatch is never reopened or rewritten.
\<close>

section \<open>Steps\<close>

inductive alert_step :: "AlertRetryPolicy \<Rightarrow> Store \<Rightarrow> Store \<Rightarrow> bool" for p where
  enqueue: "EnqueueAlertEvent env ev sinks cd s = Some (t, r) \<Longrightarrow> alert_step p s t"
| claim: "ClaimPendingAlertDeliveriesWithRetryPolicy env w c l n p s = Some (t, r') \<Longrightarrow> alert_step p s t"
| result: "RecordAlertDispatchResultWithRetryPolicy env i w c st le p s = Some (t, r'') \<Longrightarrow> alert_step p s t"
| prune: "alert_step p s (fst (PruneTerminalAlertEvents stop h b now s))"
| key: "alert_step p s (s\<lparr>dedupeKeyFile := k, fingerprintRow := f\<rparr>)"

inductive_cases alert_stepE: "alert_step p s t"

definition empty_tables :: "Store \<Rightarrow> bool" where
  "empty_tables s \<longleftrightarrow> alertEvents s = [] \<and> alertDispatches s = [] \<and> eventSeq s = 0 \<and> dispatchSeq s = 0"

lemma tx_attempt_fst:
  "fst (tx_attempt env once i s) = s \<or> fst (tx_attempt env once i s) = fst (once (txNow env i) s)"
  by (simp add: tx_attempt_def split: option.split prod.split sum.split)

lemma alert_tx_invariant:
  assumes "\<And>now s. P s \<Longrightarrow> P (fst (once now s))" and "alert_tx env once s = Some (t, r)" and "P s"
  shows "P t"
proof (cases "ensureAlertStateUnlocked s")
  case None
  with assms(2) have "retry_loop (tx_attempt env once) tx_busy (txElapsed env)
      (\<lambda>i. map_option TxContext (txCtxErr env i)) 0 s = Some (t, r)"
    by (simp add: alert_tx_def retryAlertSQLiteBusy_def)
  from retry_loop_invariant [where P = P, OF _ this assms(3)] assms(1) tx_attempt_fst [of env once]
  show ?thesis by (metis fst_conv)
next
  case (Some e)
  with assms(2,3) show ?thesis by (simp add: alert_tx_def)
qed

text \<open>An invariant of the transactions and of the sweep is one of the steps.\<close>

lemma alert_step_invariant:
  assumes "alert_step p s t" and "P s"
    and "\<And>ev sinks cd now s. P s \<Longrightarrow> P (fst (enqueueAlertEventOnce ev sinks cd now s))"
    and "\<And>w c l n now s. P s \<Longrightarrow> P (fst (claimPendingAlertDeliveriesOnce w c l n (normalized p) now s))"
    and "\<And>i w c st le now s. P s \<Longrightarrow> P (fst (recordAlertDispatchResultOnce i w c st le (normalized p) now s))"
    and "\<And>stop h b now s. P s \<Longrightarrow> P (fst (PruneTerminalAlertEvents stop h b now s))"
    and "\<And>k f s. P s \<Longrightarrow> P (s\<lparr>dedupeKeyFile := k, fingerprintRow := f\<rparr>)"
  shows "P t"
  using assms(1)
proof (cases rule: alert_step.cases)
  case (enqueue env ev sinks cd r)
  then show ?thesis
    unfolding EnqueueAlertEvent_def by (rule alert_tx_invariant [where P = P, rotated]) (use assms in auto)
next
  case (claim env w c l n r)
  then show ?thesis unfolding ClaimPendingAlertDeliveriesWithRetryPolicy_def
    by (rule alert_tx_invariant [where P = P, rotated]) (use assms in auto)
next
  case (result env i w c st le r)
  then show ?thesis unfolding RecordAlertDispatchResultWithRetryPolicy_def
    by (rule alert_tx_invariant [where P = P, rotated]) (use assms in auto)
qed (use assms in auto)

lemma key_tables: "same_tables s (s\<lparr>dedupeKeyFile := k, fingerprintRow := f\<rparr>)"
  by (simp add: same_tables_def)

lemma alert_inv_key [inv_pres]: "alert_inv s \<Longrightarrow> alert_inv (s\<lparr>dedupeKeyFile := k, fingerprintRow := f\<rparr>)"
  using alert_inv_cong [OF key_tables] by blast

lemma alert_inv_step: "alert_step p s t \<Longrightarrow> alert_inv s \<Longrightarrow> alert_inv t"
  by (erule alert_step_invariant [where P = alert_inv]) (assumption | erule inv_pres)+

lemma alert_inv_steps: "(alert_step p)\<^sup>*\<^sup>* s t \<Longrightarrow> alert_inv s \<Longrightarrow> alert_inv t"
  by (induction rule: rtranclp_induct) (auto intro: alert_inv_step)

lemma empty_tables_inv: "empty_tables s \<Longrightarrow> alert_inv s"
  by (simp add: empty_tables_def alert_inv_def row_keys_def unique_pending_def pending_events_def synced_except_def)

section \<open>Attempts\<close>

lemma attempts_update:
  assumes "attempts_within m s"
    and "\<And>d. d \<in> set (alertDispatches s) \<Longrightarrow> P d \<Longrightarrow> 0 \<le> dAttempts d \<Longrightarrow> dAttempts d \<le> m \<Longrightarrow>
       (open_dispatch d \<longrightarrow> dAttempts d < m) \<Longrightarrow>
       0 \<le> dAttempts (f d) \<and> dAttempts (f d) \<le> m \<and> (open_dispatch (f d) \<longrightarrow> dAttempts (f d) < m)"
  shows "attempts_within m (update_dispatches P f s)"
  using assms by (auto simp: attempts_within_def set_update)

lemma attempts_cong: "alertDispatches t = alertDispatches s \<Longrightarrow> attempts_within m t \<longleftrightarrow> attempts_within m s"
  by (simp add: attempts_within_def)

lemma attempts_tables: "same_tables s t \<Longrightarrow> attempts_within m t \<longleftrightarrow> attempts_within m s"
  by (simp add: attempts_within_def same_tables_def)

lemma attempts_swept: "attempts_within m s \<Longrightarrow> attempts_within m (swept now m s)"
  unfolding swept_def deadLetter_fst
  by (subst attempts_cong [OF fold_sync_fields(1)], erule attempts_update)
    (auto simp: exhausted_def dead_letter_def open_dispatch_def)

lemma attempts_claim:
  assumes "row_keys (swept now (MaxAttempts p) s)" and "attempts_within (MaxAttempts p) s"
  shows "attempts_within (MaxAttempts p) (claim_tx now w c l n p s)"
  unfolding claim_tx_swept
  by (rule attempts_update [OF attempts_swept [OF assms(2)]])
    (auto dest!: claim_ids_row [OF assms(1)] simp: take_claim_def open_dispatch_def claimable_def)

lemma attempts_complete:
  assumes "attempts_within (MaxAttempts p) s" and "d0 \<in> set (alertDispatches s)"
    and "row_keys s" and "validAlertDispatchResultStatus st" and "a = dAttempts d0 + 1"
  shows "attempts_within (MaxAttempts p) (update_dispatches (\<lambda>d. held_by (dID d0) w c d \<and> now < lease_ns d)
    (complete_dispatch now (result_status p a st) w' c' le na) s)"
proof (rule attempts_update [OF assms(1)])
  fix d assume d: "d \<in> set (alertDispatches s)" "held_by (dID d0) w c d \<and> now < lease_ns d"
    "0 \<le> dAttempts d" "open_dispatch d \<longrightarrow> dAttempts d < MaxAttempts p"
  then have "d = d0" "open_dispatch d"
    using held_row [OF assms(3,2)] by (auto simp: held_by_def open_dispatch_def)
  with d assms(4,5) show "0 \<le> dAttempts (complete_dispatch now (result_status p a st) w' c' le na d) \<and>
      dAttempts (complete_dispatch now (result_status p a st) w' c' le na d) \<le> MaxAttempts p \<and>
      (open_dispatch (complete_dispatch now (result_status p a st) w' c' le na d) \<longrightarrow>
       dAttempts (complete_dispatch now (result_status p a st) w' c' le na d) < MaxAttempts p)"
    by (auto simp: complete_dispatch_def result_status_def open_dispatch_def validAlertDispatchResultStatus_def
        terminalAlertDispatchStatus_def split: if_splits)
qed

lemma attempts_note: "attempts_within m s \<Longrightarrow> attempts_within m (fst (noteExpiredAlertDispatchCompletion i w c now s))"
  unfolding noteExpiredAlertDispatchCompletion_def Let_def fst_conv
  by (erule attempts_update) (auto simp: open_dispatch_def)

lemma attempts_insert: "0 < m \<Longrightarrow> attempts_within m s \<Longrightarrow> attempts_within m (insert_dispatch eid t k s)"
  by (auto simp: attempts_within_def insert_dispatch_def new_dispatch_def)

lemma attempts_ensure: "0 < m \<Longrightarrow> attempts_within m s \<Longrightarrow> attempts_within m (ensurePendingAlertDispatches eid ks t s)"
  unfolding ensurePendingAlertDispatches_def by (induction ks arbitrary: s) (auto intro: attempts_insert)

lemma attempts_commit:
  "attempts_within m s \<Longrightarrow> attempts_within m (fst r) \<Longrightarrow> attempts_within m (fst (commit_or_rollback s r))"
  by (auto simp: commit_or_rollback_def rollback_def attempts_within_def split: sum.split)

lemma attempts_enqueue:
  assumes "0 < m" and "attempts_within m s"
  shows "attempts_within m (fst (enqueueAlertEventOnce ev ks cd now s))"
proof -
  have "attempts_within m (insert_event e s)" for e using assms(2) by (simp add: attempts_within_def)
  then have "attempts_within m (fst (enqueue_prepared s e k cd))" for e k
    using assms by (auto simp: enqueue_prepared_def Let_def attempts_ensure split: option.split)
  then show ?thesis unfolding enqueueAlertEventOnce_def
    by (intro attempts_commit [OF assms(2)])
      (use assms(2) in \<open>auto simp: enqueueAlertEventInTx_def attempts_tables dest: ensure_same
        split: sum.split prod.split option.split\<close>)
qed

lemma attempts_claim_once:
  assumes "alert_inv s" and "attempts_within (MaxAttempts p) s"
  shows "attempts_within (MaxAttempts p) (fst (claimPendingAlertDeliveriesOnce w c l n p now s))"
proof -
  have k: "row_keys (swept now (MaxAttempts p) s)" using swept_inv [OF assms(1)] by (rule alert_invD)
  show ?thesis using assms(2)
    by (auto simp: claimPendingAlertDeliveriesOnce_def Let_def attempts_tables intro!: attempts_commit attempts_claim [OF k]
        dest: ensure_same split: prod.split option.split)
qed

lemma attempts_record_once:
  assumes "alert_inv s" and "attempts_within (MaxAttempts p) s"
  shows "attempts_within (MaxAttempts p) (fst (recordAlertDispatchResultOnce i rw rc rst rle p now s))"
proof -
  note keys = alert_invD(1) [OF assms(1)]
  obtain t r where tr: "recordAlertDispatchResultOnce i rw rc rst rle p now s = (t, r)" by fastforce
  then have "attempts_within (MaxAttempts p) t"
  proof (cases rule: record_once_cases)
    case unchanged
    with assms(2) show ?thesis by (simp add: attempts_tables)
  next
    case (update d0)
    from assms(1) update(1) scanned_fields(1,2) update(4) [symmetric] show ?thesis
    proof (cases rule: record_update_cases)
      case (live na le')
      have "attempts_within (MaxAttempts p) (syncAlertEventStatus i' u) = attempts_within (MaxAttempts p) u" for i' u
        by (rule attempts_cong) simp
      with attempts_complete [OF assms(2) update(1) keys update(3)] show ?thesis
        by (simp only: live(3) scanned_fields)
    next
      case expired
      with assms(2) show ?thesis by (simp add: attempts_note)
    qed (use assms(2) in simp)
  qed
  with tr show ?thesis by simp
qed

lemma attempts_delete: "attempts_within m s \<Longrightarrow> attempts_within m (delete_events ids s)"
  by (simp add: attempts_within_def delete_events_def)

lemma prune_loop_invariant:
  assumes "\<And>ids s. P s \<Longrightarrow> P (delete_events ids s)"
  shows "P s \<Longrightarrow> P (fst (prune_loop stop cutoff batch i tot s))"
proof (induction stop cutoff batch i tot s rule: prune_loop.induct)
  case (1 stop cutoff batch i tot s)
  then show ?case by (subst prune_loop.simps) (auto simp: Let_def assms)
qed

lemma prune_invariant:
  "(\<And>ids s. P s \<Longrightarrow> P (delete_events ids s)) \<Longrightarrow> P s \<Longrightarrow> P (fst (PruneTerminalAlertEvents stop h b now s))"
  by (simp add: PruneTerminalAlertEvents_def Let_def prune_loop_invariant)

lemma attempts_step:
  assumes "alert_step p s t" and "alert_inv s" and "attempts_within (MaxAttempts (normalized p)) s"
  shows "alert_inv t \<and> attempts_within (MaxAttempts (normalized p)) t"
proof (rule alert_step_invariant [OF assms(1),
      where P = "\<lambda>s. alert_inv s \<and> attempts_within (MaxAttempts (normalized p)) s"])
  show "alert_inv (fst (PruneTerminalAlertEvents stop h b now s)) \<and>
      attempts_within (MaxAttempts (normalized p)) (fst (PruneTerminalAlertEvents stop h b now s))"
    if "alert_inv s \<and> attempts_within (MaxAttempts (normalized p)) s" for stop h b now s
    using that by (intro conjI prune_inv prune_invariant [where P = "attempts_within (MaxAttempts (normalized p))"])
      (simp_all add: attempts_delete)
next
  show "alert_inv (s\<lparr>dedupeKeyFile := k, fingerprintRow := f\<rparr>) \<and>
      attempts_within (MaxAttempts (normalized p)) (s\<lparr>dedupeKeyFile := k, fingerprintRow := f\<rparr>)"
    if "alert_inv s \<and> attempts_within (MaxAttempts (normalized p)) s" for k f s
    using that attempts_tables [OF key_tables] alert_inv_key by blast
qed (use assms in \<open>auto intro: inv_pres attempts_enqueue attempts_claim_once attempts_record_once\<close>)

section \<open>Closed dispatches\<close>

text \<open>The row is still there as it was, or it is gone for good.\<close>

definition settled :: "AlertDispatch \<Rightarrow> Store \<Rightarrow> bool" where
  "settled d t \<longleftrightarrow> row_keys t \<and> dID d \<le> dispatchSeq t \<and>
     (d \<in> set (alertDispatches t) \<or> dID d \<notin> dID ` set (alertDispatches t))"

lemma settled_tables: "alertDispatches t = alertDispatches s \<Longrightarrow> dispatchSeq t = dispatchSeq s \<Longrightarrow> row_keys t \<Longrightarrow>
  settled d s \<Longrightarrow> settled d t"
  by (simp add: settled_def)

lemma settled_same: "same_tables s t \<Longrightarrow> settled d s \<Longrightarrow> settled d t"
  by (simp add: settled_def same_tables_def row_keys_def)

lemma settled_update:
  assumes "settled d s" and "key_preserving f" and "\<And>x. x \<in> set (alertDispatches s) \<Longrightarrow> P x \<Longrightarrow> open_dispatch x"
    and "\<not> open_dispatch d"
  shows "settled d (update_dispatches P f s)"
proof -
  have "map dID (alertDispatches (update_dispatches P f s)) = map dID (alertDispatches s)"
    unfolding update_rows by (rule map_update_keys [OF assms(2)])
  then have "dID ` set (alertDispatches (update_dispatches P f s)) = dID ` set (alertDispatches s)"
    by (metis list.set_map)
  moreover have "d \<in> set (alertDispatches (update_dispatches P f s))" if "d \<in> set (alertDispatches s)"
    using that assms(3) [OF that] assms(4) by (auto simp: set_update)
  ultimately show ?thesis
    using assms(1) row_keys_update [OF assms(2)] by (auto simp: settled_def)
qed

lemma settled_sync: "settled d s \<Longrightarrow> settled d (syncAlertEventStatus i s)"
  by (simp add: settled_def)

lemma settled_fold_sync: "settled d s \<Longrightarrow> settled d (fold syncAlertEventStatus ids s)"
  by (induction ids arbitrary: s) (auto intro: settled_sync)

lemma settled_claim:
  assumes "settled d s" and "alert_inv s" and "\<not> open_dispatch d"
  shows "settled d (claim_tx now w c l n p s)"
proof -
  have "settled d (swept now (MaxAttempts p) s)"
    unfolding swept_def deadLetter_fst
    by (intro settled_fold_sync settled_update [OF assms(1) _ _ assms(3)]) (auto simp: exhausted_def open_dispatch_def)
  then show ?thesis
    unfolding claim_tx_swept
    by (rule settled_update [OF _ _ _ assms(3)])
      (auto intro: claimable_open claim_ids_row [OF alert_invD(1) [OF swept_inv [OF assms(2)]]])
qed

lemma settled_insert:
  assumes "settled d s" and "eid \<in> evID ` set (alertEvents s)"
  shows "settled d (insert_dispatch eid t k s)"
  using assms
proof (cases "\<exists>x \<in> set (alertDispatches s). dEventID x = eid \<and> dSink x = k")
  case True
  with assms show ?thesis by (simp add: insert_dispatch_def)
next
  case False
  let ?n = "new_dispatch (dispatchSeq s + 1) eid k t"
  have ds: "alertDispatches (insert_dispatch eid t k s) = alertDispatches s @ [?n]"
    "dispatchSeq (insert_dispatch eid t k s) = dispatchSeq s + 1"
    using False by (auto simp: insert_dispatch_def)
  have "row_keys (insert_dispatch eid t k s)"
    by (rule insert_dispatch_keys) (use assms in \<open>simp_all add: settled_def\<close>)
  with assms(1) show ?thesis by (auto simp: settled_def ds new_dispatch_def)
qed

lemma settled_ensure:
  assumes "settled d s" and "eid \<in> evID ` set (alertEvents s)"
  shows "settled d (ensurePendingAlertDispatches eid ks t s)"
  using assms unfolding ensurePendingAlertDispatches_def
proof (induction ks arbitrary: s)
  case (Cons k ks)
  have "settled d (insert_dispatch eid t k s)" "eid \<in> evID ` set (alertEvents (insert_dispatch eid t k s))"
    using Cons.prems by (simp_all add: settled_insert)
  then show ?case by (simp add: Cons.IH)
qed simp

lemma settled_commit:
  "settled d s \<Longrightarrow> (\<And>t x. r = (t, Inr x) \<Longrightarrow> settled d t) \<Longrightarrow> settled d (fst (commit_or_rollback s r))"
  by (cases r; cases "snd r") (auto simp: commit_or_rollback_def intro: settled_same [OF rollback_tables])

lemma settled_enqueue_prepared:
  assumes "settled d s" and "alert_inv s"
  shows "settled d (fst (enqueue_prepared s ev ks cd))"
proof (cases "pendingAlertEventForDedupeHash s (evDedupeHash ev)")
  case None
  note nc = no_unseen_conflict [OF assms(2) None]
  have "row_keys (insert_event ev s)"
    using insert_event_enqueue_inv(1) [OF assms(2) nc] by (simp add: enqueue_inv_def)
  with assms(1) have "settled d (insert_event ev s)" by (simp add: settled_def)
  then have "settled d (ensurePendingAlertDispatches (eventSeq s + 1) ks t (insert_event ev s))" for t
    by (rule settled_ensure) simp
  with None nc assms(1) show ?thesis by (simp add: enqueue_prepared_def Let_def split: option.split)
next
  case (Some x)
  then obtain e where "e \<in> set (alertEvents s)" "x = scanAlertEvent s e"
    using pendingForHash_Some by blast
  with Some assms(1) show ?thesis by (simp add: enqueue_prepared_def settled_ensure)
qed

lemma settled_enqueue:
  assumes "settled d s" and "alert_inv s"
  shows "settled d (fst (enqueueAlertEventOnce ev ks cd now s))"
  unfolding enqueueAlertEventOnce_def
proof (rule settled_commit [OF assms(1)])
  fix t x assume "enqueueAlertEventInTx now ev ks cd s = (t, Inr x)"
  then obtain ev' ks' where "(t, Inr x) = enqueue_prepared s ev' ks' cd"
    by (auto simp: enqueueAlertEventInTx_def split: sum.splits prod.splits option.splits dest: ensure_same(2))
      (metis ensure_same(2))
  then show "settled d t" using settled_enqueue_prepared [OF assms] by (metis fst_conv)
qed

lemma settled_claim_once:
  assumes "settled d s" and "alert_inv s" and "\<not> open_dispatch d"
  shows "settled d (fst (claimPendingAlertDeliveriesOnce w c l n p now s))"
  unfolding claimPendingAlertDeliveriesOnce_def Let_def
  using assms(1) settled_claim [OF assms]
  by (auto intro!: settled_commit split: prod.splits option.splits dest: ensure_same)

lemma settled_record_once:
  assumes "settled d s" and "alert_inv s" and "\<not> open_dispatch d"
  shows "settled d (fst (recordAlertDispatchResultOnce i rw rc rst rle p now s))"
proof -
  obtain t r where tr: "recordAlertDispatchResultOnce i rw rc rst rle p now s = (t, r)" by fastforce
  then have "settled d t"
  proof (cases rule: record_once_cases)
    case unchanged
    with assms(1) show ?thesis by (rule settled_same [rotated])
  next
    case (update d0)
    from assms(2) update(1) scanned_fields(1,2) update(4) [symmetric] show ?thesis
    proof (cases rule: record_update_cases)
      case (live na le')
      show ?thesis unfolding live(3)
        by (intro settled_sync settled_update [OF assms(1) _ _ assms(3)]) (auto simp: held_by_def open_dispatch_def)
    next
      case expired
      show ?thesis unfolding expired(3) noteExpiredAlertDispatchCompletion_def Let_def fst_conv
        by (intro settled_update [OF assms(1) _ _ assms(3)]) (auto simp: held_by_def open_dispatch_def)
    qed (use assms(1) in simp)
  qed
  with tr show ?thesis by simp
qed

lemma settled_delete: "alert_inv s \<Longrightarrow> settled d s \<Longrightarrow> settled d (delete_events ids s)"
  using alert_invD(1) [OF delete_events_inv, of s ids]
  by (auto simp: settled_def delete_events_def) (metis (no_types, lifting) row_keys_unique settled_def)

lemma settled_step:
  assumes "alert_step p s t" and "alert_inv s" and "settled d s" and closed: "\<not> open_dispatch d"
  shows "alert_inv t \<and> settled d t"
proof (rule alert_step_invariant [OF assms(1), where P = "\<lambda>s. alert_inv s \<and> settled d s"])
  show "alert_inv (fst (PruneTerminalAlertEvents stop h b now s)) \<and>
      settled d (fst (PruneTerminalAlertEvents stop h b now s))"
    if "alert_inv s \<and> settled d s" for stop h b now s
    by (rule prune_invariant [where P = "\<lambda>s. alert_inv s \<and> settled d s", OF _ that])
      (simp add: delete_events_inv settled_delete)
next
  show "alert_inv (s\<lparr>dedupeKeyFile := k, fingerprintRow := f\<rparr>) \<and> settled d (s\<lparr>dedupeKeyFile := k, fingerprintRow := f\<rparr>)"
    if "alert_inv s \<and> settled d s" for k f s
    using that settled_same [OF key_tables] alert_inv_key by blast
qed (use assms in \<open>auto intro: inv_pres settled_enqueue settled_claim_once [OF _ _ closed] settled_record_once [OF _ _ closed]\<close>)

lemma settled_steps:
  assumes "(alert_step p)\<^sup>*\<^sup>* s t" and "alert_inv s" and "settled d s" and "\<not> open_dispatch d"
  shows "alert_inv t \<and> settled d t"
  using assms(1)
proof (induction rule: rtranclp_induct)
  case (step u v)
  then show ?case using settled_step [OF step.hyps(2) _ _ assms(4)] by blast
qed (use assms in simp)

end
