(* ===== verification/AlertProps.thy ===== *)
theory AlertProps
  imports AlertHistory
begin

text \<open>
  The properties of the alert operations: what a claim grants and what it leaves alone, who may
  record a result, that a repeated record changes nothing, what a second enqueue does, and what the
  retention sweep removes. The store of the witnesses has one event with one dispatch.
\<close>

section \<open>The store of the witnesses\<close>

definition demo_event :: AlertEvent where
  "demo_event = \<lparr>evID = 1, evKind = ''health'', evServiceID = ''web'', evTarget = ''a'', evRepository = [],
     evAgent = [], evOldState = ''healthy'', evNewState = ''down'', evReason = [], evDedupeKey = ''k1'',
     evCooldownKey = [], evDedupeHash = ''h1'', evCreatedAt = 100, evStatus = AlertEventStatusPending\<rparr>"

definition demo_dispatch :: AlertDispatch where
  "demo_dispatch = new_dispatch 1 1 ''log'' 100"

definition demo_empty :: Store where
  "demo_empty = \<lparr>alertEvents = [], alertDispatches = [], eventSeq = 0, dispatchSeq = 0,
     fingerprintRow = Some (alertDedupeKeyFingerprint ''key''), dedupeKeyFile = Some ''key'',
     redactionTokens = [], alertDedupeKey = ''key'', alertSinkNames = [''log''], alertSinkAllowlist = True,
     alertStateDurableLockMsg = [], alertStateCleanupLockMsg = [], startupWarnings = []\<rparr>"

definition demo_store :: Store where
  "demo_store = demo_empty\<lparr>alertEvents := [demo_event], alertDispatches := [demo_dispatch],
     eventSeq := 1, dispatchSeq := 1\<rparr>"

definition demo_held :: Store where
  "demo_held = update_dispatches (\<lambda>d. dID d = 1) (take_claim 200 ''w'' ''c'' 500) demo_store"

definition demo_policy :: AlertRetryPolicy where
  "demo_policy = DefaultAlertRetryPolicy"

lemmas demo_defs = demo_event_def demo_dispatch_def demo_empty_def demo_store_def demo_held_def
  new_dispatch_def update_dispatches_def take_claim_def

lemma demo_store_inv: "alert_inv demo_store"
  by (simp add: alert_inv_def demo_defs row_keys_def row_ok_def validAlertDispatchStatus_def unique_pending_def
      pending_events_def synced_iff dispatches_of_def derived_pending [THEN iffD2] derived_status_def
      count_status_def open_dispatch_def)

lemma demo_held_inv: "alert_inv demo_held"
  by (simp add: alert_inv_def demo_defs row_keys_def row_ok_def validAlertDispatchStatus_def unique_pending_def
      pending_events_def synced_iff dispatches_of_def derived_status_def count_status_def open_dispatch_def)

lemma demo_key: "ensureAlertDedupeKeyCurrent demo_empty = (demo_empty, None)"
  "ensureAlertDedupeKeyCurrent demo_store = (demo_store, None)"
  "ensureAlertDedupeKeyCurrent demo_held = (demo_held, None)"
  by (simp_all add: ensureAlertDedupeKeyCurrent_def demo_defs)

section \<open>Returning\<close>

text \<open>Without an error of SQLite an operation is its first attempt.\<close>

lemma alert_tx_first:
  assumes "ensureAlertStateUnlocked s = None" and "txSQLError env 0 = None"
  shows "alert_tx env once s = Some (tx_attempt env once 0 s)"
  using assms by (auto simp: alert_tx_def retryAlertSQLiteBusy_def tx_attempt_def tx_busy_def retry_loop.simps
      split: prod.split sum.split)

lemma alert_tx_returns:
  assumes "alertSQLiteBusyMaxRetryDuration \<le> txElapsed env n"
  shows "\<exists>r. alert_tx env once s = Some r"
proof (cases "ensureAlertStateUnlocked s")
  case None
  have "\<exists>r. retry_loop (tx_attempt env once) tx_busy (txElapsed env)
      (\<lambda>i. map_option TxContext (txCtxErr env i)) 0 s = Some r"
    by (rule retry_loop_returns [where n = n]) (use assms in simp)
  with None show ?thesis by (simp add: alert_tx_def retryAlertSQLiteBusy_def)
qed (simp add: alert_tx_def)

definition demo_env :: tx_env where
  "demo_env = \<lparr>txSQLError = (\<lambda>_. Some ''database is locked''), txNow = (\<lambda>_. 200),
     txElapsed = (\<lambda>i. int i * Second), txCtxErr = (\<lambda>_. None)\<rparr>"



section \<open>Reachable states\<close>

text \<open>C1: in every state reached from empty tables by the operations of the store (with their retry
  loops), under any clock and any replacement of the key file: the keys and references hold, at most
  one event is pending for a dedupe hash, every event has the status derived from its dispatches, a
  lease is there exactly while a dispatch is in flight, and no dispatch has more attempts than the
  retry policy allows, or as many while it is still open.\<close>

theorem alert_state_invariant:
  assumes "empty_tables s0" and "(alert_step p)\<^sup>*\<^sup>* s0 s"
  shows "alert_inv s \<and> attempts_within (MaxAttempts (normalized p)) s"
  using assms(2)
proof (induction rule: rtranclp_induct)
  case base
  with assms(1) show ?case by (auto simp: empty_tables_inv attempts_within_def empty_tables_def)
next
  case (step s t)
  then show ?case using attempts_step by blast
qed

definition demo_run_env :: tx_env where
  "demo_run_env = demo_env\<lparr>txSQLError := (\<lambda>_. None)\<rparr>"

definition demo_enqueued :: Store where
  "demo_enqueued = fst (tx_attempt demo_run_env (enqueueAlertEventOnce demo_event [''log''] 0) 0 demo_empty)"

theorem alert_state_invariant_witness:
  "alert_inv demo_enqueued \<and> attempts_within (MaxAttempts (normalized demo_policy)) demo_enqueued"
proof -
  have "alert_tx demo_run_env (enqueueAlertEventOnce demo_event [''log''] 0) demo_empty =
      Some (tx_attempt demo_run_env (enqueueAlertEventOnce demo_event [''log''] 0) 0 demo_empty)"
    by (rule alert_tx_first)
      (simp_all add: ensureAlertStateUnlocked_def alertStateLockMessage_def demo_defs demo_run_env_def)
  then have "EnqueueAlertEvent demo_run_env demo_event [''log''] 0 demo_empty =
      Some (demo_enqueued, snd (tx_attempt demo_run_env (enqueueAlertEventOnce demo_event [''log''] 0) 0 demo_empty))"
    by (simp add: EnqueueAlertEvent_def demo_enqueued_def)
  then have "(alert_step demo_policy)\<^sup>*\<^sup>* demo_empty demo_enqueued"
    by (blast intro: alert_step.enqueue)
  moreover have "empty_tables demo_empty" by (simp add: empty_tables_def demo_empty_def)
  ultimately show ?thesis by (rule alert_state_invariant [rotated])
qed

text \<open>C4: a dispatch that is closed (delivered, dead-lettered, skipped or reset) is final: whatever
  operations follow, its row is the same to the last field, or it has been removed with its event
  and its id is never used again.\<close>

theorem closed_dispatch_is_final:
  assumes "alert_inv s" and "d \<in> set (alertDispatches s)" and "\<not> open_dispatch d"
    and "(alert_step p)\<^sup>*\<^sup>* s t"
  shows "d \<in> set (alertDispatches t) \<or> dID d \<notin> dID ` set (alertDispatches t)"
proof -
  have "settled d s" using assms(1,2) by (auto simp: settled_def alert_inv_def row_keys_def)
  with settled_steps [OF assms(4,1) _ assms(3)] show ?thesis by (simp add: settled_def)
qed

definition demo_done :: Store where
  "demo_done = set_event_status 1 AlertEventStatusDelivered
     (update_dispatches (\<lambda>d. dID d = 1) (complete_dispatch 300 AlertDispatchStatusDelivered ''w'' ''c'' [] 0) demo_held)"

lemmas demo_done_defs = demo_defs demo_done_def complete_dispatch_def set_event_status_def

lemma demo_done_inv: "alert_inv demo_done"
  by (simp add: alert_inv_def demo_done_defs row_keys_def row_ok_def validAlertDispatchStatus_def
      terminalAlertDispatchStatus_def unique_pending_def pending_events_def synced_iff dispatches_of_def
      derived_status_def count_status_def open_dispatch_def)

definition demo_swept :: Store where
  "demo_swept = fst (PruneTerminalAlertEvents (\<lambda>_. False) 50 0 120 demo_done)"

theorem closed_dispatch_is_final_witness:
  "(hd (alertDispatches demo_done) \<in> set (alertDispatches demo_swept)) =
   (dID (hd (alertDispatches demo_done)) \<in> dID ` set (alertDispatches demo_swept))"
proof -
  have "hd (alertDispatches demo_done) \<in> set (alertDispatches demo_done)" "\<not> open_dispatch (hd (alertDispatches demo_done))"
    by (simp_all add: demo_done_defs open_dispatch_def)
  moreover have "(alert_step demo_policy)\<^sup>*\<^sup>* demo_done demo_swept"
    unfolding demo_swept_def by (blast intro: alert_step.prune)
  ultimately show ?thesis using closed_dispatch_is_final [OF demo_done_inv] by blast
qed

section \<open>Claim\<close>

lemma claim_once_Inr:
  assumes "claimPendingAlertDeliveriesOnce rw c l n p now s = (t, Inr ds)"
  shows "t = claim_tx now (TrimSpace (redact s rw)) c l n p s"
    and "ds = map (scanAlertDelivery t) (claimed_rows (TrimSpace (redact s rw)) c t)"
    and "0 < l" and "0 < n" and "TrimSpace (redact s rw) \<noteq> []"
  using assms
  by (auto simp: claimPendingAlertDeliveriesOnce_def commit_or_rollback_def Let_def dest: ensure_same(2)
      split: prod.splits option.splits if_splits sum.splits)

text \<open>The rows a claim takes, when its token is fresh, are those of \<open>claim_ids\<close>.\<close>

lemma claimed_dispatches:
  assumes "alert_inv s" and fresh: "\<forall>d \<in> set (alertDispatches s). dClaimID d \<noteq> c"
    and t: "t = claim_tx now w c l n p s"
  shows "snd ` set (claimed_rows w c t) =
    take_claim now w c (now + l) ` {d \<in> set (alertDispatches s). dID d \<in> set (claim_ids now (MaxAttempts p) n (swept now (MaxAttempts p) s))}"
    and "\<And>d. d \<in> set (alertDispatches s) \<Longrightarrow> dID d \<in> set (claim_ids now (MaxAttempts p) n (swept now (MaxAttempts p) s)) \<Longrightarrow>
      claimable now (MaxAttempts p) d"
proof -
  let ?m = "MaxAttempts p"
  let ?u = "swept now ?m s"
  let ?I = "set (claim_ids now ?m n ?u)"
  let ?f = "take_claim now w c (now + l)"
  note uinv = swept_inv [OF assms(1), of now ?m]
  note row = claim_ids_row [OF alert_invD(1) [OF uinv]]
  have in_u: "x \<in> set (alertDispatches ?u) \<longleftrightarrow>
      (\<exists>d \<in> set (alertDispatches s). x = (if exhausted now ?m d then dead_letter now d else d))" for x
    by (auto simp: swept_rows)
  have old: "x \<in> set (alertDispatches s)" if "x \<in> set (alertDispatches ?u)" "dID x \<in> ?I" for x
    using row [OF that] that(1) unfolding in_u by (auto simp: claimable_def dead_letter_def split: if_splits)
  have new: "d \<in> set (alertDispatches ?u) \<and> claimable now ?m d" if "d \<in> set (alertDispatches s)" "dID d \<in> ?I" for d
  proof -
    let ?x = "if exhausted now ?m d then dead_letter now d else d"
    have x: "?x \<in> set (alertDispatches ?u)" "dID ?x \<in> ?I"
      using that by (auto simp: in_u dead_letter_def)
    from row [OF x] have "?x = d" by (auto simp: claimable_def dead_letter_def split: if_splits)
    with x row [OF x] show ?thesis by simp
  qed
  then show "claimable now ?m d" if "d \<in> set (alertDispatches s)" "dID d \<in> ?I" for d
    using that by blast
  have dt: "set (alertDispatches t) = (\<lambda>x. if dID x \<in> ?I then ?f x else x) ` set (alertDispatches ?u)"
    by (simp add: t claim_tx_swept set_update)
  have keys: "row_keys t" unfolding t by (rule alert_invD(1) [OF claim_tx_inv [OF assms(1)]])
  show "snd ` set (claimed_rows w c t) = ?f ` {d \<in> set (alertDispatches s). dID d \<in> ?I}"
  proof (intro equalityI subsetI)
    fix d assume "d \<in> snd ` set (claimed_rows w c t)"
    then have d: "d \<in> set (alertDispatches t)" "dStatus d = AlertDispatchStatusInFlight" "dClaimID d = c"
      by (auto simp: claimed_rows_def set_joined)
    then obtain x where x: "x \<in> set (alertDispatches ?u)" "d = (if dID x \<in> ?I then ?f x else x)"
      unfolding dt by blast
    show "d \<in> ?f ` {d \<in> set (alertDispatches s). dID d \<in> ?I}"
    proof (cases "dID x \<in> ?I")
      case True
      with x old show ?thesis by auto
    next
      case False
      with x d fresh have False unfolding in_u by (auto simp: dead_letter_def split: if_splits)
      then show ?thesis ..
    qed
  next
    fix y assume "y \<in> ?f ` {d \<in> set (alertDispatches s). dID d \<in> ?I}"
    then obtain d where d: "d \<in> set (alertDispatches s)" "dID d \<in> ?I" "y = ?f d" by blast
    then have "y \<in> set (alertDispatches t)" using new [OF d(1,2)] unfolding dt by force
    then obtain e where "(e, y) \<in> set (joined t)" using joined_row [OF keys] by blast
    moreover have "dStatus y = AlertDispatchStatusInFlight" "dWorkerID y = w" "dClaimID y = c"
      by (simp_all add: d(3) take_claim_def)
    ultimately have "(e, y) \<in> set (claimed_rows w c t)" by (simp add: claimed_rows_def)
    then show "y \<in> snd ` set (claimed_rows w c t)" by force
  qed
qed

lemma take_claim_id [simp]: "dID (take_claim now w c l d) = dID d"
  by (simp add: take_claim_def)

lemma claimed_ids:
  assumes "alert_inv s" and "\<forall>d \<in> set (alertDispatches s). dClaimID d \<noteq> c" and t: "t = claim_tx now w c l n p s"
  shows "distinct (map (\<lambda>(e, d). dID d) (claimed_rows w c t))"
    and "set (map (\<lambda>(e, d). dID d) (claimed_rows w c t)) = set (claim_ids now (MaxAttempts p) n (swept now (MaxAttempts p) s))"
    and "length (claimed_rows w c t) \<le> nat n"
proof -
  let ?ids = "claim_ids now (MaxAttempts p) n (swept now (MaxAttempts p) s)"
  have keys: "row_keys t" "row_keys (swept now (MaxAttempts p) s)"
    using alert_invD(1) [OF claim_tx_inv [OF assms(1)]] alert_invD(1) [OF swept_inv [OF assms(1)]] by (auto simp: t)
  show dist: "distinct (map (\<lambda>(e, d). dID d) (claimed_rows w c t))"
    unfolding claimed_rows_def by (intro distinct_delivery_order distinct_map_filter distinct_joined keys)
  have "set (map (\<lambda>(e, d). dID d) (claimed_rows w c t)) = dID ` snd ` set (claimed_rows w c t)"
    by (force simp: image_image)
  also have "\<dots> = dID ` {d \<in> set (alertDispatches s). dID d \<in> set ?ids}"
    unfolding claimed_dispatches(1) [OF assms] by (simp add: image_image)
  also have "\<dots> = set ?ids"
  proof -
    have "i \<in> dID ` set (alertDispatches s)" if "i \<in> set ?ids" for i
    proof -
      have "map dID (alertDispatches (swept now (MaxAttempts p) s)) = map dID (alertDispatches s)"
        unfolding swept_rows by (rule map_update_keys) simp
      with claim_ids_claimable [OF that] show ?thesis by (metis imageI list.set_map)
    qed
    then show ?thesis by auto
  qed
  finally show ids: "set (map (\<lambda>(e, d). dID d) (claimed_rows w c t)) = set ?ids" .
  have "length (claimed_rows w c t) = card (set ?ids)"
    using distinct_card [OF dist] ids by simp
  also have "\<dots> \<le> nat n" using card_length [of ?ids] length_claim_ids le_trans by blast
  finally show "length (claimed_rows w c t) \<le> nat n" .
qed


lemma redact_w: "TrimSpace (RedactWith ''w'' []) = ''w''"
  by code_simp

lemma redact_empty: "TrimSpace (RedactWith [] []) = []"
  by code_simp

lemma demo_redact:
  "redact demo_store v = RedactWith v []" "redact demo_held v = RedactWith v []" "redact demo_done v = RedactWith v []"
  by (simp_all add: redact_def demo_done_defs)

lemma demo_claim:
  "\<exists>t ds. claimPendingAlertDeliveriesOnce ''w'' ''c'' 500 5 demo_policy 200 demo_store = (t, Inr ds)"
  by (simp add: claimPendingAlertDeliveriesOnce_def demo_redact redact_w demo_key commit_or_rollback_def Let_def)


text \<open>a dispatch whose lease is still running is untouched by a claim, whoever makes it: no other
  worker can receive it, and its row stays the same.\<close>

lemma claim_leaves_live_leases:
  assumes "alert_inv s" and "d \<in> set (alertDispatches s)" and "dStatus d = AlertDispatchStatusInFlight"
    and "now < lease_ns d"
  shows "d \<in> set (alertDispatches (fst (claimPendingAlertDeliveriesOnce rw c l n p now s)))"
proof -
  have keep: "d \<in> set (alertDispatches (claim_tx now w c l n p s))" for w
  proof -
    have u: "d \<in> set (alertDispatches (swept now (MaxAttempts p) s))"
      using assms(2,4) by (force simp: swept_rows exhausted_def)
    then have "dID d \<notin> set (claim_ids now (MaxAttempts p) n (swept now (MaxAttempts p) s))"
      using claim_ids_row [OF alert_invD(1) [OF swept_inv [OF assms(1)]] u, of now "MaxAttempts p" n] assms(3,4) by (auto simp: claimable_def)
    with u show ?thesis by (force simp: claim_tx_swept set_update)
  qed
  have "alertDispatches (rollback s t) = alertDispatches s" for t by (simp add: rollback_def)
  with keep assms(2) show ?thesis
    by (auto simp: claimPendingAlertDeliveriesOnce_def commit_or_rollback_def Let_def same_tables_def
        dest!: ensure_same split: prod.split option.split sum.split)
qed

section \<open>Record\<close>

text \<open>The identifying and scheduling columns of a dispatch.\<close>

definition schedule :: "AlertDispatch \<Rightarrow> int \<times> string \<times> int \<times> string \<times> string \<times> gotime option \<times> int" where
  "schedule d = (dID d, dStatus d, dAttempts d, dWorkerID d, dClaimID d, dLeaseExpiresAt d, dNextAttemptAtNS d)"

text \<open>C3: the status, the attempts or the lease of a dispatch change by a recorded result only if the
  recording worker holds it (its worker name and claim token, in flight) and its lease is running;
  then the attempts grow by one and the status is the recorded one, or dead-lettered when a retry
  is asked for and the attempts are used up.\<close>

theorem record_only_by_holder:
  assumes "alert_inv s" and "recordAlertDispatchResultOnce i rw rc rst rle p now s = (t, r)"
    and "d \<in> set (alertDispatches s)" and "d' \<in> set (alertDispatches t)" and "dID d' = dID d"
    and "schedule d' \<noteq> schedule d"
  shows "dID d = i \<and> dStatus d = AlertDispatchStatusInFlight \<and> dWorkerID d = TrimSpace (redact s rw) \<and> dClaimID d = TrimSpace rc \<and>
    now < lease_ns d \<and> dAttempts d' = dAttempts d + 1 \<and> dStatus d' = result_status p (dAttempts d + 1) (TrimSpace rst)"
  using assms(2)
proof (cases rule: record_once_cases)
  case unchanged
  with assms(3,4) have "d' = d"
    using row_keys_unique [OF alert_invD(1) [OF assms(1)] _ assms(3) assms(5)] by (simp add: same_tables_def)
  with assms(6) show ?thesis by simp
next
  case (update d0)
  note uniq = row_keys_unique [OF alert_invD(1) [OF assms(1)]]
  from assms(1) update(1) scanned_fields(1,2) update(4) [symmetric] show ?thesis
  proof (cases rule: record_update_cases)
    case (live na le')
    let ?w = "TrimSpace (redact s rw)" and ?c = "TrimSpace rc"
    let ?P = "\<lambda>d. held_by (dID d0) ?w ?c d \<and> now < lease_ns d"
    from assms(4) obtain x where x: "x \<in> set (alertDispatches s)"
      "d' = (if ?P x then complete_dispatch now (result_status p (dAttempts d0 + 1) (TrimSpace rst)) ?w ?c le' na x else x)"
      by (auto simp: live(3) set_update)
    then have "dID x = dID d'" by (simp add: complete_dispatch_def)
    with assms(5) have "x = d" using uniq [OF x(1) assms(3)] by simp
    with x(2) assms(6) have P: "?P d" by (cases "?P d") (simp_all only: if_False not_True_eq_False simp_thms)
    then have "d = d0" using held_row [OF alert_invD(1) [OF assms(1)] update(1) assms(3)] by blast
    with x(2) P \<open>x = d\<close> update(2) show ?thesis by (simp add: complete_dispatch_def held_by_def)
  next
    case expired
    then obtain x where "x \<in> set (alertDispatches s)" "schedule d' = schedule x" "dID d' = dID x"
      using assms(4) by (auto simp: noteExpiredAlertDispatchCompletion_def Let_def set_update schedule_def)
    with assms(5,6) uniq [OF _ assms(3)] show ?thesis by metis
  next
    case lost
    with assms(3-6) uniq [OF _ assms(3)] show ?thesis by metis
  qed
qed

text \<open>a record that is refused, for whatever reason, leaves every event and the identity, status,
  attempts, lease and schedule of every dispatch as they were.\<close>

lemma refused_record_changes_nothing:
  assumes "alert_inv s" and "recordAlertDispatchResultOnce i rw rc rst rle p now s = (t, Inl e)"
  shows "alertEvents t = alertEvents s \<and> map schedule (alertDispatches t) = map schedule (alertDispatches s)"
  using assms(2)
proof (cases rule: record_once_cases)
  case unchanged
  then show ?thesis by (simp add: same_tables_def)
next
  case (update d0)
  from assms(1) update(1) scanned_fields(1,2) update(4) [symmetric] show ?thesis
  proof (cases rule: record_update_cases)
    case expired
    then show ?thesis by (simp add: noteExpiredAlertDispatchCompletion_def Let_def update_rows schedule_def)
  qed simp_all
qed

lemma demo_joined: "joined demo_held = [(demo_event, take_claim 200 ''w'' ''c'' 500 demo_dispatch)]"
  by (simp add: joined_def demo_defs dispatches_of_def)

lemma demo_scanned: "prepareScannedAlertDispatch demo_held (take_claim 200 ''w'' ''c'' 500 demo_dispatch) =
    take_claim 200 ''w'' ''c'' 500 demo_dispatch"
  by (simp add: prepareScannedAlertDispatch_def demo_redact redact_w redact_empty take_claim_def demo_dispatch_def
      new_dispatch_def trim_eval)

lemma demo_record:
  "recordAlertDispatchResultOnce 1 ''w'' ''c'' ''delivered'' [] demo_policy now demo_held =
   record_update (take_claim 200 ''w'' ''c'' 500 demo_dispatch) ''w'' ''c'' ''delivered'' [] demo_policy now demo_held"
  by (simp add: recordAlertDispatchResultOnce_def Let_def demo_redact redact_w redact_empty trim_eval
      validAlertDispatchResultStatus_def terminalAlertDispatchStatus_def demo_key demo_joined demo_scanned result_error_def)
    (simp add: take_claim_def demo_dispatch_def new_dispatch_def)

lemma demo_record_live: "\<exists>x. recordAlertDispatchResultOnce 1 ''w'' ''c'' ''delivered'' [] demo_policy 300 demo_held =
   (demo_done, Inr x)"
  unfolding demo_record
  by (simp add: record_update_def Let_def held_by_def lease_ns_def result_status_def demo_done_defs
      syncAlertEventStatus_def dispatches_of_def derived_status_def count_status_def open_dispatch_def)

lemma demo_record_late: "\<exists>t. recordAlertDispatchResultOnce 1 ''w'' ''c'' ''delivered'' [] demo_policy 700 demo_held =
   (t, Inl ErrAlertDispatchLeaseExpired)"
  unfolding demo_record
  by (simp add: record_update_def Let_def held_by_def lease_ns_def result_status_def demo_defs
      noteExpiredAlertDispatchCompletion_def)

theorem record_only_by_holder_witness:
  "held_by 1 ''w'' ''c'' (hd (alertDispatches demo_held)) \<and> (300::int) < lease_ns (hd (alertDispatches demo_held))"
proof -
  obtain x where "recordAlertDispatchResultOnce 1 ''w'' ''c'' ''delivered'' [] demo_policy 300 demo_held = (demo_done, Inr x)"
    using demo_record_live by blast
  moreover have "hd (alertDispatches demo_held) \<in> set (alertDispatches demo_held)" "hd (alertDispatches demo_done) \<in> set (alertDispatches demo_done)"
    "dID (hd (alertDispatches demo_done)) = dID (hd (alertDispatches demo_held))"
    "schedule (hd (alertDispatches demo_done)) \<noteq> schedule (hd (alertDispatches demo_held))"
    by (simp_all add: demo_done_defs schedule_def)
  ultimately show ?thesis
    using record_only_by_holder [OF demo_held_inv] by (auto simp: held_by_def demo_redact redact_w trim_eval)
qed

text \<open>What is decided before the guarded update, without the clock and the diagnostic.\<close>

definition record_decide ::
  "int \<Rightarrow> string \<Rightarrow> string \<Rightarrow> string \<Rightarrow> AlertRetryPolicy \<Rightarrow> Store \<Rightarrow>
   (Store \<times> (alert_error + AlertDispatch)) + AlertDispatch" where
  "record_decide i w c st p s =
     (if i \<le> 0 then Inl (s, Inl AlertDispatchIDRequired)
      else if w = [] then Inl (s, Inl AlertDispatchWorkerRequired)
      else if c = [] then Inl (s, Inl AlertDispatchClaimRequired)
      else if \<not> validAlertDispatchResultStatus st then Inl (s, Inl AlertDispatchStatusInvalid)
      else
       (case ensureAlertDedupeKeyCurrent s of
          (s1, Some e) \<Rightarrow> Inl (s1, Inl e)
        | (s1, None) \<Rightarrow>
           (case find (\<lambda>(e, d). dID d = i) (joined s1) of
              None \<Rightarrow> Inl (s1, Inl ErrAlertDispatchNotFound)
            | Some (e, row) \<Rightarrow>
               (let d = prepareScannedAlertDispatch s1 row in
                if terminalAlertDispatchStatus (dStatus d) then
                  Inl (s1, if dWorkerID d \<noteq> w \<or> dClaimID d \<noteq> c then Inl ErrAlertDispatchClaimNotHeld
                           else if result_status p (dAttempts d) st \<noteq> dStatus d
                           then Inl (ErrAlertDispatchTerminalConflict i (dStatus d) st)
                           else Inr d)
                else if dStatus d = AlertDispatchStatusPending \<and> dWorkerID d = w \<and>
                        dClaimID d = c \<and> st = AlertDispatchStatusPending
                then Inl (s1, Inr d)
                else if dStatus d \<noteq> AlertDispatchStatusInFlight \<or> dWorkerID d \<noteq> w \<or> dClaimID d \<noteq> c
                then Inl (s1, Inl ErrAlertDispatchClaimNotHeld)
                else Inr d))))"

lemma record_once_decide:
  "recordAlertDispatchResultOnce i rw rc rst rle p now s =
   (case record_decide i (TrimSpace (redact s rw)) (TrimSpace rc) (TrimSpace rst) p s of
      Inl r \<Rightarrow> r
    | Inr d \<Rightarrow> record_update d (TrimSpace (redact s rw)) (TrimSpace rc) (TrimSpace rst)
        (result_error (TrimSpace rst) (TrimSpace (redact s rle))) p now s)"
  unfolding recordAlertDispatchResultOnce_def record_decide_def Let_def
  by (simp split: option.split prod.split sum.split) (auto dest: ensure_same)

lemma record_decide_Inl: "record_decide i w c st p s = Inl (t, Inr d) \<Longrightarrow> t = s"
  by (auto simp: record_decide_def Let_def dest: ensure_same split: if_splits option.splits prod.splits)

lemma record_decide_Inr:
  assumes "record_decide i w c st p s = Inr x"
  shows "ensureAlertDedupeKeyCurrent s = (s, None) \<and> 0 < i \<and> w \<noteq> [] \<and> c \<noteq> [] \<and> validAlertDispatchResultStatus st \<and>
    (\<exists>e d0. (e, d0) \<in> set (joined s) \<and> dID d0 = i \<and> x = prepareScannedAlertDispatch s d0 \<and> dWorkerID x = w \<and> dClaimID x = c)"
  using assms
  by (auto simp: record_decide_def Let_def dest!: find_Some_iff_set dest: ensure_same split: if_splits option.splits prod.splits)

lemma find_distinct:
  "distinct (map f xs) \<Longrightarrow> x \<in> set xs \<Longrightarrow> f x = k \<Longrightarrow> find (\<lambda>y. f y = k) xs = Some x"
  by (induction xs) auto

lemma redact_cong: "redactionTokens t = redactionTokens s \<Longrightarrow> redact t v = redact s v"
  by (simp add: redact_def)

lemma trim_valid: "validAlertDispatchResultStatus st \<Longrightarrow> TrimSpace st = st"
  by (auto simp: validAlertDispatchResultStatus_def terminalAlertDispatchStatus_def trim_eval)

text \<open>recording is idempotent: once a result has been recorded, the same request (after a lost
  answer, at any later time, with any diagnostic) returns the same row and changes nothing.\<close>

lemma record_replay_idempotent:
  assumes "alert_inv s" and "recordAlertDispatchResultOnce i rw rc rst rle p now s = (t, Inr d)"
  shows "recordAlertDispatchResultOnce i rw rc rst rle' p now' t = (t, Inr d)"
proof -
  let ?w = "TrimSpace (redact s rw)" and ?c = "TrimSpace rc" and ?st = "TrimSpace rst"
  show ?thesis
  proof (cases "record_decide i ?w ?c ?st p s")
    case (Inl r)
    with assms(2) have "r = (t, Inr d)" by (simp add: record_once_decide)
    with Inl record_decide_Inl have "t = s" by blast
    with Inl \<open>r = (t, Inr d)\<close> show ?thesis by (simp add: record_once_decide)
  next
    case (Inr x)
    then obtain e d0 where x: "ensureAlertDedupeKeyCurrent s = (s, None)" "0 < i" "?w \<noteq> []" "?c \<noteq> []"
        "validAlertDispatchResultStatus ?st" "(e, d0) \<in> set (joined s)" "dID d0 = i"
        "x = prepareScannedAlertDispatch s d0" "dWorkerID x = ?w" "dClaimID x = ?c"
      using record_decide_Inr by blast
    then have d0: "d0 \<in> set (alertDispatches s)" by (simp add: set_joined)
    have ids: "dID x = dID d0" "dEventID x = dEventID d0" "dAttempts x = dAttempts d0" using x(8) by simp_all
    let ?a = "dAttempts d0 + 1"
    from assms(2) Inr have "record_update x ?w ?c ?st (result_error ?st (TrimSpace (redact s rle))) p now s = (t, Inr d)"
      by (simp add: record_once_decide)
    from assms(1) d0 ids(1,2) this show ?thesis
    proof (cases rule: record_update_cases)
      case (live na le')
      define y where "y = complete_dispatch now (result_status p ?a ?st) ?w ?c le' na d0"
      have t_inv: "alert_inv t" unfolding live(3)
        by (rule complete_inv [OF assms(1) d0 result_status_valid [OF x(5)]])
      have tok: "redactionTokens t = redactionTokens s" by (simp add: live(3))
      have dy: "y \<in> set (alertDispatches t)"
        using d0 live(1,2) by (simp add: live(3) set_update y_def ids(3))
      have yid: "dID y = i" by (simp add: y_def complete_dispatch_def x(7))
      from joined_row [OF alert_invD(1) [OF t_inv] dy] obtain e' where "(e', y) \<in> set (joined t)" by blast
      then have "find (\<lambda>z. (case z of (e, d) \<Rightarrow> dID d) = i) (joined t) = Some (e', y)"
        by (intro find_distinct [OF distinct_joined [OF alert_invD(1) [OF t_inv]]]) (simp_all add: yid)
      moreover have "(\<lambda>z :: AlertEvent \<times> AlertDispatch. (case z of (e, d) \<Rightarrow> dID d) = i) = (\<lambda>(e, d). dID d = i)"
        by auto
      ultimately have row: "find (\<lambda>(e, d). dID d = i) (joined t) = Some (e', y)" by simp
      have key: "ensureAlertDedupeKeyCurrent t = (t, None)"
        using x(1) by (simp add: ensure_cong live(3))
      have d: "d = prepareScannedAlertDispatch t y"
        using live(5) by (simp add: y_def scanAlertDispatch_def ids(3))
      have scanned: "dWorkerID d = ?w" "dClaimID d = ?c" "dStatus d = result_status p ?a ?st" "dAttempts d = ?a"
        using x(8-10) live(1) tok
        by (simp_all add: d y_def complete_dispatch_def prepareScannedAlertDispatch_def held_by_def redact_cong [OF tok]
            trim_valid [OF result_status_valid [OF x(5)]])
      have "record_decide i ?w ?c ?st p t = Inl (t, Inr d)"
        using x(2-5) scanned
        by (auto simp: record_decide_def key row Let_def d [symmetric] result_status_def
            validAlertDispatchResultStatus_def terminalAlertDispatchStatus_def)
      then show ?thesis by (simp add: record_once_decide redact_cong [OF tok])
    qed simp_all
  qed
qed

section \<open>Enqueue\<close>

lemma map_res_Inl: "map_res f xs = Inl e \<Longrightarrow> \<exists>x \<in> set xs. f x = Inl e"
  by (induction xs) (auto split: sum.splits)

lemma sinks_no_conflict: "prepareAlertSinks s ks \<noteq> Inl (AlertConflictWithoutPending h)"
  by (auto simp: prepareAlertSinks_def Let_def checked_sink_def validateAlertSinkIdentity_def
      split: sum.splits if_splits option.splits dest!: map_res_Inl)

text \<open>the unique index never refuses an insertion the dedupe query has let through: enqueueing on
  a consistent store never ends in the error "alert event conflict without pending event".\<close>

lemma enqueue_never_conflicts:
  assumes "alert_inv s"
  shows "snd (enqueueAlertEventOnce ev sinks cd now s) \<noteq> Inl (AlertConflictWithoutPending h)"
proof -
  have 1: "enqueue_prepared s e k cd \<noteq> (t, Inl (AlertConflictWithoutPending h))" for e k t
    using no_unseen_conflict [OF assms] by (auto simp: enqueue_prepared_def Let_def split: option.split)
  have 2: "prepare_enqueue now s ev sinks \<noteq> Inl (AlertConflictWithoutPending h)"
    by (auto simp: prepare_enqueue_def Let_def sinks_no_conflict split: sum.split)
  have 3: "ensureAlertDedupeKeyCurrent s \<noteq> (t, Some (AlertConflictWithoutPending h))" for t
    by (auto simp: ensureAlertDedupeKeyCurrent_def lock_with_def split: option.split)
  have "enqueueAlertEventInTx now ev sinks cd s \<noteq> (t, Inl (AlertConflictWithoutPending h))" for t
  proof
    assume "enqueueAlertEventInTx now ev sinks cd s = (t, Inl (AlertConflictWithoutPending h))"
    with 1 2 3 show False
      by (auto simp: enqueueAlertEventInTx_def split: sum.splits prod.splits option.splits) (metis 1 ensure_same(2))
  qed
  then show ?thesis
    by (cases "enqueueAlertEventInTx now ev sinks cd s")
      (auto simp: enqueueAlertEventOnce_def commit_or_rollback_def split: sum.splits)
qed

lemma enqueue_success:
  assumes "enqueueAlertEventOnce ev sinks cd now s = (t, Inr (x, ins))"
  obtains ev' ks where "prepare_enqueue now s ev sinks = Inr (ev', ks)" "ensureAlertDedupeKeyCurrent s = (s, None)"
    "enqueue_prepared s ev' ks cd = (t, Inr (x, ins))"
proof -
  from assms have "enqueueAlertEventInTx now ev sinks cd s = (t, Inr (x, ins))"
    by (auto simp: enqueueAlertEventOnce_def commit_or_rollback_def split: sum.splits)
  then obtain ev' ks s1 where 1: "prepare_enqueue now s ev sinks = Inr (ev', ks)" "ensureAlertDedupeKeyCurrent s = (s1, None)"
    "enqueue_prepared s1 ev' ks cd = (t, Inr (x, ins))"
    by (auto simp: enqueueAlertEventInTx_def split: sum.splits prod.splits option.splits)
  moreover have "s1 = s" using 1(2) by (rule ensure_same)
  ultimately show thesis using that by blast
qed

lemma prepared_hash:
  "prepare_enqueue now s ev sinks = Inr (ev', ks) \<Longrightarrow>
   evDedupeHash ev' = alertDedupeHash s (TrimSpace (evDedupeKey ev)) \<and> evStatus ev' = AlertEventStatusPending"
  by (auto simp: prepare_enqueue_def Let_def split: if_splits sum.splits)

lemma hash_nonempty: "ensureAlertDedupeKeyCurrent s = (t, None) \<Longrightarrow> alertDedupeHash s k \<noteq> []"
proof -
  assume "ensureAlertDedupeKeyCurrent s = (t, None)"
  then have "alertDedupeKey s \<noteq> []"
    by (auto simp: ensureAlertDedupeKeyCurrent_def lock_with_def split: if_splits)
  moreover have "length (EncodeToString (hmac_sha256 key m)) = 64" for key m
    by (simp add: hmac_sha256_def Let_def)
  ultimately show ?thesis by (metis alertDedupeHash_def list.size(3) zero_neq_numeral)
qed

lemma ensure_pending_fields [simp]:
  "alertEvents (ensurePendingAlertDispatches eid ks t s) = alertEvents s"
  "eventSeq (ensurePendingAlertDispatches eid ks t s) = eventSeq s"
  "alertDedupeKey (ensurePendingAlertDispatches eid ks t s) = alertDedupeKey s"
  unfolding ensurePendingAlertDispatches_def by (induction ks arbitrary: s) (auto simp: insert_dispatch_def)

text \<open>An insertion: no pending row with the hash, no cooldown, and these tables.\<close>

lemma enqueue_inserted:
  assumes "alert_inv s" and "enqueueAlertEventOnce ev sinks cd now s = (t, Inr (x, True))"
  obtains ev' ks where "prepare_enqueue now s ev sinks = Inr (ev', ks)" "ensureAlertDedupeKeyCurrent s = (s, None)"
    "x = ev'\<lparr>evID := eventSeq s + 1, evStatus := AlertEventStatusPending\<rparr>"
    "t = ensurePendingAlertDispatches (eventSeq s + 1) ks (evCreatedAt ev') (insert_event ev' s)"
proof -
  from enqueue_success [OF assms(2)] obtain ev' ks where e: "prepare_enqueue now s ev sinks = Inr (ev', ks)"
    "ensureAlertDedupeKeyCurrent s = (s, None)" "enqueue_prepared s ev' ks cd = (t, Inr (x, True))" .
  from e(3) have "t = ensurePendingAlertDispatches (eventSeq s + 1) ks (evCreatedAt ev') (insert_event ev' s) \<and>
      x = ev'\<lparr>evID := eventSeq s + 1, evStatus := AlertEventStatusPending\<rparr>"
    by (auto simp: enqueue_prepared_def Let_def split: option.splits if_splits)
  with e that show thesis by blast
qed

text \<open>while an event is pending, enqueueing any event with the same dedupe key (after trimming)
  inserts nothing: it answers with the id of the pending event, and the event table is unchanged.\<close>

lemma enqueue_deduplicates:
  assumes "alert_inv s" and "enqueueAlertEventOnce ev sinks cd now s = (t, Inr (x, True))"
    and "TrimSpace (evDedupeKey ev2) = TrimSpace (evDedupeKey ev)"
    and "enqueueAlertEventOnce ev2 sinks2 cd2 now2 t = (u, Inr (y, ins))"
  shows "\<not> ins \<and> evID y = evID x \<and> alertEvents u = alertEvents t"
proof -
  from enqueue_inserted [OF assms(1,2)] obtain ev' ks where
    e: "prepare_enqueue now s ev sinks = Inr (ev', ks)" "ensureAlertDedupeKeyCurrent s = (s, None)"
      "x = ev'\<lparr>evID := eventSeq s + 1, evStatus := AlertEventStatusPending\<rparr>"
      "t = ensurePendingAlertDispatches (eventSeq s + 1) ks (evCreatedAt ev') (insert_event ev' s)" .
  let ?h = "alertDedupeHash s (TrimSpace (evDedupeKey ev))"
  let ?x = "ev'\<lparr>evID := eventSeq s + 1, evCooldownKey := [], evStatus := AlertEventStatusPending\<rparr>"
  have h: "evDedupeHash ev' = ?h" using prepared_hash [OF e(1)] by simp
  have ne: "?h \<noteq> []" using hash_nonempty [OF e(2)] .
  have t_inv: "alert_inv t" using enqueue_once_inv [OF assms(1), of ev sinks cd now] assms(2) by simp
  have x_in: "?x \<in> set (alertEvents t)" by (simp add: e(4))
  have same_h: "alertDedupeHash t k = alertDedupeHash s k" for k
    by (simp add: alertDedupeHash_def e(4) insert_event_def)
  from enqueue_success [OF assms(4)] obtain ev2' ks2 where
    e2: "prepare_enqueue now2 t ev2 sinks2 = Inr (ev2', ks2)" "enqueue_prepared t ev2' ks2 cd2 = (u, Inr (y, ins))" .
  have h2: "evDedupeHash ev2' = ?h" using prepared_hash [OF e2(1)] same_h assms(3) by simp
  have "has_open t (evID ?x)" by (rule pending_has_open [OF t_inv x_in]) simp
  with x_in h have "pendingAlertEventForDedupeHash t ?h \<noteq> None"
    by (auto simp: pendingForHash_None intro!: bexI [of _ ?x])
  then obtain z where z: "pendingAlertEventForDedupeHash t ?h = Some z" by blast
  then obtain w where w: "w \<in> set (alertEvents t)" "z = scanAlertEvent t w" "evDedupeHash w = ?h"
      "evStatus w = AlertEventStatusPending"
    using pendingForHash_Some by blast
  have "w \<in> set (pending_events t)" "?x \<in> set (pending_events t)"
    using w x_in h ne by (simp_all add: pending_events_def)
  with alert_invD(3) [OF t_inv] w(3) h have "w = ?x"
    unfolding unique_pending_def by (auto dest: distinct_map_eq)
  with z w(2) e2(2) h2 e(3) show ?thesis by (auto simp: enqueue_prepared_def)
qed

lemma demo_texts:
  "TrimSpace (RedactWith ''health'' []) = ''health''" "TrimSpace (RedactWith ''web'' []) = ''web''"
  "TrimSpace (RedactWith ''a'' []) = ''a''" "TrimSpace (RedactWith ''healthy'' []) = ''healthy''"
  "TrimSpace (RedactWith ''down'' []) = ''down''" "TrimSpace (RedactWith ''k1'' []) = ''k1''"
  "RedactWith ''log'' [] = ''log''"
  by code_simp+

definition demo_prepared :: "string \<Rightarrow> AlertEvent" where
  "demo_prepared h = demo_event\<lparr>evDedupeHash := h\<rparr>"

lemma demo_prepare:
  "prepare_enqueue now demo_empty demo_event [''log''] = Inr (demo_prepared (alertDedupeHash demo_empty ''k1''), [''log''])"
proof -
  have r: "redact demo_empty v = RedactWith v []" for v by (simp add: redact_def demo_empty_def)
  have "prepareAlertEvent demo_empty demo_event = demo_event"
    by (simp add: prepareAlertEvent_def r demo_event_def demo_texts redact_empty trim_eval)
  moreover have "prepareAlertSinks demo_empty [''log''] = Inr [''log'']"
    by (simp add: prepareAlertSinks_def checked_sink_def validateAlertSinkIdentity_def r demo_texts trim_eval Let_def
        dedup_by_def) (simp add: demo_empty_def)
  ultimately show ?thesis
    by (simp add: prepare_enqueue_def Let_def r)
      (simp add: demo_event_def demo_prepared_def demo_texts trim_eval zero_time_def)
qed

lemma demo_enqueue:
  "\<exists>x. enqueueAlertEventOnce demo_event [''log''] 0 now demo_empty =
    (ensurePendingAlertDispatches 1 [''log''] 100 (insert_event (demo_prepared (alertDedupeHash demo_empty ''k1'')) demo_empty),
     Inr (x, True))"
proof -
  have empty: "alertEvents demo_empty = []" "eventSeq demo_empty = 0" by (simp_all add: demo_empty_def)
  have "pendingAlertEventForDedupeHash demo_empty h = None" "latest_closed demo_empty P = None"
    "\<not> pending_conflict demo_empty h" for h P
    by (simp_all add: pendingForHash_None latest_closed_def pending_conflict_def empty)
  then show ?thesis
    by (simp add: enqueueAlertEventOnce_def enqueueAlertEventInTx_def demo_prepare demo_key commit_or_rollback_def
        enqueue_prepared_def cooldownSuppressedAlertEventForEvent_def cooldownSuppressedAlertEvent_def Let_def
        latestCooldownAlertEventForDedupeHash_def empty)
      (simp add: demo_prepared_def demo_event_def)
qed

lemma enqueue_prepared_total:
  assumes "alert_inv s"
  shows "\<exists>u y. enqueue_prepared s ev ks cd = (u, Inr y)"
  using no_unseen_conflict [OF assms]
  by (auto simp: enqueue_prepared_def Let_def split: option.split)

lemma prepare_enqueue_cong:
  "redactionTokens t = redactionTokens s \<Longrightarrow> alertDedupeKey t = alertDedupeKey s \<Longrightarrow>
   alertSinkNames t = alertSinkNames s \<Longrightarrow> alertSinkAllowlist t = alertSinkAllowlist s \<Longrightarrow>
   prepare_enqueue now t ev ks = prepare_enqueue now s ev ks"
proof -
  assume eq: "redactionTokens t = redactionTokens s" "alertDedupeKey t = alertDedupeKey s"
    "alertSinkNames t = alertSinkNames s" "alertSinkAllowlist t = alertSinkAllowlist s"
  then have r: "redact t = redact s" by (simp add: redact_def fun_eq_iff)
  then have "prepareAlertEvent t = prepareAlertEvent s" by (simp add: prepareAlertEvent_def fun_eq_iff)
  moreover have "validateAlertSinkIdentity t = validateAlertSinkIdentity s"
    using eq r by (simp add: validateAlertSinkIdentity_def fun_eq_iff)
  then have "checked_sink t = checked_sink s" by (intro ext) (simp only: checked_sink_def)
  then have "prepareAlertSinks t = prepareAlertSinks s" by (intro ext) (simp only: prepareAlertSinks_def)
  moreover have "alertDedupeHash t = alertDedupeHash s" using eq by (simp add: alertDedupeHash_def fun_eq_iff)
  ultimately show ?thesis using r by (simp only: prepare_enqueue_def)
qed

lemma enqueue_total:
  assumes "alert_inv s" and "prepare_enqueue now s ev ks = Inr (ev', ks')" and "ensureAlertDedupeKeyCurrent s = (s, None)"
  shows "\<exists>u x ins. enqueueAlertEventOnce ev ks cd now s = (u, Inr (x, ins))"
proof -
  obtain u y where "enqueue_prepared s ev' ks' cd = (u, Inr y)" using enqueue_prepared_total [OF assms(1)] by blast
  with assms(2,3) show ?thesis
    by (cases y) (simp add: enqueueAlertEventOnce_def enqueueAlertEventInTx_def commit_or_rollback_def)
qed

lemma ensure_pending_config [simp]:
  "redactionTokens (ensurePendingAlertDispatches eid ks t s) = redactionTokens s"
  "alertSinkNames (ensurePendingAlertDispatches eid ks t s) = alertSinkNames s"
  "alertSinkAllowlist (ensurePendingAlertDispatches eid ks t s) = alertSinkAllowlist s"
  "dedupeKeyFile (ensurePendingAlertDispatches eid ks t s) = dedupeKeyFile s"
  "fingerprintRow (ensurePendingAlertDispatches eid ks t s) = fingerprintRow s"
  unfolding ensurePendingAlertDispatches_def by (induction ks arbitrary: s) (auto simp: insert_dispatch_def)

lemma fold_insert_dispatches:
  assumes "distinct ks" and "\<forall>d \<in> set (alertDispatches s). dEventID d = eid \<longrightarrow> dSink d \<notin> set ks"
  shows "\<exists>rows. alertDispatches (fold (insert_dispatch eid t) ks s) = alertDispatches s @ rows \<and>
    map dSink rows = ks \<and> (\<forall>r \<in> set rows. \<exists>i k. r = new_dispatch i eid k t)"
  using assms
proof (induction ks arbitrary: s)
  case Nil
  then show ?case by simp
next
  case (Cons k ks)
  let ?n = "new_dispatch (dispatchSeq s + 1) eid k t"
  have d: "alertDispatches (insert_dispatch eid t k s) = alertDispatches s @ [?n]"
    using Cons.prems(2) by (auto simp: insert_dispatch_def)
  have "\<exists>rows. alertDispatches (fold (insert_dispatch eid t) ks (insert_dispatch eid t k s)) =
      alertDispatches (insert_dispatch eid t k s) @ rows \<and> map dSink rows = ks \<and>
      (\<forall>r \<in> set rows. \<exists>i k. r = new_dispatch i eid k t)"
    using Cons.prems by (intro Cons.IH) (auto simp: d new_dispatch_def)
  then obtain rows where r: "alertDispatches (fold (insert_dispatch eid t) ks (insert_dispatch eid t k s)) =
      alertDispatches s @ (?n # rows)" "map dSink rows = ks" "\<forall>r \<in> set rows. \<exists>i k. r = new_dispatch i eid k t"
    by (auto simp: d)
  moreover have "map dSink (?n # rows) = k # ks" using r(2) by (simp add: new_dispatch_def)
  ultimately show ?case by (intro exI [of _ "?n # rows"]) auto
qed

lemma prepared_sinks_distinct: "prepare_enqueue now s ev sinks = Inr (ev', ks) \<Longrightarrow>
   prepareAlertSinks s sinks = Inr ks \<and> distinct ks"
  by (auto simp: prepare_enqueue_def prepareAlertSinks_def Let_def split: if_splits sum.splits)

text \<open>an enqueue that reports an insertion appends exactly one event, pending and with the next id,
  and for every distinct prepared sink, in order, exactly one fresh dispatch: pending, unclaimed,
  with no attempt and due at once; nothing else in the tables changes.\<close>

lemma enqueue_inserts:
  assumes "alert_inv s" and "enqueueAlertEventOnce ev sinks cd now s = (t, Inr (x, True))"
  shows "alertEvents t = alertEvents s @ [x\<lparr>evCooldownKey := []\<rparr>] \<and> evID x = eventSeq s + 1 \<and>
    evStatus x = AlertEventStatusPending \<and>
    (\<exists>rows. alertDispatches t = alertDispatches s @ rows \<and> prepareAlertSinks s sinks = Inr (map dSink rows) \<and>
       (\<forall>r \<in> set rows. \<exists>i k. r = new_dispatch i (evID x) k (evCreatedAt x)))"
proof -
  from enqueue_inserted [OF assms] obtain ev' ks where
    e: "prepare_enqueue now s ev sinks = Inr (ev', ks)"
      "x = ev'\<lparr>evID := eventSeq s + 1, evStatus := AlertEventStatusPending\<rparr>"
      "t = ensurePendingAlertDispatches (eventSeq s + 1) ks (evCreatedAt ev') (insert_event ev' s)" by metis
  have fresh: "\<forall>d \<in> set (alertDispatches (insert_event ev' s)). dEventID d = eventSeq s + 1 \<longrightarrow> dSink d \<notin> set ks"
    using alert_invD(1) [OF assms(1)] by (force simp: row_keys_def)
  from fold_insert_dispatches [OF conjunct2 [OF prepared_sinks_distinct [OF e(1)]] fresh, of "evCreatedAt ev'"]
  obtain rows where "alertDispatches t = alertDispatches s @ rows" "map dSink rows = ks"
    "\<forall>r \<in> set rows. \<exists>i k. r = new_dispatch i (eventSeq s + 1) k (evCreatedAt ev')"
    by (auto simp: e(3) ensurePendingAlertDispatches_def)
  with prepared_sinks_distinct [OF e(1)] show ?thesis by (auto simp: e(2,3))
qed

section \<open>Cooldown\<close>

lemma latest_closed_max:
  assumes "e \<in> set (alertEvents s)" and "P e" and "evStatus e \<in> {AlertEventStatusDelivered, AlertEventStatusPartial}"
    and "dispatches_of s (evID e) \<noteq> []" and "\<not> has_open s (evID e)" and "0 < closed_at s e"
  shows "\<exists>x c. latest_closed s P = Some (x, c) \<and> closed_at s e \<le> c"
proof -
  let ?key = "\<lambda>e. (- closed_at s e, - evID e)"
  let ?es = "filter (\<lambda>e. P e \<and> evStatus e \<in> {AlertEventStatusDelivered, AlertEventStatusPartial} \<and>
            dispatches_of s (evID e) \<noteq> [] \<and>
            \<not> (\<exists>d \<in> set (dispatches_of s (evID e)). open_dispatch d) \<and> 0 < closed_at s e) (alertEvents s)"
  have e_in: "e \<in> set (sort_key ?key ?es)" using assms by (auto simp: has_open_def)
  then have "sort_key ?key ?es \<noteq> []" by (intro notI) (simp only: list.set empty_iff)
  then obtain m ms where m: "sort_key ?key ?es = m # ms" unfolding neq_Nil_conv by blast
  have "sorted (map ?key (sort_key ?key ?es))" by simp
  then have "?key m \<le> ?key e" using e_in unfolding m by auto
  then have "closed_at s e \<le> closed_at s m" by (auto simp: less_eq_prod_def)
  moreover have "latest_closed s P = Some (scanAlertEvent s m, closed_at s m)"
    unfolding latest_closed_def m by simp
  ultimately show ?thesis by simp
qed

text \<open>The time stamp of the event to be enqueued.\<close>

definition occurrence :: "gotime \<Rightarrow> AlertEvent \<Rightarrow> gotime" where
  "occurrence now ev = (if evCreatedAt ev = zero_time then now else evCreatedAt ev)"

lemma prepared_created: "prepare_enqueue now s ev sinks = Inr (ev', ks) \<Longrightarrow>
    evCreatedAt ev' = occurrence now ev \<and> evCooldownKey ev' = evCooldownKey ev"
  by (auto simp: prepare_enqueue_def prepareAlertEvent_def occurrence_def Let_def split: if_splits sum.splits)

text \<open>within the cooldown after an event with the same dedupe key was delivered or partly
  delivered, an enqueue inserts no event.\<close>

lemma cooldown_suppresses:
  assumes "alert_inv s" and "enqueueAlertEventOnce ev sinks cd now s = (t, Inr (x, ins))"
    and "TrimSpace (evCooldownKey ev) = []"
    and "e \<in> set (alertEvents s)" and "evDedupeHash e = alertDedupeHash s (TrimSpace (evDedupeKey ev))"
    and "evStatus e \<in> {AlertEventStatusDelivered, AlertEventStatusPartial}" and "0 < closed_at s e"
    and "time_sub (occurrence now ev) (closed_at s e) < cd" and "0 < cd"
  shows "\<not> ins \<and> alertEvents t = alertEvents s"
proof -
  from enqueue_success [OF assms(2)] obtain ev' ks where p: "prepare_enqueue now s ev sinks = Inr (ev', ks)"
    "enqueue_prepared s ev' ks cd = (t, Inr (x, ins))" .
  have sync: "dispatches_of s (evID e) \<noteq> []" "evStatus e = derived_status (dispatches_of s (evID e))"
    using alert_invD(4) [OF assms(1)] assms(4) by (auto simp: synced_iff)
  have "derived_status (dispatches_of s (evID e)) \<noteq> AlertEventStatusPending" using sync(2) assms(6) by auto
  then have "\<not> has_open s (evID e)" unfolding derived_pending has_open_def .
  from latest_closed_max [where P = "\<lambda>e. evDedupeHash e = evDedupeHash ev'", OF assms(4) _ assms(6) sync(1) this assms(7)]
    prepared_hash [OF p(1)] assms(5)
  obtain y c where c: "latestCooldownAlertEventForDedupeHash s (evDedupeHash ev') = Some (y, c)" "closed_at s e \<le> c"
    by (auto simp: latestCooldownAlertEventForDedupeHash_def)
  then have "time_sub (occurrence now ev) c \<le> time_sub (occurrence now ev) (closed_at s e)"
    by (simp add: time_sub_def)
  with assms(8,9) c(1) prepared_created [OF p(1)] assms(3)
  have "cooldownSuppressedAlertEventForEvent s (evDedupeHash ev') ev' (evCreatedAt ev') cd = Some y"
    by (simp add: cooldownSuppressedAlertEventForEvent_def cooldownSuppressedAlertEvent_def)
  with p(2) prepared_created [OF p(1)] assms(3) show ?thesis
    by (auto simp: enqueue_prepared_def split: option.splits)
qed

section \<open>Retention\<close>

lemma affected_ids:
  assumes "distinct (map evID es)" and "distinct ids" and "set ids \<subseteq> evID ` set es"
  shows "length (filter (\<lambda>e. evID e \<in> set ids) es) = length ids"
proof -
  have "length (filter (\<lambda>e. evID e \<in> set ids) es) = card (set (map evID (filter (\<lambda>e. evID e \<in> set ids) es)))"
    using distinct_card [OF distinct_map_filter [OF assms(1)]] by (metis length_map)
  also have "set (map evID (filter (\<lambda>e. evID e \<in> set ids) es)) = set ids" using assms(3) by auto
  finally show ?thesis using assms(2) by (simp add: distinct_card)
qed

lemma prune_ids_facts:
  assumes "distinct (map evID (alertEvents s))"
  shows "distinct (prune_ids cutoff batch s)"
    and "set (prune_ids cutoff batch s) \<subseteq> evID ` set (filter (prunable cutoff) (alertEvents s))"
    and "length (prune_ids cutoff batch s) = min batch (length (filter (prunable cutoff) (alertEvents s)))"
    and "length (filter (prunable cutoff) (alertEvents s)) \<le> batch \<Longrightarrow>
         set (prune_ids cutoff batch s) = evID ` set (filter (prunable cutoff) (alertEvents s))"
proof -
  let ?p = "map evID (filter (prunable cutoff) (alertEvents s))"
  show "distinct (prune_ids cutoff batch s)"
    using distinct_map_filter [OF assms, of "prunable cutoff"] by (simp add: prune_ids_def)
  have "set (prune_ids cutoff batch s) \<subseteq> set (sort ?p)" unfolding prune_ids_def by (rule set_take_subset)
  then show "set (prune_ids cutoff batch s) \<subseteq> evID ` set (filter (prunable cutoff) (alertEvents s))" by simp
  show "length (prune_ids cutoff batch s) = min batch (length (filter (prunable cutoff) (alertEvents s)))"
    by (simp add: prune_ids_def min.commute)
  show "set (prune_ids cutoff batch s) = evID ` set (filter (prunable cutoff) (alertEvents s))"
    if "length (filter (prunable cutoff) (alertEvents s)) \<le> batch"
  proof -
    have "prune_ids cutoff batch s = sort ?p" using that by (simp add: prune_ids_def)
    then show ?thesis by simp
  qed
qed

lemma deleted_prunable:
  assumes "distinct (map evID (alertEvents s))" and "e \<in> set (alertEvents s)" and "evID e \<in> set (prune_ids cutoff batch s)"
  shows "prunable cutoff e"
proof -
  from assms(3) prune_ids_facts(2) [OF assms(1)] obtain x where
    "x \<in> set (alertEvents s)" "prunable cutoff x" "evID x = evID e" by fastforce
  then show ?thesis using distinct_map_eq [OF assms(1) _ assms(2)] by blast
qed

lemma affected_prune:
  assumes "distinct (map evID (alertEvents s))"
  shows "length (alertEvents s) - length (alertEvents (delete_events (prune_ids cutoff batch s) s)) =
    length (prune_ids cutoff batch s)"
proof -
  let ?ids = "prune_ids cutoff batch s"
  have "length (filter (\<lambda>e. evID e \<in> set ?ids) (alertEvents s)) = length ?ids"
    using prune_ids_facts(1,2) [OF assms, of cutoff batch] by (intro affected_ids [OF assms]) auto
  with sum_length_filter_compl [of "\<lambda>e. evID e \<in> set ?ids" "alertEvents s"] show ?thesis
    by (simp add: delete_events_events)
qed

lemma delete_keys: "row_keys s \<Longrightarrow> row_keys (delete_events ids s)"
  by (auto simp: row_keys_def delete_events_def distinct_map_filter)

lemma prune_loop_exact:
  assumes "prune_loop stop cutoff batch i tot s = (t, n, stopped)" and "0 < batch" and "row_keys s"
  shows "filter (\<lambda>e. \<not> prunable cutoff e) (alertEvents t) = filter (\<lambda>e. \<not> prunable cutoff e) (alertEvents s) \<and>
    (\<not> stopped \<longrightarrow> alertEvents t = filter (\<lambda>e. \<not> prunable cutoff e) (alertEvents s)) \<and>
    set (alertEvents t) \<subseteq> set (alertEvents s) \<and> n + length (alertEvents t) = tot + length (alertEvents s) \<and>
    alertDispatches t = filter (\<lambda>d. dEventID d \<in> evID ` set (alertEvents t)) (alertDispatches s)"
  using assms
proof (induction stop cutoff batch i tot s rule: prune_loop.induct)
  case (1 stop cutoff batch i tot s)
  let ?u = "delete_events (prune_ids cutoff batch s) s"
  let ?P = "\<lambda>e. \<not> prunable cutoff e"
  have dist: "distinct (map evID (alertEvents s))" using "1.prems"(3) by (simp add: row_keys_def)
  define a where "a = length (alertEvents s) - length (alertEvents ?u)"
  have a: "a = length (prune_ids cutoff batch s)" unfolding a_def by (rule affected_prune [OF dist])
  have len: "length (alertEvents ?u) + a = length (alertEvents s)"
    by (simp add: a_def delete_events_events)
  have keep: "filter ?P (alertEvents ?u) = filter ?P (alertEvents s)"
    using deleted_prunable [OF dist] by (auto simp: delete_events_events intro: filter_cong)
  have disp: "alertDispatches ?u = filter (\<lambda>d. dEventID d \<in> evID ` set (alertEvents ?u)) (alertDispatches s)"
    using "1.prems"(3) by (auto simp: delete_events_def row_keys_def intro!: filter_cong)
  have keys: "row_keys ?u" using delete_keys [OF "1.prems"(3)] .
  have subu: "set (alertEvents ?u) \<subseteq> set (alertEvents s)" by (auto simp: delete_events_events)
  show ?case
  proof (cases "a < batch")
    case True
    with "1.prems"(1) have t: "t = ?u" "n = tot + a" "\<not> stopped"
      by (subst (asm) prune_loop.simps; simp add: Let_def a_def)+
    have "length (filter (prunable cutoff) (alertEvents s)) \<le> batch"
      using True a prune_ids_facts(3) [OF dist, of cutoff batch] by simp
    from prune_ids_facts(4) [OF dist this]
    have "evID e \<notin> set (prune_ids cutoff batch s) \<longleftrightarrow> ?P e" if "e \<in> set (alertEvents s)" for e
      using that deleted_prunable [OF dist that] by force
    then have "alertEvents ?u = filter ?P (alertEvents s)"
      by (simp only: delete_events_events cong: filter_cong)
    with t keep disp len subu show ?thesis by simp
  next
    case False
    show ?thesis
    proof (cases "stop i")
      case True
      with False "1.prems"(1,2) have "t = ?u" "n = tot + a" "stopped"
        by (subst (asm) prune_loop.simps; simp add: Let_def a_def)+
      with keep disp len subu show ?thesis by simp
    next
      case go: False
      with False "1.prems"(1,2) have rec: "prune_loop stop cutoff batch (Suc i) (tot + a) ?u = (t, n, stopped)"
        by (subst (asm) prune_loop.simps) (simp add: Let_def a_def)
      have cond: "\<not> (batch = 0 \<or> length (alertEvents s) - length (alertEvents ?u) < batch)"
        using False "1.prems"(2) by (simp add: a_def)
      note IH = "1.IH" [OF refl refl refl cond go rec [unfolded a_def] "1.prems"(2) keys]
      then have sub: "set (alertEvents t) \<subseteq> set (alertEvents ?u)" by blast
      then have "alertDispatches t = filter (\<lambda>d. dEventID d \<in> evID ` set (alertEvents t)) (alertDispatches s)"
        using IH disp by (auto intro!: filter_cong)
      then show ?thesis using IH keep len sub subu a_def by auto
    qed
  qed
qed

text \<open>the retention sweep removes only events that are closed and older than the horizon, with
  their dispatches; unless the context ends between two batches it removes all of them, whatever the
  batch size, and it reports their number. Pending events always stay.\<close>

lemma prune_removes_exactly_old_closed:
  assumes "alert_inv s" and "0 < horizon"
    and "PruneTerminalAlertEvents stop horizon batchSize now s = (t, n, stopped)"
  shows "filter (\<lambda>e. \<not> prunable (now - horizon) e) (alertEvents t) = filter (\<lambda>e. \<not> prunable (now - horizon) e) (alertEvents s) \<and>
    (\<not> stopped \<longrightarrow> alertEvents t = filter (\<lambda>e. \<not> prunable (now - horizon) e) (alertEvents s)) \<and>
    set (alertEvents t) \<subseteq> set (alertEvents s) \<and> n + length (alertEvents t) = length (alertEvents s) \<and>
    alertDispatches t = filter (\<lambda>d. dEventID d \<in> evID ` set (alertEvents t)) (alertDispatches s)"
proof -
  define batch where "batch = nat (if batchSize \<le> 0 then DefaultAlertRetentionBatchSize else batchSize)"
  have pos: "0 < batch" by (simp add: batch_def DefaultAlertRetentionBatchSize_def)
  from assms(2,3) have "prune_loop stop (now - horizon) batch 0 0 s = (t, n, stopped)"
    by (simp add: PruneTerminalAlertEvents_def Let_def batch_def)
  from prune_loop_exact [OF this pos alert_invD(1) [OF assms(1)]] show ?thesis by simp
qed

definition demo_cooling :: Store where
  "demo_cooling = demo_done\<lparr>alertEvents :=
     [demo_event\<lparr>evDedupeHash := alertDedupeHash demo_empty ''k1'', evStatus := AlertEventStatusDelivered\<rparr>]\<rparr>"

lemma demo_cooling_inv: "alert_inv demo_cooling"
  by (simp add: alert_inv_def demo_cooling_def demo_done_defs row_keys_def row_ok_def validAlertDispatchStatus_def
      terminalAlertDispatchStatus_def unique_pending_def pending_events_def synced_iff dispatches_of_def
      derived_status_def count_status_def open_dispatch_def)

section \<open>Statuses\<close>

text \<open>on a consistent store, the status of an event says what became of its dispatches: it is
  pending exactly while one is pending or in flight; delivered, partial and failed say that all, some
  and none of the closed ones were delivered or skipped (reset ones aside).\<close>

lemma event_status_meaning:
  assumes "alert_inv s" and "e \<in> set (alertEvents s)" and "ds = dispatches_of s (evID e)"
  shows "(evStatus e = AlertEventStatusPending \<longleftrightarrow> (\<exists>d \<in> set ds. open_dispatch d)) \<and>
    (evStatus e = AlertEventStatusDelivered \<longrightarrow> (\<forall>d \<in> set ds. dStatus d \<noteq> AlertDispatchStatusDeadLettered) \<and>
       (\<exists>d \<in> set ds. dStatus d = AlertDispatchStatusDelivered \<or> dStatus d = AlertDispatchStatusSkipped)) \<and>
    (evStatus e = AlertEventStatusPartial \<longrightarrow> (\<exists>d \<in> set ds. dStatus d = AlertDispatchStatusDeadLettered) \<and>
       (\<exists>d \<in> set ds. dStatus d = AlertDispatchStatusDelivered \<or> dStatus d = AlertDispatchStatusSkipped)) \<and>
    (evStatus e = AlertEventStatusFailed \<longrightarrow> (\<exists>d \<in> set ds. dStatus d = AlertDispatchStatusDeadLettered) \<and>
       (\<forall>d \<in> set ds. dStatus d \<noteq> AlertDispatchStatusDelivered \<and> dStatus d \<noteq> AlertDispatchStatusSkipped)) \<and>
    (evStatus e = AlertEventStatusReset \<longrightarrow> (\<forall>d \<in> set ds. dStatus d = AlertDispatchStatusReset))"
proof -
  have st: "evStatus e = derived_status ds" and ne: "ds \<noteq> []"
    using alert_invD(4) [OF assms(1)] assms(2,3) by (auto simp: synced_iff)
  have ok: "row_ok d" if "d \<in> set ds" for d
    using alert_invD(2) [OF assms(1)] that assms(3) by (simp add: dispatches_of_def)
  note cl = closed_valid_status [OF ok]
  from ne obtain d0 where d0: "d0 \<in> set ds" by (cases ds) auto
  show ?thesis
    unfolding st
    by (intro conjI) (use cl d0 in \<open>auto simp: derived_pending, auto simp: derived_status_def Let_def count_status_0 count_status_pos split: if_splits\<close>)
qed

section \<open>Redaction of what is stored\<close>


definition demo_secret :: Store where
  "demo_secret = demo_empty\<lparr>redactionTokens := [''hunter2'']\<rparr>"

definition demo_login :: AlertEvent where
  "demo_login = demo_event\<lparr>evReason := ''login hunter2 failed''\<rparr>"

lemma demo_secret_texts:
  "TrimSpace (RedactWith ''health'' [''hunter2'']) = ''health''" "TrimSpace (RedactWith ''web'' [''hunter2'']) = ''web''"
  "TrimSpace (RedactWith ''a'' [''hunter2'']) = ''a''" "TrimSpace (RedactWith ''healthy'' [''hunter2'']) = ''healthy''"
  "TrimSpace (RedactWith ''down'' [''hunter2'']) = ''down''" "TrimSpace (RedactWith ''k1'' [''hunter2'']) = ''k1''"
  "RedactWith ''log'' [''hunter2''] = ''log''" "TrimSpace (RedactWith [] [''hunter2'']) = []"
  by code_simp+


end
