(* ===== verification/AlertOutbox.thy ===== *)
theory AlertOutbox
  imports AlertProps
begin

text \<open>
  The interface the producers of events rely on: enqueueing keeps the invariant of the store and
  only ever appends to the events. What a producer may conclude for a whole run of requests is
  proved once from these laws; the operations of theory AlertOps satisfy them.
\<close>

locale outbox =
  fixes enqueue :: "gotime \<Rightarrow> AlertEvent \<Rightarrow> string list \<Rightarrow> duration \<Rightarrow> 's \<Rightarrow> 's \<times> (alert_error + (AlertEvent \<times> bool))"
    and events :: "'s \<Rightarrow> AlertEvent list"
    and inv :: "'s \<Rightarrow> bool"
  assumes enqueue_inv: "inv s \<Longrightarrow> inv (fst (enqueue now ev ks cd s))"
    and enqueue_inserted: "inv s \<Longrightarrow> enqueue now ev ks cd s = (t, Inr (x, True)) \<Longrightarrow>
      events t = events s @ [x\<lparr>evCooldownKey := []\<rparr>]"
    and enqueue_existing: "inv s \<Longrightarrow> enqueue now ev ks cd s = (t, Inr (x, False)) \<Longrightarrow> events t = events s"
    and enqueue_refused: "inv s \<Longrightarrow> enqueue now ev ks cd s = (t, Inl e) \<Longrightarrow> events t = events s"
begin

definition submit :: "gotime \<times> AlertEvent \<times> string list \<times> duration \<Rightarrow> 's \<Rightarrow> 's" where
  "submit r s = (case r of (now, ev, ks, cd) \<Rightarrow> fst (enqueue now ev ks cd s))"

lemma submit_inv: "inv s \<Longrightarrow> inv (submit r s)"
  by (cases r) (simp add: submit_def enqueue_inv)

lemma submit_appends:
  assumes "inv s"
  shows "\<exists>new. events (submit r s) = events s @ new \<and> length new \<le> 1"
proof -
  obtain now ev ks cd where r: "r = (now, ev, ks, cd)" by (cases r) auto
  obtain t y where e: "enqueue now ev ks cd s = (t, y)" by fastforce
  show ?thesis
  proof (cases y)
    case (Inl err)
    with enqueue_refused [OF assms] e show ?thesis by (simp add: submit_def r)
  next
    case (Inr p)
    obtain x ins where p: "p = (x, ins)" by (cases p) auto
    with Inr enqueue_inserted [OF assms] enqueue_existing [OF assms] e show ?thesis
      by (cases ins) (simp_all add: submit_def r)
  qed
qed

lemma submit_all:
  "inv s \<Longrightarrow> inv (fold submit rs s) \<and> (\<exists>new. events (fold submit rs s) = events s @ new \<and> length new \<le> length rs)"
proof (induction rs arbitrary: s)
  case Nil
  then show ?case by simp
next
  case (Cons r rs)
  from submit_appends [OF Cons.prems] obtain n1 where 1: "events (submit r s) = events s @ n1" "length n1 \<le> 1" by blast
  from Cons.IH [OF submit_inv [OF Cons.prems]] obtain n2 where
    2: "inv (fold submit rs (submit r s))" "events (fold submit rs (submit r s)) = events (submit r s) @ n2" "length n2 \<le> length rs"
    by blast
  have "events (fold submit (r # rs) s) = events s @ (n1 @ n2)" "length (n1 @ n2) \<le> length (r # rs)"
    using 1 2 by simp_all
  with 2(1) show ?case by auto
qed

end

section \<open>The store provides the interface\<close>

lemma enqueue_prepared_existing:
  "enqueue_prepared s ev ks cd = (t, Inr (x, False)) \<Longrightarrow> alertEvents t = alertEvents s"
  by (auto simp: enqueue_prepared_def Let_def split: option.splits if_splits)

lemma enqueue_prepared_refused:
  "enqueue_prepared s ev ks cd = (t, Inl e) \<Longrightarrow> alertEvents t = alertEvents s"
  by (auto simp: enqueue_prepared_def Let_def split: option.splits if_splits)

lemma enqueue_prepared_appends:
  "enqueue_prepared s ev ks cd = (t, Inr (x, True)) \<Longrightarrow> alertEvents t = alertEvents s @ [x\<lparr>evCooldownKey := []\<rparr>]"
  by (auto simp: enqueue_prepared_def Let_def split: option.splits if_splits)

lemma enqueue_tx_cases:
  assumes "enqueueAlertEventInTx now ev ks cd s = (t, r)"
  obtains (refused) e where "r = Inl e" "same_tables s t"
    | (prepared) ev' ks' where "prepare_enqueue now s ev ks = Inr (ev', ks')" "enqueue_prepared s ev' ks' cd = (t, r)"
proof (cases "prepare_enqueue now s ev ks")
  case (Inl e)
  with assms show thesis by (auto simp: enqueueAlertEventInTx_def intro: refused)
next
  case (Inr p)
  obtain ev' ks' where p: "p = (ev', ks')" by (cases p) auto
  obtain s1 e where ens: "ensureAlertDedupeKeyCurrent s = (s1, e)" by fastforce
  show thesis
  proof (cases e)
    case None
    with ens have "s1 = s" by (simp add: ensure_same)
    with assms Inr p ens None show thesis by (auto simp: enqueueAlertEventInTx_def intro: prepared)
  next
    case (Some err)
    with assms Inr p ens ensure_same(1) [of s s1 err] show thesis by (auto simp: enqueueAlertEventInTx_def intro: refused)
  qed
qed

interpretation tx_outbox: outbox enqueueAlertEventInTx alertEvents alert_inv
proof
  fix s t :: Store and now ev ks cd x e
  show "alert_inv s \<Longrightarrow> alert_inv (fst (enqueueAlertEventInTx now ev ks cd s))" by (rule enqueue_tx_inv)
  show "enqueueAlertEventInTx now ev ks cd s = (t, Inr (x, True)) \<Longrightarrow> alertEvents t = alertEvents s @ [x\<lparr>evCooldownKey := []\<rparr>]"
    by (erule enqueue_tx_cases) (auto dest: enqueue_prepared_appends)
  show "enqueueAlertEventInTx now ev ks cd s = (t, Inr (x, False)) \<Longrightarrow> alertEvents t = alertEvents s"
    by (erule enqueue_tx_cases) (auto dest: enqueue_prepared_existing)
  show "enqueueAlertEventInTx now ev ks cd s = (t, Inl e) \<Longrightarrow> alertEvents t = alertEvents s"
    by (erule enqueue_tx_cases) (auto simp: same_tables_def dest: enqueue_prepared_refused)
qed

interpretation once_outbox: outbox "\<lambda>now ev ks cd s. enqueueAlertEventOnce ev ks cd now s" alertEvents alert_inv
proof
  fix s t :: Store and now ev ks cd x e
  show "alert_inv s \<Longrightarrow> alert_inv (fst (enqueueAlertEventOnce ev ks cd now s))" by (rule enqueue_once_inv)
  show "alert_inv s \<Longrightarrow> enqueueAlertEventOnce ev ks cd now s = (t, Inr (x, True)) \<Longrightarrow>
      alertEvents t = alertEvents s @ [x\<lparr>evCooldownKey := []\<rparr>]"
    by (auto simp: enqueueAlertEventOnce_def commit_or_rollback_def split: sum.splits intro: tx_outbox.enqueue_inserted)
  show "alert_inv s \<Longrightarrow> enqueueAlertEventOnce ev ks cd now s = (t, Inr (x, False)) \<Longrightarrow> alertEvents t = alertEvents s"
    by (auto simp: enqueueAlertEventOnce_def commit_or_rollback_def split: sum.splits intro: tx_outbox.enqueue_existing)
  show "enqueueAlertEventOnce ev ks cd now s = (t, Inl e) \<Longrightarrow> alertEvents t = alertEvents s"
    by (auto simp: enqueueAlertEventOnce_def commit_or_rollback_def rollback_def split: sum.splits)
qed

end
