(* ===== verification/Images.thy ===== *)
theory Images
  imports GoStrings
begin

text \<open>
  Image references and the comparison of desired with observed images (\<open>internal/core/images.go\<close>,
  the types of \<open>internal/core/models.go\<close>): parsing a reference, deciding whether it can move,
  matching the references of a service against what its runtimes report, and the state shown.
\<close>

section \<open>Types\<close>

record ImageReference =
  irOriginal :: string
  irRegistry :: string
  irRepository :: string
  irTag :: string
  irDigest :: string

record ObservedImage =
  oiTarget :: string
  oiRuntime :: string
  oiReference :: ImageReference
  oiImageID :: string
  oiRepoDigests :: "ImageReference list"

datatype ImageVersionState = ImageVersionMatching | ImageVersionMismatched | ImageVersionUnknown | ImageVersionMutable

record ImageVersionCheck =
  ivDesired :: ImageReference
  ivObserved :: "ObservedImage option"
  ivState :: ImageVersionState
  ivMessage :: string

definition empty_ref :: ImageReference where
  "empty_ref = \<lparr>irOriginal = [], irRegistry = [], irRepository = [], irTag = [], irDigest = []\<rparr>"

section \<open>Parsing\<close>

definition stripImageScheme :: "string \<Rightarrow> string" where
  "stripImageScheme raw =
     (let value = TrimSpace raw in
      case find (HasPrefix value) [''docker-pullable://'', ''docker://'', ''containerd://''] of
        Some p \<Rightarrow> TrimPrefix value p | None \<Rightarrow> value)"

definition isBareDigest :: "string \<Rightarrow> bool" where
  "isBareDigest raw =
     (let value = TrimSpace raw in
      if Contains value ''/'' \<or> Contains value ''@'' then False
      else
       (let (algorithm, digest, ok) = Cut value '':'' in
        if \<not> ok \<or> digest = [] then False
        else algorithm \<in> {''sha256'', ''sha384'', ''sha512''}))"

definition isRegistryComponent :: "string \<Rightarrow> bool" where
  "isRegistryComponent value \<longleftrightarrow> Contains value ''.'' \<or> Contains value '':'' \<or> value = ''localhost''"

text \<open>The digest and the name before it.\<close>

definition cut_digest :: "string \<Rightarrow> string \<times> string" where
  "cut_digest name =
     (case LastIndexByte name (CHR ''@'') of
        Some at \<Rightarrow> (TrimSpace (take at name), TrimSpace (drop (at + 1) name))
      | None \<Rightarrow> (name, []))"

text \<open>The tag is what follows the last colon, if no slash follows that colon.\<close>

definition cut_tag :: "string \<Rightarrow> string \<times> string" where
  "cut_tag name =
     (case LastIndexByte name (CHR '':'') of
        None \<Rightarrow> (name, [])
      | Some lastColon \<Rightarrow>
          if (case LastIndexByte name (CHR ''/'') of None \<Rightarrow> True | Some lastSlash \<Rightarrow> lastSlash < lastColon)
          then (TrimSpace (take lastColon name), TrimSpace (drop (lastColon + 1) name))
          else (name, []))"

definition ParseImageReference :: "string \<Rightarrow> ImageReference" where
  "ParseImageReference raw =
     (let original = TrimSpace raw; ref = empty_ref\<lparr>irOriginal := original\<rparr> in
      if original = [] then ref
      else
       (let value = stripImageScheme original in
        if isBareDigest value then ref\<lparr>irDigest := value\<rparr>
        else
         (let (name1, digest) = cut_digest value;
              (name2, tag) = cut_tag name1;
              ref2 = ref\<lparr>irDigest := digest, irTag := tag\<rparr> in
          if name2 = [] then ref2
          else
           (let parts = split_char (CHR ''/'') name2 in
            if 1 < length parts \<and> isRegistryComponent (hd parts)
            then ref2\<lparr>irRegistry := hd parts, irRepository := Join (tl parts) ''/''\<rparr>
            else ref2\<lparr>irRepository := name2\<rparr>))))"

definition ImageReferences :: "string list \<Rightarrow> ImageReference list" where
  "ImageReferences values = filter (\<lambda>ref. irOriginal ref \<noteq> []) (map ParseImageReference values)"

section \<open>Tags that cannot move\<close>

definition ident_char :: "char \<Rightarrow> bool" where
  "ident_char c \<longleftrightarrow> is_digit c \<or> (CHR ''A'' \<le> c \<and> c \<le> CHR ''Z'') \<or> (CHR ''a'' \<le> c \<and> c \<le> CHR ''z'') \<or> c = CHR ''-''"

text \<open>\<open>[0-9A-Za-z-]+(\.[0-9A-Za-z-]+)*\<close>\<close>

definition identifiers :: "string \<Rightarrow> bool" where
  "identifiers s \<longleftrightarrow> (\<forall>w \<in> set (split_char (CHR ''.'') s). w \<noteq> [] \<and> list_all ident_char w)"

text \<open>The groups 3 (the patch number) and 4 (the prerelease) after the second dot, if all of it matches.\<close>

definition semver_tail :: "string \<Rightarrow> (string \<times> string) option" where
  "semver_tail s =
     (let patch = takeWhile is_digit s; rest = dropWhile is_digit s in
      if patch = [] then None
      else (case rest of
        [] \<Rightarrow> Some (patch, [])
      | c # r \<Rightarrow>
          if c = CHR ''-'' then
            (let pre = takeWhile (\<lambda>x. x \<noteq> CHR ''+'') r; build = dropWhile (\<lambda>x. x \<noteq> CHR ''+'') r in
             if identifiers pre \<and> (build = [] \<or> identifiers (tl build)) then Some (patch, pre) else None)
          else if c = CHR ''+'' \<and> identifiers r then Some (patch, [])
          else None))"

text \<open>\<open>FindStringSubmatch\<close> of \<open>semverTagPattern\<close>: the groups 1 to 4, empty where one did not take part.\<close>

definition semverTagPattern :: "string \<Rightarrow> (string \<times> string \<times> string \<times> string) option" where
  "semverTagPattern tag =
     (let s = (if HasPrefix tag ''v'' then tl tag else tag);
          major = takeWhile is_digit s; r1 = dropWhile is_digit s in
      if major = [] then None
      else if r1 = [] then Some (major, [], [], [])
      else if hd r1 \<noteq> CHR ''.'' then None
      else
       (let minor = takeWhile is_digit (tl r1); r2 = dropWhile is_digit (tl r1) in
        if minor = [] then None
        else if r2 = [] then Some (major, minor, [], [])
        else if hd r2 \<noteq> CHR ''.'' then None
        else map_option (\<lambda>(patch, pre). (major, minor, patch, pre)) (semver_tail (tl r2))))"

definition validSemVerNumber :: "string \<Rightarrow> bool" where
  "validSemVerNumber value \<longleftrightarrow> value = ''0'' \<or> (value \<noteq> [] \<and> \<not> HasPrefix value ''0'')"

definition allDigits :: "string \<Rightarrow> bool" where
  "allDigits value \<longleftrightarrow> list_all is_digit value \<and> value \<noteq> []"

definition validPrereleaseIdentifiers :: "string \<Rightarrow> bool" where
  "validPrereleaseIdentifiers value \<longleftrightarrow>
     value = [] \<or>
     (\<forall>identifier \<in> set (split_char (CHR ''.'') value).
        identifier \<noteq> [] \<and> (allDigits identifier \<longrightarrow> validSemVerNumber identifier))"

definition isFullSemVerTag :: "string \<Rightarrow> bool" where
  "isFullSemVerTag tag =
     (case semverTagPattern (TrimSpace tag) of
        None \<Rightarrow> False
      | Some (major, minor, patch, pre) \<Rightarrow>
          patch \<noteq> [] \<and> validSemVerNumber major \<and> validSemVerNumber minor \<and> validSemVerNumber patch \<and>
          validPrereleaseIdentifiers pre)"

definition Mutable :: "ImageReference \<Rightarrow> bool" where
  "Mutable ref =
     (if irOriginal ref = [] \<or> irDigest ref \<noteq> [] then False
      else
       (let tag = TrimSpace (irTag ref) in
        if tag = [] \<or> EqualFold tag ''latest'' then True else \<not> isFullSemVerTag tag))"

definition MutableImageWarnings :: "string list \<Rightarrow> string list" where
  "MutableImageWarnings images =
     sort (map (\<lambda>ref. ''image '' @ irOriginal ref @ '' uses mutable reference ('' @
                  (if irTag ref = [] then ''no tag'' else irTag ref) @ '')'')
            (filter Mutable (ImageReferences images)))"

section \<open>Comparable references\<close>

definition ref_key :: "ImageReference \<Rightarrow> string" where
  "ref_key ref = Join [irOriginal ref, irRegistry ref, irRepository ref, irTag ref, irDigest ref] [CHR 0x00]"

definition uniqueImageReferences :: "ImageReference list \<Rightarrow> ImageReference list" where
  "uniqueImageReferences refs = dedup_by ref_key (filter (\<lambda>ref. ref_key ref \<noteq> replicate 4 (CHR 0x00)) refs)"

text \<open>\<open>fmt.Sprint\<close> of a slice of references.\<close>

definition sprint_refs :: "ImageReference list \<Rightarrow> string" where
  "sprint_refs refs =
     ''['' @ Join (map (\<lambda>r. ''{'' @ Join [irOriginal r, irRegistry r, irRepository r, irTag r, irDigest r] '' '' @ ''}'') refs) '' '' @ '']''"

definition observed_key :: "ObservedImage \<Rightarrow> string" where
  "observed_key img =
     Join [oiTarget img, oiRuntime img, irOriginal (oiReference img), oiImageID img,
           sprint_refs (oiRepoDigests img)] [CHR 0x00]"

definition uniqueObservedImages :: "ObservedImage list \<Rightarrow> ObservedImage list" where
  "uniqueObservedImages images = dedup_by observed_key images"

definition NewObservedImage :: "string \<Rightarrow> string \<Rightarrow> string \<Rightarrow> string \<Rightarrow> string list \<Rightarrow> ObservedImage" where
  "NewObservedImage target runtime img imageID repoDigests =
     (let digests = ImageReferences repoDigests;
          imageIDRef = ParseImageReference imageID;
          all_refs = (if irDigest imageIDRef \<noteq> [] \<and> irRepository imageIDRef \<noteq> []
                      then digests @ [imageIDRef] else digests)
      in \<lparr>oiTarget = TrimSpace target, oiRuntime = TrimSpace runtime, oiReference = ParseImageReference img,
          oiImageID = TrimSpace imageID, oiRepoDigests = uniqueImageReferences all_refs\<rparr>)"

definition normalizedRepository :: "ImageReference \<Rightarrow> string" where
  "normalizedRepository ref =
     (let repository = TrimCutset (ToLower (irRepository ref)) {CHR ''/''} in
      if repository = [] then []
      else
       (let registry0 = TrimCutset (ToLower (irRegistry ref)) {CHR ''/''};
            registry = (if registry0 = [] \<or> registry0 = ''index.docker.io'' then ''docker.io'' else registry0);
            repository' = (if registry = ''docker.io'' \<and> \<not> Contains repository ''/''
                           then ''library/'' @ repository else repository)
        in registry @ ''/'' @ repository'))"

definition repositoryMatches :: "ImageReference \<Rightarrow> ImageReference \<Rightarrow> bool" where
  "repositoryMatches left right =
     (let leftRepo = normalizedRepository left; rightRepo = normalizedRepository right in
      if leftRepo = [] \<or> rightRepo = [] then False else leftRepo = rightRepo)"

definition digestEqual :: "string \<Rightarrow> string \<Rightarrow> bool" where
  "digestEqual left right = EqualFold (TrimSpace left) (TrimSpace right)"

definition observedComparableReferences :: "ObservedImage \<Rightarrow> ImageReference list" where
  "observedComparableReferences observed =
     uniqueImageReferences
       ((if irOriginal (oiReference observed) \<noteq> [] then [oiReference observed] else []) @ oiRepoDigests observed)"

text \<open>The result: whether they match, and whether that is known. Each loop is a fold over the references.\<close>

fun digest_loop :: "ImageReference \<Rightarrow> bool \<Rightarrow> ImageReference list \<Rightarrow> bool \<times> bool" where
  "digest_loop desired knownDigest [] = (False, knownDigest)"
| "digest_loop desired knownDigest (ref # refs) =
     (if irDigest ref = [] then digest_loop desired knownDigest refs
      else if repositoryMatches desired ref \<and> digestEqual (irDigest desired) (irDigest ref) then (True, True)
      else digest_loop desired True refs)"

fun tag_loop :: "ImageReference \<Rightarrow> bool \<Rightarrow> ImageReference list \<Rightarrow> bool \<times> bool" where
  "tag_loop desired knownTag [] = (False, knownTag)"
| "tag_loop desired knownTag (ref # refs) =
     (if irTag ref = [] then tag_loop desired knownTag refs
      else if \<not> repositoryMatches desired ref then tag_loop desired knownTag refs
      else if EqualFold (irTag desired) (irTag ref) then (True, True)
      else tag_loop desired True refs)"

definition imageReferencesMatch :: "ImageReference \<Rightarrow> ObservedImage \<Rightarrow> bool \<times> bool" where
  "imageReferencesMatch desired observed =
     (let observedRefs = observedComparableReferences observed in
      if irDigest desired \<noteq> [] then digest_loop desired False observedRefs
      else if irTag desired = [] then (False, False)
      else tag_loop desired False observedRefs)"

section \<open>Checks\<close>

definition mutable_message :: string where
  "mutable_message = ''desired image is mutable; pin a SemVer tag or digest''"

definition initialImageVersionCheck :: "ImageReference \<Rightarrow> bool \<Rightarrow> ImageVersionCheck" where
  "initialImageVersionCheck desired noObserved =
     (let check = \<lparr>ivDesired = desired, ivObserved = None, ivState = ImageVersionUnknown, ivMessage = []\<rparr> in
      if Mutable desired then check\<lparr>ivState := ImageVersionMutable, ivMessage := mutable_message\<rparr>
      else if noObserved then check\<lparr>ivMessage := ''no observed image reported''\<rparr>
      else check\<lparr>ivMessage := ''no observed image reported for desired repository''\<rparr>)"

definition fillImageVersionCheck :: "ImageVersionCheck \<Rightarrow> ObservedImage \<Rightarrow> ImageVersionCheck" where
  "fillImageVersionCheck check observed =
     (let check1 = check\<lparr>ivObserved := Some observed\<rparr> in
      if Mutable (ivDesired check) then check1\<lparr>ivState := ImageVersionMutable, ivMessage := mutable_message\<rparr>
      else
       (let (matches, known) = imageReferencesMatch (ivDesired check) observed in
        if \<not> known then check1\<lparr>ivState := ImageVersionUnknown,
            ivMessage := ''observed image does not include comparable tag or digest metadata''\<rparr>
        else if matches then check1\<lparr>ivState := ImageVersionMatching,
            ivMessage := ''desired and observed image versions match''\<rparr>
        else check1\<lparr>ivState := ImageVersionMismatched,
            ivMessage := ''desired and observed image versions differ''\<rparr>))"

text \<open>The first unused observed image that satisfies a condition, with its index.\<close>

fun first_unused :: "(ObservedImage \<Rightarrow> bool) \<Rightarrow> nat \<Rightarrow> ObservedImage list \<Rightarrow> bool list \<Rightarrow> (ObservedImage \<times> nat) option" where
  "first_unused P index [] used = None"
| "first_unused P index (item # items) used =
     (if index < length used \<and> used ! index then first_unused P (Suc index) items used
      else if P item then Some (item, index)
      else first_unused P (Suc index) items used)"

definition exactly_matches :: "ImageReference \<Rightarrow> ObservedImage \<Rightarrow> bool" where
  "exactly_matches desired item = (let (matches, known) = imageReferencesMatch desired item in known \<and> matches)"

definition same_repository :: "ImageReference \<Rightarrow> ObservedImage \<Rightarrow> bool" where
  "same_repository desired item \<longleftrightarrow>
     repositoryMatches desired (oiReference item) \<or> (\<exists>digest \<in> set (oiRepoDigests item). repositoryMatches desired digest)"

definition exactObservedImage :: "ImageReference \<Rightarrow> ObservedImage list \<Rightarrow> bool list \<Rightarrow> (ObservedImage \<times> nat) option" where
  "exactObservedImage desired observed used = first_unused (exactly_matches desired) 0 observed used"

definition repositoryObservedImage :: "ImageReference \<Rightarrow> ObservedImage list \<Rightarrow> bool list \<Rightarrow> (ObservedImage \<times> nat) option" where
  "repositoryObservedImage desired observed used = first_unused (same_repository desired) 0 observed used"

definition desiredForObservedImage :: "ImageReference list \<Rightarrow> ObservedImage \<Rightarrow> ImageReference option" where
  "desiredForObservedImage desired observed = find (\<lambda>ref. same_repository ref observed) desired"

text \<open>
  One pass over the checks: a check without an observed image takes the one \<open>finder\<close> returns, which
  is then used up.
\<close>

fun match_pass ::
  "(ImageReference \<Rightarrow> bool list \<Rightarrow> (ObservedImage \<times> nat) option) \<Rightarrow> ImageVersionCheck list \<Rightarrow> bool list \<Rightarrow>
   ImageVersionCheck list \<times> bool list" where
  "match_pass finder [] used = ([], used)"
| "match_pass finder (c # cs) used =
     (case (if ivObserved c \<noteq> None then None else finder (ivDesired c) used) of
        Some (m, index) \<Rightarrow>
          (let (cs', used') = match_pass finder cs (used[index := True]) in (fillImageVersionCheck c m # cs', used'))
      | None \<Rightarrow> (let (cs', used') = match_pass finder cs used in (c # cs', used')))"

text \<open>The observed images left over that belong to a desired repository get a check of their own.\<close>

fun leftover_checks :: "ImageReference list \<Rightarrow> bool list \<Rightarrow> nat \<Rightarrow> ObservedImage list \<Rightarrow> ImageVersionCheck list" where
  "leftover_checks desired used index [] = []"
| "leftover_checks desired used index (item # items) =
     (if index < length used \<and> used ! index then leftover_checks desired used (Suc index) items
      else (case desiredForObservedImage desired item of
        Some ref \<Rightarrow> fillImageVersionCheck (initialImageVersionCheck ref False) item
                    # leftover_checks desired used (Suc index) items
      | None \<Rightarrow> leftover_checks desired used (Suc index) items))"

definition imageVersionPriority :: "ImageVersionState \<Rightarrow> int" where
  "imageVersionPriority state = (case state of
     ImageVersionMismatched \<Rightarrow> 0 | ImageVersionMutable \<Rightarrow> 1 | ImageVersionUnknown \<Rightarrow> 2 | ImageVersionMatching \<Rightarrow> 3)"

definition aggregateImageVersionState :: "ImageVersionCheck list \<Rightarrow> ImageVersionState" where
  "aggregateImageVersionState checks =
     (if checks = [] then ImageVersionUnknown
      else fold (\<lambda>check state. if imageVersionPriority (ivState check) < imageVersionPriority state
                                then ivState check else state) checks ImageVersionMatching)"

text \<open>The comparison, for the references a service wants and the images observed for it.\<close>

definition compare_images :: "ImageReference list \<Rightarrow> ObservedImage list \<Rightarrow> ImageVersionState \<times> ImageVersionCheck list" where
  "compare_images desired0 observed =
     (let desired = uniqueImageReferences desired0 in
      if desired = [] then (ImageVersionUnknown, [])
      else
       (let checks0 = map (\<lambda>ref. initialImageVersionCheck ref (observed = [])) desired;
            used0 = replicate (length observed) False;
            (checks1, used1) = match_pass (\<lambda>ref used. exactObservedImage ref observed used) checks0 used0;
            (checks2, used2) = match_pass (\<lambda>ref used. repositoryObservedImage ref observed used) checks1 used1;
            checks = checks2 @ leftover_checks desired used2 0 observed
        in (aggregateImageVersionState checks, checks)))"

section \<open>Services\<close>

type_synonym HealthState = string

abbreviation HealthHealthy :: HealthState where "HealthHealthy \<equiv> ''healthy''"
abbreviation HealthDegraded :: HealthState where "HealthDegraded \<equiv> ''degraded''"
abbreviation HealthUnhealthy :: HealthState where "HealthUnhealthy \<equiv> ''unhealthy''"
abbreviation HealthUnknown :: HealthState where "HealthUnknown \<equiv> ''unknown''"
abbreviation HealthError :: HealthState where "HealthError \<equiv> ''error''"
abbreviation HealthNotApplicable :: HealthState where "HealthNotApplicable \<equiv> ''not_applicable''"

record StatusResult =
  srServiceID :: string
  srTarget :: string
  srHealth :: HealthState
  srMessage :: string
  srCheckedAt :: gotime
  srExpiresAt :: gotime
  srObservedImages :: "ObservedImage list"

text \<open>An empty \<open>svImageVersionState\<close> is \<open>None\<close>; a nil slice is the empty list.\<close>

record Service =
  svID :: string
  svName :: string
  svRepository :: string
  svSourceCommit :: string
  svSourcePath :: string
  svRuntime :: string
  svComposeProject :: string
  svKind :: string
  svNamespace :: string
  svResourceName :: string
  svEnvironment :: string
  svHealth :: HealthState
  svImages :: "string list"
  svDesiredImages :: "ImageReference list"
  svImageVersionState :: "ImageVersionState option"
  svImageVersionChecks :: "ImageVersionCheck list"
  svPorts :: "string list"
  svDependencies :: "string list"
  svStorage :: "string list"
  svExposure :: "string list"
  svMonitorRoutes :: "string list"
  svConfigRefs :: "string list"
  svWarnings :: "string list"

text \<open>The service of a name with nothing else set.\<close>

definition bare_service :: "string \<Rightarrow> string \<Rightarrow> Service" where
  "bare_service i n = \<lparr>svID = i, svName = n, svRepository = [], svSourceCommit = [], svSourcePath = [], svRuntime = [],
     svComposeProject = [], svKind = [], svNamespace = [], svResourceName = [], svEnvironment = [], svHealth = [], svImages = [],
     svDesiredImages = [], svImageVersionState = None, svImageVersionChecks = [], svPorts = [], svDependencies = [], svStorage = [],
     svExposure = [], svMonitorRoutes = [], svConfigRefs = [], svWarnings = []\<rparr>"

definition observedImages :: "StatusResult list \<Rightarrow> ObservedImage list" where
  "observedImages statuses =
     uniqueObservedImages (concat (map (\<lambda>status.
       if srHealth status = HealthNotApplicable then []
       else map (\<lambda>img. if oiTarget img = [] then img\<lparr>oiTarget := srTarget status\<rparr> else img) (srObservedImages status)) statuses))"

definition CompareServiceImages :: "Service \<Rightarrow> StatusResult list \<Rightarrow> ImageVersionState \<times> ImageVersionCheck list" where
  "CompareServiceImages service statuses =
     compare_images (if svDesiredImages service = [] then ImageReferences (svImages service) else svDesiredImages service)
       (observedImages statuses)"

definition NormalizeServiceImageMetadata :: "Service \<Rightarrow> Service" where
  "NormalizeServiceImageMetadata service = service\<lparr>
     svDesiredImages := ImageReferences (svImages service),
     svImageVersionState := (case svImageVersionState service of None \<Rightarrow> Some ImageVersionUnknown | st \<Rightarrow> st)\<rparr>"

definition ApplyImageVersionComparisons :: "Service list \<Rightarrow> StatusResult list \<Rightarrow> Service list" where
  "ApplyImageVersionComparisons services statuses =
     map (\<lambda>service0.
       let service = NormalizeServiceImageMetadata service0;
           (state, checks) = CompareServiceImages service (filter (\<lambda>st. srServiceID st = svID service) statuses)
       in service\<lparr>svImageVersionState := Some state, svImageVersionChecks := checks\<rparr>) services"

end
