(* ===== verification/ImageProps.thy ===== *)
theory ImageProps
  imports Images "HOL-Library.Multiset"
begin

text \<open>
  The properties of the image comparison: what the verdict means, that every check is justified by
  an observed image, that no observed image is used twice, that a reference prints and parses back,
  and that a tag counts as pinned only if it is a full SemVer version.
\<close>

section \<open>The verdict\<close>

lemma fold_min_state:
  "let r = fold (\<lambda>check state. if imageVersionPriority (ivState check) < imageVersionPriority state
                                then ivState check else state) checks st in
   (r = st \<or> r \<in> ivState ` set checks) \<and> imageVersionPriority r \<le> imageVersionPriority st \<and>
   (\<forall>c \<in> set checks. imageVersionPriority r \<le> imageVersionPriority (ivState c))"
proof (induction checks arbitrary: st)
  case Nil
  then show ?case by simp
next
  case (Cons c cs)
  let ?st = "if imageVersionPriority (ivState c) < imageVersionPriority st then ivState c else st"
  from Cons [of ?st] show ?case by (auto simp: Let_def split: if_splits)
qed

lemma aggregate_min:
  assumes "checks \<noteq> []"
  shows "aggregateImageVersionState checks \<in> ivState ` set checks"
    and "c \<in> set checks \<Longrightarrow> imageVersionPriority (aggregateImageVersionState checks) \<le> imageVersionPriority (ivState c)"
proof -
  note f = fold_min_state [of checks ImageVersionMatching, unfolded Let_def]
  let ?r = "aggregateImageVersionState checks"
  have r: "?r = fold (\<lambda>check state. if imageVersionPriority (ivState check) < imageVersionPriority state
                                then ivState check else state) checks ImageVersionMatching"
    using assms by (simp add: aggregateImageVersionState_def)
  show le: "imageVersionPriority ?r \<le> imageVersionPriority (ivState c)" if "c \<in> set checks" for c
    using f that unfolding r by blast
  show "?r \<in> ivState ` set checks"
  proof (cases "?r = ImageVersionMatching")
    case True
    from assms obtain c where c: "c \<in> set checks" by (cases checks) auto
    with le [OF c] True have "ivState c = ImageVersionMatching"
      by (auto simp: imageVersionPriority_def split: ImageVersionState.splits)
    with c True show ?thesis by (metis imageI)
  next
    case False
    with f show ?thesis unfolding r by blast
  qed
qed

lemma priority_order [simp]:
  "imageVersionPriority ImageVersionMismatched = 0" "imageVersionPriority ImageVersionMutable = 1"
  "imageVersionPriority ImageVersionUnknown = 2" "imageVersionPriority ImageVersionMatching = 3"
  by (simp_all add: imageVersionPriority_def)

lemma aggregate_meaning:
  assumes "checks \<noteq> []"
  shows "aggregateImageVersionState checks = ImageVersionMatching \<longleftrightarrow> (\<forall>c \<in> set checks. ivState c = ImageVersionMatching)"
    and "aggregateImageVersionState checks = ImageVersionMismatched \<longleftrightarrow> (\<exists>c \<in> set checks. ivState c = ImageVersionMismatched)"
    and "aggregateImageVersionState checks = ImageVersionMutable \<longleftrightarrow>
      (\<exists>c \<in> set checks. ivState c = ImageVersionMutable) \<and> (\<forall>c \<in> set checks. ivState c \<noteq> ImageVersionMismatched)"
proof -
  note m = aggregate_min [OF assms]
  have le: "imageVersionPriority (aggregateImageVersionState checks) \<le> imageVersionPriority (ivState c)"
    if "c \<in> set checks" for c using m(2) [OF that] .
  from m(1) obtain c0 where c0: "c0 \<in> set checks" "aggregateImageVersionState checks = ivState c0" by auto
  have eq: "\<And>s t. imageVersionPriority s \<le> imageVersionPriority t \<Longrightarrow>
      (t = ImageVersionMismatched \<longrightarrow> s = ImageVersionMismatched) \<and> (s = ImageVersionMatching \<longrightarrow> t = ImageVersionMatching) \<and>
      (t = ImageVersionMutable \<longrightarrow> s = ImageVersionMismatched \<or> s = ImageVersionMutable) \<and>
      (s = ImageVersionMutable \<longrightarrow> t \<noteq> ImageVersionMismatched)"
    by (auto simp: imageVersionPriority_def split: ImageVersionState.splits)
  show "aggregateImageVersionState checks = ImageVersionMatching \<longleftrightarrow> (\<forall>c \<in> set checks. ivState c = ImageVersionMatching)"
    using eq [OF le] c0 by metis
  show "aggregateImageVersionState checks = ImageVersionMismatched \<longleftrightarrow> (\<exists>c \<in> set checks. ivState c = ImageVersionMismatched)"
    using eq [OF le] c0 by metis
  show "aggregateImageVersionState checks = ImageVersionMutable \<longleftrightarrow>
      (\<exists>c \<in> set checks. ivState c = ImageVersionMutable) \<and> (\<forall>c \<in> set checks. ivState c \<noteq> ImageVersionMismatched)"
    using eq [OF le] c0 by metis
qed

section \<open>Justified checks\<close>

text \<open>A check says what holds of its desired reference and its observed image.\<close>

definition justified :: "ObservedImage list \<Rightarrow> ImageVersionCheck \<Rightarrow> bool" where
  "justified observed c \<longleftrightarrow>
     (case ivObserved c of None \<Rightarrow> True | Some img \<Rightarrow> img \<in> set observed) \<and>
     (ivState c = ImageVersionMutable \<longleftrightarrow> Mutable (ivDesired c)) \<and>
     (ivState c = ImageVersionMatching \<longrightarrow> (\<exists>img. ivObserved c = Some img \<and> imageReferencesMatch (ivDesired c) img = (True, True))) \<and>
     (ivState c = ImageVersionMismatched \<longrightarrow> (\<exists>img. ivObserved c = Some img \<and> imageReferencesMatch (ivDesired c) img = (False, True)))"

lemma justified_initial: "justified observed (initialImageVersionCheck ref b)"
  by (simp add: justified_def initialImageVersionCheck_def Let_def)

lemma justified_fill: "img \<in> set observed \<Longrightarrow> justified observed (fillImageVersionCheck c img)"
  by (auto simp: justified_def fillImageVersionCheck_def Let_def split: prod.split)

lemma fill_fields [simp]:
  "ivDesired (fillImageVersionCheck c img) = ivDesired c"
  "ivObserved (fillImageVersionCheck c img) = Some img"
  by (simp_all add: fillImageVersionCheck_def Let_def split: prod.split)

lemma initial_fields [simp]:
  "ivDesired (initialImageVersionCheck ref b) = ref" "ivObserved (initialImageVersionCheck ref b) = None"
  by (simp_all add: initialImageVersionCheck_def Let_def)

lemma first_unused_Some:
  "first_unused P k items used = Some (img, i) \<Longrightarrow>
   k \<le> i \<and> i - k < length items \<and> items ! (i - k) = img \<and> P img \<and> \<not> (i < length used \<and> used ! i)"
proof (induction P k items used rule: first_unused.induct)
  case (2 P k item items used)
  show ?case
  proof (cases "\<not> (k < length used \<and> used ! k) \<and> P item")
    case True
    with "2.prems" show ?thesis by (auto split: if_splits)
  next
    case False
    with 2 have "Suc k \<le> i \<and> i - Suc k < length items \<and> items ! (i - Suc k) = img \<and> P img \<and> \<not> (i < length used \<and> used ! i)"
      by (auto split: if_splits)
    then show ?thesis by (auto simp: nth_Cons' Suc_diff_Suc)
  qed
qed simp

lemma first_unused_spec:
  assumes "first_unused P 0 observed used = Some (img, i)" and "length used = length observed"
  shows "i < length observed \<and> observed ! i = img \<and> P img \<and> \<not> used ! i"
  using first_unused_Some [OF assms(1)] assms(2) by simp

text \<open>What a pass may take: an unused image, at its index.\<close>

definition good_finder :: "ObservedImage list \<Rightarrow> (ImageReference \<Rightarrow> bool list \<Rightarrow> (ObservedImage \<times> nat) option) \<Rightarrow> bool" where
  "good_finder observed finder \<longleftrightarrow> (\<forall>ref used img i. length used = length observed \<longrightarrow> finder ref used = Some (img, i) \<longrightarrow>
     i < length observed \<and> observed ! i = img \<and> \<not> used ! i)"

lemma good_finders:
  "good_finder observed (\<lambda>ref used. exactObservedImage ref observed used)"
  "good_finder observed (\<lambda>ref used. repositoryObservedImage ref observed used)"
  by (auto simp: good_finder_def exactObservedImage_def repositoryObservedImage_def dest: first_unused_spec)

definition taken :: "bool list \<Rightarrow> nat set" where
  "taken used = {i. i < length used \<and> used ! i}"

definition observed_of :: "ImageVersionCheck list \<Rightarrow> ObservedImage list" where
  "observed_of checks = List.map_filter ivObserved checks"

lemma observed_of_simps [simp]:
  "observed_of [] = []"
  "observed_of (c # cs) = (case ivObserved c of None \<Rightarrow> observed_of cs | Some img \<Rightarrow> img # observed_of cs)"
  by (simp_all add: observed_of_def map_filter_simps split: option.split)

lemma observed_of_append [simp]: "observed_of (xs @ ys) = observed_of xs @ observed_of ys"
  by (induction xs) (auto split: option.split)

lemma taken_update: "i < length used \<Longrightarrow> taken (used[i := True]) = insert i (taken used)"
  by (auto simp: taken_def nth_list_update)

lemma finite_taken [simp]: "finite (taken used)"
  by (simp add: taken_def)

lemma match_pass_spec:
  assumes "good_finder observed finder" and "length used = length observed"
    and "match_pass finder cs used = (cs', used')" and "\<forall>c \<in> set cs. justified observed c"
  shows "map ivDesired cs' = map ivDesired cs \<and> length used' = length observed \<and> (\<forall>c \<in> set cs'. justified observed c) \<and>
    taken used \<subseteq> taken used' \<and>
    mset (observed_of cs') = mset (observed_of cs) + image_mset ((!) observed) (mset_set (taken used' - taken used))"
  using assms(2-4)
proof (induction cs arbitrary: used cs' used')
  case Nil
  then show ?case by simp
next
  case (Cons c cs)
  show ?case
  proof (cases "if ivObserved c \<noteq> None then None else finder (ivDesired c) used")
    case None
    then obtain ds where ds: "match_pass finder cs used = (ds, used')" "cs' = c # ds"
      using Cons.prems(2) by (auto split: prod.splits)
    from Cons.IH [OF Cons.prems(1) ds(1)] Cons.prems(3) ds(2) show ?thesis by (auto split: option.split)
  next
    case (Some p)
    obtain img i where p: "p = (img, i)" by fastforce
    have none: "ivObserved c = None" and f: "finder (ivDesired c) used = Some (img, i)"
      using Some p by (auto split: if_splits)
    have i: "i < length observed" "observed ! i = img" "\<not> used ! i"
      using assms(1) Cons.prems(1) f unfolding good_finder_def by blast+
    obtain ds where ds: "match_pass finder cs (used[i := True]) = (ds, used')" "cs' = fillImageVersionCheck c img # ds"
      using Cons.prems(2) none f by (auto split: prod.splits)
    have IH: "map ivDesired ds = map ivDesired cs \<and> length used' = length observed \<and> (\<forall>c \<in> set ds. justified observed c) \<and>
      taken (used[i := True]) \<subseteq> taken used' \<and>
      mset (observed_of ds) = mset (observed_of cs) + image_mset ((!) observed) (mset_set (taken used' - taken (used[i := True])))"
      by (rule Cons.IH [OF _ ds(1)]) (use Cons.prems in auto)
    have new: "taken (used[i := True]) = insert i (taken used)" "i \<notin> taken used"
      using i Cons.prems(1) by (simp add: taken_update, simp add: taken_def)
    then have "taken used' - taken used = insert i (taken used' - taken (used[i := True]))"
      using IH by auto
    moreover have "i \<notin> taken used' - taken (used[i := True])" using new by blast
    ultimately have "mset_set (taken used' - taken used) = add_mset i (mset_set (taken used' - taken (used[i := True])))"
      by simp
    moreover have "img \<in> set observed" using i by auto
    moreover have "taken used \<subseteq> taken used'" using IH new(1) by blast
    ultimately show ?thesis using IH ds(2) i(2) none by (simp add: justified_fill)
  qed
qed

lemma leftover_spec:
  assumes "c \<in> set (leftover_checks desired used k items)" and "set items \<subseteq> set observed"
  shows "justified observed c \<and> ivDesired c \<in> set desired"
  using assms
proof (induction desired used k items rule: leftover_checks.induct)
  case (2 desired used k item items)
  then show ?case
    by (auto simp: justified_fill desiredForObservedImage_def split: if_splits option.splits dest: find_Some_iff_set)
qed simp

lemma leftover_observed:
  assumes "items = drop k observed" and "length used = length observed"
  shows "mset (observed_of (leftover_checks desired used k items)) \<subseteq>#
    image_mset ((!) observed) (mset_set ({k..<length observed} - taken used))"
  using assms
proof (induction items arbitrary: k)
  case Nil
  then show ?case by simp
next
  case (Cons item items)
  then have k: "k < length observed" "observed ! k = item" "items = drop (Suc k) observed"
    by (metis drop_all leI list.distinct(1), metis Cons.prems(1) drop_all hd_drop_conv_nth leI list.distinct(1) list.sel(1),
        metis Cons.prems(1) drop_Suc list.sel(3) tl_drop)
  let ?M = "image_mset ((!) observed) (mset_set ({Suc k..<length observed} - taken used))"
  have IH: "mset (observed_of (leftover_checks desired used (Suc k) items)) \<subseteq># ?M"
    by (rule Cons.IH [OF k(3) Cons.prems(2)])
  show ?case
  proof (cases "used ! k")
    case True
    then have "k \<in> taken used" using k(1) Cons.prems(2) by (simp add: taken_def)
    then have "{k..<length observed} - taken used = {Suc k..<length observed} - taken used"
      using k(1) by (auto simp: Suc_le_eq le_less)
    with IH True k(1) Cons.prems(2) show ?thesis by simp
  next
    case False
    then have "k \<notin> taken used" by (simp add: taken_def)
    then have "{k..<length observed} - taken used = insert k ({Suc k..<length observed} - taken used)"
      using k(1) by (auto simp: Suc_le_eq le_less)
    then have "image_mset ((!) observed) (mset_set ({k..<length observed} - taken used)) = add_mset item ?M"
      using k(2) by simp
    moreover have "mset (observed_of (leftover_checks desired used k (item # items))) \<subseteq>#
        add_mset item (mset (observed_of (leftover_checks desired used (Suc k) items)))"
      using False by (auto split: option.split)
    moreover have "add_mset item (mset (observed_of (leftover_checks desired used (Suc k) items))) \<subseteq># add_mset item ?M"
      using IH by simp
    ultimately show ?thesis by (simp only: subset_mset.order_trans)
  qed
qed

lemma observed_of_initial: "observed_of (map (\<lambda>ref. initialImageVersionCheck ref b) refs) = []"
  by (induction refs) auto

lemma compare_unfold:
  assumes "uniqueImageReferences desired0 \<noteq> []"
  obtains cs1 used1 cs2 used2 where
    "match_pass (\<lambda>ref used. exactObservedImage ref observed used)
       (map (\<lambda>ref. initialImageVersionCheck ref (observed = [])) (uniqueImageReferences desired0))
       (replicate (length observed) False) = (cs1, used1)"
    "match_pass (\<lambda>ref used. repositoryObservedImage ref observed used) cs1 used1 = (cs2, used2)"
    "snd (compare_images desired0 observed) = cs2 @ leftover_checks (uniqueImageReferences desired0) used2 0 observed"
    "fst (compare_images desired0 observed) = aggregateImageVersionState (snd (compare_images desired0 observed))"
proof -
  obtain cs1 used1 where 1: "match_pass (\<lambda>ref used. exactObservedImage ref observed used)
       (map (\<lambda>ref. initialImageVersionCheck ref (observed = [])) (uniqueImageReferences desired0))
       (replicate (length observed) False) = (cs1, used1)" by fastforce
  obtain cs2 used2 where 2: "match_pass (\<lambda>ref used. repositoryObservedImage ref observed used) cs1 used1 = (cs2, used2)"
    by fastforce
  show thesis by (rule that [OF 1 2]) (use assms 1 2 in \<open>simp_all add: compare_images_def Let_def\<close>)
qed

lemma compare_checks:
  assumes "checks = snd (compare_images desired0 observed)"
  shows "(\<forall>c \<in> set checks. justified observed c \<and> ivDesired c \<in> set (uniqueImageReferences desired0)) \<and>
    take (length (uniqueImageReferences desired0)) (map ivDesired checks) = uniqueImageReferences desired0 \<and>
    mset (observed_of checks) \<subseteq># mset observed"
proof (cases "uniqueImageReferences desired0 = []")
  case True
  with assms show ?thesis by (simp add: compare_images_def)
next
  case False
  let ?d = "uniqueImageReferences desired0" and ?n = "length observed"
  let ?cs0 = "map (\<lambda>ref. initialImageVersionCheck ref (observed = [])) ?d"
  from compare_unfold [OF False, of observed] obtain cs1 used1 cs2 used2 where
    m: "match_pass (\<lambda>ref used. exactObservedImage ref observed used) ?cs0 (replicate ?n False) = (cs1, used1)"
      "match_pass (\<lambda>ref used. repositoryObservedImage ref observed used) cs1 used1 = (cs2, used2)"
      "checks = cs2 @ leftover_checks ?d used2 0 observed"
    using assms by metis
  have 0: "\<forall>c \<in> set ?cs0. justified observed c" by (auto simp: justified_initial)
  have o0: "observed_of ?cs0 = []" by (rule observed_of_initial)
  have t0: "taken (replicate ?n False) = {}" by (auto simp: taken_def)
  note s1 = match_pass_spec [OF good_finders(1) _ m(1) 0, simplified]
  from s1 have l1: "length used1 = ?n" and j1: "\<forall>c \<in> set cs1. justified observed c" by simp_all
  note s2 = match_pass_spec [OF good_finders(2) l1 m(2) j1]
  have ds: "map ivDesired cs2 = ?d" using s1 s2 by (simp add: comp_def)
  have "mset (observed_of cs2) = image_mset ((!) observed) (mset_set (taken used1)) +
      image_mset ((!) observed) (mset_set (taken used2 - taken used1))"
    using s1 s2 o0 t0 by simp
  also have "\<dots> = image_mset ((!) observed) (mset_set (taken used2))"
  proof -
    have "taken used2 = taken used1 \<union> (taken used2 - taken used1)" using s2 by auto
    then have "mset_set (taken used2) = mset_set (taken used1) + mset_set (taken used2 - taken used1)"
      by (metis Diff_disjoint finite_Diff finite_taken mset_set_Union)
    then show ?thesis by simp
  qed
  finally have taken2: "mset (observed_of cs2) = image_mset ((!) observed) (mset_set (taken used2))" .
  have l2: "length used2 = ?n" using s2 by simp
  have "mset (observed_of checks) \<subseteq># image_mset ((!) observed) (mset_set (taken used2)) +
      image_mset ((!) observed) (mset_set ({0..<?n} - taken used2))"
    using leftover_observed [of observed 0 observed used2 ?d] l2 taken2 m(3) by simp
  also have "\<dots> = mset observed"
  proof -
    have "taken used2 \<subseteq> {0..<?n}" using l2 by (auto simp: taken_def)
    then have "mset_set {0..<?n} = mset_set (taken used2) + mset_set ({0..<?n} - taken used2)"
      by (metis Diff_disjoint Diff_partition finite_Diff finite_atLeastLessThan finite_taken mset_set_Union)
    then show ?thesis
      by (metis image_mset_union map_nth mset_map mset_set_upto_eq_mset_upto atLeast0LessThan mset_upt)
  qed
  finally have "mset (observed_of checks) \<subseteq># mset observed" .
  moreover have "justified observed c \<and> ivDesired c \<in> set ?d" if "c \<in> set checks" for c
  proof (cases "c \<in> set cs2")
    case True
    then have "ivDesired c \<in> set (map ivDesired cs2)" by simp
    with True s2 ds show ?thesis by auto
  next
    case False
    with that m(3) have "c \<in> set (leftover_checks ?d used2 0 observed)" by simp
    then show ?thesis by (rule leftover_spec) simp
  qed
  moreover have "length cs2 = length ?d" using ds by (metis length_map)
  then have "take (length ?d) (map ivDesired checks) = ?d" using ds m(3) by simp
  ultimately show ?thesis by blast
qed

section \<open>Properties of the comparison\<close>

definition demo_service :: Service where
  "demo_service = (bare_service ''s1'' ''web'')\<lparr>svHealth := HealthHealthy, svImages := [''web:1.2.3'']\<rparr>"

definition demo_status :: StatusResult where
  "demo_status = \<lparr>srServiceID = ''s1'', srTarget = ''a'', srHealth = HealthHealthy, srMessage = [], srCheckedAt = 0,
     srExpiresAt = 0, srObservedImages = [NewObservedImage ''a'' ''docker'' ''docker.io/library/web:1.2.3'' [] []]\<rparr>"

text \<open>the image state of a service is the worst of its checks: matching if there are checks and all
  match, mismatched if some check is mismatched, mutable if some desired reference can move and none
  is mismatched.\<close>

lemma image_state_is_worst_check:
  assumes "CompareServiceImages service statuses = (state, checks)" and "checks \<noteq> []"
  shows "(state = ImageVersionMatching \<longleftrightarrow> (\<forall>c \<in> set checks. ivState c = ImageVersionMatching)) \<and>
    (state = ImageVersionMismatched \<longleftrightarrow> (\<exists>c \<in> set checks. ivState c = ImageVersionMismatched)) \<and>
    (state = ImageVersionMutable \<longleftrightarrow> (\<exists>c \<in> set checks. ivState c = ImageVersionMutable) \<and>
       (\<forall>c \<in> set checks. ivState c \<noteq> ImageVersionMismatched))"
proof -
  have "state = aggregateImageVersionState checks"
    using assms by (auto simp: CompareServiceImages_def compare_images_def Let_def split: if_splits prod.splits)
  with aggregate_meaning [OF assms(2)] show ?thesis by simp
qed

lemma demo_compare: "fst (CompareServiceImages demo_service [demo_status]) = ImageVersionMatching"
  "length (snd (CompareServiceImages demo_service [demo_status])) = 1"
  by code_simp+

text \<open>every check is honest: matching and mismatched are claimed only for an image the runtime
  really reports for the service and whose comparison with the desired reference says so, mutable
  exactly for a desired reference that can move; the first checks are the distinct desired references
  in order, one each.\<close>

lemma image_checks_are_justified:
  assumes "checks = snd (CompareServiceImages service statuses)"
    and "desired = uniqueImageReferences (if svDesiredImages service = [] then ImageReferences (svImages service) else svDesiredImages service)"
  shows "(\<forall>c \<in> set checks. justified (observedImages statuses) c \<and> ivDesired c \<in> set desired) \<and>
    take (length desired) (map ivDesired checks) = desired"
  using compare_checks [of checks "if svDesiredImages service = [] then ImageReferences (svImages service) else svDesiredImages service"
      "observedImages statuses"] assms
  by (simp add: CompareServiceImages_def)

text \<open>no observed image is used for two checks: the images named by the checks are, with their
  multiplicity, among the observed ones.\<close>

lemma observed_image_used_once:
  "mset (observed_of (snd (CompareServiceImages service statuses))) \<subseteq># mset (observedImages statuses)"
  using compare_checks [OF refl] by (simp add: CompareServiceImages_def)

section \<open>Pinned tags\<close>

lemma split_while: "s = takeWhile P s @ dropWhile P s"
  by simp

text \<open>a reference without digest counts as immutable only if its tag is a full SemVer version:
  an optional v, three numbers without leading zeros, and then nothing, a prerelease or a build part.
  So latest, a branch name, a bare number or a partial version is always reported as mutable.\<close>

lemma immutable_tag_is_full_semver:
  assumes "\<not> Mutable ref" and "irOriginal ref \<noteq> []" and "irDigest ref = []"
  shows "\<exists>v major minor patch rest. TrimSpace (irTag ref) = v @ major @ ''.'' @ minor @ ''.'' @ patch @ rest \<and>
    v \<in> {[], ''v''} \<and> (\<forall>n \<in> {major, minor, patch}. validSemVerNumber n \<and> list_all is_digit n) \<and>
    (rest = [] \<or> hd rest = CHR ''-'' \<or> hd rest = CHR ''+'')"
proof -
  define tag where "tag = TrimSpace (irTag ref)"
  define s where "s = (if HasPrefix tag ''v'' then tl tag else tag)"
  define v where "v = (if HasPrefix tag ''v'' then ''v'' else [])"
  have "isFullSemVerTag tag"
    using assms by (auto simp: Mutable_def Let_def tag_def split: if_splits)
  then obtain major minor patch pre where m: "semverTagPattern tag = Some (major, minor, patch, pre)" "patch \<noteq> []"
      "validSemVerNumber major" "validSemVerNumber minor" "validSemVerNumber patch"
    by (auto simp: isFullSemVerTag_def tag_def split: option.splits)
  define r1 where "r1 = dropWhile is_digit s"
  define r2 where "r2 = dropWhile is_digit (tl r1)"
  from m(1,2) have parts: "major = takeWhile is_digit s" "r1 \<noteq> []" "hd r1 = CHR ''.''" "minor = takeWhile is_digit (tl r1)"
      "r2 \<noteq> []" "hd r2 = CHR ''.''" "semver_tail (tl r2) = Some (patch, pre)"
    by (auto simp: semverTagPattern_def Let_def s_def r1_def r2_def split: if_splits)
  define rest where "rest = dropWhile is_digit (tl r2)"
  from parts(7) have tail: "patch = takeWhile is_digit (tl r2)" "rest = [] \<or> hd rest = CHR ''-'' \<or> hd rest = CHR ''+''"
    by (auto simp: semver_tail_def Let_def rest_def split: if_splits list.splits)
  have "tag = v @ s" by (auto simp: v_def s_def HasPrefix_def split: if_splits) (cases tag; simp)
  moreover have "s = major @ r1" "tl r1 = minor @ r2" "tl r2 = patch @ rest"
    by (simp_all add: parts(1,4) tail(1) r1_def r2_def rest_def)
  moreover have "r1 = CHR ''.'' # tl r1" "r2 = CHR ''.'' # tl r2" using parts(2,3,5,6) by (metis list.collapse)+
  ultimately have "tag = v @ major @ ''.'' @ minor @ ''.'' @ patch @ rest"
    by (metis append_Cons append_Nil)
  moreover have "list_all is_digit major" "list_all is_digit minor" "list_all is_digit patch"
    by (auto simp: parts(1,4) tail(1) list_all_iff dest: set_takeWhileD)
  moreover have "v \<in> {[], ''v''}" by (simp add: v_def)
  ultimately show ?thesis using m(3-5) tail(2) unfolding tag_def by blast
qed

section \<open>Printing and parsing\<close>

text \<open>The usual way to write a reference, and the references it can write.\<close>

definition render_ref :: "ImageReference \<Rightarrow> string" where
  "render_ref ref =
     (if irRegistry ref = [] then [] else irRegistry ref @ ''/'') @ irRepository ref @
     (if irTag ref = [] then [] else '':'' @ irTag ref) @ (if irDigest ref = [] then [] else ''@'' @ irDigest ref)"

definition ref_char :: "char \<Rightarrow> bool" where
  "ref_char c \<longleftrightarrow> graphic c \<and> c \<noteq> CHR ''@''"

definition well_formed_ref :: "ImageReference \<Rightarrow> bool" where
  "well_formed_ref ref \<longleftrightarrow>
     irOriginal ref = render_ref ref \<and>
     list_all ref_char (irRegistry ref) \<and> list_all ref_char (irRepository ref) \<and>
     list_all ref_char (irTag ref) \<and> list_all ref_char (irDigest ref) \<and>
     irRepository ref \<noteq> [] \<and> CHR '':'' \<notin> set (irRepository ref) \<and>
     CHR ''/'' \<notin> set (irTag ref) \<and> CHR '':'' \<notin> set (irTag ref) \<and> CHR ''/'' \<notin> set (irRegistry ref) \<and>
     irRepository ref \<notin> {''sha256'', ''sha384'', ''sha512''} \<and> \<not> Contains (render_ref ref) ''//'' \<and>
     (if irRegistry ref = []
      then length (split_char (CHR ''/'') (irRepository ref)) = 1 \<or> \<not> isRegistryComponent (hd (split_char (CHR ''/'') (irRepository ref)))
      else isRegistryComponent (irRegistry ref))"

lemma ref_char_graphic: "list_all ref_char s \<Longrightarrow> list_all graphic s"
  by (auto simp: list_all_iff ref_char_def)

lemma graphic_seps: "graphic (CHR ''/'')" "graphic (CHR '':'')" "graphic (CHR ''@'')"
  by (simp_all add: graphic_def ascii_space_def)

lemma strip_none: "TrimSpace r = r \<Longrightarrow> \<not> Contains r ''//'' \<Longrightarrow> stripImageScheme r = r"
proof -
  assume t: "TrimSpace r = r" and n: "\<not> Contains r ''//''"
  have "\<not> HasPrefix r (p @ ''//'')" for p
  proof
    assume "HasPrefix r (p @ ''//'')"
    then obtain x where "r = p @ ''//'' @ x" by (auto simp: HasPrefix_prefix prefix_def)
    with n show False unfolding Contains_iff by blast
  qed
  from this [of "''docker-pullable:''"] this [of "''docker:''"] this [of "''containerd:''"] show ?thesis
    by (simp add: stripImageScheme_def t)
qed

lemma cut_tag_some:
  assumes "CHR ''/'' \<notin> set tag" and "CHR '':'' \<notin> set tag" and "TrimSpace name = name" and "TrimSpace tag = tag"
  shows "cut_tag (name @ CHR '':'' # tag) = (name, tag)"
proof -
  have "LastIndexByte (name @ CHR '':'' # tag) (CHR ''/'') = LastIndexByte name (CHR ''/'')"
    using assms(1) by (simp add: LastIndexByte_append LastIndexByte_None [THEN iffD2])
  moreover have "LastIndexByte name (CHR ''/'') = Some i \<Longrightarrow> i < length name" for i by (simp add: LastIndexByte_Some)
  ultimately show ?thesis
    using assms by (auto simp: cut_tag_def LastIndexByte_last split: option.split)
qed

lemma cut_tag_none:
  assumes "CHR '':'' \<notin> set repo"
  shows "cut_tag repo = (repo, [])" and "cut_tag (registry @ CHR ''/'' # repo) = (registry @ CHR ''/'' # repo, [])"
proof -
  show "cut_tag repo = (repo, [])" using assms by (simp add: cut_tag_def LastIndexByte_None [THEN iffD2])
  have "LastIndexByte (registry @ CHR ''/'' # repo) (CHR '':'') = LastIndexByte registry (CHR '':'')"
    using assms by (simp add: LastIndexByte_append LastIndexByte_None [THEN iffD2])
  moreover have "LastIndexByte registry (CHR '':'') = Some i \<Longrightarrow> i < length registry" for i by (simp add: LastIndexByte_Some)
  moreover have "\<exists>j \<ge> length registry. LastIndexByte (registry @ CHR ''/'' # repo) (CHR ''/'') = Some j"
    by (auto simp: LastIndexByte_append split: option.split)
  ultimately show "cut_tag (registry @ CHR ''/'' # repo) = (registry @ CHR ''/'' # repo, [])"
    by (fastforce simp: cut_tag_def split: option.split)
qed

definition ref_name :: "ImageReference \<Rightarrow> string" where
  "ref_name ref = (if irRegistry ref = [] then [] else irRegistry ref @ ''/'') @ irRepository ref"

lemma render_parts:
  "render_ref ref = ref_name ref @ (if irTag ref = [] then [] else '':'' @ irTag ref) @ (if irDigest ref = [] then [] else ''@'' @ irDigest ref)"
  by (simp add: render_ref_def ref_name_def)

lemma not_bare:
  assumes "well_formed_ref ref" and "TrimSpace (render_ref ref) = render_ref ref"
  shows "\<not> isBareDigest (render_ref ref)"
proof (cases "Contains (render_ref ref) ''/'' \<or> Contains (render_ref ref) ''@''")
  case True
  then show ?thesis using assms(2) by (simp add: isBareDigest_def)
next
  case False
  then have e: "irRegistry ref = []" "irDigest ref = []"
    by (auto simp: Contains_char render_ref_def split: if_splits)
  have c: "CHR '':'' \<notin> set (irRepository ref)" "irRepository ref \<notin> {''sha256'', ''sha384'', ''sha512''}"
    using assms(1) by (simp_all add: well_formed_ref_def)
  have "Cut (render_ref ref) '':'' = (if irTag ref = [] then (irRepository ref, [], False) else (irRepository ref, irTag ref, True))"
    using c(1) by (simp add: render_ref_def e Cut_char Cut_char_None)
  with c(2) show ?thesis unfolding isBareDigest_def Let_def assms(2) by (simp split: prod.split)
qed

text \<open>C29: a well-formed reference is recovered from the way it is written: registry, repository, tag and
  digest come out as they went in, also for a registry with a port.\<close>

theorem image_reference_roundtrip:
  assumes wf: "well_formed_ref ref"
  shows "ParseImageReference (render_ref ref) = ref"
proof -
  let ?r = "render_ref ref"
  have chars: "list_all ref_char (irRegistry ref)" "list_all ref_char (irRepository ref)" "list_all ref_char (irTag ref)"
    "list_all ref_char (irDigest ref)" using wf by (simp_all add: well_formed_ref_def)
  have gr: "list_all graphic ?r" "list_all graphic (ref_name ref)"
    "list_all graphic (ref_name ref @ (if irTag ref = [] then [] else '':'' @ irTag ref))"
    using chars [THEN ref_char_graphic] graphic_seps by (simp_all add: render_ref_def ref_name_def)
  note trims = gr [THEN TrimSpace_all_graphic] chars [THEN ref_char_graphic, THEN TrimSpace_all_graphic]
  have scheme: "stripImageScheme ?r = ?r" using trims(1) wf by (simp add: strip_none well_formed_ref_def)
  have bare: "\<not> isBareDigest ?r" using not_bare [OF wf trims(1)] .
  have at: "CHR ''@'' \<notin> set (irRegistry ref)" "CHR ''@'' \<notin> set (irRepository ref)" "CHR ''@'' \<notin> set (irTag ref)" "CHR ''@'' \<notin> set (irDigest ref)"
    using chars by (auto simp: list_all_iff ref_char_def)
  let ?base = "ref_name ref @ (if irTag ref = [] then [] else '':'' @ irTag ref)"
  have "CHR ''@'' \<notin> set ?base" using at by (simp add: ref_name_def)
  then have d: "cut_digest ?r = (?base, irDigest ref)"
    using at(4) trims(3,7) LastIndexByte_last [OF at(4), of ?base]
    by (auto simp: cut_digest_def render_parts LastIndexByte_None [THEN iffD2])
  have no: "CHR '':'' \<notin> set (irRepository ref)" "CHR ''/'' \<notin> set (irTag ref)" "CHR '':'' \<notin> set (irTag ref)"
    "CHR ''/'' \<notin> set (irRegistry ref)" "irRepository ref \<noteq> []" using wf by (simp_all add: well_formed_ref_def)
  have t: "cut_tag ?base = (ref_name ref, irTag ref)"
  proof (cases "irTag ref = []")
    case True
    then show ?thesis using cut_tag_none [OF no(1)] by (simp add: ref_name_def)
  next
    case False
    then show ?thesis using cut_tag_some [OF no(2,3) trims(2,6)] by simp
  qed
  have ne: "ref_name ref \<noteq> []" "?r \<noteq> []" using no(5) by (simp_all add: ref_name_def render_ref_def)
  have p: "split_char (CHR ''/'') (ref_name ref) =
      (if irRegistry ref = [] then split_char (CHR ''/'') (irRepository ref) else irRegistry ref # split_char (CHR ''/'') (irRepository ref))"
    using split_char_first [OF no(4)] by (simp add: ref_name_def)
  have orig: "irOriginal ref = ?r" using wf by (simp add: well_formed_ref_def)
  show ?thesis
  proof (cases "irRegistry ref = []")
    case True
    then have "\<not> (1 < length (split_char (CHR ''/'') (irRepository ref)) \<and> isRegistryComponent (hd (split_char (CHR ''/'') (irRepository ref))))"
      using wf by (auto simp: well_formed_ref_def)
    with True show ?thesis
      using orig ne by (simp add: ParseImageReference_def Let_def trims(1) scheme bare d t p empty_ref_def) (auto simp: ref_name_def)
  next
    case False
    then have "isRegistryComponent (irRegistry ref)" using wf by (simp add: well_formed_ref_def)
    with False show ?thesis
      using orig ne Join_split_char [of "CHR ''/''" "irRepository ref"]
      by (simp add: ParseImageReference_def Let_def trims(1) scheme bare d t p empty_ref_def)
  qed
qed

theorem image_reference_roundtrip_witness:
  "ParseImageReference ''registry.local:5000/team/web:1.2.3@sha256:abc'' =
   \<lparr>irOriginal = ''registry.local:5000/team/web:1.2.3@sha256:abc'', irRegistry = ''registry.local:5000'',
    irRepository = ''team/web'', irTag = ''1.2.3'', irDigest = ''sha256:abc''\<rparr>"
proof -
  let ?ref = "\<lparr>irOriginal = ''registry.local:5000/team/web:1.2.3@sha256:abc'', irRegistry = ''registry.local:5000'',
    irRepository = ''team/web'', irTag = ''1.2.3'', irDigest = ''sha256:abc''\<rparr>"
  have "well_formed_ref ?ref" by code_simp
  moreover have "render_ref ?ref = ''registry.local:5000/team/web:1.2.3@sha256:abc''" by (simp add: render_ref_def)
  ultimately show ?thesis using image_reference_roundtrip [of ?ref] by simp
qed

end
