(* ===== verification/Versions.thy ===== *)
theory Versions
  imports GoStrings
begin

text \<open>
  The allocation of release versions (\<open>internal/ci/version.go\<close>) and the input of the command
  \<open>version-allocator\<close>: strict SemVer tags, the highest one, the next one for a bump, and the reuse of
  the tag a source commit already has.
\<close>

section \<open>Versions\<close>

record version =
  major :: int
  minor :: int
  patch :: int

datatype Bump = BumpPatch | BumpMinor | BumpMajor | BumpOther string

record Tag =
  tagName :: string
  tagCommit :: string

record Allocation =
  allocVersion :: string
  allocReused :: bool

datatype ci_error = UnsupportedBump | InvalidTagInput | NonCanonicalFields | InvalidSource

definition version_less :: "version \<Rightarrow> version \<Rightarrow> bool" where
  "version_less v o' =
     (if major v \<noteq> major o' then major v < major o'
      else if minor v \<noteq> minor o' then minor v < minor o'
      else patch v < patch o')"

definition version_String :: "version \<Rightarrow> string" where
  "version_String v = ''v'' @ string_of_int (major v) @ ''.'' @ string_of_int (minor v) @ ''.'' @ string_of_int (patch v)"

text \<open>\<open>0|[1-9]\d*\<close> and \<open>strconv.ParseInt\<close> with its range check.\<close>

definition parse_number :: "string \<Rightarrow> int option" where
  "parse_number s =
     (if s \<noteq> [] \<and> list_all is_digit s \<and> (s = ''0'' \<or> hd s \<noteq> CHR ''0'') \<and> int (nat_of_digits s) \<le> max_int64
      then Some (int (nat_of_digits s)) else None)"

definition parseVersion :: "string \<Rightarrow> version option" where
  "parseVersion tag =
     (if HasPrefix tag ''v'' then
       (case split_char (CHR ''.'') (tl tag) of
          [a, b, c] \<Rightarrow>
            (case (parse_number a, parse_number b, parse_number c) of
               (Some x, Some y, Some z) \<Rightarrow> Some \<lparr>major = x, minor = y, patch = z\<rparr>
             | _ \<Rightarrow> None)
        | _ \<Rightarrow> None)
      else None)"

definition sourceTagMatchesBump :: "string \<Rightarrow> Bump \<Rightarrow> bool" where
  "sourceTagMatchesBump name bump =
     (case parseVersion name of
        None \<Rightarrow> False
      | Some v \<Rightarrow>
          (case bump of
             BumpMajor \<Rightarrow> 0 < major v \<and> minor v = 0 \<and> patch v = 0
           | BumpMinor \<Rightarrow> 0 < minor v \<and> patch v = 0
           | BumpPatch \<Rightarrow> 0 < patch v
           | BumpOther _ \<Rightarrow> False))"

definition nextVersion :: "version \<Rightarrow> Bump \<Rightarrow> version" where
  "nextVersion v bump =
     (case bump of
        BumpMajor \<Rightarrow> v\<lparr>major := wrap64 (major v + 1), minor := 0, patch := 0\<rparr>
      | BumpMinor \<Rightarrow> v\<lparr>minor := wrap64 (minor v + 1), patch := 0\<rparr>
      | BumpPatch \<Rightarrow> v\<lparr>patch := wrap64 (patch v + 1)\<rparr>
      | BumpOther _ \<Rightarrow> v)"

definition incrementable :: "version \<Rightarrow> Bump \<Rightarrow> bool" where
  "incrementable v bump =
     (case bump of
        BumpMajor \<Rightarrow> major v < max_int64
      | BumpMinor \<Rightarrow> minor v < max_int64
      | BumpPatch \<Rightarrow> patch v < max_int64
      | BumpOther _ \<Rightarrow> False)"

text \<open>One turn of the loop over the tags: the maximum and the version to reuse so far.\<close>

definition allocate_step ::
  "string \<Rightarrow> Bump \<Rightarrow> Tag \<Rightarrow> version \<times> version option \<Rightarrow> version \<times> version option" where
  "allocate_step source bump tag st =
     (case st of (mx, reuse) \<Rightarrow>
       (case parseVersion (tagName tag) of
          None \<Rightarrow> (mx, reuse)
        | Some parsed \<Rightarrow>
            (let reuse' = (if tagCommit tag = source \<and> sourceTagMatchesBump (tagName tag) bump \<and>
                              (case reuse of None \<Rightarrow> True | Some r \<Rightarrow> version_less r parsed)
                           then Some parsed else reuse)
             in if \<not> incrementable parsed bump then (mx, reuse')
                else if version_less mx parsed then (parsed, reuse')
                else (mx, reuse'))))"

definition zero_version :: version where
  "zero_version = \<lparr>major = 0, minor = 0, patch = 0\<rparr>"

definition Allocate :: "Tag list \<Rightarrow> string \<Rightarrow> Bump \<Rightarrow> ci_error + Allocation" where
  "Allocate tags source bump =
     (if bump \<noteq> BumpPatch \<and> bump \<noteq> BumpMinor \<and> bump \<noteq> BumpMajor then Inl UnsupportedBump
      else
       (case fold (allocate_step source bump) tags (zero_version, None) of
          (mx, Some r) \<Rightarrow> Inr \<lparr>allocVersion = version_String r, allocReused = True\<rparr>
        | (mx, None) \<Rightarrow> Inr \<lparr>allocVersion = version_String (nextVersion mx bump), allocReused = False\<rparr>))"

definition AllocateVersion :: "Tag list \<Rightarrow> string \<Rightarrow> Bump \<Rightarrow> ci_error + string" where
  "AllocateVersion tags source bump = bind_res (Allocate tags source bump) (\<lambda>a. Inr (allocVersion a))"

section \<open>The command\<close>

definition commitID :: "string \<Rightarrow> bool" where
  "commitID s \<longleftrightarrow> length s = 40 \<and> list_all (\<lambda>c. is_digit c \<or> (CHR ''a'' \<le> c \<and> c \<le> CHR ''f'')) s"

definition validField :: "string \<Rightarrow> bool" where
  "validField s \<longleftrightarrow> s \<noteq> [] \<and> TrimSpace s = s \<and>
     \<not> ContainsAny s {CHR '' '', CHR 0x09, CHR 0x0D, CHR 0x0A, CHR 0x0B, CHR 0x0C}"

definition parseTagLine :: "string \<Rightarrow> ci_error + Tag" where
  "parseTagLine line =
     (if length (filter (\<lambda>c. c = CHR 0x09) line) \<noteq> 1 then Inl InvalidTagInput
      else
       (let (name, commit, _) = Cut line [CHR 0x09] in
        if \<not> validField name \<or> \<not> commitID commit then Inl NonCanonicalFields
        else Inr \<lparr>tagName = name, tagCommit = commit\<rparr>))"

text \<open>\<open>main\<close> without \<open>--workflow-dispatch-bump\<close>: the lines of the input are those of the scanner.\<close>

definition allocator_main :: "string \<Rightarrow> Bump \<Rightarrow> string list \<Rightarrow> ci_error + string" where
  "allocator_main source bump input =
     (if \<not> commitID source then Inl InvalidSource
      else bind_res (map_res parseTagLine input) (\<lambda>tags. AllocateVersion tags source bump))"

section \<open>Order and printing\<close>

lemma version_less_irrefl [simp]: "\<not> version_less v v"
  by (simp add: version_less_def)

lemma version_less_trans: "version_less u v \<Longrightarrow> version_less v w \<Longrightarrow> version_less u w"
  by (auto simp: version_less_def split: if_splits)

lemma version_less_linear: "version_less u v \<or> u = v \<or> version_less v u"
  by (cases u; cases v) (auto simp: version_less_def)

lemma version_le_trans: "\<not> version_less v u \<Longrightarrow> version_less v w \<Longrightarrow> version_less u w"
  by (auto simp: version_less_def split: if_splits)

definition valid_version :: "version \<Rightarrow> bool" where
  "valid_version v \<longleftrightarrow> 0 \<le> major v \<and> major v \<le> max_int64 \<and> 0 \<le> minor v \<and> minor v \<le> max_int64 \<and>
     0 \<le> patch v \<and> patch v \<le> max_int64"

lemma parse_number_of_int:
  assumes "0 \<le> n" and "n \<le> max_int64"
  shows "parse_number (string_of_int n) = Some n"
proof -
  have "string_of_nat (nat n) = ''0'' \<or> hd (string_of_nat (nat n)) \<noteq> CHR ''0''"
    using string_of_nat_zero [of "nat n"] by (cases "string_of_nat (nat n)") auto
  then show ?thesis
    using assms string_of_nat_digits [of "nat n"]
    by (simp add: parse_number_def string_of_int_def list_all_iff)
qed

lemma parse_number_range: "parse_number s = Some n \<Longrightarrow> 0 \<le> n \<and> n \<le> max_int64"
  by (auto simp: parse_number_def split: if_splits)

lemma parseVersion_valid: "parseVersion s = Some v \<Longrightarrow> valid_version v"
  by (auto simp: parseVersion_def valid_version_def split: if_splits list.splits option.splits dest: parse_number_range)

lemma parse_number_string: "parse_number s = Some n \<Longrightarrow> string_of_int n = s"
  using string_of_nat_canonical [of s]
  by (auto simp: parse_number_def string_of_int_def split: if_splits)

lemma no_dot: "0 \<le> n \<Longrightarrow> CHR ''.'' \<notin> set (string_of_int n)"
  using string_of_nat_digits [of "nat n"] by (auto simp: string_of_int_def is_digit_def)

lemma version_String_split:
  assumes "valid_version v"
  shows "split_char (CHR ''.'') (tl (version_String v)) = [string_of_int (major v), string_of_int (minor v), string_of_int (patch v)]"
  using assms no_dot by (simp add: version_String_def valid_version_def split_char_first split_char_none)

lemma parse_version_String:
  assumes "valid_version v"
  shows "parseVersion (version_String v) = Some v"
proof -
  have "HasPrefix (version_String v) ''v''" by (simp add: version_String_def)
  with assms show ?thesis
    by (simp add: parseVersion_def version_String_split) (simp add: valid_version_def parse_number_of_int)
qed

section \<open>Properties\<close>

lemma parse_tag_string: "parseVersion tag = Some v \<Longrightarrow> tag = version_String v"
proof -
  assume p: "parseVersion tag = Some v"
  then obtain a b c where abc: "HasPrefix tag ''v''" "split_char (CHR ''.'') (tl tag) = [a, b, c]"
    "parse_number a = Some (major v)" "parse_number b = Some (minor v)" "parse_number c = Some (patch v)"
    by (auto simp: parseVersion_def split: if_splits list.splits option.splits)
  from abc(2) have "tl tag = Join [a, b, c] ''.''" by (metis Join_split_char)
  moreover have "tag = CHR ''v'' # tl tag" using abc(1) by (cases tag) auto
  ultimately show "tag = version_String v"
    using abc(3-5) [THEN parse_number_string] by (simp add: version_String_def)
qed

text \<open>a release tag is recovered from its print, and a tag that parses is the print of its version:
  no two tags name the same version.\<close>

lemma version_roundtrip:
  assumes "valid_version v"
  shows "parseVersion tag = Some v \<longleftrightarrow> tag = version_String v"
  using parse_tag_string parse_version_String [OF assms] by blast

lemma next_valid: "valid_version v \<Longrightarrow> incrementable v bump \<Longrightarrow> valid_version (nextVersion v bump)"
  by (auto simp: valid_version_def incrementable_def nextVersion_def in_int64_def max_int64_def split: Bump.splits)

lemma next_greater: "valid_version v \<Longrightarrow> incrementable v bump \<Longrightarrow> version_less v (nextVersion v bump)"
  by (auto simp: valid_version_def incrementable_def nextVersion_def version_less_def in_int64_def max_int64_def split: Bump.splits)

lemma next_matches: "valid_version v \<Longrightarrow> incrementable v bump \<Longrightarrow>
   sourceTagMatchesBump (version_String (nextVersion v bump)) bump"
  unfolding sourceTagMatchesBump_def
  by (simp add: parse_version_String next_valid)
    (auto simp: valid_version_def incrementable_def nextVersion_def in_int64_def max_int64_def split: Bump.splits)

text \<open>What the loop has computed.\<close>

definition loop_inv :: "string \<Rightarrow> Bump \<Rightarrow> Tag set \<Rightarrow> version \<times> version option \<Rightarrow> bool" where
  "loop_inv source bump T st \<longleftrightarrow> (case st of (mx, reuse) \<Rightarrow>
     valid_version mx \<and> incrementable mx bump \<and>
     (\<forall>tag \<in> T. \<forall>v. parseVersion (tagName tag) = Some v \<longrightarrow> incrementable v bump \<longrightarrow> \<not> version_less mx v) \<and>
     (case reuse of
        None \<Rightarrow> \<forall>tag \<in> T. \<not> (tagCommit tag = source \<and> sourceTagMatchesBump (tagName tag) bump)
      | Some r \<Rightarrow> (\<exists>tag \<in> T. tagCommit tag = source \<and> sourceTagMatchesBump (tagName tag) bump \<and> parseVersion (tagName tag) = Some r) \<and>
          (\<forall>tag \<in> T. \<forall>v. tagCommit tag = source \<and> sourceTagMatchesBump (tagName tag) bump \<and> parseVersion (tagName tag) = Some v \<longrightarrow> \<not> version_less r v)))"

lemma matches_parses: "sourceTagMatchesBump name bump \<Longrightarrow> \<exists>v. parseVersion name = Some v"
  by (auto simp: sourceTagMatchesBump_def split: option.splits)

lemma loop_inv_step:
  assumes "loop_inv source bump T st"
  shows "loop_inv source bump (insert tag T) (allocate_step source bump tag st)"
proof (cases st)
  case (Pair mx reuse)
  show ?thesis
  proof (cases "parseVersion (tagName tag)")
    case None
    with matches_parses have "\<not> sourceTagMatchesBump (tagName tag) bump" by force
    with None assms Pair show ?thesis
      by (auto simp: loop_inv_def allocate_step_def split: option.splits)
  next
    case (Some v)
    note valid = parseVersion_valid [OF Some]
    define reuse' where "reuse' = (if tagCommit tag = source \<and> sourceTagMatchesBump (tagName tag) bump \<and>
                              (case reuse of None \<Rightarrow> True | Some r \<Rightarrow> version_less r v) then Some v else reuse)"
    define mx' where "mx' = (if \<not> incrementable v bump then mx else if version_less mx v then v else mx)"
    have step: "allocate_step source bump tag st = (mx', reuse')"
      by (simp add: allocate_step_def Pair Some mx'_def reuse'_def Let_def)
    have i: "valid_version mx" "incrementable mx bump"
      "\<And>t u. t \<in> T \<Longrightarrow> parseVersion (tagName t) = Some u \<Longrightarrow> incrementable u bump \<Longrightarrow> \<not> version_less mx u"
      using assms by (auto simp: loop_inv_def Pair)
    have up: "\<not> version_less mx' mx" "incrementable v bump \<Longrightarrow> \<not> version_less mx' v"
      using version_less_trans [of mx v mx] by (auto simp: mx'_def)
    have mono: "\<not> version_less mx' u" if "\<not> version_less mx u" for u
      using that up(1) version_less_linear [of mx mx'] version_less_trans [of mx' u mx] version_less_linear [of mx u]
        version_less_trans [of mx mx' u] by blast
    have "valid_version mx' \<and> incrementable mx' bump" using i(1,2) valid by (simp add: mx'_def)
    moreover have "\<not> version_less mx' u" if "t \<in> insert tag T" "parseVersion (tagName t) = Some u" "incrementable u bump" for t u
      using that i(3) mono up(2) Some by auto
    moreover have "case reuse' of
        None \<Rightarrow> \<forall>t \<in> insert tag T. \<not> (tagCommit t = source \<and> sourceTagMatchesBump (tagName t) bump)
      | Some r \<Rightarrow> (\<exists>t \<in> insert tag T. tagCommit t = source \<and> sourceTagMatchesBump (tagName t) bump \<and> parseVersion (tagName t) = Some r) \<and>
          (\<forall>t \<in> insert tag T. \<forall>u. tagCommit t = source \<and> sourceTagMatchesBump (tagName t) bump \<and> parseVersion (tagName t) = Some u \<longrightarrow> \<not> version_less r u)"
    proof (cases reuse)
      case None
      with assms have "\<forall>t \<in> T. \<not> (tagCommit t = source \<and> sourceTagMatchesBump (tagName t) bump)"
        by (simp add: loop_inv_def Pair)
      with None Some show ?thesis by (auto simp: reuse'_def)
    next
      case r: (Some r)
      with assms have old: "\<exists>t \<in> T. tagCommit t = source \<and> sourceTagMatchesBump (tagName t) bump \<and> parseVersion (tagName t) = Some r"
        "\<And>t u. t \<in> T \<Longrightarrow> tagCommit t = source \<Longrightarrow> sourceTagMatchesBump (tagName t) bump \<Longrightarrow> parseVersion (tagName t) = Some u \<Longrightarrow> \<not> version_less r u"
        by (auto simp: loop_inv_def Pair)
      show ?thesis
      proof (cases "tagCommit tag = source \<and> sourceTagMatchesBump (tagName tag) bump \<and> version_less r v")
        case True
        then have "reuse' = Some v" by (simp add: reuse'_def r)
        moreover have "\<not> version_less v u" if "\<not> version_less r u" for u using that True version_less_trans by blast
        ultimately show ?thesis using True Some old by auto
      next
        case False
        then have "reuse' = Some r" by (auto simp: reuse'_def r)
        with False old Some show ?thesis by auto
      qed
    qed
    ultimately show ?thesis unfolding step loop_inv_def by (simp only: prod.case) blast
  qed
qed

lemma loop_inv_fold:
  "loop_inv source bump T st \<Longrightarrow> loop_inv source bump (set tags \<union> T) (fold (allocate_step source bump) tags st)"
proof (induction tags arbitrary: T st)
  case (Cons tag tags)
  from Cons.IH [OF loop_inv_step [OF Cons.prems]] show ?case by simp
qed simp

lemma loop_result:
  assumes "bump = BumpPatch \<or> bump = BumpMinor \<or> bump = BumpMajor"
  shows "loop_inv source bump (set tags) (fold (allocate_step source bump) tags (zero_version, None))"
proof -
  have "loop_inv source bump {} (zero_version, None)"
    using assms by (auto simp: loop_inv_def valid_version_def incrementable_def zero_version_def max_int64_def)
  from loop_inv_fold [OF this, of tags] show ?thesis by simp
qed

lemma Allocate_bump: "Allocate tags source bump = Inr a \<Longrightarrow> bump = BumpPatch \<or> bump = BumpMinor \<or> bump = BumpMajor"
  by (auto simp: Allocate_def split: if_splits)

text \<open>C30: a newly allocated version is greater than every release tag that could still be bumped, its
  numbers do not overflow, and it is a well-formed release tag itself.\<close>

theorem new_version_is_greatest:
  assumes "Allocate tags source bump = Inr a" and "\<not> allocReused a"
  shows "\<exists>n. parseVersion (allocVersion a) = Some n \<and> valid_version n \<and>
    (\<forall>tag \<in> set tags. \<forall>v. parseVersion (tagName tag) = Some v \<and> incrementable v bump \<longrightarrow> version_less v n)"
proof -
  obtain mx reuse where f: "fold (allocate_step source bump) tags (zero_version, None) = (mx, reuse)" by fastforce
  note inv = loop_result [OF Allocate_bump [OF assms(1)], of source tags, unfolded f]
  then have i: "valid_version mx" "incrementable mx bump"
    "\<forall>tag \<in> set tags. \<forall>v. parseVersion (tagName tag) = Some v \<longrightarrow> incrementable v bump \<longrightarrow> \<not> version_less mx v"
    by (auto simp: loop_inv_def)
  have a: "allocVersion a = version_String (nextVersion mx bump)"
    using assms f by (auto simp: Allocate_def split: if_splits option.splits)
  have "version_less v (nextVersion mx bump)" if "\<not> version_less mx v" for v
    using version_le_trans [OF that next_greater [OF i(1,2)]] .
  with i show ?thesis
    by (intro exI [of _ "nextVersion mx bump"]) (simp add: a parse_version_String next_valid)
qed

text \<open>a reused version is the greatest tag that is on the source commit and has the shape of the
  requested bump; a version is newly allocated only if there is no such tag.\<close>

lemma reuse_is_greatest_on_source:
  assumes "Allocate tags source bump = Inr a"
  shows "(allocReused a \<longrightarrow> (\<exists>tag \<in> set tags. tagName tag = allocVersion a \<and> tagCommit tag = source \<and> sourceTagMatchesBump (tagName tag) bump \<and>
      (\<forall>other \<in> set tags. \<forall>u v. tagCommit other = source \<and> sourceTagMatchesBump (tagName other) bump \<and>
         parseVersion (tagName other) = Some u \<and> parseVersion (tagName tag) = Some v \<longrightarrow> \<not> version_less v u))) \<and>
    (\<not> allocReused a \<longrightarrow> (\<forall>tag \<in> set tags. \<not> (tagCommit tag = source \<and> sourceTagMatchesBump (tagName tag) bump)))"
proof -
  obtain mx reuse where f: "fold (allocate_step source bump) tags (zero_version, None) = (mx, reuse)" by fastforce
  note inv = loop_result [OF Allocate_bump [OF assms], of source tags, unfolded f]
  show ?thesis
  proof (cases reuse)
    case None
    then have "\<not> allocReused a" using assms f by (auto simp: Allocate_def split: if_splits)
    with None inv show ?thesis by (auto simp: loop_inv_def)
  next
    case (Some r)
    then have a: "allocReused a" "allocVersion a = version_String r" using assms f by (auto simp: Allocate_def split: if_splits)
    from Some inv obtain tag where t: "tag \<in> set tags" "tagCommit tag = source" "sourceTagMatchesBump (tagName tag) bump"
      "parseVersion (tagName tag) = Some r"
      "\<forall>other \<in> set tags. \<forall>v. tagCommit other = source \<and> sourceTagMatchesBump (tagName other) bump \<and> parseVersion (tagName other) = Some v \<longrightarrow> \<not> version_less r v"
      by (auto simp: loop_inv_def)
    then have "tagName tag = allocVersion a" using parse_tag_string [OF t(4)] a(2) by simp
    with t a show ?thesis by auto
  qed
qed

text \<open>allocation is idempotent: once the allocated tag is on the source commit, asking again for the
  same bump returns that same tag as a reuse, whatever the order of the tags.\<close>

lemma allocation_is_idempotent:
  assumes "Allocate tags source bump = Inr a" and "\<not> allocReused a"
    and "set tags' = insert \<lparr>tagName = allocVersion a, tagCommit = source\<rparr> (set tags)"
  shows "Allocate tags' source bump = Inr (a\<lparr>allocReused := True\<rparr>)"
proof -
  note bump = Allocate_bump [OF assms(1)]
  obtain mx reuse where f: "fold (allocate_step source bump) tags (zero_version, None) = (mx, reuse)" by fastforce
  note inv = loop_result [OF bump, of source tags, unfolded f]
  have none: "reuse = None" and a: "allocVersion a = version_String (nextVersion mx bump)"
    using assms(1,2) f by (auto simp: Allocate_def split: if_splits option.splits)
  from inv none have i: "valid_version mx" "incrementable mx bump"
    "\<forall>tag \<in> set tags. \<not> (tagCommit tag = source \<and> sourceTagMatchesBump (tagName tag) bump)"
    by (auto simp: loop_inv_def)
  let ?n = "nextVersion mx bump"
  let ?new = "\<lparr>tagName = allocVersion a, tagCommit = source\<rparr>"
  have new: "sourceTagMatchesBump (tagName ?new) bump" "parseVersion (tagName ?new) = Some ?n"
    using next_matches [OF i(1,2)] parse_version_String [OF next_valid [OF i(1,2)]] by (simp_all add: a)
  obtain mx' reuse' where f': "fold (allocate_step source bump) tags' (zero_version, None) = (mx', reuse')" by fastforce
  note inv' = loop_result [OF bump, of source tags', unfolded f']
  have "reuse' \<noteq> None"
  proof
    assume "reuse' = None"
    with inv' have "\<not> (tagCommit ?new = source \<and> sourceTagMatchesBump (tagName ?new) bump)"
      using assms(3) by (auto simp: loop_inv_def)
    with new show False by simp
  qed
  then obtain r where r: "reuse' = Some r" by blast
  with inv' obtain tag where t: "tag \<in> set tags'" "tagCommit tag = source" "sourceTagMatchesBump (tagName tag) bump"
    "parseVersion (tagName tag) = Some r" by (auto simp: loop_inv_def)
  with i(3) assms(3) have "tag = ?new" by auto
  with t(4) new(2) have "r = ?n" by simp
  with bump f' r a show ?thesis by (cases a) (auto simp: Allocate_def)
qed

definition demo_tags :: "Tag list" where
  "demo_tags = [\<lparr>tagName = ''v1.2.3'', tagCommit = ''c1''\<rparr>, \<lparr>tagName = ''latest'', tagCommit = ''c2''\<rparr>,
     \<lparr>tagName = ''v1.10.0'', tagCommit = ''c2''\<rparr>]"

lemma demo_allocate:
  "Allocate demo_tags ''c3'' BumpPatch = Inr \<lparr>allocVersion = ''v1.10.1'', allocReused = False\<rparr>"
  "Allocate demo_tags ''c2'' BumpMinor = Inr \<lparr>allocVersion = ''v1.10.0'', allocReused = True\<rparr>"
  by code_simp+

theorem new_version_is_greatest_witness:
  "\<exists>n. parseVersion ''v1.10.1'' = Some n \<and> version_less \<lparr>major = 1, minor = 2, patch = 3\<rparr> n"
proof -
  have "parseVersion ''v1.2.3'' = Some \<lparr>major = 1, minor = 2, patch = 3\<rparr>" by code_simp
  moreover have "incrementable \<lparr>major = 1, minor = 2, patch = 3\<rparr> BumpPatch" by (simp add: incrementable_def max_int64_def)
  ultimately show ?thesis using new_version_is_greatest [OF demo_allocate(1)] by (fastforce simp: demo_tags_def)
qed

text \<open>
  A tag that cannot be bumped any more is left out of the maximum, so the next version may be one that
  exists: with the minor numbers 2^63 - 2 and 2^63 - 1 taken, a minor bump allocates the second again.
\<close>

lemma allocation_can_collide:
  assumes "v = \<lparr>major = 0, minor = max_int64 - 1, patch = 0\<rparr>" and "w = \<lparr>major = 0, minor = max_int64, patch = 0\<rparr>"
  shows "Allocate [\<lparr>tagName = version_String v, tagCommit = ''c1''\<rparr>, \<lparr>tagName = version_String w, tagCommit = ''c2''\<rparr>] ''c3'' BumpMinor =
    Inr \<lparr>allocVersion = version_String w, allocReused = False\<rparr>"
proof -
  have "parseVersion (version_String v) = Some v" "parseVersion (version_String w) = Some w"
    by (rule parse_version_String; simp add: assms valid_version_def max_int64_def)+
  then show ?thesis
    by (simp add: Allocate_def allocate_step_def incrementable_def zero_version_def version_less_def nextVersion_def assms)
      (simp add: max_int64_def wrap64_def)
qed

text \<open>a tag the command allocates is new: when no release tag has reached the largest number in the
  component to be bumped, the allocated name is not among the tags given.\<close>

lemma allocated_version_is_fresh:
  assumes "Allocate tags source bump = Inr a" and "\<not> allocReused a"
    and "\<forall>tag \<in> set tags. \<forall>v. parseVersion (tagName tag) = Some v \<longrightarrow> incrementable v bump"
  shows "allocVersion a \<notin> tagName ` set tags"
proof
  obtain mx reuse where f: "fold (allocate_step source bump) tags (zero_version, None) = (mx, reuse)" by fastforce
  note inv = loop_result [OF Allocate_bump [OF assms(1)], of source tags, unfolded f]
  then have i: "valid_version mx" "incrementable mx bump"
    "\<forall>tag \<in> set tags. \<forall>v. parseVersion (tagName tag) = Some v \<longrightarrow> incrementable v bump \<longrightarrow> \<not> version_less mx v"
    by (auto simp: loop_inv_def)
  have a: "allocVersion a = version_String (nextVersion mx bump)"
    using assms(1,2) f by (auto simp: Allocate_def split: if_splits option.splits)
  assume "allocVersion a \<in> tagName ` set tags"
  then obtain tag where t: "tag \<in> set tags" "tagName tag = version_String (nextVersion mx bump)" by (auto simp: a)
  then have p: "parseVersion (tagName tag) = Some (nextVersion mx bump)"
    by (simp add: parse_version_String next_valid i)
  with assms(3) t(1) i(3) have "\<not> version_less mx (nextVersion mx bump)" by blast
  with next_greater [OF i(1,2)] show False by blast
qed

end
