(* ===== verification/GoTime.thy ===== *)
theory GoTime
  imports GoStrings
begin

text \<open>
  The text of instants and durations: \<open>Time.Format\<close> with the layouts RFC 3339 (with and without a
  fraction) in UTC, \<open>Time.Truncate\<close> as the layout without a fraction does it, \<open>Time.Sub\<close>,
  \<open>Duration.Round\<close>, \<open>Duration.String\<close> and \<open>ParseDuration\<close>. Go computes the fractional part of a
  parsed duration in floating point; here it is exact.
\<close>

section \<open>Dates\<close>

text \<open>Year, month and day of the day that many days after 1 January 1970, in the Gregorian calendar.\<close>

definition civil_from_days :: "int \<Rightarrow> int \<times> int \<times> int" where
  "civil_from_days days =
     (let z = days + 719468; era = z div 146097; doe = z mod 146097;
          yoe = (doe - doe div 1460 + doe div 36524 - doe div 146096) div 365;
          doy = doe - (365 * yoe + yoe div 4 - yoe div 100);
          mp = (5 * doy + 2) div 153;
          d = doy - (153 * mp + 2) div 5 + 1;
          m = (if mp < 10 then mp + 3 else mp - 9);
          y = yoe + era * 400 + (if m \<le> 2 then 1 else 0)
      in (y, m, d))"

definition pad_int :: "nat \<Rightarrow> int \<Rightarrow> string" where
  "pad_int w n =
     (let s = string_of_nat (nat \<bar>n\<bar>)
      in (if n < 0 then ''-'' else []) @ replicate (w - length s) (CHR ''0'') @ s)"

definition trim_zeros :: "string \<Rightarrow> string" where
  "trim_zeros s = rev (dropWhile (\<lambda>c. c = CHR ''0'') (rev s))"

definition format_seconds :: "int \<Rightarrow> string" where
  "format_seconds secs =
     (let (y, m, d) = civil_from_days (secs div 86400); s = secs mod 86400
      in pad_int 4 y @ ''-'' @ pad_int 2 m @ ''-'' @ pad_int 2 d @ ''T'' @
         pad_int 2 (s div 3600) @ '':'' @ pad_int 2 ((s div 60) mod 60) @ '':'' @ pad_int 2 (s mod 60))"

definition RFC3339 :: "gotime \<Rightarrow> string" where
  "RFC3339 t = format_seconds (t div Second) @ ''Z''"

definition RFC3339Nano :: "gotime \<Rightarrow> string" where
  "RFC3339Nano t =
     (let ns = t mod Second; frac = trim_zeros (pad_int 9 ns)
      in format_seconds (t div Second) @ (if frac = [] then [] else ''.'' @ frac) @ ''Z'')"

text \<open>What an instant is after a round trip through the layout without a fraction.\<close>

definition to_seconds :: "gotime \<Rightarrow> gotime" where
  "to_seconds t = (t div Second) * Second"

section \<open>Durations\<close>

definition min_int64 :: int where
  "min_int64 = - (2 ^ 63)"

definition saturate :: "int \<Rightarrow> int" where
  "saturate d = max min_int64 (min max_int64 d)"

text \<open>Rounding half away from zero, saturating.\<close>

definition duration_Round :: "duration \<Rightarrow> duration \<Rightarrow> duration" where
  "duration_Round d m =
     (if m \<le> 0 then d
      else
       (let r = \<bar>d\<bar> mod m in
        if d < 0 then (if 2 * r < m then d + r else saturate (d - m + r))
        else (if 2 * r < m then d - r else saturate (d + m - r))))"

text \<open>\<open>Duration.String\<close> for zero and for at least a second.\<close>

definition duration_String :: "duration \<Rightarrow> string" where
  "duration_String d =
     (if d = 0 then ''0s''
      else
       (let u = \<bar>d\<bar>; secs = u div Second; frac = trim_zeros (pad_int 9 (u mod Second));
            h = secs div 3600; m = (secs div 60) mod 60; s = secs mod 60;
            tail = string_of_int s @ (if frac = [] then [] else ''.'' @ frac) @ ''s''
        in (if d < 0 then ''-'' else []) @
           (if 0 < h then string_of_int h @ ''h'' @ string_of_int m @ ''m''
            else if 0 < m then string_of_int m @ ''m'' else []) @ tail))"

lemma format_examples:
  "RFC3339Nano 1735734645123450000 = ''2025-01-01T12:30:45.12345Z''"
  "RFC3339 951782400000000000 = ''2000-02-29T00:00:00Z''"
  "RFC3339 zero_time = ''0001-01-01T00:00:00Z''"
  "duration_String (duration_Round 3723500000000 Second) = ''1h2m4s''"
  by code_simp+

lemma to_seconds_idem [simp]: "to_seconds (to_seconds t) = to_seconds t"
  by (simp add: to_seconds_def Second_def)

lemma to_seconds_le: "to_seconds t \<le> t \<and> t < to_seconds t + Second"
  unfolding to_seconds_def Second_def by (simp add: algebra_simps) presburger

section \<open>ParseDuration\<close>

definition unit_ns :: "string \<Rightarrow> nat option" where
  "unit_ns u =
     (if u = ''ns'' then Some 1
      else if u \<in> {''us'', [CHR 0xC2, CHR 0xB5, CHR ''s''], [CHR 0xCE, CHR 0xBC, CHR ''s'']} then Some 1000
      else if u = ''ms'' then Some 1000000
      else if u = ''s'' then Some 1000000000
      else if u = ''m'' then Some 60000000000
      else if u = ''h'' then Some 3600000000000 else None)"

text \<open>\<open>leadingFraction\<close>: digits beyond the range of 63 bits are dropped.\<close>

definition fraction_step :: "char \<Rightarrow> nat \<times> nat \<times> bool \<Rightarrow> nat \<times> nat \<times> bool" where
  "fraction_step c st =
     (case st of (x, scale, overflow) \<Rightarrow>
        if overflow \<or> (2 ^ 63 - 1) div 10 < x \<or> 2 ^ 63 < x * 10 + digit_val c then (x, scale, True)
        else (x * 10 + digit_val c, scale * 10, False))"

definition fraction_part :: "nat \<Rightarrow> string \<Rightarrow> nat" where
  "fraction_part unit digits = (case fold fraction_step digits (0, 1, False) of (x, scale, _) \<Rightarrow> x * unit div scale)"

definition parse_term :: "string \<Rightarrow> (nat \<times> string) option" where
  "parse_term s =
     (let whole = takeWhile is_digit s; s1 = dropWhile is_digit s; v = nat_of_digits whole;
          dot = (s1 \<noteq> [] \<and> hd s1 = CHR ''.'');
          fraction = (if dot then takeWhile is_digit (drop 1 s1) else []);
          s2 = (if dot then dropWhile is_digit (drop 1 s1) else s1);
          u = takeWhile (\<lambda>c. c \<noteq> CHR ''.'' \<and> \<not> is_digit c) s2;
          s3 = dropWhile (\<lambda>c. c \<noteq> CHR ''.'' \<and> \<not> is_digit c) s2 in
      if 2 ^ 63 < v \<or> whole = [] \<and> fraction = [] \<or> u = [] then None
      else
       (case unit_ns u of
          None \<Rightarrow> None
        | Some unit \<Rightarrow>
           (let w = v * unit + fraction_part unit fraction in
            if 2 ^ 63 div unit < v \<or> 2 ^ 63 < w then None else Some (w, s3))))"

lemma parse_term_shorter:
  assumes "parse_term s = Some (w, r)"
  shows "length r < length s"
proof -
  obtain s2 where s2: "length s2 \<le> length s" "r = dropWhile (\<lambda>c. c \<noteq> CHR ''.'' \<and> \<not> is_digit c) s2"
    "takeWhile (\<lambda>c. c \<noteq> CHR ''.'' \<and> \<not> is_digit c) s2 \<noteq> []"
  proof
    let ?s1 = "dropWhile is_digit s"
    let ?s2 = "if ?s1 \<noteq> [] \<and> hd ?s1 = CHR ''.'' then dropWhile is_digit (drop 1 ?s1) else ?s1"
    show "length ?s2 \<le> length s"
      using length_dropWhile_le [of is_digit s] length_dropWhile_le [of is_digit "drop 1 ?s1"] by (auto simp del: drop_Suc)
    show "r = dropWhile (\<lambda>c. c \<noteq> CHR ''.'' \<and> \<not> is_digit c) ?s2"
      "takeWhile (\<lambda>c. c \<noteq> CHR ''.'' \<and> \<not> is_digit c) ?s2 \<noteq> []"
      using assms by (auto simp only: parse_term_def Let_def split: if_split_asm option.split_asm)
  qed
  have "length (takeWhile (\<lambda>c. c \<noteq> CHR ''.'' \<and> \<not> is_digit c) s2) + length r = length s2"
    unfolding s2(2) by (metis length_append takeWhile_dropWhile_id)
  moreover have "0 < length (takeWhile (\<lambda>c. c \<noteq> CHR ''.'' \<and> \<not> is_digit c) s2)" using s2(3) by blast
  ultimately show ?thesis using s2(1) by linarith
qed

function parse_terms :: "nat \<Rightarrow> string \<Rightarrow> nat option" where
  "parse_terms d s =
     (if s = [] then Some d
      else (case parse_term s of
              None \<Rightarrow> None
            | Some (w, r) \<Rightarrow> if 2 ^ 63 < d + w then None else parse_terms (d + w) r))"
  by pat_completeness auto
termination by (relation "measure (\<lambda>(d, s). length s)") (auto simp: parse_term_shorter)

declare parse_terms.simps [simp del]

definition ParseDuration :: "string \<Rightarrow> duration option" where
  "ParseDuration s0 =
     (let signed = (s0 \<noteq> [] \<and> (hd s0 = CHR ''-'' \<or> hd s0 = CHR ''+''));
          neg = (s0 \<noteq> [] \<and> hd s0 = CHR ''-'');
          s = (if signed then drop 1 s0 else s0) in
      if s = ''0'' then Some 0
      else if s = [] then None
      else
       (case parse_terms 0 s of
          None \<Rightarrow> None
        | Some d \<Rightarrow> if neg then Some (- int d) else if 2 ^ 63 - 1 < d then None else Some (int d)))"

lemma ParseDuration_examples:
  "ParseDuration ''1h15m30.918s'' = Some 4530918000000"
  "ParseDuration ''-1.5h'' = Some (- 5400000000000)"
  "ParseDuration ''+.5ms'' = Some 500000"
  "ParseDuration ''0'' = Some 0" "ParseDuration ''30'' = None" "ParseDuration ''.s'' = None"
  "ParseDuration ''9223372036854775807ns'' = Some 9223372036854775807"
  "ParseDuration ''9223372036854775808ns'' = None"
  "ParseDuration ''-9223372036854775808ns'' = Some (- 9223372036854775808)"
  by code_simp+

lemma ParseDuration_range:
  assumes "ParseDuration s = Some d"
  shows "in_int64 d"
proof -
  have terms: "parse_terms d s = Some e \<Longrightarrow> d \<le> 2 ^ 63 \<Longrightarrow> e \<le> 2 ^ 63" for d e s
  proof (induction d s rule: parse_terms.induct)
    case (1 d s)
    from 1(2, 3) show ?case
      by (subst (asm) parse_terms.simps) (auto split: if_splits option.splits dest: 1(1))
  qed
  show ?thesis using assms terms [of 0]
    by (auto simp: ParseDuration_def Let_def in_int64_def split: if_splits option.splits)
qed

end
