(* ===== verification/TimeParse.thy ===== *)
theory TimeParse
  imports GoTime
begin

text \<open>
  \<open>time.Parse\<close> for the layouts RFC 3339 and RFC 3339 with nanoseconds. A fraction after the seconds is
  accepted with either layout; the hour may have one digit; the zone is \<open>Z\<close> or a signed offset.
\<close>

section \<open>Days of the calendar\<close>

definition days_from_civil :: "int \<Rightarrow> int \<Rightarrow> int \<Rightarrow> int" where
  "days_from_civil y m d =
     (let y' = (if m \<le> 2 then y - 1 else y); era = y' div 400; yoe = y' mod 400;
          mp = (if 2 < m then m - 3 else m + 9);
          doy = (153 * mp + 2) div 5 + d - 1;
          doe = yoe * 365 + yoe div 4 - yoe div 100 + doy
      in era * 146097 + doe - 719468)"

definition is_leap :: "int \<Rightarrow> bool" where
  "is_leap y \<longleftrightarrow> 4 dvd y \<and> (\<not> 100 dvd y \<or> 400 dvd y)"

definition days_in :: "int \<Rightarrow> int \<Rightarrow> int" where
  "days_in m y =
     (if m = 2 then (if is_leap y then 29 else 28)
      else if m = 4 \<or> m = 6 \<or> m = 9 \<or> m = 11 then 30 else 31)"

section \<open>The fields of the text\<close>

text \<open>A number of exactly \<open>n\<close> digits at the start, with the rest of the text.\<close>

definition take_number :: "nat \<Rightarrow> string \<Rightarrow> (int \<times> string) option" where
  "take_number n s =
     (if n \<le> length s \<and> list_all is_digit (take n s) then Some (int (nat_of_digits (take n s)), drop n s) else None)"

text \<open>\<open>getnum\<close> without \<open>fixed\<close>: one digit, or two when the second is there.\<close>

definition take_hour :: "string \<Rightarrow> (int \<times> string) option" where
  "take_hour s = (case take_number 2 s of Some r \<Rightarrow> Some r | None \<Rightarrow> take_number 1 s)"

definition skip_char :: "char \<Rightarrow> string \<Rightarrow> string option" where
  "skip_char c s = (case s of [] \<Rightarrow> None | d # r \<Rightarrow> if d = c then Some r else None)"

text \<open>The nanoseconds of a fraction: at most nine of its digits count.\<close>

definition fraction_ns :: "string \<Rightarrow> int" where
  "fraction_ns ds = (let k = take 9 ds in int (nat_of_digits k) * 10 ^ (9 - length k))"

definition take_fraction :: "string \<Rightarrow> int \<times> string" where
  "take_fraction s =
     (case s of
        c # d # r \<Rightarrow> if (c = CHR ''.'' \<or> c = CHR '','') \<and> is_digit d
                    then (fraction_ns (takeWhile is_digit (d # r)), dropWhile is_digit (d # r)) else (0, s)
      | _ \<Rightarrow> (0, s))"

definition bind_opt :: "'a option \<Rightarrow> ('a \<Rightarrow> 'b option) \<Rightarrow> 'b option" where
  "bind_opt x f = (case x of None \<Rightarrow> None | Some y \<Rightarrow> f y)"

lemma bind_opt_simps [simp]: "bind_opt None f = None" "bind_opt (Some x) f = f x"
  by (simp_all add: bind_opt_def)

definition take_zone :: "string \<Rightarrow> (int \<times> string) option" where
  "take_zone s =
     (case s of
        [] \<Rightarrow> None
      | c # r \<Rightarrow>
          if c = CHR ''Z'' then Some (0, r)
          else if c \<noteq> CHR ''+'' \<and> c \<noteq> CHR ''-'' then None
          else bind_opt (take_number 2 r) (\<lambda>(hh, r1). bind_opt (skip_char (CHR '':'') r1) (\<lambda>r2.
            bind_opt (take_number 2 r2) (\<lambda>(mm, r3).
              if 24 < hh \<or> 60 < mm then None
              else Some ((if c = CHR ''+'' then 1 else -1) * (hh * 60 + mm) * 60, r3)))))"

definition parse_RFC3339 :: "string \<Rightarrow> gotime option" where
  "parse_RFC3339 s =
     bind_opt (take_number 4 s) (\<lambda>(y, s1). bind_opt (skip_char (CHR ''-'') s1) (\<lambda>s2.
     bind_opt (take_number 2 s2) (\<lambda>(m, s3). if m < 1 \<or> 12 < m then None else bind_opt (skip_char (CHR ''-'') s3) (\<lambda>s4.
     bind_opt (take_number 2 s4) (\<lambda>(d, s5). bind_opt (skip_char (CHR ''T'') s5) (\<lambda>s6.
     bind_opt (take_hour s6) (\<lambda>(hh, s7). if 24 \<le> hh then None else bind_opt (skip_char (CHR '':'') s7) (\<lambda>s8.
     bind_opt (take_number 2 s8) (\<lambda>(mi, s9). if 60 \<le> mi then None else bind_opt (skip_char (CHR '':'') s9) (\<lambda>s10.
     bind_opt (take_number 2 s10) (\<lambda>(sec, s11). if 60 \<le> sec then None else
       (let (ns, s12) = take_fraction s11 in
        bind_opt (take_zone s12) (\<lambda>(off, s13).
          if s13 \<noteq> [] \<or> d < 1 \<or> days_in m y < d then None
          else Some ((days_from_civil y m d * 86400 + hh * 3600 + mi * 60 + sec - off) * Second + ns))))))))))))))"

lemma parse_examples:
  "parse_RFC3339 ''2025-01-01T12:30:45.12345Z'' = Some 1735734645123450000"
  "parse_RFC3339 ''2000-02-29T02:00:00+02:00'' = Some 951782400000000000"
  "parse_RFC3339 ''2001-02-29T00:00:00Z'' = None"
  "parse_RFC3339 ''0001-01-01T00:00:00Z'' = Some zero_time"
  "parse_RFC3339 [] = None"
  by code_simp+

section \<open>The calendar is a bijection\<close>

text \<open>First day of a year of the 400-year era, the years running from March to February, and the day
  after its last; the last year of the era has the extra day.\<close>

definition year_start :: "int \<Rightarrow> int" where
  "year_start y = 365 * y + y div 4 - y div 100"

definition year_end :: "int \<Rightarrow> int" where
  "year_end y = (if y = 399 then 146097 else year_start (y + 1))"

definition year_guess :: "int \<Rightarrow> int" where
  "year_guess doe = doe - doe div 1460 + doe div 36524 - doe div 146096"

definition year_ok :: "int \<Rightarrow> bool" where
  "year_ok y \<longleftrightarrow> 365 * y \<le> year_guess (year_start y) \<and> year_guess (year_end y - 1) < 365 * (y + 1) \<and>
     year_start y < year_end y \<and>
     (year_end y - year_start y \<le> 365 \<or> (year_end y - year_start y = 366 \<and> is_leap (y + 1)))"

fun all_from :: "nat \<Rightarrow> int \<Rightarrow> (int \<Rightarrow> bool) \<Rightarrow> bool" where
  "all_from 0 y P \<longleftrightarrow> True"
| "all_from (Suc n) y P \<longleftrightarrow> (if P y then all_from n (y + 1) P else False)"

lemma all_from_D: "all_from n y P \<Longrightarrow> y \<le> x \<Longrightarrow> x < y + int n \<Longrightarrow> P x"
proof (induction n arbitrary: y)
  case (Suc n)
  then show ?case by (cases "x = y") (auto split: if_splits)
qed simp

lemma years_ok_0: "all_from 50 0 year_ok"
  by code_simp

lemma years_ok_1: "all_from 50 50 year_ok"
  by code_simp

lemma years_ok_2: "all_from 50 100 year_ok"
  by code_simp

lemma years_ok_3: "all_from 50 150 year_ok"
  by code_simp

lemma years_ok_4: "all_from 50 200 year_ok"
  by code_simp

lemma years_ok_5: "all_from 50 250 year_ok"
  by code_simp

lemma years_ok_6: "all_from 50 300 year_ok"
  by code_simp

lemma years_ok_7: "all_from 50 350 year_ok"
  by code_simp

lemma years_ok:
  assumes "0 \<le> y" "y < 400"
  shows "year_ok y"
proof -
  have "y < 50 \<or> 50 \<le> y \<and> y < 100 \<or> 100 \<le> y \<and> y < 150 \<or> 150 \<le> y \<and> y < 200 \<or> 200 \<le> y \<and> y < 250 \<or>
    250 \<le> y \<and> y < 300 \<or> 300 \<le> y \<and> y < 350 \<or> 350 \<le> y" by arith
  with assms years_ok_0 [THEN all_from_D, of y] years_ok_1 [THEN all_from_D, of y] years_ok_2 [THEN all_from_D, of y]
    years_ok_3 [THEN all_from_D, of y] years_ok_4 [THEN all_from_D, of y] years_ok_5 [THEN all_from_D, of y]
    years_ok_6 [THEN all_from_D, of y] years_ok_7 [THEN all_from_D, of y]
  show ?thesis by (elim disjE) simp_all
qed

lemma div_step: "0 < k \<Longrightarrow> (x + 1) div k = x div k \<or> (x + 1) div k = x div k + 1" for x k :: int
proof -
  assume k: "0 < k"
  have "x div k \<le> (x + 1) div k" "(x + 1) div k \<le> (x + k) div k" using k by (intro zdiv_mono1; simp)+
  moreover have "(x + k) div k = x div k + 1" by (rule div_add_self2) (use k in simp)
  ultimately show ?thesis by linarith
qed

lemma year_guess_step: "year_guess x \<le> year_guess (x + 1)"
proof -
  have d: "x div 146096 = (x div 36524) div 4" for x :: int by (simp add: zdiv_zmult2_eq)
  have 1: "(x + 1) div 1460 \<le> x div 1460 + 1" using div_step [of 1460 x] by auto
  have 2: "(x + 1) div 36524 = x div 36524 \<or> (x + 1) div 36524 = x div 36524 + 1" by (rule div_step) simp
  have 3: "(q + 1) div 4 \<le> q div 4 + 1" for q :: int using div_step [of 4 q] by auto
  show ?thesis
  proof (cases "(x + 1) div 36524 = x div 36524")
    case True
    with 1 show ?thesis by (simp add: year_guess_def d)
  next
    case False
    with 2 have "(x + 1) div 36524 = x div 36524 + 1" by simp
    with 1 3 [of "x div 36524"] show ?thesis by (simp add: year_guess_def d)
  qed
qed

lemma year_guess_mono: "x \<le> y \<Longrightarrow> year_guess x \<le> year_guess y"
proof (induction "nat (y - x)" arbitrary: y)
  case 0
  then show ?case by simp
next
  case (Suc n)
  then have "year_guess x \<le> year_guess (y - 1)" by simp
  with year_guess_step [of "y - 1"] show ?case by simp
qed

lemma year_exists:
  "0 \<le> doe \<Longrightarrow> k \<le> 400 \<Longrightarrow> doe < (if k = 400 then 146097 else year_start (int k)) \<Longrightarrow>
   \<exists>y. 0 \<le> y \<and> y < int k \<and> year_start y \<le> doe \<and> doe < year_end y"
proof (induction k)
  case 0
  then show ?case by (simp add: year_start_def)
next
  case (Suc k)
  show ?case
  proof (cases "doe < year_start (int k)")
    case True
    with Suc show ?thesis by force
  next
    case False
    with Suc.prems show ?thesis
      by (intro exI [of _ "int k"]) (auto simp: year_end_def add.commute split: if_splits)
  qed
qed

lemma year_of_era:
  assumes "0 \<le> doe" "doe < 146097"
  shows "0 \<le> year_guess doe div 365 \<and> year_guess doe div 365 < 400 \<and>
    0 \<le> doe - year_start (year_guess doe div 365) \<and> doe - year_start (year_guess doe div 365) \<le> 365 \<and>
    (doe - year_start (year_guess doe div 365) = 365 \<longrightarrow> is_leap (year_guess doe div 365 + 1))"
proof -
  from year_exists [OF assms(1), of 400] assms obtain y where
    y: "0 \<le> y" "y < 400" "year_start y \<le> doe" "doe < year_end y" by auto
  from years_ok [OF y(1,2)] have ok: "year_ok y" .
  have "365 * y \<le> year_guess doe" "year_guess doe < 365 * (y + 1)"
    using ok year_guess_mono [OF y(3)] year_guess_mono [of doe "year_end y - 1"] y(4) by (auto simp: year_ok_def)
  then have "year_guess doe div 365 = y" by (intro int_div_pos_eq [of _ _ _ "year_guess doe - 365 * y"]) auto
  with ok y show ?thesis by (auto simp: year_ok_def)
qed

text \<open>The months of a year that starts in March.\<close>

definition month_ok :: "int \<Rightarrow> bool" where
  "month_ok doy \<longleftrightarrow>
     (let mp = (5 * doy + 2) div 153; d = doy - (153 * mp + 2) div 5 + 1; m = (if mp < 10 then mp + 3 else mp - 9)
      in 0 \<le> mp \<and> mp \<le> 11 \<and> 1 \<le> d \<and>
         (if m = 2 then d \<le> 28 \<or> (d = 29 \<and> doy = 365) else d \<le> days_in m 1))"

lemma months_ok:
  assumes "0 \<le> doy" "doy \<le> 365"
  shows "month_ok doy"
proof -
  define mp where "mp = (5 * doy + 2) div 153"
  have b: "153 * mp \<le> 5 * doy + 2" "5 * doy + 2 < 153 * mp + 153" unfolding mp_def by presburger+
  with assms have "0 \<le> mp" "mp \<le> 11" by simp_all
  then have "mp = 0 \<or> mp = 1 \<or> mp = 2 \<or> mp = 3 \<or> mp = 4 \<or> mp = 5 \<or> mp = 6 \<or> mp = 7 \<or> mp = 8 \<or> mp = 9 \<or> mp = 10 \<or> mp = 11"
    by presburger
  then show ?thesis
    unfolding month_ok_def Let_def mp_def [symmetric] using b assms by (elim disjE) (auto simp: days_in_def)
qed

lemma is_leap_era: "is_leap (y + era * 400) \<longleftrightarrow> is_leap y"
proof -
  have "k dvd y + era * 400 \<longleftrightarrow> k dvd y" if "k dvd 400" for k :: int
    using that by (intro dvd_add_left_iff dvd_mult)
  from this [of 4] this [of 100] this [of 400] show ?thesis by (simp add: is_leap_def)
qed

lemma civil_valid:
  assumes "civil_from_days n = (y, m, d)"
  shows "days_from_civil y m d = n \<and> 1 \<le> m \<and> m \<le> 12 \<and> 1 \<le> d \<and> d \<le> days_in m y"
proof -
  define era where "era = (n + 719468) div 146097"
  define doe where "doe = (n + 719468) mod 146097"
  define yoe where "yoe = year_guess doe div 365"
  define doy where "doy = doe - year_start yoe"
  define mp where "mp = (5 * doy + 2) div 153"
  have z: "n = era * 146097 + doe - 719468" by (simp add: era_def doe_def)
  have "0 \<le> doe" "doe < 146097" by (simp_all add: doe_def)
  note Y = year_of_era [OF this, folded yoe_def, folded doy_def]
  have mo: "month_ok doy" using months_ok Y by blast
  have md: "m = (if mp < 10 then mp + 3 else mp - 9)" "d = doy - (153 * mp + 2) div 5 + 1"
    "y = yoe + era * 400 + (if m \<le> 2 then 1 else 0)"
    using assms unfolding civil_from_days_def Let_def era_def [symmetric] doe_def [symmetric]
      year_guess_def [symmetric] yoe_def [symmetric] year_start_def [symmetric] doy_def [symmetric] mp_def [symmetric]
    by auto
  have M: "0 \<le> mp" "mp \<le> 11" "1 \<le> d" "if m = 2 then d \<le> 28 \<or> (d = 29 \<and> doy = 365) else d \<le> days_in m 1"
    using mo unfolding month_ok_def Let_def mp_def [symmetric] md(1) [symmetric] md(2) [symmetric] by auto
  have mr: "1 \<le> m" "m \<le> 12" using M(1,2) md(1) by auto
  have "d \<le> days_in m y"
  proof (cases "m = 2")
    case True
    then have "is_leap y \<longleftrightarrow> is_leap (yoe + 1)" using is_leap_era [of "yoe + 1" era] md(3) by (simp add: algebra_simps)
    with True M(4) Y show ?thesis by (auto simp: days_in_def)
  next
    case False
    with M(4) show ?thesis by (simp add: days_in_def)
  qed
  moreover have "days_from_civil y m d = n"
  proof -
    have y': "(if m \<le> 2 then y - 1 else y) = yoe + era * 400" using md(3) by auto
    have "(yoe + era * 400) div 400 = era" "(yoe + era * 400) mod 400 = yoe" using Y by simp_all
    moreover have "(if 2 < m then m - 3 else m + 9) = mp" using md(1) M(1,2) by auto
    ultimately show ?thesis
      unfolding days_from_civil_def Let_def y' using md(2) z by (simp add: doy_def year_start_def)
  qed
  ultimately show ?thesis using mr M(3) by blast
qed

section \<open>Printing and parsing\<close>

lemma nat_of_digits_zeros [simp]: "nat_of_digits (replicate k (CHR ''0'') @ s) = nat_of_digits s"
  by (induction k) (simp_all add: nat_of_digits_def digit_val_def)

lemma length_string_of_nat: "0 < w \<Longrightarrow> n < 10 ^ w \<Longrightarrow> length (string_of_nat n) \<le> w"
proof (induction w arbitrary: n)
  case (Suc w)
  show ?case
  proof (cases "n < 10")
    case True
    then show ?thesis by (subst string_of_nat.simps) simp
  next
    case False
    with Suc.prems have "0 < w" "n div 10 < 10 ^ w" by (cases w; simp)+
    with Suc.IH False show ?thesis by (subst string_of_nat.simps) simp
  qed
qed simp

lemma pad_int_number:
  assumes "0 \<le> v" "v < 10 ^ w" "0 < w"
  shows "length (pad_int w v) = w" "list_all is_digit (pad_int w v)" "nat_of_digits (pad_int w v) = nat v"
proof -
  have "nat v < 10 ^ w" using assms by (simp add: nat_less_iff)
  with assms(3) have l: "length (string_of_nat (nat v)) \<le> w" by (rule length_string_of_nat)
  with assms(1) show "length (pad_int w v) = w" by (simp add: pad_int_def Let_def)
  show "list_all is_digit (pad_int w v)"
    using assms(1) string_of_nat_digits [of "nat v"] by (auto simp: pad_int_def Let_def list_all_iff is_digit_def)
  show "nat_of_digits (pad_int w v) = nat v" using assms(1) by (simp add: pad_int_def Let_def)
qed

lemma take_number_pad [simp]:
  "0 \<le> v \<Longrightarrow> v < 10 ^ w \<Longrightarrow> 0 < w \<Longrightarrow> take_number w (pad_int w v @ r) = Some (v, r)"
  using pad_int_number [of v w] by (simp add: take_number_def)

lemma take_hour_pad [simp]: "0 \<le> v \<Longrightarrow> v < 100 \<Longrightarrow> take_hour (pad_int 2 v @ r) = Some (v, r)"
  using take_number_pad [of v 2 r] by (simp add: take_hour_def)

lemma skip_char_Cons [simp]: "skip_char c (c # r) = Some r"
  by (simp add: skip_char_def)

text \<open>The digits of a fraction without its trailing zeros.\<close>

lemma nat_of_digits_snoc: "nat_of_digits (s @ [c]) = 10 * nat_of_digits s + digit_val c"
  by (simp add: nat_of_digits_def)

lemma nat_of_digits_trail: "nat_of_digits (s @ replicate k (CHR ''0'')) = nat_of_digits s * 10 ^ k"
proof (induction k)
  case (Suc k)
  have "s @ replicate (Suc k) (CHR ''0'') = (s @ replicate k (CHR ''0'')) @ [CHR ''0'']"
    by (simp add: replicate_append_same)
  with Suc show ?case by (simp only: nat_of_digits_snoc) (simp add: digit_val_def)
qed simp

lemma trim_zeros_split: "\<exists>k. s = trim_zeros s @ replicate k (CHR ''0'')"
proof -
  let ?t = "takeWhile (\<lambda>c. c = CHR ''0'') (rev s)"
  have "?t = replicate (length ?t) (CHR ''0'')"
    by (induction s rule: rev_induct) (auto simp: takeWhile_append)
  then have "rev ?t = replicate (length ?t) (CHR ''0'')" by (metis rev_replicate)
  moreover have "s = trim_zeros s @ rev ?t"
    by (metis rev_append rev_rev_ident takeWhile_dropWhile_id trim_zeros_def)
  ultimately show ?thesis by metis
qed

lemma fraction_back:
  assumes "0 \<le> v" "v < Second"
  shows "fraction_ns (trim_zeros (pad_int 9 v)) = v" "list_all is_digit (trim_zeros (pad_int 9 v))"
    and "trim_zeros (pad_int 9 v) = [] \<Longrightarrow> v = 0"
proof -
  have v: "v < 10 ^ 9" using assms by (simp add: Second_def)
  note p = pad_int_number [OF assms(1) v, simplified]
  obtain k where k: "pad_int 9 v = trim_zeros (pad_int 9 v) @ replicate k (CHR ''0'')" using trim_zeros_split by blast
  have len: "length (trim_zeros (pad_int 9 v)) + k = 9" using p(1) by (subst (asm) k) simp
  have val: "nat_of_digits (trim_zeros (pad_int 9 v)) * 10 ^ k = nat v"
    using p(3) by (subst (asm) k) (simp add: nat_of_digits_trail)
  have "int (nat_of_digits (trim_zeros (pad_int 9 v))) * 10 ^ k = v"
    using val assms(1) by (metis int_nat_eq of_nat_mult of_nat_numeral of_nat_power)
  moreover have "9 - length (trim_zeros (pad_int 9 v)) = k" using len by simp
  ultimately show "fraction_ns (trim_zeros (pad_int 9 v)) = v" using len by (simp add: fraction_ns_def Let_def)
  show "list_all is_digit (trim_zeros (pad_int 9 v))" using p(2) by (subst (asm) k) simp
  assume "trim_zeros (pad_int 9 v) = []"
  with val show "v = 0" using assms(1) by (simp add: nat_of_digits_def)
qed

lemma take_fraction_back:
  assumes "0 \<le> v" "v < Second"
  shows "take_fraction ((if trim_zeros (pad_int 9 v) = [] then [] else ''.'' @ trim_zeros (pad_int 9 v)) @ ''Z'') = (v, ''Z'')"
proof (cases "trim_zeros (pad_int 9 v)")
  case Nil
  with fraction_back(3) [OF assms] show ?thesis by (simp add: take_fraction_def)
next
  case (Cons d ds)
  note f = fraction_back [OF assms]
  have z: "\<not> is_digit (CHR ''Z'')" by (simp add: is_digit_def)
  have "takeWhile is_digit ((d # ds) @ ''Z'') = d # ds" "dropWhile is_digit ((d # ds) @ ''Z'') = ''Z''"
    using f(2) z unfolding Cons by (simp_all add: list_all_iff takeWhile_append dropWhile_append)
  with f(1,2) Cons show ?thesis by (simp add: take_fraction_def)
qed

text \<open>The instants whose year has four digits.\<close>

definition four_digit_year :: "gotime \<Rightarrow> bool" where
  "four_digit_year t \<longleftrightarrow> (case civil_from_days (t div Second div 86400) of (y, m, d) \<Rightarrow> 0 \<le> y \<and> y \<le> 9999)"

lemma parse_fields:
  assumes "0 \<le> y" "y < 10 ^ 4" "1 \<le> m" "m \<le> 12" "1 \<le> d" "d \<le> days_in m y"
    and "0 \<le> hh" "hh < 24" "0 \<le> mi" "mi < 60" "0 \<le> sec" "sec < 60"
    and "take_fraction (f @ ''Z'') = (v, ''Z'')"
  shows "parse_RFC3339 (pad_int 4 y @ CHR ''-'' # pad_int 2 m @ CHR ''-'' # pad_int 2 d @ CHR ''T'' #
      pad_int 2 hh @ CHR '':'' # pad_int 2 mi @ CHR '':'' # pad_int 2 sec @ f @ ''Z'') =
    Some ((days_from_civil y m d * 86400 + hh * 3600 + mi * 60 + sec - 0) * Second + v)"
proof -
  have d: "d < 100" using assms(6) by (auto simp: days_in_def split: if_splits)
  have fields: "take_number 4 (pad_int 4 y @ r) = Some (y, r)" "take_number 2 (pad_int 2 m @ r) = Some (m, r)"
    "take_number 2 (pad_int 2 d @ r) = Some (d, r)" "take_hour (pad_int 2 hh @ r) = Some (hh, r)"
    "take_number 2 (pad_int 2 mi @ r) = Some (mi, r)" "take_number 2 (pad_int 2 sec @ r) = Some (sec, r)" for r
    using assms d by (auto intro: take_number_pad take_hour_pad)
  have guards: "(m < 1 \<or> 12 < m) = False" "(24 \<le> hh) = False" "(60 \<le> mi) = False"
    "(60 \<le> sec) = False" "([] \<noteq> ([] :: string) \<or> d < 1 \<or> days_in m y < d) = False"
    using assms by auto
  have zone: "take_zone ''Z'' = Some (0, [])" by (simp add: take_zone_def)
  show ?thesis unfolding parse_RFC3339_def
    by (simp only: fields skip_char_Cons bind_opt_simps prod.case Let_def assms(13) zone guards if_False)
qed

lemma time_of_day:
  fixes n :: int
  defines "s \<equiv> n mod 86400"
  shows "0 \<le> s div 3600" "s div 3600 < 24" "n div 86400 * 86400 + s div 3600 * 3600 + (s div 60) mod 60 * 60 + s mod 60 = n"
proof -
  have s: "0 \<le> s" "s < 86400" by (simp_all add: s_def)
  then show "0 \<le> s div 3600" "s div 3600 < 24" using zdiv_mono1 [of s 86399 3600] by (simp_all add: pos_imp_zdiv_nonneg_iff)
  have "(s div 60) div 60 = s div 3600" by (simp add: zdiv_zmult2_eq [symmetric])
  then have "s div 3600 * 60 + (s div 60) mod 60 = s div 60" using div_mult_mod_eq [of "s div 60" 60] by simp
  then have "s div 3600 * 3600 + (s div 60) mod 60 * 60 + s mod 60 = s"
    using div_mult_mod_eq [of s 60] by linarith
  moreover have "n = n div 86400 * 86400 + s" by (simp add: s_def)
  ultimately show "n div 86400 * 86400 + s div 3600 * 3600 + (s div 60) mod 60 * 60 + s mod 60 = n" by linarith
qed

lemma format_seconds_fields:
  assumes "civil_from_days (n div 86400) = (y, m, d)"
  shows "format_seconds n @ r = pad_int 4 y @ CHR ''-'' # pad_int 2 m @ CHR ''-'' # pad_int 2 d @ CHR ''T'' #
      pad_int 2 (n mod 86400 div 3600) @ CHR '':'' # pad_int 2 ((n mod 86400 div 60) mod 60) @ CHR '':'' # pad_int 2 (n mod 86400 mod 60) @ r"
  unfolding format_seconds_def assms by (simp add: Let_def)

lemma parse_printed:
  assumes "four_digit_year t" "0 \<le> v" "v < Second" "take_fraction (f @ ''Z'') = (v, ''Z'')"
  shows "parse_RFC3339 (format_seconds (t div Second) @ f @ ''Z'') = Some (t div Second * Second + v)"
proof -
  define n where "n = t div Second"
  obtain y m d where c: "civil_from_days (n div 86400) = (y, m, d)" by (cases "civil_from_days (n div 86400)") auto
  note v = civil_valid [OF c]
  have y: "0 \<le> y" "y < 10 ^ 4" using assms(1) c by (simp_all add: four_digit_year_def n_def)
  have mod60: "0 \<le> x mod 60" "x mod 60 < 60" for x :: int by simp_all
  have "parse_RFC3339 (format_seconds n @ f @ ''Z'') =
     Some ((days_from_civil y m d * 86400 + n mod 86400 div 3600 * 3600 + (n mod 86400 div 60) mod 60 * 60 + n mod 86400 mod 60 - 0) * Second + v)"
    unfolding format_seconds_fields [OF c] using v
    by (intro parse_fields y time_of_day mod60 assms(4)) simp_all
  moreover have "days_from_civil y m d = n div 86400" using v by simp
  ultimately show ?thesis unfolding n_def [symmetric] by (simp only: time_of_day(3) diff_zero)
qed

text \<open>The text the store keeps of an instant gives the instant back: with nanoseconds exactly, and
  without them up to the second, for every instant whose year has four digits.\<close>
lemma stored_instant_roundtrip:
  assumes "four_digit_year t"
  shows "parse_RFC3339 (RFC3339Nano t) = Some t \<and> parse_RFC3339 (RFC3339 t) = Some (to_seconds t)"
proof
  let ?f = "if trim_zeros (pad_int 9 (t mod Second)) = [] then [] else ''.'' @ trim_zeros (pad_int 9 (t mod Second))"
  have ns: "0 \<le> t mod Second" "t mod Second < Second" by (simp_all add: Second_def)
  have "RFC3339Nano t = format_seconds (t div Second) @ ?f @ ''Z''" by (simp add: RFC3339Nano_def Let_def)
  with parse_printed [OF assms ns take_fraction_back [OF ns]] show "parse_RFC3339 (RFC3339Nano t) = Some t" by simp
  have "take_fraction ([] @ ''Z'') = (0, ''Z'')" by (simp add: take_fraction_def)
  from parse_printed [OF assms _ _ this] show "parse_RFC3339 (RFC3339 t) = Some (to_seconds t)"
    by (simp add: RFC3339_def to_seconds_def Second_def)
qed

end
