(* ===== verification/NetIP.thy ===== *)
theory NetIP
  imports GoStrings "HOL-Library.Word"
begin

text \<open>
  Addresses and prefixes of \<open>net/netip\<close>: parsing, printing, masking and membership, as far as the
  egress policy and the route names use them. An IPv6 address carries its zone; one that embeds an
  IPv4 address is an IPv6 address until it is unmapped.
\<close>

unbundle bit_operations_syntax

section \<open>Addresses\<close>

datatype Addr = V4 "32 word" | V6 "128 word" string

definition Is4 :: "Addr \<Rightarrow> bool" where "Is4 a = (case a of V4 _ \<Rightarrow> True | V6 _ _ \<Rightarrow> False)"
definition Is6 :: "Addr \<Rightarrow> bool" where "Is6 a = (case a of V4 _ \<Rightarrow> False | V6 _ _ \<Rightarrow> True)"
definition Zone :: "Addr \<Rightarrow> string" where "Zone a = (case a of V4 _ \<Rightarrow> [] | V6 _ z \<Rightarrow> z)"
definition BitLen :: "Addr \<Rightarrow> nat" where "BitLen a = (case a of V4 _ \<Rightarrow> 32 | V6 _ _ \<Rightarrow> 128)"

definition mapped :: "128 word \<Rightarrow> bool" where
  "mapped w \<longleftrightarrow> drop_bit 32 w = 65535"

definition Unmap :: "Addr \<Rightarrow> Addr" where
  "Unmap a = (case a of V4 w \<Rightarrow> V4 w | V6 w z \<Rightarrow> if mapped w then V4 (ucast w) else V6 w z)"

text \<open>The bytes or the 16-bit groups, most significant first.\<close>

definition word_of_parts :: "nat \<Rightarrow> nat list \<Rightarrow> 'a::len word" where
  "word_of_parts k ps = fold (\<lambda>p w. push_bit k w OR of_nat p) ps 0"

definition v4_bytes :: "32 word \<Rightarrow> nat list" where
  "v4_bytes w = map (\<lambda>i. unat (take_bit 8 (drop_bit (8 * i) w))) [3, 2, 1, 0]"

definition v6_groups :: "128 word \<Rightarrow> nat list" where
  "v6_groups w = map (\<lambda>i. unat (take_bit 16 (drop_bit (16 * i) w))) [7, 6, 5, 4, 3, 2, 1, 0]"

section \<open>Printing\<close>

definition hex_char :: "nat \<Rightarrow> char" where
  "hex_char n = (if n < 10 then char_of (48 + n) else char_of (87 + n))"

definition hex_digits :: "nat \<Rightarrow> string" where
  "hex_digits n =
     (if n < 16 then [hex_char n]
      else if n < 256 then [hex_char (n div 16), hex_char (n mod 16)]
      else if n < 4096 then [hex_char (n div 256), hex_char (n div 16 mod 16), hex_char (n mod 16)]
      else [hex_char (n div 4096), hex_char (n div 256 mod 16), hex_char (n div 16 mod 16), hex_char (n mod 16)])"

definition string4 :: "32 word \<Rightarrow> string" where
  "string4 w = Join (map string_of_nat (v4_bytes w)) ''.''"

text \<open>Start and length of the first of the longest runs of at least two zero groups.\<close>

definition zero_run :: "nat list \<Rightarrow> nat \<Rightarrow> nat" where
  "zero_run gs i = length (takeWhile (\<lambda>g. g = 0) (drop i gs))"

definition best_run :: "nat list \<Rightarrow> (nat \<times> nat) option" where
  "best_run gs = fold (\<lambda>i best. let l = zero_run gs i in
     if 2 \<le> l \<and> (case best of None \<Rightarrow> True | Some (_, k) \<Rightarrow> k < l) then Some (i, l) else best) [0..<8] None"

definition string6 :: "128 word \<Rightarrow> string" where
  "string6 w =
     (let gs = v6_groups w in
      case best_run gs of
        None \<Rightarrow> Join (map hex_digits gs) '':''
      | Some (i, l) \<Rightarrow> Join (map hex_digits (take i gs)) '':'' @ ''::'' @ Join (map hex_digits (drop (i + l) gs)) '':'')"

definition addr_String :: "Addr \<Rightarrow> string" where
  "addr_String a =
     (case a of
        V4 w \<Rightarrow> string4 w
      | V6 w z \<Rightarrow> (if mapped w then ''::ffff:'' @ string4 (ucast w) else string6 w) @ (if z = [] then [] else ''%'' @ z))"

section \<open>Parsing\<close>

text \<open>\<open>parseIPv4Fields\<close>: the value and number of digits of the field so far, and the fields before.\<close>

fun v4_loop :: "string \<Rightarrow> nat \<Rightarrow> nat \<Rightarrow> nat list \<Rightarrow> nat list option" where
  "v4_loop [] val digits fields = (if length fields < 3 then None else Some (fields @ [val]))"
| "v4_loop (c # s) val digits fields =
     (if is_digit c then
        (if digits = 1 \<and> val = 0 then None
         else if 255 < val * 10 + digit_val c then None
         else v4_loop s (val * 10 + digit_val c) (digits + 1) fields)
      else if c = CHR ''.'' then
        (if digits = 0 \<or> s = [] then None
         else if length fields = 3 then None
         else v4_loop s 0 0 (fields @ [val]))
      else None)"

definition hexval :: "char \<Rightarrow> nat option" where
  "hexval c =
     (if is_digit c then Some (digit_val c)
      else if CHR ''a'' \<le> c \<and> c \<le> CHR ''f'' then Some (of_char c - 87)
      else if CHR ''A'' \<le> c \<and> c \<le> CHR ''F'' then Some (of_char c - 55) else None)"

text \<open>The hexadecimal digits of a group: its value, how many there are, and the rest.\<close>

fun hex_group :: "nat \<Rightarrow> nat \<Rightarrow> string \<Rightarrow> nat \<times> nat \<times> string" where
  "hex_group acc n [] = (acc, n, [])"
| "hex_group acc n (c # s) = (case hexval c of None \<Rightarrow> (acc, n, c # s) | Some d \<Rightarrow> hex_group (acc * 16 + d) (n + 1) s)"

text \<open>
  The loop over the groups, with the bytes so far and the place of the ellipsis; the result is what is
  left of the text. Each turn adds two bytes, so eight turns are enough.
\<close>

fun v6_loop :: "nat \<Rightarrow> nat list \<Rightarrow> nat option \<Rightarrow> string \<Rightarrow> (nat list \<times> nat option \<times> string) option" where
  "v6_loop 0 bytes ell s = Some (bytes, ell, s)"
| "v6_loop (Suc k) bytes ell s =
     (case hex_group 0 0 s of (acc, n, rest) \<Rightarrow>
        if n = 0 \<or> 4 < n then None
        else if rest \<noteq> [] \<and> hd rest = CHR ''.'' then
          (if ell = None \<and> length bytes \<noteq> 12 then None
           else if 16 < length bytes + 4 then None
           else (case v4_loop s 0 0 [] of None \<Rightarrow> None | Some fs \<Rightarrow> Some (bytes @ fs, ell, [])))
        else
         (let bytes' = bytes @ [acc div 256, acc mod 256] in
          case rest of
            [] \<Rightarrow> Some (bytes', ell, [])
          | c # r \<Rightarrow>
              if c \<noteq> CHR '':'' then None
              else if r = [] then None
              else if hd r = CHR '':'' then
                (if ell \<noteq> None then None
                 else if tl r = [] then Some (bytes', Some (length bytes'), [])
                 else v6_loop k bytes' (Some (length bytes')) (tl r))
              else v6_loop k bytes' ell r))"

definition parse_v6 :: "string \<Rightarrow> (128 word) option" where
  "parse_v6 s =
     (if s = ''::'' then Some 0
      else
       (let (ell, s1) = (if HasPrefix s ''::'' then (Some 0, drop 2 s) else (None, s)) in
        case v6_loop 8 [] ell s1 of
          None \<Rightarrow> None
        | Some (bytes, ell', rest) \<Rightarrow>
            if rest \<noteq> [] then None
            else if length bytes < 16 then
              (case ell' of
                 None \<Rightarrow> None
               | Some e \<Rightarrow> Some (word_of_parts 8 (take e bytes @ replicate (16 - length bytes) 0 @ drop e bytes)))
            else if ell' \<noteq> None then None
            else Some (word_of_parts 8 bytes)))"

definition parse_v6_zone :: "string \<Rightarrow> Addr option" where
  "parse_v6_zone s =
     (case Cut s ''%'' of (host, zone, found) \<Rightarrow>
        if found \<and> zone = [] then None else map_option (\<lambda>w. V6 w zone) (parse_v6 host))"

definition ParseAddr :: "string \<Rightarrow> Addr option" where
  "ParseAddr s =
     (case dropWhile (\<lambda>c. c \<noteq> CHR ''.'' \<and> c \<noteq> CHR '':'' \<and> c \<noteq> CHR ''%'') s of
        [] \<Rightarrow> None
      | c # _ \<Rightarrow>
          if c = CHR ''.'' then map_option (\<lambda>fs. V4 (word_of_parts 8 fs)) (v4_loop s 0 0 [])
          else if c = CHR '':'' then parse_v6_zone s
          else None)"

section \<open>Prefixes\<close>

record Prefix =
  pfAddr :: Addr
  pfBits :: nat

definition Contains_addr :: "Prefix \<Rightarrow> Addr \<Rightarrow> bool" where
  "Contains_addr p a =
     (case (pfAddr p, a) of
        (V4 q, V4 w) \<Rightarrow> drop_bit (32 - pfBits p) (w XOR q) = 0
      | (V6 q _, V6 w z) \<Rightarrow> z = [] \<and> drop_bit (128 - pfBits p) (w XOR q) = 0
      | _ \<Rightarrow> False)"

definition PrefixFrom :: "Addr \<Rightarrow> nat \<Rightarrow> Prefix" where
  "PrefixFrom a bits = \<lparr>pfAddr = (case a of V4 w \<Rightarrow> V4 w | V6 w _ \<Rightarrow> V6 w []), pfBits = bits\<rparr>"

definition Masked :: "Prefix \<Rightarrow> Prefix" where
  "Masked p = p\<lparr>pfAddr := (case pfAddr p of
     V4 w \<Rightarrow> V4 (push_bit (32 - pfBits p) (drop_bit (32 - pfBits p) w))
   | V6 w z \<Rightarrow> V6 (push_bit (128 - pfBits p) (drop_bit (128 - pfBits p) w)) z)\<rparr>"

definition ParsePrefix :: "string \<Rightarrow> Prefix option" where
  "ParsePrefix s =
     (case LastIndexByte s (CHR ''/'') of
        None \<Rightarrow> None
      | Some i \<Rightarrow>
          (case ParseAddr (take i s) of
             None \<Rightarrow> None
           | Some a \<Rightarrow>
               (let bits = drop (i + 1) s in
                if Zone a \<noteq> [] then None
                else if bits = [] \<or> \<not> list_all is_digit bits then None
                else if 1 < length bits \<and> hd bits = CHR ''0'' then None
                else if BitLen a < nat_of_digits bits then None
                else Some (PrefixFrom a (nat_of_digits bits)))))"

definition prefix_String :: "Prefix \<Rightarrow> string" where
  "prefix_String p = addr_String (pfAddr p) @ ''/'' @ string_of_nat (pfBits p)"

lemma netip_examples:
  "ParseAddr ''169.254.169.254'' = Some (V4 0xA9FEA9FE)"
  "ParseAddr ''01.2.3.4'' = None" "ParseAddr ''1.2.3'' = None" "ParseAddr ''1.2.3.4.'' = None"
  "ParseAddr ''1:2'' = None" "ParseAddr ''1::2::3'' = None" "ParseAddr ''app.example.test'' = None"
  "map_option prefix_String (map_option Masked (ParsePrefix ''10.1.2.3/8'')) = Some ''10.0.0.0/8''"
  "ParsePrefix ''10.0.0.0/08'' = None" "ParsePrefix ''10.0.0.0/33'' = None"
  by code_simp+

text \<open>A link-local IPv6 address, without and with a zone.\<close>

lemma fe80_loop: "v6_loop 8 [] None ''fe80::1'' = Some ([0xfe, 0x80, 0, 1], Some 2, [])"
  by code_simp

lemma parse_fe80: "parse_v6 ''fe80::1'' = Some 0xFE800000000000000000000000000001"
  using fe80_loop by (simp add: parse_v6_def word_of_parts_def numeral_eq_Suc)

lemma parse_fe80_zone: "ParseAddr ''fe80::1%eth0.1'' = Some (V6 0xFE800000000000000000000000000001 ''eth0.1'')"
proof -
  have "Cut ''fe80::1%eth0.1'' ''%'' = (''fe80::1'', ''eth0.1'', True)" by code_simp
  then show ?thesis by (simp add: ParseAddr_def parse_v6_zone_def parse_fe80)
qed

section \<open>Membership\<close>

text \<open>A prefix holds the addresses of its family whose leading bits are those of its address.\<close>

lemma xor_eq_zero: "a XOR b = 0 \<longleftrightarrow> a = b" for a b :: "'a::len word"
  by (metis xor.assoc xor.left_neutral xor.right_neutral xor_self_eq)

lemma Contains_V4: "Contains_addr \<lparr>pfAddr = V4 q, pfBits = b\<rparr> (V4 w) \<longleftrightarrow> drop_bit (32 - b) w = drop_bit (32 - b) q"
  by (simp add: Contains_addr_def drop_bit_xor xor_eq_zero)

lemma Contains_V6: "Contains_addr \<lparr>pfAddr = V6 q z', pfBits = b\<rparr> (V6 w z) \<longleftrightarrow> z = [] \<and> drop_bit (128 - b) w = drop_bit (128 - b) q"
  by (simp add: Contains_addr_def drop_bit_xor xor_eq_zero)

lemma Contains_family: "Contains_addr p a \<Longrightarrow> Is4 a \<longleftrightarrow> Is4 (pfAddr p)"
  by (auto simp: Contains_addr_def Is4_def split: Addr.splits)

lemma Contains_no_zone: "Contains_addr p a \<Longrightarrow> Zone a = []"
  by (auto simp: Contains_addr_def Zone_def split: Addr.splits)

lemma Unmap_idem [simp]: "Unmap (Unmap a) = Unmap a"
  by (auto simp: Unmap_def split: Addr.splits)

end
