(* ===== verification/EgressPolicy.thy ===== *)
theory EgressPolicy
  imports NetIP
begin

text \<open>
  The egress policy of the route monitor: the rules and decisions of
  \<open>internal/routetarget/policy.go\<close>, and the dialer of \<open>internal/monitor/http_route_policy.go\<close> that checks
  every address it is about to connect to.
\<close>

section \<open>Rules\<close>

record EgressPolicyConfig =
  ecAllowDomains :: "string list"
  ecAllowCIDRs :: "string list"
  ecDenyDomains :: "string list"
  ecDenyCIDRs :: "string list"

text \<open>The kind of a rule is its constructor.\<close>

datatype egressRule = DomainRule string | CIDRRule Prefix

record EgressPolicy =
  epAllowRules :: "egressRule list"
  epDenyRules :: "egressRule list"
  epDefaultDenyRules :: "egressRule list"
  epHasAllowRules :: bool
  epHasAllowDomainRules :: bool
  epHasAllowCIDRRules :: bool

record EgressDecision =
  edAllowed :: bool
  edRule :: string
  edDeferred :: bool

datatype egress_error = DomainEmpty string string | DomainIsURL string string | DomainIsAddress string string | BadCIDR string string

definition defaultDenyCIDRs :: "string list" where
  "defaultDenyCIDRs = [''169.254.0.0/16'', ''fe80::/10'']"

definition normalizeDomainRule :: "string \<Rightarrow> string \<Rightarrow> egress_error + string" where
  "normalizeDomainRule grp value =
     (let d0 = ToLower (TrimSpace value);
          domain = TrimPrefix (TrimPrefix (TrimSuffix d0 ''.'') ''*.'') ''.'' in
      if domain = [] then Inl (DomainEmpty grp value)
      else if ContainsAny domain {CHR ''/'', CHR '':'', CHR ''@''} then Inl (DomainIsURL grp value)
      else if ParseAddr domain \<noteq> None then Inl (DomainIsAddress grp value)
      else Inr domain)"

definition parseCIDRRule :: "string \<Rightarrow> string \<Rightarrow> egress_error + Prefix" where
  "parseCIDRRule grp value =
     (let cidr = TrimSpace value in
      case ParsePrefix cidr of
        Some p \<Rightarrow> Inr (Masked p)
      | None \<Rightarrow> (case ParseAddr cidr of None \<Rightarrow> Inl (BadCIDR grp value) | Some a \<Rightarrow> Inr (PrefixFrom a (BitLen a))))"

definition compileEgressRules :: "string \<Rightarrow> string list \<Rightarrow> string list \<Rightarrow> egress_error + egressRule list" where
  "compileEgressRules grp domains cidrs =
     bind_res (map_res (normalizeDomainRule grp) domains) (\<lambda>ds.
     bind_res (map_res (parseCIDRRule grp) cidrs) (\<lambda>ps. Inr (map DomainRule ds @ map CIDRRule ps)))"

definition is_domain_rule :: "egressRule \<Rightarrow> bool" where
  "is_domain_rule r = (case r of DomainRule _ \<Rightarrow> True | CIDRRule _ \<Rightarrow> False)"

definition is_cidr_rule :: "egressRule \<Rightarrow> bool" where
  "is_cidr_rule r = (case r of DomainRule _ \<Rightarrow> False | CIDRRule _ \<Rightarrow> True)"

definition NewEgressPolicy :: "EgressPolicyConfig \<Rightarrow> egress_error + EgressPolicy" where
  "NewEgressPolicy cfg =
     bind_res (compileEgressRules ''allow'' (ecAllowDomains cfg) (ecAllowCIDRs cfg)) (\<lambda>allow.
     bind_res (compileEgressRules ''deny'' (ecDenyDomains cfg) (ecDenyCIDRs cfg)) (\<lambda>deny.
     bind_res (compileEgressRules ''default deny'' [] defaultDenyCIDRs) (\<lambda>dflt.
       Inr \<lparr>epAllowRules = allow, epDenyRules = deny, epDefaultDenyRules = dflt,
            epHasAllowRules = (allow \<noteq> []), epHasAllowDomainRules = list_ex is_domain_rule allow,
            epHasAllowCIDRRules = list_ex is_cidr_rule allow\<rparr>)))"

definition rule_String :: "egressRule \<Rightarrow> string" where
  "rule_String r = (case r of DomainRule d \<Rightarrow> ''domain '' @ d | CIDRRule p \<Rightarrow> ''cidr '' @ prefix_String p)"

section \<open>Decisions\<close>

definition normalizeHost :: "string \<Rightarrow> string" where
  "normalizeHost host = ToLower (TrimCutset (TrimSpace host) {CHR ''['', CHR '']''})"

definition matchesDomainRule :: "string \<Rightarrow> string \<Rightarrow> bool" where
  "matchesDomainRule host domain =
     (if ParseAddr host \<noteq> None then False
      else (let h = TrimSuffix (normalizeHost host) ''.'' in h = domain \<or> HasSuffix h (''.'' @ domain)))"

definition rule_matches :: "egressRule \<Rightarrow> string \<Rightarrow> Addr option \<Rightarrow> bool" where
  "rule_matches rule host addr =
     (case rule of
        DomainRule d \<Rightarrow> matchesDomainRule host d
      | CIDRRule p \<Rightarrow> (case addr of None \<Rightarrow> False | Some a \<Rightarrow> Contains_addr p a))"

definition allowed :: "string \<Rightarrow> EgressDecision" where
  "allowed rule = \<lparr>edAllowed = True, edRule = rule, edDeferred = False\<rparr>"

definition refused :: "string \<Rightarrow> EgressDecision" where
  "refused rule = \<lparr>edAllowed = False, edRule = rule, edDeferred = False\<rparr>"

text \<open>The first rule of a kind that matches.\<close>

definition first_cidr :: "Addr \<Rightarrow> egressRule list \<Rightarrow> egressRule option" where
  "first_cidr addr rules = find (\<lambda>r. is_cidr_rule r \<and> rule_matches r (addr_String addr) (Some addr)) rules"

definition first_domain :: "string \<Rightarrow> egressRule list \<Rightarrow> egressRule option" where
  "first_domain host rules = find (\<lambda>r. is_domain_rule r \<and> rule_matches r host None) rules"

definition CheckResolvedAddrForHost :: "EgressPolicy \<Rightarrow> Addr \<Rightarrow> bool \<Rightarrow> EgressDecision" where
  "CheckResolvedAddrForHost policy addr hostAllowed =
     (case first_cidr addr (epDenyRules policy) of
        Some r \<Rightarrow> refused (''deny '' @ rule_String r)
      | None \<Rightarrow>
          (case first_cidr addr (epAllowRules policy) of
             Some r \<Rightarrow> allowed (''allow '' @ rule_String r)
           | None \<Rightarrow>
               (case find (\<lambda>r. rule_matches r (addr_String addr) (Some addr)) (epDefaultDenyRules policy) of
                  Some r \<Rightarrow> refused (''default deny '' @ rule_String r)
                | None \<Rightarrow>
                    if epHasAllowCIDRRules policy \<and> \<not> hostAllowed then refused ''no allow cidr rule matched''
                    else allowed [])))"

definition CheckResolvedAddr :: "EgressPolicy \<Rightarrow> Addr \<Rightarrow> EgressDecision" where
  "CheckResolvedAddr policy addr = CheckResolvedAddrForHost policy addr False"

definition CheckHost :: "EgressPolicy \<Rightarrow> string \<Rightarrow> EgressDecision" where
  "CheckHost policy rawHost =
     (let host = normalizeHost rawHost in
      if host = [] then refused ''invalid route''
      else
       (case ParseAddr host of
          Some addr \<Rightarrow>
            (let decision = CheckResolvedAddr policy addr in
             if \<not> edAllowed decision then decision
             else if epHasAllowDomainRules policy \<and> \<not> epHasAllowCIDRRules policy then refused ''no allow rule matched''
             else decision)
        | None \<Rightarrow>
            (case first_domain host (epDenyRules policy) of
               Some r \<Rightarrow> refused (''deny '' @ rule_String r)
             | None \<Rightarrow>
                 (case first_domain host (epAllowRules policy) of
                    Some r \<Rightarrow> allowed (''allow '' @ rule_String r)
                  | None \<Rightarrow>
                      if epHasAllowCIDRRules policy
                      then \<lparr>edAllowed = False, edRule = ''cidr resolution required'', edDeferred = True\<rparr>
                      else if epHasAllowRules policy then refused ''no allow rule matched''
                      else allowed []))))"

section \<open>The dialer\<close>

datatype dial_error = PolicyError string | ResolveError string | NoAddresses string | InvalidAddress string string
  | NoAddressesFor string string | DialError string

definition routePolicyDecisionError :: "EgressDecision \<Rightarrow> dial_error option" where
  "routePolicyDecisionError d = (if edAllowed d \<or> edDeferred d then None else Some (PolicyError (edRule d)))"

definition parsePolicyAddr :: "string \<Rightarrow> Addr option" where
  "parsePolicyAddr value = map_option Unmap (ParseAddr (TrimCutset value {CHR ''['', CHR '']''}))"

definition routeIPMatchesNetwork :: "string \<Rightarrow> Addr \<Rightarrow> bool" where
  "routeIPMatchesNetwork network addr =
     (if network \<in> {''tcp4'', ''udp4'', ''ip4''} then Is4 addr
      else if network \<in> {''tcp6'', ''udp6'', ''ip6''} then Is6 addr else True)"

definition JoinHostPort :: "string \<Rightarrow> string \<Rightarrow> string" where
  "JoinHostPort host port =
     (if CHR '':'' \<in> set host \<or> CHR ''%'' \<in> set host then ''['' @ host @ '']:'' @ port else host @ '':'' @ port)"

definition check_ip :: "EgressPolicy \<Rightarrow> string \<Rightarrow> bool \<Rightarrow> string \<Rightarrow> dial_error + Addr" where
  "check_ip policy host hostAllowed ip =
     (case parsePolicyAddr ip of
        None \<Rightarrow> Inl (InvalidAddress host ip)
      | Some addr \<Rightarrow>
          (case routePolicyDecisionError (CheckResolvedAddrForHost policy addr hostAllowed) of
             Some e \<Rightarrow> Inl e
           | None \<Rightarrow> Inr addr))"

text \<open>\<open>resolve\<close> is the resolver: the texts of the addresses, or the text of its error.\<close>

definition checkedDialAddresses ::
  "(string \<Rightarrow> string + string list) \<Rightarrow> EgressPolicy \<Rightarrow> string \<Rightarrow> string \<Rightarrow> string \<Rightarrow> dial_error + string list" where
  "checkedDialAddresses resolve policy network host port =
     (let hostDecision = CheckHost policy host in
      case routePolicyDecisionError hostDecision of
        Some e \<Rightarrow> Inl e
      | None \<Rightarrow>
          (case parsePolicyAddr host of
             Some addr \<Rightarrow>
               (case routePolicyDecisionError (CheckResolvedAddrForHost policy addr (edAllowed hostDecision)) of
                  Some e \<Rightarrow> Inl e
                | None \<Rightarrow> Inr [JoinHostPort (addr_String addr) port])
           | None \<Rightarrow>
               (case resolve host of
                  Inl e \<Rightarrow> Inl (ResolveError e)
                | Inr ips \<Rightarrow>
                    if ips = [] then Inl (NoAddresses host)
                    else bind_res (map_res (check_ip policy host (edAllowed hostDecision)) ips) (\<lambda>addrs.
                      let checked = map (\<lambda>a. JoinHostPort (addr_String a) port) (filter (routeIPMatchesNetwork network) addrs) in
                      if checked = [] then Inl (NoAddressesFor host network) else Inr checked))))"

text \<open>\<open>SplitHostPort\<close> of \<open>net\<close>, without the port when it is missing.\<close>

definition SplitHostPort :: "string \<Rightarrow> (string \<times> string) option" where
  "SplitHostPort hostport =
     (case LastIndexByte hostport (CHR '':'') of
        None \<Rightarrow> None
      | Some i \<Rightarrow>
          if hostport \<noteq> [] \<and> hd hostport = CHR ''['' then
            (case Index hostport '']'' of
               None \<Rightarrow> None
             | Some e \<Rightarrow>
                 if e + 1 \<noteq> i then None
                 else if CHR ''['' \<in> set (drop 1 hostport) \<or> CHR '']'' \<in> set (drop (e + 1) hostport) then None
                 else Some (take (e - 1) (drop 1 hostport), drop (i + 1) hostport))
          else if CHR '':'' \<in> set (take i hostport) then None
          else if CHR ''['' \<in> set hostport \<or> CHR '']'' \<in> set hostport then None
          else Some (take i hostport, drop (i + 1) hostport))"

text \<open>
  \<open>connect network address\<close> is the underlying dialer: whether it connects to the address. The result
  is the address connected to. After a failed attempt \<open>cancelled k\<close> says whether the context is done.
\<close>

fun dial_loop :: "(string \<Rightarrow> string \<Rightarrow> bool) \<Rightarrow> (nat \<Rightarrow> bool) \<Rightarrow> nat \<Rightarrow> string \<Rightarrow> string list \<Rightarrow> dial_error + string" where
  "dial_loop connect cancelled k network [] = Inl (DialError [])"
| "dial_loop connect cancelled k network (a # as) =
     (if connect network a then Inr a
      else if cancelled k then Inl (DialError a)
      else (case dial_loop connect cancelled (k + 1) network as of
              Inr b \<Rightarrow> Inr b
            | Inl e \<Rightarrow> Inl (if as = [] then DialError a else e)))"

definition DialContext ::
  "(string \<Rightarrow> string + string list) \<Rightarrow> (string \<Rightarrow> string \<Rightarrow> bool) \<Rightarrow> (nat \<Rightarrow> bool) \<Rightarrow> EgressPolicy \<Rightarrow> string \<Rightarrow> string \<Rightarrow>
   dial_error + string" where
  "DialContext resolve connect cancelled policy network address =
     (case SplitHostPort address of
        None \<Rightarrow> Inl (InvalidAddress address [])
      | Some (host, port) \<Rightarrow>
          bind_res (checkedDialAddresses resolve policy network host port) (dial_loop connect cancelled 0 network))"

definition httpRouteRedirectLimit :: nat where "httpRouteRedirectLimit = 10"

datatype redirect_error = TooManyRedirects | RedirectBlocked dial_error

definition checkPolicyURLDestination ::
  "(string \<Rightarrow> string + string list) \<Rightarrow> EgressPolicy \<Rightarrow> string \<Rightarrow> dial_error option" where
  "checkPolicyURLDestination resolve policy host =
     (if host = [] then Some (PolicyError ''invalid route'')
      else
       (let hostDecision = CheckHost policy host in
        case routePolicyDecisionError hostDecision of
          Some e \<Rightarrow> Some e
        | None \<Rightarrow>
            (case parsePolicyAddr host of
               Some addr \<Rightarrow> routePolicyDecisionError (CheckResolvedAddrForHost policy addr (edAllowed hostDecision))
             | None \<Rightarrow>
                 (case resolve host of
                    Inl e \<Rightarrow> Some (ResolveError e)
                  | Inr ips \<Rightarrow>
                      if ips = [] then Some (NoAddresses host)
                      else (case map_res (check_ip policy host (edAllowed hostDecision)) ips of Inl e \<Rightarrow> Some e | Inr _ \<Rightarrow> None)))))"

text \<open>The redirect hook: \<open>via\<close> is the number of requests made, \<open>existing\<close> the wrapped hook if there is one.\<close>

definition policyCheckRedirect ::
  "(string \<Rightarrow> string + string list) \<Rightarrow> EgressPolicy \<Rightarrow> redirect_error option \<Rightarrow> string \<Rightarrow> nat \<Rightarrow> redirect_error option" where
  "policyCheckRedirect resolve policy existing host via =
     (if httpRouteRedirectLimit \<le> via then Some TooManyRedirects
      else case checkPolicyURLDestination resolve policy host of
        Some e \<Rightarrow> Some (RedirectBlocked e)
      | None \<Rightarrow> existing)"

section \<open>What is dialed\<close>

text \<open>An address the policy lets the dialer connect to.\<close>

definition permitted :: "EgressPolicy \<Rightarrow> string \<Rightarrow> Addr \<Rightarrow> bool" where
  "permitted policy host a \<longleftrightarrow>
     (\<forall>p. CIDRRule p \<in> set (epDenyRules policy) \<longrightarrow> \<not> Contains_addr p a) \<and>
     ((\<exists>p. CIDRRule p \<in> set (epAllowRules policy) \<and> Contains_addr p a) \<or>
      ((\<forall>p. CIDRRule p \<in> set (epDefaultDenyRules policy) \<longrightarrow> \<not> Contains_addr p a) \<and>
       (epHasAllowCIDRRules policy \<longrightarrow> edAllowed (CheckHost policy host))))"

lemma first_cidr_None: "first_cidr a rules = None \<longleftrightarrow> (\<forall>p. CIDRRule p \<in> set rules \<longrightarrow> \<not> Contains_addr p a)"
  by (auto simp: first_cidr_def find_None_set is_cidr_rule_def rule_matches_def split: egressRule.splits)

lemma first_cidr_Some: "first_cidr a rules = Some r \<Longrightarrow> \<exists>p. r = CIDRRule p \<and> r \<in> set rules \<and> Contains_addr p a"
  by (cases r) (auto simp: first_cidr_def is_cidr_rule_def rule_matches_def dest!: find_Some_iff_set)

lemma resolved_permitted:
  assumes "edAllowed (CheckResolvedAddrForHost policy a (edAllowed (CheckHost policy host)))"
  shows "permitted policy host a"
proof -
  from assms have d: "first_cidr a (epDenyRules policy) = None"
    by (auto simp: CheckResolvedAddrForHost_def refused_def split: option.splits)
  show ?thesis
  proof (cases "first_cidr a (epAllowRules policy)")
    case (Some r)
    with d first_cidr_None first_cidr_Some show ?thesis unfolding permitted_def by blast
  next
    case None
    with assms d have "find (\<lambda>r. rule_matches r (addr_String a) (Some a)) (epDefaultDenyRules policy) = None"
      "epHasAllowCIDRRules policy \<longrightarrow> edAllowed (CheckHost policy host)"
      by (auto simp: CheckResolvedAddrForHost_def refused_def split: option.splits if_splits)
    with d show ?thesis
      unfolding permitted_def by (force simp: first_cidr_None find_None_set rule_matches_def)
  qed
qed

lemma decision_error_None: "routePolicyDecisionError (CheckResolvedAddrForHost policy a h) = None \<Longrightarrow>
    edAllowed (CheckResolvedAddrForHost policy a h)"
  by (auto simp: routePolicyDecisionError_def CheckResolvedAddrForHost_def refused_def allowed_def split: option.splits if_splits)

lemma check_ip_permitted:
  "check_ip policy host (edAllowed (CheckHost policy host)) ip = Inr a \<Longrightarrow> permitted policy host a"
  by (auto simp: check_ip_def split: option.splits intro: resolved_permitted decision_error_None)

lemma checked_permitted:
  assumes "checkedDialAddresses resolve policy network host port = Inr dials" "d \<in> set dials"
  shows "\<exists>a. d = JoinHostPort (addr_String a) port \<and> permitted policy host a"
proof (cases "parsePolicyAddr host")
  case (Some a)
  with assms show ?thesis
    by (auto simp: checkedDialAddresses_def Let_def split: option.splits intro!: exI [of _ a] resolved_permitted decision_error_None)
next
  case None
  with assms obtain ips addrs where ips: "resolve host = Inr ips"
    "map_res (check_ip policy host (edAllowed (CheckHost policy host))) ips = Inr addrs"
    "dials = map (\<lambda>a. JoinHostPort (addr_String a) port) (filter (routeIPMatchesNetwork network) addrs)"
    by (auto simp: checkedDialAddresses_def Let_def bind_res_Inr split: option.splits sum.splits if_splits)
  with assms(2) obtain a where a: "a \<in> set addrs" "d = JoinHostPort (addr_String a) port" by auto
  from ips(2) a(1) obtain ip where "check_ip policy host (edAllowed (CheckHost policy host)) ip = Inr a"
    by (auto simp: map_res_Inr list_all2_conv_all_nth in_set_conv_nth)
  with a(2) check_ip_permitted show ?thesis by blast
qed

lemma dial_loop_in: "dial_loop connect cancelled k network as = Inr a \<Longrightarrow> a \<in> set as \<and> connect network a"
  by (induction connect cancelled k network as rule: dial_loop.induct) (auto split: if_splits sum.splits)

section \<open>Link-local addresses\<close>

definition default_rules :: "egressRule list" where
  "default_rules = [CIDRRule \<lparr>pfAddr = V4 0xA9FE0000, pfBits = 16\<rparr>,
     CIDRRule \<lparr>pfAddr = V6 0xFE800000000000000000000000000000 [], pfBits = 10\<rparr>]"

lemma default_rules_parsed: "compileEgressRules ''default deny'' [] defaultDenyCIDRs = Inr default_rules"
proof -
  have v4: "ParsePrefix ''169.254.0.0/16'' = Some \<lparr>pfAddr = V4 0xA9FE0000, pfBits = 16\<rparr>" by code_simp
  have "v6_loop 8 [] None ''fe80::'' = Some ([0xfe, 0x80], Some 2, [])" by code_simp
  then have "parse_v6 ''fe80::'' = Some 0xFE800000000000000000000000000000"
    by (simp add: parse_v6_def word_of_parts_def numeral_eq_Suc)
  moreover have "Cut ''fe80::'' ''%'' = (''fe80::'', [], False)" by code_simp
  ultimately have "ParseAddr ''fe80::'' = Some (V6 0xFE800000000000000000000000000000 [])"
    by (simp add: ParseAddr_def parse_v6_zone_def)
  moreover have "LastIndexByte ''fe80::/10'' (CHR ''/'') = Some 6" "nat_of_digits ''10'' = 10" "list_all is_digit ''10''" by code_simp+
  ultimately have v6: "ParsePrefix ''fe80::/10'' = Some \<lparr>pfAddr = V6 0xFE800000000000000000000000000000 [], pfBits = 10\<rparr>"
    by (simp add: ParsePrefix_def Zone_def BitLen_def PrefixFrom_def Let_def numeral_eq_Suc)
  have "TrimSpace ''169.254.0.0/16'' = ''169.254.0.0/16''" "TrimSpace ''fe80::/10'' = ''fe80::/10''" by code_simp+
  with v4 v6 show ?thesis
    by (simp add: compileEgressRules_def defaultDenyCIDRs_def parseCIDRRule_def default_rules_def Masked_def Let_def)
qed

lemma new_policy:
  assumes "NewEgressPolicy cfg = Inr policy"
  shows "epDefaultDenyRules policy = default_rules"
    and "compileEgressRules ''allow'' (ecAllowDomains cfg) (ecAllowCIDRs cfg) = Inr (epAllowRules policy)"
    and "compileEgressRules ''deny'' (ecDenyDomains cfg) (ecDenyCIDRs cfg) = Inr (epDenyRules policy)"
  using assms by (auto simp: NewEgressPolicy_def bind_res_Inr default_rules_parsed)

lemma no_allow_cidr:
  "compileEgressRules g domains [] = Inr rules \<Longrightarrow> CIDRRule p \<notin> set rules"
  by (auto simp: compileEgressRules_def bind_res_Inr)


definition open_policy :: EgressPolicy where
  "open_policy = \<lparr>epAllowRules = [], epDenyRules = [], epDefaultDenyRules = default_rules,
     epHasAllowRules = False, epHasAllowDomainRules = False, epHasAllowCIDRRules = False\<rparr>"

definition no_rules :: EgressPolicyConfig where
  "no_rules = \<lparr>ecAllowDomains = [], ecAllowCIDRs = [], ecDenyDomains = [], ecDenyCIDRs = []\<rparr>"

lemma open_policy: "NewEgressPolicy no_rules = Inr open_policy"
  using default_rules_parsed
  by (simp add: NewEgressPolicy_def no_rules_def open_policy_def compileEgressRules_def)

lemma open_policy_address:
  "first_cidr a (epDenyRules open_policy) = None" "first_cidr a (epAllowRules open_policy) = None"
  by (simp_all add: open_policy_def first_cidr_def)

lemma demo_dial: "DialContext (\<lambda>_. Inr [''10.0.0.1'']) (\<lambda>_ _. True) (\<lambda>_. False) open_policy ''tcp'' ''app.test:80'' = Inr ''10.0.0.1:80''"
proof -
  have host: "CheckHost open_policy ''app.test'' = allowed []"
  proof -
    have "normalizeHost ''app.test'' = ''app.test''" "ParseAddr ''app.test'' = None" by code_simp+
    then show ?thesis by (simp add: CheckHost_def open_policy_def first_domain_def)
  qed
  have addr: "parsePolicyAddr ''10.0.0.1'' = Some (V4 0x0A000001)" "parsePolicyAddr ''app.test'' = None" by code_simp+
  have "CheckResolvedAddrForHost open_policy (V4 0x0A000001) True = allowed []"
    by (simp add: CheckResolvedAddrForHost_def open_policy_address)
      (simp add: open_policy_def default_rules_def rule_matches_def Contains_addr_def)
  then have "check_ip open_policy ''app.test'' True ''10.0.0.1'' = Inr (V4 0x0A000001)"
    by (simp add: check_ip_def addr routePolicyDecisionError_def allowed_def)
  moreover have "JoinHostPort (addr_String (V4 0x0A000001)) ''80'' = ''10.0.0.1:80''" by code_simp
  ultimately have "checkedDialAddresses (\<lambda>_. Inr [''10.0.0.1'']) open_policy ''tcp'' ''app.test'' ''80'' = Inr [''10.0.0.1:80'']"
    by (simp add: checkedDialAddresses_def host addr routePolicyDecisionError_def routeIPMatchesNetwork_def allowed_def)
  moreover have "SplitHostPort ''app.test:80'' = Some (''app.test'', ''80'')" by code_simp
  ultimately show ?thesis by (simp add: DialContext_def)
qed


text \<open>
  A zone defeats the default deny rule: a prefix holds no address with a zone, so a link-local IPv6
  address is dialed when a zone is given.
\<close>

lemma zone_bypasses_default_deny:
  "checkedDialAddresses resolve open_policy ''tcp'' ''fe80::1%eth0.1'' ''80'' = Inr [''[fe80::1%eth0.1]:80'']"
proof -
  let ?a = "V6 0xFE800000000000000000000000000001 ''eth0.1''"
  have "TrimCutset ''fe80::1%eth0.1'' {CHR ''['', CHR '']''} = ''fe80::1%eth0.1''" "normalizeHost ''fe80::1%eth0.1'' = ''fe80::1%eth0.1''"
    by code_simp+
  moreover have "Unmap ?a = ?a" by (simp add: Unmap_def mapped_def)
  ultimately have addr: "parsePolicyAddr ''fe80::1%eth0.1'' = Some ?a" "normalizeHost ''fe80::1%eth0.1'' = ''fe80::1%eth0.1''"
    by (simp_all add: parsePolicyAddr_def parse_fe80_zone)
  have ok: "CheckResolvedAddrForHost open_policy ?a h = allowed []" for h
    by (simp add: CheckResolvedAddrForHost_def open_policy_address)
      (simp add: open_policy_def default_rules_def rule_matches_def Contains_addr_def)
  then have host: "CheckHost open_policy ''fe80::1%eth0.1'' = allowed []"
    by (simp add: CheckHost_def addr(2) parse_fe80_zone CheckResolvedAddr_def) (simp add: allowed_def open_policy_def)
  have gs: "v6_groups 0xFE800000000000000000000000000001 = [0xfe80, 0, 0, 0, 0, 0, 0, 1]" by (simp add: v6_groups_def)
  have "best_run [0xfe80, 0, 0, 0, 0, 0, 0, 1] = Some (1, 6)" "Join (map hex_digits (take 1 [0xfe80, 0, 0, 0, 0, 0, 0, 1])) '':'' = ''fe80''"
    "Join (map hex_digits (drop (1 + 6) [0xfe80, 0, 0, 0, 0, 0, 0, 1])) '':'' = ''1''" by code_simp+
  then have "string6 0xFE800000000000000000000000000001 = ''fe80::1''" by (simp add: string6_def gs)
  then have "addr_String ?a = ''fe80::1%eth0.1''" by (simp add: addr_String_def mapped_def)
  then show ?thesis
    by (simp add: checkedDialAddresses_def host addr routePolicyDecisionError_def ok allowed_def JoinHostPort_def)
qed

end
