(* ===== verification/Health.thy ===== *)
theory Health
  imports AlertSafe Images GoTime
begin

text \<open>
  The health of a service (\<open>internal/storage/status.go\<close>): the roll-up of the states of its targets,
  the latest status of each target, and the state machine that turns a stable change of the roll-up
  into one alert event (\<open>produceHealthAlert\<close>).
\<close>

section \<open>Roll-up\<close>

definition healthPriority :: "HealthState \<Rightarrow> int" where
  "healthPriority health =
     (if health = HealthError then 0 else if health = HealthUnhealthy then 1
      else if health = HealthDegraded then 2 else if health = HealthHealthy then 3
      else if health = HealthNotApplicable then 5 else 4)"

text \<open>The loop over the applicable statuses: the three flags and the worst state so far.\<close>

definition rollup_step :: "StatusResult \<Rightarrow> bool \<times> bool \<times> bool \<times> HealthState \<Rightarrow> bool \<times> bool \<times> bool \<times> HealthState" where
  "rollup_step status st =
     (case st of (allHealthy, anyHealthy, allUnknown, worst) \<Rightarrow>
       ((if srHealth status = HealthHealthy then allHealthy else False),
        (if srHealth status = HealthHealthy then True else anyHealthy),
        (if srHealth status \<noteq> HealthUnknown then False else allUnknown),
        (if healthPriority (srHealth status) < healthPriority worst then srHealth status else worst)))"

definition aggregateTargetHealth :: "StatusResult list \<Rightarrow> HealthState" where
  "aggregateTargetHealth statuses =
     (case filter (\<lambda>s. srHealth s \<noteq> HealthNotApplicable) statuses of
        [] \<Rightarrow> HealthUnknown
      | [s] \<Rightarrow> srHealth s
      | applicable \<Rightarrow>
          (case fold rollup_step applicable (True, False, True, HealthUnknown) of
             (allHealthy, anyHealthy, allUnknown, worst) \<Rightarrow>
               if allHealthy then HealthHealthy
               else if anyHealthy then HealthDegraded
               else if allUnknown then HealthUnknown
               else worst))"

text \<open>The inner map of \<open>applyLatestStatus\<close>: one status for each target.\<close>

fun latest_insert :: "StatusResult \<Rightarrow> StatusResult list \<Rightarrow> StatusResult list" where
  "latest_insert status [] = [status]"
| "latest_insert status (current # rest) =
     (if srTarget current = srTarget status then
        (if srCheckedAt current < srCheckedAt status \<or>
            (srCheckedAt status = srCheckedAt current \<and> healthPriority (srHealth status) < healthPriority (srHealth current))
         then status else current) # rest
      else current # latest_insert status rest)"

definition latest_by_target :: "string \<Rightarrow> StatusResult list \<Rightarrow> StatusResult list" where
  "latest_by_target sid statuses = fold latest_insert (filter (\<lambda>s. srServiceID s = sid) statuses) []"

definition applyLatestStatus :: "Service list \<Rightarrow> StatusResult list \<Rightarrow> Service list" where
  "applyLatestStatus services statuses =
     map (\<lambda>service. case latest_by_target (svID service) statuses of
            [] \<Rightarrow> service
          | targets \<Rightarrow> service\<lparr>svHealth := aggregateTargetHealth targets\<rparr>) services"

section \<open>The producer of health alerts\<close>

record HealthAlertProducerConfig =
  hcEnabled :: bool
  hcSinks :: "string list"
  hcDebounce :: duration
  hcCooldown :: duration
  hcStabilitySamples :: int

definition normalizeHealthAlertProducerConfig :: "HealthAlertProducerConfig \<Rightarrow> HealthAlertProducerConfig" where
  "normalizeHealthAlertProducerConfig config =
     (if \<not> hcEnabled config
      then \<lparr>hcEnabled = False, hcSinks = [], hcDebounce = 0, hcCooldown = 0, hcStabilitySamples = 0\<rparr>
      else if hcStabilitySamples config \<le> 0 then config\<lparr>hcStabilitySamples := 2\<rparr> else config)"

text \<open>
  A row of \<open>health_alert_states\<close>. The two instants are stored as RFC 3339 text with nanoseconds, an
  empty text being none; the layout keeps them exactly.
\<close>

record HealthAlertState =
  haStable :: HealthState
  haCandidate :: HealthState
  haSamples :: int
  haCandidateStarted :: "gotime option"
  haCandidateObservation :: string
  haFailureStarted :: "gotime option"
  haIncarnation :: string

text \<open>The tables the producer reads and writes; the alert tables are in \<open>hdStore\<close>.\<close>

record HealthDB =
  hdStore :: Store
  hdConfig :: HealthAlertProducerConfig
  hdStatuses :: "StatusResult list"
  hdStates :: "string \<rightharpoonup> HealthAlertState"
  hdIncarnations :: "string \<rightharpoonup> string"

datatype health_error = HealthAlertError alert_error | HealthEdgeNotPersisted

definition nul :: string where "nul = [CHR 0x00]"

definition rollupObservationID :: "StatusResult list \<Rightarrow> string" where
  "rollupObservationID statuses =
     Join (map (\<lambda>s. srTarget s @ nul @ srHealth s @ nul @ RFC3339Nano (srCheckedAt s))
       (sort_key srTarget statuses)) [CHR 0x01]"

text \<open>The rows of \<open>status_results\<close> for a service, with \<open>checked_at\<close> as its text keeps it.\<close>

definition service_statuses :: "HealthDB \<Rightarrow> string \<Rightarrow> StatusResult list" where
  "service_statuses db sid =
     map (\<lambda>s. s\<lparr>srCheckedAt := to_seconds (srCheckedAt s)\<rparr>) (filter (\<lambda>s. srServiceID s = sid) (hdStatuses db))"

definition service_incarnation :: "HealthDB \<Rightarrow> string \<Rightarrow> string" where
  "service_incarnation db sid = (case hdIncarnations db sid of Some i \<Rightarrow> i | None \<Rightarrow> ''legacy:'' @ sid)"

definition first_observation :: "HealthState \<Rightarrow> gotime \<Rightarrow> string \<Rightarrow> HealthAlertState" where
  "first_observation rollup observedAt incarnation =
     \<lparr>haStable = rollup, haCandidate = rollup, haSamples = 0, haCandidateStarted = None, haCandidateObservation = [],
      haFailureStarted = (if rollup \<noteq> HealthHealthy \<and> rollup \<noteq> HealthNotApplicable then Some observedAt else None),
      haIncarnation = incarnation\<rparr>"

definition abandon_candidate :: "HealthAlertState \<Rightarrow> HealthAlertState" where
  "abandon_candidate st = st\<lparr>
     haCandidate := haStable st, haSamples := 0, haCandidateStarted := None, haCandidateObservation := [],
     haFailureStarted := (if haStable st = HealthHealthy then None else haFailureStarted st)\<rparr>"

text \<open>The candidate after an observation that differs from the stable state.\<close>

definition count_candidate :: "HealthState \<Rightarrow> string \<Rightarrow> gotime \<Rightarrow> HealthAlertState \<Rightarrow> HealthAlertState" where
  "count_candidate rollup observationID observedAt st =
     (let st1 = (if haCandidate st = rollup then
                   (if haCandidateObservation st \<noteq> observationID
                    then st\<lparr>haSamples := haSamples st + 1, haCandidateObservation := observationID\<rparr> else st)
                 else st\<lparr>haCandidate := rollup, haSamples := 1, haCandidateObservation := observationID,
                         haCandidateStarted := Some observedAt\<rparr>)
      in if haFailureStarted st1 = None \<and> rollup \<noteq> HealthHealthy then st1\<lparr>haFailureStarted := Some observedAt\<rparr> else st1)"

definition candidate_stable :: "HealthAlertProducerConfig \<Rightarrow> gotime \<Rightarrow> HealthAlertState \<Rightarrow> bool" where
  "candidate_stable config observedAt st =
     (let started = (case haCandidateStarted st of Some t \<Rightarrow> t | None \<Rightarrow> zero_time);
          continuous = (hcDebounce config \<le> 0 \<or>
            (started \<noteq> zero_time \<and> started \<le> observedAt \<and> hcDebounce config \<le> time_sub observedAt started))
      in hcStabilitySamples config \<le> haSamples st \<and> continuous)"

definition health_reason :: "HealthState \<Rightarrow> gotime \<Rightarrow> HealthAlertState \<Rightarrow> string" where
  "health_reason rollup observedAt st =
     (if rollup = HealthHealthy then
        (case haFailureStarted st of
           Some started \<Rightarrow> ''service recovered after '' @ duration_String (duration_Round (time_sub observedAt started) Second)
         | None \<Rightarrow> ''service health transitioned'')
      else ''service health transitioned'')"

definition occurrence_id :: "HealthState \<Rightarrow> gotime \<Rightarrow> HealthAlertState \<Rightarrow> string" where
  "occurrence_id rollup observedAt st =
     (case (if rollup = HealthHealthy then haFailureStarted st else haCandidateStarted st) of
        Some t \<Rightarrow> RFC3339Nano t | None \<Rightarrow> RFC3339Nano observedAt)"

definition health_event :: "string \<Rightarrow> HealthState \<Rightarrow> gotime \<Rightarrow> HealthAlertState \<Rightarrow> AlertEvent" where
  "health_event sid rollup observedAt st =
     (let edge = ''health:service:'' @ sid @ '':'' @ haStable st @ '':'' @ rollup in
      \<lparr>evID = 0, evKind = (if rollup = HealthHealthy then ''health.recovery'' else ''health.transition''),
       evServiceID = sid, evTarget = [], evRepository = [], evAgent = [], evOldState = haStable st, evNewState = rollup,
       evReason = health_reason rollup observedAt st,
       evDedupeKey = edge @ '':'' @ occurrence_id rollup observedAt st, evCooldownKey = edge, evDedupeHash = [],
       evCreatedAt = zero_time, evStatus = []\<rparr>)"

definition settle_state :: "HealthState \<Rightarrow> gotime \<Rightarrow> HealthAlertState \<Rightarrow> HealthAlertState" where
  "settle_state rollup observedAt st = st\<lparr>
     haStable := rollup, haCandidate := rollup, haSamples := 0, haCandidateStarted := None, haCandidateObservation := [],
     haFailureStarted := (if rollup = HealthHealthy then None
                          else if haFailureStarted st = None then Some observedAt else haFailureStarted st)\<rparr>"

definition set_state :: "string \<Rightarrow> HealthAlertState \<Rightarrow> HealthDB \<Rightarrow> HealthDB" where
  "set_state sid st db = db\<lparr>hdStates := (hdStates db)(sid \<mapsto> st)\<rparr>"

text \<open>The last part of the transaction: the event, then the new stable state; an error rolls back.\<close>

definition emit_health_edge ::
  "string \<Rightarrow> HealthState \<Rightarrow> gotime \<Rightarrow> gotime \<Rightarrow> HealthAlertState \<Rightarrow> HealthDB \<Rightarrow> HealthDB \<times> health_error option" where
  "emit_health_edge sid rollup observedAt now st db =
     (let event = health_event sid rollup observedAt st in
      case enqueueAlertEventInTx now event (hcSinks (hdConfig db)) (hcCooldown (hdConfig db)) (hdStore db) of
        (s1, Inl e) \<Rightarrow> (db\<lparr>hdStore := rollback (hdStore db) s1\<rparr>, Some (HealthAlertError e))
      | (s1, Inr (stored, inserted)) \<Rightarrow>
          if \<not> inserted \<and> evDedupeHash stored = alertDedupeHash s1 (evDedupeKey event)
          then (db\<lparr>hdStore := rollback (hdStore db) s1\<rparr>, Some HealthEdgeNotPersisted)
          else (set_state sid (settle_state rollup observedAt st) (db\<lparr>hdStore := s1\<rparr>), None))"

definition produceHealthAlert :: "string \<Rightarrow> gotime \<Rightarrow> gotime \<Rightarrow> HealthDB \<Rightarrow> HealthDB \<times> health_error option" where
  "produceHealthAlert sid observedAt now db =
     (let config = hdConfig db in
      if \<not> hcEnabled config \<or> isAlertStateLocked (hdStore db) then (db, None)
      else
       (let incarnation = service_incarnation db sid;
            statuses = service_statuses db sid;
            rollup = aggregateTargetHealth statuses;
            observationID = rollupObservationID statuses in
        case hdStates db sid of
          None \<Rightarrow> (set_state sid (first_observation rollup observedAt incarnation) db, None)
        | Some st \<Rightarrow>
            if haIncarnation st \<noteq> incarnation
            then (set_state sid (first_observation rollup observedAt incarnation) db, None)
            else if rollup = HealthNotApplicable then (db, None)
            else if haStable st = rollup then (set_state sid (abandon_candidate st) db, None)
            else
             (let st1 = count_candidate rollup observationID observedAt st in
              if \<not> candidate_stable config observedAt st1 then (set_state sid st1 db, None)
              else emit_health_edge sid rollup observedAt now st1 db)))"

text \<open>\<open>observeHealthAlert\<close> drops the error; its log line is not modelled.\<close>

definition observeHealthAlert :: "string \<Rightarrow> gotime \<Rightarrow> gotime \<Rightarrow> HealthDB \<Rightarrow> HealthDB" where
  "observeHealthAlert sid observedAt now db = fst (produceHealthAlert sid observedAt now db)"

definition observeHealthAlerts :: "string list \<Rightarrow> gotime \<Rightarrow> gotime \<Rightarrow> HealthDB \<Rightarrow> HealthDB" where
  "observeHealthAlerts sids observedAt now db = fold (\<lambda>sid. observeHealthAlert sid observedAt now) sids db"

end
