(* ===== verification/Models.thy ===== *)
theory Models
  imports Images
begin

text \<open>The records of \<open>internal/core/models.go\<close> beside the services and their images.\<close>

record Repository =
  rpName :: string
  rpURL :: string
  rpDefaultRef :: string
  rpLastCommit :: string
  rpLastScanAt :: string
  rpStatus :: string
  rpError :: string

record Scan =
  snID :: int
  snRepository :: string
  snStatus :: string
  snCommitSHA :: string
  snStartedAt :: string
  snFinishedAt :: string
  snError :: string

record BuildInfo =
  biVersion :: string
  biCommit :: string
  biBuildDate :: string

record UptimeSample =
  usHealth :: HealthState
  usCheckedAt :: gotime
  usMessage :: string

text \<open>\<open>UptimePercent\<close> is a float with one digit after the point: the model keeps it in tenths.\<close>

record UptimeStat =
  utServiceID :: string
  utTarget :: string
  utTenths :: nat
  utCheckCount :: nat
  utSamples :: "UptimeSample list"

record ContainerStatus =
  ctID :: string
  ctName :: string
  ctImage :: string
  ctImageID :: string
  ctRepoDigests :: "string list"
  ctLabels :: "(string \<times> string) list"
  ctState :: string
  ctStatus :: string
  ctHealth :: string
  ctRestartCount :: int

record AgentInfo =
  agTarget :: string
  agLastSeenAt :: string
  agStaleAfter :: string
  agConfigured :: bool
  agContainers :: "ContainerStatus list"

record AgentMessage =
  amTarget :: string
  amCheckedAt :: gotime
  amStaleAfter :: gotime
  amContainers :: "ContainerStatus list"

record DashboardSummary =
  dsRepositories :: "Repository list"
  dsServices :: "Service list"
  dsScans :: "Scan list"
  dsStatuses :: "StatusResult list"
  dsUptime :: "UptimeStat list"
  dsAgents :: "AgentInfo list"
  dsVersion :: BuildInfo
  dsGeneratedAt :: gotime

definition DockerComposeProjectLabel :: string where "DockerComposeProjectLabel = ''com.docker.compose.project''"
definition DockerComposeServiceLabel :: string where "DockerComposeServiceLabel = ''com.docker.compose.service''"

text \<open>A label map is an association list with distinct keys.\<close>

definition FilterDockerComposeLabels :: "(string \<times> string) list \<Rightarrow> (string \<times> string) list" where
  "FilterDockerComposeLabels labels =
     List.map_filter (\<lambda>key. map_option (Pair key) (map_of labels key)) [DockerComposeProjectLabel, DockerComposeServiceLabel]"

definition FilterAgentMessageDockerLabels :: "AgentMessage \<Rightarrow> AgentMessage" where
  "FilterAgentMessageDockerLabels message =
     message\<lparr>amContainers := map (\<lambda>c. c\<lparr>ctLabels := FilterDockerComposeLabels (ctLabels c)\<rparr>) (amContainers message)\<rparr>"

end
