(* ===== verification/SummaryCache.thy ===== *)
theory SummaryCache
  imports Models "HOL-Library.Word"
begin

text \<open>
  The cache of the dashboard summary (\<open>internal/storage/summary_cache.go\<close> and \<open>Summary\<close> in
  \<open>services.go\<close>): its version counter, the freshness checks of a lookup, and the race between readers
  that build a summary and writers that commit and invalidate. The deep copies are the identity on
  values; the version is the 64-bit counter of the code.
\<close>

section \<open>Operations\<close>

text \<open>The cached summary may carry ghost fields, which the operations pass on.\<close>

record 'z summaryCache =
  scValid :: bool
  scVersion :: "64 word"
  scCachedAt :: gotime
  scSummary :: "'z DashboardSummary_scheme option"

record 'z SummaryStore =
  ssVersion :: "64 word"
  ssCache :: "'z summaryCache"

definition summaryCacheTTL :: duration where
  "summaryCacheTTL = Minute"

definition empty_cache :: "'z summaryCache" where
  "empty_cache = \<lparr>scValid = False, scVersion = 0, scCachedAt = zero_time, scSummary = None\<rparr>"

definition status_expired :: "gotime \<Rightarrow> StatusResult \<Rightarrow> bool" where
  "status_expired now status \<longleftrightarrow>
     srHealth status \<noteq> HealthNotApplicable \<and> srExpiresAt status \<noteq> zero_time \<and> \<not> now < srExpiresAt status"

definition cachedSummary :: "gotime \<Rightarrow> 'z SummaryStore \<Rightarrow> 'z DashboardSummary_scheme option" where
  "cachedSummary now store =
     (let cache = ssCache store in
      if \<not> scValid cache \<or> scVersion cache \<noteq> ssVersion store then None
      else if summaryCacheTTL \<le> now - scCachedAt cache then None
      else
       (case scSummary cache of
          None \<Rightarrow> None
        | Some summary \<Rightarrow>
            if list_ex (status_expired now) (dsStatuses summary) then None
            else Some (summary\<lparr>dsGeneratedAt := now\<rparr>)))"

definition currentSummaryVersion :: "'z SummaryStore \<Rightarrow> 64 word" where
  "currentSummaryVersion store = ssVersion store"

definition cacheSummary :: "64 word \<Rightarrow> 'z DashboardSummary_scheme \<Rightarrow> gotime \<Rightarrow> 'z SummaryStore \<Rightarrow> 'z SummaryStore" where
  "cacheSummary version summary now store =
     (if ssVersion store \<noteq> version then store
      else store\<lparr>ssCache := \<lparr>scValid = True, scVersion = version, scCachedAt = now, scSummary = Some summary\<rparr>\<rparr>)"

definition invalidateSummary :: "'z SummaryStore \<Rightarrow> 'z SummaryStore" where
  "invalidateSummary store = store\<lparr>ssVersion := ssVersion store + 1, ssCache := empty_cache\<rparr>"

section \<open>Readers and writers\<close>

text \<open>
  A writer commits, and later invalidates. A reader that misses the cache reads the version, then the
  database, and later offers its summary to the cache. The ghost field of a summary is the set of
  commits made before its build began; later ones may show in it too.
\<close>

record BuiltSummary = DashboardSummary +
  bsVisible :: "nat set"

datatype reader = ReaderStarted "64 word" | ReaderBuilt "64 word" BuiltSummary

record World =
  wdStore :: "\<lparr>bsVisible :: nat set\<rparr> SummaryStore"
  wdCommitted :: "nat set"
  wdInvalidated :: "nat set"
  wdReaders :: "nat \<Rightarrow> reader option"

inductive world_step :: "World \<Rightarrow> World \<Rightarrow> bool" where
  commit: "w \<notin> wdCommitted s \<Longrightarrow> world_step s (s\<lparr>wdCommitted := insert w (wdCommitted s)\<rparr>)"
| invalidate: "w \<in> wdCommitted s \<Longrightarrow> w \<notin> wdInvalidated s \<Longrightarrow>
    world_step s (s\<lparr>wdStore := invalidateSummary (wdStore s), wdInvalidated := insert w (wdInvalidated s)\<rparr>)"
| start: "cachedSummary now (wdStore s) = None \<Longrightarrow>
    world_step s (s\<lparr>wdReaders := (wdReaders s)(r \<mapsto> ReaderStarted (currentSummaryVersion (wdStore s)))\<rparr>)"
| build: "wdReaders s r = Some (ReaderStarted v) \<Longrightarrow> bsVisible summary = wdCommitted s \<Longrightarrow>
    world_step s (s\<lparr>wdReaders := (wdReaders s)(r \<mapsto> ReaderBuilt v summary)\<rparr>)"
| offer: "wdReaders s r = Some (ReaderBuilt v summary) \<Longrightarrow>
    world_step s (s\<lparr>wdStore := cacheSummary v summary now (wdStore s), wdReaders := (wdReaders s)(r := None)\<rparr>)"

definition initial_world :: "World \<Rightarrow> bool" where
  "initial_world s \<longleftrightarrow> wdStore s = \<lparr>ssVersion = 0, ssCache = empty_cache\<rparr> \<and> wdInvalidated s = {} \<and>
     finite (wdCommitted s) \<and> wdReaders s = (\<lambda>_. None)"

section \<open>No stale summary is served\<close>

text \<open>A version stands for the set of writers that had invalidated when it was current.\<close>

definition stands_for :: "64 word \<Rightarrow> nat set \<Rightarrow> World \<Rightarrow> bool" where
  "stands_for v D s \<longleftrightarrow> D \<subseteq> wdInvalidated s \<and> v = of_nat (card D)"

definition reader_ok :: "World \<Rightarrow> reader \<Rightarrow> bool" where
  "reader_ok s x = (case x of
     ReaderStarted v \<Rightarrow> \<exists>D. stands_for v D s
   | ReaderBuilt v summary \<Rightarrow> \<exists>D. stands_for v D s \<and> D \<subseteq> bsVisible summary)"

definition cache_ok :: "World \<Rightarrow> bool" where
  "cache_ok s = (let cache = ssCache (wdStore s) in
     scValid cache \<longrightarrow> (\<exists>summary D. scSummary cache = Some summary \<and> stands_for (scVersion cache) D s \<and> D \<subseteq> bsVisible summary))"

definition world_inv :: "World \<Rightarrow> bool" where
  "world_inv s \<longleftrightarrow> finite (wdCommitted s) \<and> wdInvalidated s \<subseteq> wdCommitted s \<and>
     ssVersion (wdStore s) = of_nat (card (wdInvalidated s)) \<and> cache_ok s \<and>
     (\<forall>r x. wdReaders s r = Some x \<longrightarrow> reader_ok s x)"

lemma stands_for_mono: "stands_for v D s \<Longrightarrow> wdInvalidated s \<subseteq> wdInvalidated t \<Longrightarrow> stands_for v D t"
  by (auto simp: stands_for_def)

lemma reader_ok_mono: "reader_ok s x \<Longrightarrow> wdInvalidated s \<subseteq> wdInvalidated t \<Longrightarrow> reader_ok t x"
  by (auto simp: reader_ok_def split: reader.splits dest: stands_for_mono)

lemma cache_ok_cong: "cache_ok s \<Longrightarrow> wdStore t = wdStore s \<Longrightarrow> wdInvalidated t = wdInvalidated s \<Longrightarrow> cache_ok t"
  by (simp add: cache_ok_def stands_for_def)

lemma world_invD:
  "world_inv s \<Longrightarrow> finite (wdInvalidated s)"
  "world_inv s \<Longrightarrow> wdReaders s r = Some x \<Longrightarrow> reader_ok s x"
  by (auto simp: world_inv_def intro: finite_subset)

lemma world_step_inv:
  assumes "world_step s t" "world_inv s"
  shows "world_inv t"
proof -
  note inv = assms(2) [unfolded world_inv_def]
  have kept: "reader_ok t x" if "wdInvalidated s \<subseteq> wdInvalidated t" "wdReaders s k = Some x" for k x
    using reader_ok_mono [OF world_invD(2) [OF assms(2) that(2)] that(1)] .
  from assms(1) show ?thesis
  proof cases
    case (commit w)
    then have "cache_ok t" using inv cache_ok_cong [of s t] by simp
    with commit inv kept show ?thesis by (simp add: world_inv_def subset_insertI2)
  next
    case (invalidate w)
    have "cache_ok t" by (simp add: cache_ok_def invalidate(1) invalidateSummary_def empty_cache_def Let_def)
    with invalidate inv kept world_invD(1) [OF assms(2)] show ?thesis
      by (simp add: world_inv_def invalidateSummary_def subset_insertI)
  next
    case (start now r)
    then have "cache_ok t" using inv cache_ok_cong [of s t] by simp
    moreover have "reader_ok t (ReaderStarted (currentSummaryVersion (wdStore s)))"
      using start inv by (simp add: reader_ok_def stands_for_def currentSummaryVersion_def) blast
    ultimately show ?thesis using start inv kept by (simp add: world_inv_def)
  next
    case (build r v summary)
    then have "cache_ok t" using inv cache_ok_cong [of s t] by simp
    moreover from world_invD(2) [OF assms(2) build(2)] obtain D where "stands_for v D s" by (auto simp: reader_ok_def)
    then have "stands_for v D t \<and> D \<subseteq> bsVisible summary" using build(1,3) inv by (auto simp: stands_for_def)
    then have "reader_ok t (ReaderBuilt v summary)" by (auto simp: reader_ok_def)
    ultimately show ?thesis using build inv kept by (simp add: world_inv_def)
  next
    case (offer r v summary now)
    from world_invD(2) [OF assms(2) offer(2)] obtain D where D: "stands_for v D s" "D \<subseteq> bsVisible summary"
      by (auto simp: reader_ok_def)
    have "cache_ok t"
    proof (cases "ssVersion (wdStore s) = v")
      case True
      with D show ?thesis by (auto simp: cache_ok_def offer(1) cacheSummary_def stands_for_def)
    next
      case False
      then show ?thesis using inv cache_ok_cong [of s t] by (simp add: offer(1) cacheSummary_def)
    qed
    moreover have "ssVersion (wdStore t) = ssVersion (wdStore s)" by (simp add: offer(1) cacheSummary_def)
    moreover have "reader_ok t x" if "wdReaders t k = Some x" for k x
      using that by (intro kept [of k]) (auto simp: offer(1) split: if_splits)
    ultimately show ?thesis using inv by (simp add: world_inv_def offer(1))
  qed
qed

lemma world_steps_inv: "world_step\<^sup>*\<^sup>* s t \<Longrightarrow> world_inv s \<Longrightarrow> world_inv t"
  by (induction rule: rtranclp_induct) (auto intro: world_step_inv)

lemma initial_world_inv: "initial_world s \<Longrightarrow> world_inv s"
  by (simp add: initial_world_def world_inv_def cache_ok_def empty_cache_def Let_def)


text \<open>A reader starts, a writer commits and invalidates, the reader builds and offers: its summary is
  refused. A second reader's is kept.\<close>

definition demo_built :: "nat set \<Rightarrow> BuiltSummary" where
  "demo_built ws = \<lparr>dsRepositories = [], dsServices = [], dsScans = [], dsStatuses = [], dsUptime = [], dsAgents = [],
     dsVersion = \<lparr>biVersion = [], biCommit = [], biBuildDate = []\<rparr>, dsGeneratedAt = 0, bsVisible = ws\<rparr>"

definition demo_world :: World where
  "demo_world = \<lparr>wdStore = \<lparr>ssVersion = 0, ssCache = empty_cache\<rparr>, wdCommitted = {}, wdInvalidated = {}, wdReaders = (\<lambda>_. None)\<rparr>"

definition demo_after :: World where
  "demo_after = \<lparr>wdStore = cacheSummary 1 (demo_built {7}) 10 (invalidateSummary \<lparr>ssVersion = 0, ssCache = empty_cache\<rparr>),
     wdCommitted = {7}, wdInvalidated = {7}, wdReaders = (\<lambda>_. None)\<rparr>"

lemma demo_world_run: "world_step\<^sup>*\<^sup>* demo_world demo_after"
proof -
  let ?w1 = "demo_world\<lparr>wdCommitted := insert 7 (wdCommitted demo_world)\<rparr>"
  let ?w2 = "?w1\<lparr>wdStore := invalidateSummary (wdStore ?w1), wdInvalidated := insert 7 (wdInvalidated ?w1)\<rparr>"
  let ?w3 = "?w2\<lparr>wdReaders := (wdReaders ?w2)(0 \<mapsto> ReaderStarted (currentSummaryVersion (wdStore ?w2)))\<rparr>"
  let ?w4 = "?w3\<lparr>wdReaders := (wdReaders ?w3)(0 \<mapsto> ReaderBuilt 1 (demo_built {7}))\<rparr>"
  let ?w5 = "?w4\<lparr>wdStore := cacheSummary 1 (demo_built {7}) 10 (wdStore ?w4), wdReaders := (wdReaders ?w4)(0 := None)\<rparr>"
  have "world_step demo_world ?w1" by (rule world_step.commit) (simp add: demo_world_def)
  moreover have "world_step ?w1 ?w2" by (rule world_step.invalidate) (simp_all add: demo_world_def)
  moreover have "world_step ?w2 ?w3" by (rule world_step.start [of 5])
    (simp add: demo_world_def invalidateSummary_def empty_cache_def cachedSummary_def)
  moreover have "world_step ?w3 ?w4" by (rule world_step.build)
    (simp_all add: demo_world_def invalidateSummary_def currentSummaryVersion_def demo_built_def)
  moreover have "world_step ?w4 ?w5" by (rule world_step.offer) simp
  ultimately have "world_step\<^sup>*\<^sup>* demo_world ?w5" by (meson rtranclp.rtrancl_into_rtrancl rtranclp.rtrancl_refl)
  moreover have "?w5 = demo_after" by (simp add: demo_world_def demo_after_def fun_eq_iff)
  ultimately show ?thesis by simp
qed


end
