(* ===== verification/Dashboard.thy ===== *)
theory Dashboard
  imports Health SummaryCache RouteTarget TimeParse
begin

text \<open>
  The tables of the dashboard database beside the alert tables, the statements on them that several
  operations share (\<open>internal/storage/sqlutil.go\<close> and the head of \<open>status.go\<close>), and the in-memory
  state of the store: the freshness windows, the summary cache and the cleanup counters.

  A JSON column holds the value itself. Instants of the tables are RFC 3339 text; the rows of
  \<open>status_results\<close> keep the instant that text denotes, an empty text being the zero instant. An SQLite
  failure other than a violated constraint rolls back and is not modelled outside the alert tables.
\<close>

section \<open>Rows\<close>

text \<open>A row of \<open>services\<close>: the fields of the service that have a column, and the incarnation.\<close>

record ServiceRow =
  rwService :: Service
  rwIncarnation :: string

record OverrideRow =
  ovServiceID :: string
  ovTarget :: string
  ovNotApplicable :: int
  ovUpdatedAt :: string

record HistoryRow =
  hyID :: int
  hyServiceID :: string
  hyTarget :: string
  hyHealth :: HealthState
  hyMessage :: string
  hyCheckedAt :: string

record AgentRow =
  arTarget :: string
  arLastSeenAt :: string
  arStaleAfter :: string
  arContainers :: "ContainerStatus list"

text \<open>
  \<open>dbHealth\<close> holds \<open>status_results\<close>, \<open>health_alert_states\<close> and the alert tables; its incarnations are
  always those of \<open>dbServices\<close>. \<open>dbExclusions\<close> and \<open>dbDeferred\<close> are \<open>route_target_exclusions\<close> and
  \<open>deferred_alert_route_reconciliations\<close>.
\<close>

record DashDB =
  dbHealth :: HealthDB
  dbServices :: "ServiceRow list"
  dbRepositories :: "Repository list"
  dbScans :: "Scan list"
  dbScanSeq :: int
  dbHistory :: "HistoryRow list"
  dbHistorySeq :: int
  dbOverrides :: "OverrideRow list"
  dbExclusions :: "(string \<times> string) list"
  dbDeferred :: "(string \<times> string \<times> string) list"
  dbAgents :: "AgentRow list"
  dbTTLs :: "string \<rightharpoonup> duration"
  dbCache :: "unit SummaryStore"
  dbCleanupAttempt :: "64 word"
  dbCleanupCompleted :: "64 word"

text \<open>The tables of a new database over the given alert and health tables.\<close>

definition new_dash :: "HealthDB \<Rightarrow> DashDB" where
  "new_dash health = \<lparr>dbHealth = health, dbServices = [], dbRepositories = [], dbScans = [], dbScanSeq = 0, dbHistory = [],
     dbHistorySeq = 0, dbOverrides = [], dbExclusions = [], dbDeferred = [], dbAgents = [], dbTTLs = (\<lambda>_. None),
     dbCache = \<lparr>ssVersion = 0, ssCache = empty_cache\<rparr>, dbCleanupAttempt = 0, dbCleanupCompleted = 0\<rparr>"

abbreviation dbStore :: "DashDB \<Rightarrow> Store" where "dbStore db \<equiv> hdStore (dbHealth db)"
abbreviation dbStatuses :: "DashDB \<Rightarrow> StatusResult list" where "dbStatuses db \<equiv> hdStatuses (dbHealth db)"

definition set_store :: "Store \<Rightarrow> DashDB \<Rightarrow> DashDB" where
  "set_store s db = db\<lparr>dbHealth := (dbHealth db)\<lparr>hdStore := s\<rparr>\<rparr>"

definition set_statuses :: "StatusResult list \<Rightarrow> DashDB \<Rightarrow> DashDB" where
  "set_statuses rows db = db\<lparr>dbHealth := (dbHealth db)\<lparr>hdStatuses := rows\<rparr>\<rparr>"

definition service_row :: "DashDB \<Rightarrow> string \<Rightarrow> ServiceRow option" where
  "service_row db sid = find (\<lambda>r. svID (rwService r) = sid) (dbServices db)"

text \<open>What the health producer sees.\<close>

definition health_view :: "DashDB \<Rightarrow> HealthDB" where
  "health_view db = (dbHealth db)\<lparr>hdIncarnations := (\<lambda>sid. map_option rwIncarnation (service_row db sid))\<rparr>"

definition on_health :: "(HealthDB \<Rightarrow> HealthDB) \<Rightarrow> DashDB \<Rightarrow> DashDB" where
  "on_health f db = db\<lparr>dbHealth := f (health_view db)\<rparr>"

definition observe :: "string \<Rightarrow> gotime \<Rightarrow> gotime \<Rightarrow> DashDB \<Rightarrow> DashDB" where
  "observe sid observedAt now db = on_health (observeHealthAlert sid observedAt now) db"

definition commitAndInvalidateSummary :: "DashDB \<Rightarrow> DashDB" where
  "commitAndInvalidateSummary db = db\<lparr>dbCache := invalidateSummary (dbCache db)\<rparr>"

definition db_redact :: "DashDB \<Rightarrow> string \<Rightarrow> string" where
  "db_redact db = redact (dbStore db)"

section \<open>Strings\<close>

definition dedupeStrings :: "string list \<Rightarrow> string list" where
  "dedupeStrings items = dedup_by (\<lambda>s. s) (filter (\<lambda>s. s \<noteq> []) (map TrimSpace items))"

function chunk_loop :: "nat \<Rightarrow> 'a list \<Rightarrow> 'a list list" where
  "chunk_loop n [] = []"
| "chunk_loop n (x # xs) =
     (if n = 0 then [x # xs] else take n (x # xs) # chunk_loop n (drop n (x # xs)))"
  by pat_completeness auto
termination by (relation "measure (\<lambda>(n, xs). length xs)") auto

definition chunkStrings :: "string list \<Rightarrow> int \<Rightarrow> string list list" where
  "chunkStrings items n = (if n \<le> 0 then [items] else chunk_loop (nat n) items)"

text \<open>\<open>LIKE\<close> of SQLite: per cent and underscore are wild, ASCII letters match in either case.\<close>

fun like :: "string \<Rightarrow> string \<Rightarrow> bool" where
  "like [] s = (s = [])"
| "like (p # ps) s =
     (if p = CHR ''%'' then list_ex (\<lambda>k. like ps (drop k s)) [0..<Suc (length s)]
      else (case s of [] \<Rightarrow> False
            | c # cs \<Rightarrow> (p = CHR ''_'' \<or> lower_char p = lower_char c) \<and> like ps cs))"

section \<open>Statements\<close>

text \<open>Insertion of a status with \<open>ON CONFLICT(service_id, target) DO UPDATE\<close>.\<close>

fun put_status :: "(StatusResult \<Rightarrow> StatusResult) \<Rightarrow> StatusResult \<Rightarrow> StatusResult list \<Rightarrow> StatusResult list" where
  "put_status upd new [] = [new]"
| "put_status upd new (r # rs) =
     (if srServiceID r = srServiceID new \<and> srTarget r = srTarget new then upd r # rs else r # put_status upd new rs)"

definition delete_history :: "(HistoryRow \<Rightarrow> bool) \<Rightarrow> DashDB \<Rightarrow> DashDB" where
  "delete_history P db = db\<lparr>dbHistory := filter (\<lambda>r. \<not> P r) (dbHistory db)\<rparr>"

definition delete_status_where :: "(StatusResult \<Rightarrow> bool) \<Rightarrow> DashDB \<Rightarrow> DashDB" where
  "delete_status_where P db = set_statuses (filter (\<lambda>s. \<not> P s) (dbStatuses db)) db"

definition deleteStatusForService :: "string \<Rightarrow> DashDB \<Rightarrow> DashDB" where
  "deleteStatusForService sid db =
     delete_history (\<lambda>h. hyServiceID h = sid) (delete_status_where (\<lambda>s. srServiceID s = sid) db)"

definition deleteStatusForServiceTargetPrefix :: "string \<Rightarrow> string \<Rightarrow> DashDB \<Rightarrow> DashDB" where
  "deleteStatusForServiceTargetPrefix sid pattern db =
     delete_history (\<lambda>h. hyServiceID h = sid \<and> like pattern (hyTarget h))
       (delete_status_where (\<lambda>s. srServiceID s = sid \<and> like pattern (srTarget s)) db)"

definition deleteStatusHistoryForServiceTarget :: "string \<Rightarrow> string \<Rightarrow> DashDB \<Rightarrow> DashDB" where
  "deleteStatusHistoryForServiceTarget sid target = delete_history (\<lambda>h. hyServiceID h = sid \<and> hyTarget h = target)"

text \<open>The statement on both tables; the code issues it once for each.\<close>

definition deleteByServiceAndTargets :: "string \<Rightarrow> string list \<Rightarrow> DashDB \<Rightarrow> DashDB" where
  "deleteByServiceAndTargets sid targets db =
     delete_history (\<lambda>h. hyServiceID h = sid \<and> hyTarget h \<in> set targets)
       (delete_status_where (\<lambda>s. srServiceID s = sid \<and> srTarget s \<in> set targets) db)"

text \<open>The text comparison \<open>checked_at < cutoff\<close>, and whether a row was deleted.\<close>

definition deleteStatusHistoryBefore :: "string \<Rightarrow> DashDB \<Rightarrow> DashDB \<times> bool" where
  "deleteStatusHistoryBefore cutoff db =
     (delete_history (\<lambda>h. hyCheckedAt h < cutoff) db, list_ex (\<lambda>h. hyCheckedAt h < cutoff) (dbHistory db))"

definition insert_history :: "string \<Rightarrow> string \<Rightarrow> HealthState \<Rightarrow> string \<Rightarrow> string \<Rightarrow> DashDB \<Rightarrow> DashDB" where
  "insert_history sid target health message checkedAt db = db\<lparr>
     dbHistorySeq := dbHistorySeq db + 1,
     dbHistory := dbHistory db @ [\<lparr>hyID = dbHistorySeq db + 1, hyServiceID = sid, hyTarget = target, hyHealth = health,
                                   hyMessage = message, hyCheckedAt = checkedAt\<rparr>]\<rparr>"

section \<open>What the statements keep\<close>

lemma db_field_simps [simp]:
  "dbStore (set_store s db) = s" "dbStatuses (set_store s db) = dbStatuses db"
  "dbStore (set_statuses rows db) = dbStore db" "dbStatuses (set_statuses rows db) = rows"
  "dbServices (set_store s db) = dbServices db" "dbServices (set_statuses rows db) = dbServices db"
  "dbOverrides (set_store s db) = dbOverrides db" "dbOverrides (set_statuses rows db) = dbOverrides db"
  "dbHistory (set_store s db) = dbHistory db" "dbHistory (set_statuses rows db) = dbHistory db"
  "dbScans (set_store s db) = dbScans db" "dbScans (set_statuses rows db) = dbScans db"
  by (simp_all add: set_store_def set_statuses_def)

lemma delete_simps [simp]:
  "dbStatuses (delete_history P db) = dbStatuses db" "dbHistory (delete_history P db) = filter (\<lambda>r. \<not> P r) (dbHistory db)"
  "dbStatuses (delete_status_where Q db) = filter (\<lambda>r. \<not> Q r) (dbStatuses db)" "dbHistory (delete_status_where Q db) = dbHistory db"
  "dbStore (delete_history P db) = dbStore db" "dbStore (delete_status_where Q db) = dbStore db"
  "dbServices (delete_history P db) = dbServices db" "dbServices (delete_status_where Q db) = dbServices db"
  "dbOverrides (delete_history P db) = dbOverrides db" "dbOverrides (delete_status_where Q db) = dbOverrides db"
  "dbScans (delete_history P db) = dbScans db" "dbScans (delete_status_where Q db) = dbScans db"
  by (simp_all add: delete_history_def delete_status_where_def)

lemma commit_simps [simp]:
  "dbHealth (commitAndInvalidateSummary db) = dbHealth db" "dbServices (commitAndInvalidateSummary db) = dbServices db"
  "dbHistory (commitAndInvalidateSummary db) = dbHistory db" "dbOverrides (commitAndInvalidateSummary db) = dbOverrides db"
  "dbScans (commitAndInvalidateSummary db) = dbScans db"
  by (simp_all add: commitAndInvalidateSummary_def)

lemma set_put_status: "set (put_status upd new rows) \<subseteq> insert new (upd ` set rows \<union> set rows)"
  by (induction rows) auto

lemma chunk_loop_concat: "concat (chunk_loop n xs) = xs"
proof (induction n xs rule: chunk_loop.induct)
  case (2 n x xs)
  then show ?case by (cases n) auto
qed simp

lemma chunkStrings_concat: "concat (chunkStrings items n) = items"
  by (simp add: chunkStrings_def chunk_loop_concat)

lemma like_prefix: "like (p @ ''%'') s \<Longrightarrow> CHR ''%'' \<notin> set p \<Longrightarrow> CHR ''_'' \<notin> set p \<Longrightarrow> HasPrefix (ToLower s) (ToLower p)"
proof (induction p arbitrary: s)
  case (Cons c p)
  then show ?case by (cases s) (auto simp: ToLower_def)
qed simp

lemma prefix_like: "CHR ''%'' \<notin> set p \<Longrightarrow> like (p @ ''%'') (p @ s)"
proof (induction p)
  case Nil
  show ?case by (auto simp: list_ex_iff intro: bexI [of _ "length s"])
qed auto

end
