(* ===== verification/RouteMigration.thy ===== *)
theory RouteMigration
  imports Dashboard AlertInv
begin

text \<open>
  The identities of route targets in the tables (\<open>internal/storage/route_targets.go\<close>): the
  canonicalization of stored targets, the replacement of a route that discovery has proven to be the
  same, with the observations and the alerts that belong to it, and the queue of alert replacements that
  wait while the alert state is locked.
\<close>

section \<open>Names\<close>

record RouteTargetReplacement =
  rrServiceID :: string
  rrOldRoute :: string
  rrNewRoute :: string

record RouteTargetExclusion =
  reServiceID :: string
  reOldRoute :: string

definition routeMonitorTarget :: string where "routeMonitorTarget = Parent"

text \<open>\<open>targets\<close> are the names of the configured HTTP route targets.\<close>

definition httpRouteTargetNames :: "string list \<Rightarrow> string list" where
  "httpRouteTargetNames targets = dedupeStrings (routeMonitorTarget # map target_name targets)"

definition routeTargetPrefixForName :: "string \<Rightarrow> string" where
  "routeTargetPrefixForName targetName = target_name targetName @ '': ''"

text \<open>The condition under which a replacement is skipped.\<close>

definition void_replacement :: "RouteTargetReplacement \<Rightarrow> bool" where
  "void_replacement r \<longleftrightarrow> rrServiceID r = [] \<or> rrOldRoute r = [] \<or> rrNewRoute r = [] \<or> rrOldRoute r = rrNewRoute r"

definition routeReplacementServiceIDs :: "RouteTargetReplacement list \<Rightarrow> string list option \<Rightarrow> string list" where
  "routeReplacementServiceIDs replacements retained =
     dedup_by (\<lambda>s. s) (map rrServiceID (filter (\<lambda>r. \<not> void_replacement r \<and>
       (case retained of None \<Rightarrow> True | Some ids \<Rightarrow> rrServiceID r \<in> set ids)) replacements))"

section \<open>Exclusions\<close>

text \<open>\<open>INSERT OR IGNORE\<close>.\<close>

definition insert_ignore :: "'a \<Rightarrow> 'a list \<Rightarrow> 'a list" where
  "insert_ignore x xs = (if x \<in> set xs then xs else xs @ [x])"

definition setRouteTargetExclusions :: "RouteTargetExclusion list \<Rightarrow> DashDB \<Rightarrow> DashDB" where
  "setRouteTargetExclusions exclusions db = db\<lparr>dbExclusions :=
     fold (\<lambda>x rows. if reServiceID x = [] \<or> reOldRoute x = [] then rows
                    else insert_ignore (reServiceID x, reOldRoute x) rows) exclusions (dbExclusions db)\<rparr>"

definition SetRouteTargetExclusions :: "RouteTargetExclusion list \<Rightarrow> DashDB \<Rightarrow> DashDB" where
  "SetRouteTargetExclusions exclusions db =
     (if exclusions = [] then db else commitAndInvalidateSummary (setRouteTargetExclusions exclusions db))"

definition RouteTargetExclusions :: "DashDB \<Rightarrow> string \<Rightarrow> RouteTargetExclusion list" where
  "RouteTargetExclusions db repository =
     map (\<lambda>(sid, old). \<lparr>reServiceID = sid, reOldRoute = old\<rparr>)
       (filter (\<lambda>(sid, old). list_ex (\<lambda>r. svID (rwService r) = sid \<and> svRepository (rwService r) = repository) (dbServices db))
         (dbExclusions db))"

section \<open>Overrides and statuses\<close>

definition override_at :: "DashDB \<Rightarrow> string \<Rightarrow> string \<Rightarrow> OverrideRow option" where
  "override_at db sid target = find (\<lambda>r. ovServiceID r = sid \<and> ovTarget r = target) (dbOverrides db)"

definition update_overrides :: "string \<Rightarrow> string \<Rightarrow> (OverrideRow \<Rightarrow> OverrideRow) \<Rightarrow> DashDB \<Rightarrow> DashDB" where
  "update_overrides sid target f db =
     db\<lparr>dbOverrides := map (\<lambda>r. if ovServiceID r = sid \<and> ovTarget r = target then f r else r) (dbOverrides db)\<rparr>"

definition delete_override :: "string \<Rightarrow> string \<Rightarrow> DashDB \<Rightarrow> DashDB" where
  "delete_override sid target db =
     db\<lparr>dbOverrides := filter (\<lambda>r. \<not> (ovServiceID r = sid \<and> ovTarget r = target)) (dbOverrides db)\<rparr>"

definition applyMonitorOverrideMigration :: "OverrideRow \<Rightarrow> string \<Rightarrow> DashDB \<Rightarrow> DashDB" where
  "applyMonitorOverrideMigration old newTarget db =
     (case override_at db (ovServiceID old) newTarget of
        None \<Rightarrow> update_overrides (ovServiceID old) (ovTarget old) (\<lambda>r. r\<lparr>ovTarget := newTarget\<rparr>) db
      | Some existing \<Rightarrow>
          delete_override (ovServiceID old) (ovTarget old)
            (update_overrides (ovServiceID old) newTarget (\<lambda>r. r\<lparr>
               ovNotApplicable := max (ovNotApplicable existing) (ovNotApplicable old),
               ovUpdatedAt := max (ovUpdatedAt existing) (ovUpdatedAt old)\<rparr>) db))"

definition migrateRouteOverride :: "string \<Rightarrow> string \<Rightarrow> string \<Rightarrow> DashDB \<Rightarrow> DashDB" where
  "migrateRouteOverride sid oldTarget newTarget db =
     (case override_at db sid oldTarget of None \<Rightarrow> db | Some old \<Rightarrow> applyMonitorOverrideMigration old newTarget db)"

definition status_at :: "DashDB \<Rightarrow> string \<Rightarrow> string \<Rightarrow> StatusResult option" where
  "status_at db sid target = find (\<lambda>r. srServiceID r = sid \<and> srTarget r = target) (dbStatuses db)"

definition update_status :: "string \<Rightarrow> string \<Rightarrow> (StatusResult \<Rightarrow> StatusResult) \<Rightarrow> DashDB \<Rightarrow> DashDB" where
  "update_status sid target f db =
     set_statuses (map (\<lambda>r. if srServiceID r = sid \<and> srTarget r = target then f r else r) (dbStatuses db)) db"

definition shouldReplaceCanonicalStatus :: "StatusResult \<Rightarrow> StatusResult \<Rightarrow> bool" where
  "shouldReplaceCanonicalStatus candidate existing =
     (if RFC3339 (srCheckedAt candidate) \<noteq> RFC3339 (srCheckedAt existing)
      then RFC3339 (srCheckedAt existing) < RFC3339 (srCheckedAt candidate)
      else if healthPriority (srHealth candidate) \<noteq> healthPriority (srHealth existing)
      then healthPriority (srHealth candidate) < healthPriority (srHealth existing)
      else srTarget candidate < srTarget existing)"

text \<open>The merge writes three columns: the expiry and the images stay those of the row at the new target.\<close>

definition applyStatusResultMigration :: "StatusResult \<Rightarrow> string \<Rightarrow> DashDB \<Rightarrow> DashDB" where
  "applyStatusResultMigration old newTarget db =
     (case status_at db (srServiceID old) newTarget of
        None \<Rightarrow> update_status (srServiceID old) (srTarget old) (\<lambda>r. r\<lparr>srTarget := newTarget\<rparr>) db
      | Some existing \<Rightarrow>
          (let chosen = (if shouldReplaceCanonicalStatus old existing then old else existing) in
           delete_status_where (\<lambda>s. srServiceID s = srServiceID old \<and> srTarget s = srTarget old)
             (update_status (srServiceID old) newTarget (\<lambda>r. r\<lparr>
                srHealth := srHealth chosen, srMessage := srMessage chosen, srCheckedAt := srCheckedAt chosen\<rparr>) db)))"

definition migrateRouteStatus :: "string \<Rightarrow> string \<Rightarrow> string \<Rightarrow> DashDB \<Rightarrow> DashDB" where
  "migrateRouteStatus sid oldTarget newTarget db =
     (case status_at db sid oldTarget of None \<Rightarrow> db | Some old \<Rightarrow> applyStatusResultMigration old newTarget db)"

text \<open>\<open>UPDATE status_history SET target=? WHERE service_id=? AND target=?\<close>.\<close>

definition retarget_history :: "string \<Rightarrow> string \<Rightarrow> string \<Rightarrow> DashDB \<Rightarrow> DashDB" where
  "retarget_history sid oldTarget newTarget db = db\<lparr>dbHistory :=
     map (\<lambda>r. if hyServiceID r = sid \<and> hyTarget r = oldTarget then r\<lparr>hyTarget := newTarget\<rparr> else r) (dbHistory db)\<rparr>"

section \<open>Alerts of a route\<close>

datatype route_error = PendingHashConflict string

definition closedWithoutRetryAlertDispatchStatus :: "string \<Rightarrow> bool" where
  "closedWithoutRetryAlertDispatchStatus s \<longleftrightarrow> s = AlertDispatchStatusDelivered \<or> s = AlertDispatchStatusSkipped"

definition alertDispatchForEventSink :: "Store \<Rightarrow> int \<Rightarrow> string \<Rightarrow> AlertDispatch option" where
  "alertDispatchForEventSink s eid sink = find (\<lambda>d. dEventID d = eid \<and> dSink d = sink) (alertDispatches s)"

definition duplicate_reset_error :: string where
  "duplicate_reset_error = ''duplicate alert dispatch reset because delivered dispatch already exists''"

definition reset_dispatch :: "gotime \<Rightarrow> AlertDispatch \<Rightarrow> AlertDispatch" where
  "reset_dispatch now d = d\<lparr>dStatus := AlertDispatchStatusReset, dWorkerID := [], dClaimID := [], dLeaseExpiresAt := None,
     dNextAttemptAtNS := 0, dLastError := duplicate_reset_error, dUpdatedAt := now\<rparr>"

definition resetDuplicateAlertDispatch :: "gotime \<Rightarrow> int \<Rightarrow> Store \<Rightarrow> Store" where
  "resetDuplicateAlertDispatch now i = update_dispatches (\<lambda>d. dID d = i) (reset_dispatch now)"

definition move_dispatch :: "int \<Rightarrow> int \<Rightarrow> Store \<Rightarrow> Store" where
  "move_dispatch keeperID i = update_dispatches (\<lambda>d. dID d = i) (\<lambda>d. d\<lparr>dEventID := keeperID\<rparr>)"

text \<open>The loop over the duplicates; the flag says that the merge is deferred.\<close>

fun merge_loop :: "gotime \<Rightarrow> int \<Rightarrow> AlertDispatch list \<Rightarrow> Store \<Rightarrow> Store \<times> bool" where
  "merge_loop now keeperID [] s = (s, False)"
| "merge_loop now keeperID (d # ds) s =
     (case alertDispatchForEventSink s keeperID (dSink d) of
        None \<Rightarrow> merge_loop now keeperID ds (move_dispatch keeperID (dID d) s)
      | Some keeper \<Rightarrow>
          if dStatus d = AlertDispatchStatusPending \<and> closedWithoutRetryAlertDispatchStatus (dStatus keeper)
          then merge_loop now keeperID ds (resetDuplicateAlertDispatch now (dID d) s)
          else (s, True))"

definition open_dispatches :: "Store \<Rightarrow> int \<Rightarrow> AlertDispatch list" where
  "open_dispatches s eid = sort_key dID (filter (\<lambda>d. dEventID d = eid \<and> open_dispatch d) (alertDispatches s))"

text \<open>The status of the duplicate after a merge that was not deferred.\<close>

definition close_duplicate :: "int \<Rightarrow> Store \<Rightarrow> Store" where
  "close_duplicate eid s =
     (if count_status (dispatches_of s eid) (\<lambda>d. dStatus d = AlertDispatchStatusInFlight) = 0
      then set_event_status eid AlertEventStatusReset s else syncAlertEventStatus eid s)"

definition mergeRouteAlertCollisionDispatches :: "gotime \<Rightarrow> int \<Rightarrow> int \<Rightarrow> Store \<Rightarrow> Store \<times> bool" where
  "mergeRouteAlertCollisionDispatches now keeperID duplicateID s =
     (let duplicates = open_dispatches s duplicateID in
      if list_ex (\<lambda>d. dStatus d = AlertDispatchStatusInFlight \<and> alertDispatchForEventSink s keeperID (dSink d) \<noteq> None) duplicates
      then (s, True)
      else (case merge_loop now keeperID duplicates s of
              (s1, True) \<Rightarrow> (s1, True)
            | (s1, False) \<Rightarrow> (close_duplicate duplicateID s1, False)))"

definition reconcilePendingAlertRouteCollision :: "gotime \<Rightarrow> int \<Rightarrow> string \<Rightarrow> Store \<Rightarrow> Store \<times> bool" where
  "reconcilePendingAlertRouteCollision now keeperID hash s =
     (case find (\<lambda>e. evDedupeHash e = hash \<and> evStatus e = AlertEventStatusPending \<and> evID e \<noteq> keeperID) (alertEvents s) of
        None \<Rightarrow> (s, False)
      | Some duplicate \<Rightarrow> mergeRouteAlertCollisionDispatches now keeperID (evID duplicate) s)"

text \<open>The UPDATE of one event; the partial unique index refuses a second pending row with the hash.\<close>

definition retarget_event :: "string \<Rightarrow> int \<Rightarrow> string \<Rightarrow> string \<Rightarrow> string \<Rightarrow> Store \<Rightarrow> route_error + Store" where
  "retarget_event sid eid newTarget key hash s =
     (let hit = (\<lambda>e. evID e = eid \<and> evServiceID e = sid) in
      if hash \<noteq> [] \<and> list_ex (\<lambda>e. hit e \<and> evStatus e = AlertEventStatusPending) (alertEvents s) \<and>
         list_ex (\<lambda>e. evID e \<noteq> eid \<and> evStatus e = AlertEventStatusPending \<and> evDedupeHash e = hash) (alertEvents s)
      then Inl (PendingHashConflict hash)
      else Inr (s\<lparr>alertEvents := map (\<lambda>e. if hit e then e\<lparr>evTarget := newTarget, evDedupeKey := key, evDedupeHash := hash\<rparr> else e)
                   (alertEvents s)\<rparr>))"

definition mutable_event :: "string \<Rightarrow> string \<Rightarrow> AlertEvent \<Rightarrow> bool" where
  "mutable_event sid target e \<longleftrightarrow> evServiceID e = sid \<and> evTarget e = target \<and>
     (evStatus e = AlertEventStatusPending \<or> evStatus e = AlertEventStatusFailed)"

definition mutableAlertRouteIdentityExists :: "Store \<Rightarrow> string \<Rightarrow> string \<Rightarrow> bool" where
  "mutableAlertRouteIdentityExists s sid target = list_ex (mutable_event sid target) (alertEvents s)"

definition retargeted_key :: "string \<Rightarrow> string \<Rightarrow> string \<Rightarrow> string" where
  "retargeted_key key oldTarget newTarget =
     (let k = ReplaceAll key oldTarget newTarget in
      if k = key then ReplaceAll key (TrimPrefix oldTarget target_Prefix) (TrimPrefix newTarget target_Prefix) else k)"

definition deferAlertRouteReconciliation :: "string \<Rightarrow> string \<Rightarrow> string \<Rightarrow> DashDB \<Rightarrow> DashDB" where
  "deferAlertRouteReconciliation sid oldTarget newTarget db =
     db\<lparr>dbDeferred := insert_ignore (sid, oldTarget, newTarget) (dbDeferred db)\<rparr>"

text \<open>One turn of the loop over the mutable events, with their status as it was selected.\<close>

definition migrate_event ::
  "gotime \<Rightarrow> string \<Rightarrow> string \<Rightarrow> string \<Rightarrow> AlertEvent \<Rightarrow> DashDB \<times> bool \<Rightarrow> route_error + (DashDB \<times> bool)" where
  "migrate_event now sid oldTarget newTarget update st =
     (case st of (db, migrated) \<Rightarrow>
       (let key = retargeted_key (evDedupeKey update) oldTarget newTarget;
            hash = alertDedupeHash (dbStore db) key;
            (s1, postponed) = (if evStatus update = AlertEventStatusPending
                               then reconcilePendingAlertRouteCollision now (evID update) hash (dbStore db)
                               else (dbStore db, False));
            db1 = set_store s1 db in
        if postponed then Inr (deferAlertRouteReconciliation sid oldTarget newTarget db1, migrated)
        else (case retarget_event sid (evID update) newTarget key hash s1 of
                Inl e \<Rightarrow> Inl e
              | Inr s2 \<Rightarrow> Inr (set_store s2 db1, True))))"

definition migrateAlertRouteIdentity ::
  "gotime \<Rightarrow> string \<Rightarrow> string \<Rightarrow> string \<Rightarrow> DashDB \<Rightarrow> route_error + (DashDB \<times> bool)" where
  "migrateAlertRouteIdentity now sid oldTarget newTarget db =
     fold_res (migrate_event now sid oldTarget newTarget) (filter (mutable_event sid oldTarget) (alertEvents (dbStore db))) (db, False)"

section \<open>The queue of postponed replacements\<close>

definition deferred_pass ::
  "gotime \<Rightarrow> string \<times> string \<times> string \<Rightarrow> DashDB \<times> bool \<Rightarrow> route_error + (DashDB \<times> bool)" where
  "deferred_pass now edge st =
     (case edge of (sid, oldTarget, newTarget) \<Rightarrow>
       (case st of (db, moved) \<Rightarrow>
         (case migrateAlertRouteIdentity now sid oldTarget newTarget db of
            Inl e \<Rightarrow> Inl e
          | Inr (db1, matched) \<Rightarrow> Inr (db1, moved \<or> matched))))"

fun settle_loop :: "gotime \<Rightarrow> (string \<times> string \<times> string) list \<Rightarrow> nat \<Rightarrow> DashDB \<Rightarrow> route_error + (DashDB \<times> bool)" where
  "settle_loop now edges 0 db = Inr (db, False)"
| "settle_loop now edges (Suc n) db =
     (case fold_res (deferred_pass now) edges (db, False) of
        Inl e \<Rightarrow> Inl e
      | Inr (db1, moved) \<Rightarrow> if \<not> moved then Inr (db1, True) else settle_loop now edges n db1)"

definition clear_edge :: "string \<times> string \<times> string \<Rightarrow> DashDB \<Rightarrow> DashDB" where
  "clear_edge edge db =
     (case edge of (sid, oldTarget, newTarget) \<Rightarrow>
       if mutableAlertRouteIdentityExists (dbStore db) sid oldTarget then db
       else db\<lparr>dbDeferred := filter (\<lambda>x. x \<noteq> edge) (dbDeferred db)\<rparr>)"

definition applyDeferredAlertRouteReconciliations :: "gotime \<Rightarrow> DashDB \<Rightarrow> route_error + DashDB" where
  "applyDeferredAlertRouteReconciliations now db =
     (let edges = sort (dbDeferred db) in
      case settle_loop now edges (length edges + 1) db of
        Inl e \<Rightarrow> Inl e
      | Inr (db1, settled) \<Rightarrow> Inr (if settled then fold clear_edge edges db1 else db1))"

definition route_targets :: "RouteTargetReplacement \<Rightarrow> string \<Rightarrow> string \<times> string" where
  "route_targets r targetName = (TargetForName targetName (rrOldRoute r), TargetForName targetName (rrNewRoute r))"

definition deferAlertRouteReconciliations :: "RouteTargetReplacement list \<Rightarrow> string list \<Rightarrow> DashDB \<Rightarrow> DashDB" where
  "deferAlertRouteReconciliations replacements targetNames db =
     fold (\<lambda>r db. if void_replacement r then db
        else fold (\<lambda>name db. case route_targets r name of (oldTarget, newTarget) \<Rightarrow>
               deferAlertRouteReconciliation (rrServiceID r) oldTarget newTarget db) targetNames db) replacements db"

section \<open>Replacement\<close>

text \<open>One target name of one replacement; \<open>ready\<close> says that alert rows may be written.\<close>

definition replace_target :: "gotime \<Rightarrow> bool \<Rightarrow> RouteTargetReplacement \<Rightarrow> string \<Rightarrow> DashDB \<Rightarrow> route_error + DashDB" where
  "replace_target now ready r targetName db =
     (case route_targets r targetName of (oldTarget, newTarget) \<Rightarrow>
       (let db1 = retarget_history (rrServiceID r) oldTarget newTarget
                    (migrateRouteStatus (rrServiceID r) oldTarget newTarget
                      (migrateRouteOverride (rrServiceID r) oldTarget newTarget db))
        in if ready then map_sum id fst (migrateAlertRouteIdentity now (rrServiceID r) oldTarget newTarget db1) else Inr db1))"

definition replace_route :: "gotime \<Rightarrow> bool \<Rightarrow> string list \<Rightarrow> RouteTargetReplacement \<Rightarrow> DashDB \<Rightarrow> route_error + DashDB" where
  "replace_route now ready targetNames r db =
     (if void_replacement r then Inr db
      else bind_res (fold_res (replace_target now ready r) targetNames db) (\<lambda>db1.
        Inr (db1\<lparr>dbExclusions := filter (\<lambda>x. x \<noteq> (rrServiceID r, rrOldRoute r)) (dbExclusions db1)\<rparr>)))"

definition alert_ready :: "DashDB \<Rightarrow> DashDB \<times> bool" where
  "alert_ready db =
     (case ensureAlertDedupeKeyCurrent (dbStore db) of (s1, keyErr) \<Rightarrow>
       (set_store s1 db, ensureAlertStateUnlocked (dbStore db) = None \<and> keyErr = None))"

text \<open>The statements of the transaction after the two guards, which may lock the alert state.\<close>

definition migrate_guarded ::
  "gotime \<Rightarrow> bool \<Rightarrow> RouteTargetReplacement list \<Rightarrow> string list \<Rightarrow> DashDB \<Rightarrow> route_error + DashDB" where
  "migrate_guarded now ready replacements targetNames db =
     bind_res (if ready then applyDeferredAlertRouteReconciliations now db
               else Inr (deferAlertRouteReconciliations replacements targetNames db))
       (fold_res (replace_route now ready targetNames) replacements)"

definition migrateRouteTargetReplacements ::
  "gotime \<Rightarrow> RouteTargetReplacement list \<Rightarrow> string list \<Rightarrow> DashDB \<Rightarrow> DashDB \<times> route_error option" where
  "migrateRouteTargetReplacements now replacements targetNames db =
     (case alert_ready db of (db1, ready) \<Rightarrow>
       (case migrate_guarded now ready replacements targetNames db1 of
          Inl e \<Rightarrow> (db1, Some e)
        | Inr db2 \<Rightarrow> (db2, None)))"

definition MigrateRouteTargetReplacements ::
  "gotime \<Rightarrow> RouteTargetReplacement list \<Rightarrow> string list \<Rightarrow> DashDB \<Rightarrow> DashDB \<times> route_error option" where
  "MigrateRouteTargetReplacements now replacements targets db =
     (case migrateRouteTargetReplacements now replacements (httpRouteTargetNames targets) db of
        (db1, Some e) \<Rightarrow> (db1, Some e)
      | (db1, None) \<Rightarrow>
          (on_health (observeHealthAlerts (routeReplacementServiceIDs replacements None) now now) (commitAndInvalidateSummary db1), None))"

section \<open>Canonicalization of stored targets\<close>

definition route_aliases :: "string \<Rightarrow> ('r \<Rightarrow> string) \<Rightarrow> 'r list \<Rightarrow> ('r \<times> string) list" where
  "route_aliases targetName target rows =
     List.map_filter (\<lambda>r. if \<not> like (routeTargetPrefixForName targetName @ ''%'') (target r) then None
       else (case CanonicalTargetForName (target r) targetName of
               (canonical, ok) \<Rightarrow> if \<not> ok \<or> canonical = target r then None else Some (r, canonical))) rows"

definition sensitive_aliases :: "('r \<Rightarrow> string) \<Rightarrow> ('r \<times> string) list \<Rightarrow> bool" where
  "sensitive_aliases target aliases = list_ex (\<lambda>(r, c). StripURLUserinfo (target r) \<noteq> target r) aliases"

text \<open>The shared core: select the aliases, then apply each; whether one held credentials.\<close>

definition canonicalizeRouteAliasRows ::
  "string \<Rightarrow> ('r \<Rightarrow> string) \<Rightarrow> 'r list \<Rightarrow> ('r \<Rightarrow> string \<Rightarrow> DashDB \<Rightarrow> DashDB) \<Rightarrow> DashDB \<Rightarrow> DashDB \<times> bool" where
  "canonicalizeRouteAliasRows targetName target rows apply_alias db =
     (let aliases = route_aliases targetName target rows in
      (fold (\<lambda>(r, c). apply_alias r c) aliases db, sensitive_aliases target aliases))"

definition canonicalizeMonitorOverrides :: "string \<Rightarrow> DashDB \<Rightarrow> DashDB \<times> bool" where
  "canonicalizeMonitorOverrides targetName db =
     canonicalizeRouteAliasRows targetName ovTarget (dbOverrides db) applyMonitorOverrideMigration db"

definition canonicalizeStatusResults :: "string \<Rightarrow> DashDB \<Rightarrow> DashDB \<times> bool" where
  "canonicalizeStatusResults targetName db =
     canonicalizeRouteAliasRows targetName srTarget (dbStatuses db) applyStatusResultMigration db"

definition canonicalizeStatusHistory :: "string \<Rightarrow> DashDB \<Rightarrow> DashDB \<times> bool" where
  "canonicalizeStatusHistory targetName db =
     canonicalizeRouteAliasRows targetName hyTarget (dbHistory db)
       (\<lambda>row canonical db. db\<lparr>dbHistory := map (\<lambda>r. if hyID r = hyID row then r\<lparr>hyTarget := canonical\<rparr> else r) (dbHistory db)\<rparr>) db"

text \<open>The forced row of an active override; a new one has no expiry and no images.\<close>

definition force_override :: "OverrideRow \<Rightarrow> DashDB \<Rightarrow> DashDB" where
  "force_override row db =
     (let t = (case parse_RFC3339 (ovUpdatedAt row) of Some t \<Rightarrow> t | None \<Rightarrow> zero_time) in
      set_statuses (put_status (\<lambda>r. r\<lparr>srHealth := HealthNotApplicable, srMessage := ''not applicable'', srCheckedAt := t\<rparr>)
        \<lparr>srServiceID = ovServiceID row, srTarget = ovTarget row, srHealth = HealthNotApplicable, srMessage = ''not applicable'',
         srCheckedAt = t, srExpiresAt = zero_time, srObservedImages = []\<rparr> (dbStatuses db)) db)"

definition enforceActiveRouteOverrideStatuses :: "string \<Rightarrow> DashDB \<Rightarrow> DashDB" where
  "enforceActiveRouteOverrideStatuses targetName db =
     fold force_override
       (filter (\<lambda>r. like (routeTargetPrefixForName targetName @ ''%'') (ovTarget r) \<and> ovNotApplicable r = 1) (dbOverrides db)) db"

definition canonicalize_name :: "string \<Rightarrow> DashDB \<times> bool \<Rightarrow> DashDB \<times> bool" where
  "canonicalize_name targetName st =
     (case st of (db, changed) \<Rightarrow>
       (let (db1, c1) = canonicalizeMonitorOverrides targetName db;
            (db2, c2) = canonicalizeStatusResults targetName db1;
            (db3, c3) = canonicalizeStatusHistory targetName db2
        in (enforceActiveRouteOverrideStatuses targetName db3, changed \<or> c1 \<or> c2 \<or> c3)))"

definition canonicalizeStoredRouteTargetsForNames :: "string list \<Rightarrow> DashDB \<Rightarrow> DashDB \<times> bool" where
  "canonicalizeStoredRouteTargetsForNames targetNames db =
     (case fold canonicalize_name targetNames (db, False) of
        (db1, changed) \<Rightarrow> (if changed then commitAndInvalidateSummary db1 else db1, changed))"

definition canonicalizeStoredRouteTargets :: "DashDB \<Rightarrow> DashDB \<times> bool" where
  "canonicalizeStoredRouteTargets db = canonicalizeStoredRouteTargetsForNames [routeMonitorTarget] db"

text \<open>The rewriting of the database pages that may still hold credentials is left to SQLite.\<close>

definition CanonicalizeHTTPRouteTargets :: "string list \<Rightarrow> DashDB \<Rightarrow> DashDB" where
  "CanonicalizeHTTPRouteTargets targets db = fst (canonicalizeStoredRouteTargetsForNames (httpRouteTargetNames targets) db)"

end
