(* ===== verification/Inventory.thy ===== *)
theory Inventory
  imports RouteMigration
begin

text \<open>
  The inventory (\<open>internal/storage/services.go\<close>): repositories, scans and services, their replacement by
  a scan or a configured source, the clean-up of health states afterwards, the summary, and the
  retention of scans.
\<close>

section \<open>Services\<close>

definition sanitizeExposure :: "string list \<Rightarrow> string list" where
  "sanitizeExposure exposure = map StripUserinfo exposure"

definition monitorRoutesFromExposure :: "string list \<Rightarrow> string list" where
  "monitorRoutesFromExposure exposure = Routes exposure"

definition normalizeService :: "Service \<Rightarrow> Service" where
  "normalizeService service =
     (let s1 = NormalizeServiceImageMetadata (service\<lparr>svComposeProject := TrimSpace (svComposeProject service)\<rparr>);
          s2 = s1\<lparr>svExposure := sanitizeExposure (svExposure s1)\<rparr>
      in s2\<lparr>svMonitorRoutes := monitorRoutesFromExposure (svExposure s2)\<rparr>)"

text \<open>The fields without a column are computed again when the row is read.\<close>

definition service_columns :: "Service \<Rightarrow> Service" where
  "service_columns s = s\<lparr>svDesiredImages := [], svImageVersionState := None, svImageVersionChecks := [], svMonitorRoutes := []\<rparr>"

datatype inventory_error = InsertService string | MigrateRoutes route_error

text \<open>The primary key refuses a second row with the id; \<open>fresh\<close> is the random incarnation of a new row.\<close>

definition insertService :: "Service \<Rightarrow> string \<Rightarrow> string \<Rightarrow> DashDB \<Rightarrow> inventory_error + DashDB" where
  "insertService service incarnation fresh db =
     (if service_row db (svID service) \<noteq> None then Inl (InsertService (svID service))
      else Inr (db\<lparr>dbServices := dbServices db @
        [\<lparr>rwService = service_columns (normalizeService service),
          rwIncarnation = (if incarnation = [] then fresh else incarnation)\<rparr>]\<rparr>))"

text \<open>The incarnations of the rows in scope; a missing id reads as the empty text.\<close>

definition current_incarnation :: "(Service \<Rightarrow> bool) \<Rightarrow> DashDB \<Rightarrow> string \<Rightarrow> string" where
  "current_incarnation scope db sid =
     (case find (\<lambda>r. scope (rwService r) \<and> svID (rwService r) = sid) (dbServices db) of
        None \<Rightarrow> [] | Some r \<Rightarrow> rwIncarnation r)"

fun insert_services :: "(string \<Rightarrow> string) \<Rightarrow> (nat \<Rightarrow> string) \<Rightarrow> nat \<Rightarrow> Service list \<Rightarrow> DashDB \<Rightarrow> inventory_error + DashDB" where
  "insert_services current fresh k [] db = Inr db"
| "insert_services current fresh k (s # ss) db =
     (case insertService s (current (svID s)) (fresh k) db of
        Inl e \<Rightarrow> Inl e
      | Inr db1 \<Rightarrow> insert_services current fresh (k + 1) ss db1)"

text \<open>
  \<open>scope\<close> is the common condition of the two statements. The statuses of the services that go are
  deleted where the caller asks for it.
\<close>

definition replaceServiceRows ::
  "(Service \<Rightarrow> bool) \<Rightarrow> Service list \<Rightarrow> bool \<Rightarrow> (nat \<Rightarrow> string) \<Rightarrow> DashDB \<Rightarrow> inventory_error + DashDB" where
  "replaceServiceRows scope services pruneOrphanedStatus fresh db =
     (let currentIDs = map (svID \<circ> rwService) (filter (\<lambda>r. scope (rwService r)) (dbServices db));
          current = current_incarnation scope db;
          gone = filter (\<lambda>i. i \<notin> set (map svID services)) currentIDs;
          db1 = (if pruneOrphanedStatus then fold deleteStatusForService gone db else db);
          db2 = db1\<lparr>dbServices := filter (\<lambda>r. \<not> scope (rwService r)) (dbServices db1)\<rparr>
      in insert_services current fresh 0 services db2)"

section \<open>The clean-up of health states\<close>

definition beginHealthAlertCleanup :: "DashDB \<Rightarrow> DashDB \<times> 64 word" where
  "beginHealthAlertCleanup db = (let n = dbCleanupAttempt db + 1 in (db\<lparr>dbCleanupAttempt := n\<rparr>, n))"

definition completeHealthAlertCleanup :: "64 word \<Rightarrow> string \<Rightarrow> DashDB \<Rightarrow> DashDB" where
  "completeHealthAlertCleanup attempt message db =
     (if attempt \<le> dbCleanupCompleted db then db
      else
       (let db1 = set_store ((dbStore db)\<lparr>alertStateCleanupLockMsg := message\<rparr>) (db\<lparr>dbCleanupCompleted := attempt\<rparr>) in
        if message = [] \<or> message \<in> set (startupWarnings (dbStore db1)) then db1
        else set_store ((dbStore db1)\<lparr>startupWarnings := startupWarnings (dbStore db1) @ [message]\<rparr>) db1))"

text \<open>\<open>failure\<close> is the error of the DELETE, if it fails.\<close>

definition delete_orphan_states :: "DashDB \<Rightarrow> DashDB" where
  "delete_orphan_states db = db\<lparr>dbHealth := (dbHealth db)\<lparr>hdStates := (\<lambda>sid. if service_row db sid = None then None
     else hdStates (dbHealth db) sid)\<rparr>\<rparr>"

definition reconcileHealthAlertStates :: "string option \<Rightarrow> DashDB \<Rightarrow> DashDB" where
  "reconcileHealthAlertStates failure db =
     (case beginHealthAlertCleanup db of (db1, attempt) \<Rightarrow>
       (case failure of
          Some e \<Rightarrow> completeHealthAlertCleanup attempt (''alert state locked: health_alert_states cleanup unavailable: '' @ e) db1
        | None \<Rightarrow> completeHealthAlertCleanup attempt [] (delete_orphan_states db1)))"

section \<open>Repositories\<close>

text \<open>Insertion with \<open>ON CONFLICT(name) DO UPDATE\<close>.\<close>

fun put_repository :: "(Repository \<Rightarrow> Repository) \<Rightarrow> Repository \<Rightarrow> Repository list \<Rightarrow> Repository list" where
  "put_repository upd new [] = [new]"
| "put_repository upd new (r # rs) = (if rpName r = rpName new then upd r # rs else r # put_repository upd new rs)"

definition on_repositories :: "(Repository list \<Rightarrow> Repository list) \<Rightarrow> DashDB \<Rightarrow> DashDB" where
  "on_repositories f db = db\<lparr>dbRepositories := f (dbRepositories db)\<rparr>"

text \<open>A configured repository is its name, URL and reference.\<close>

definition EnsureRepositories :: "(string \<times> string \<times> string) list \<Rightarrow> DashDB \<Rightarrow> DashDB" where
  "EnsureRepositories repos db =
     commitAndInvalidateSummary (fold (\<lambda>(name, url, ref) db.
       (let repoURL = db_redact db url in
        on_repositories (put_repository (\<lambda>r. r\<lparr>rpURL := repoURL, rpDefaultRef := ref\<rparr>)
          \<lparr>rpName = name, rpURL = repoURL, rpDefaultRef = ref, rpLastCommit = [], rpLastScanAt = [],
           rpStatus = ''configured'', rpError = []\<rparr>) db)) repos db)"

definition configured_repository :: "string \<Rightarrow> string \<Rightarrow> gotime \<Rightarrow> Repository" where
  "configured_repository name source now =
     \<lparr>rpName = name, rpURL = source, rpDefaultRef = ''configured'', rpLastCommit = [], rpLastScanAt = RFC3339 now,
      rpStatus = ''configured'', rpError = []\<rparr>"

definition Repositories :: "DashDB \<Rightarrow> Repository list" where
  "Repositories db = map (\<lambda>r. r\<lparr>rpURL := db_redact db (rpURL r), rpError := db_redact db (rpError r)\<rparr>)
     (sort_key rpName (dbRepositories db))"

section \<open>Replacement of services\<close>

definition after_inventory :: "string option \<Rightarrow> DashDB \<Rightarrow> DashDB" where
  "after_inventory cleanup db = reconcileHealthAlertStates cleanup (commitAndInvalidateSummary db)"

definition ReplaceConfiguredServices ::
  "string \<Rightarrow> string \<Rightarrow> Service list \<Rightarrow> gotime \<Rightarrow> (nat \<Rightarrow> string) \<Rightarrow> string option \<Rightarrow> DashDB \<Rightarrow> DashDB \<times> inventory_error option" where
  "ReplaceConfiguredServices repositoryName source0 services now fresh cleanup db =
     (let source = (if source0 = [] then repositoryName else source0);
          new = configured_repository repositoryName source now;
          db1 = on_repositories (put_repository (\<lambda>r. new\<lparr>rpLastCommit := rpLastCommit r\<rparr>) new) db
      in case replaceServiceRows (\<lambda>s. svRepository s = repositoryName) services True fresh db1 of
           Inl e \<Rightarrow> (db, Some e)
         | Inr db2 \<Rightarrow> (after_inventory cleanup db2, None))"

definition ReplaceRuntimeServices ::
  "string \<Rightarrow> string \<Rightarrow> string \<Rightarrow> Service list \<Rightarrow> gotime \<Rightarrow> (nat \<Rightarrow> string) \<Rightarrow> string option \<Rightarrow> DashDB \<Rightarrow>
   DashDB \<times> inventory_error option" where
  "ReplaceRuntimeServices repositoryName source0 runtime services now fresh cleanup db =
     (let source = (if source0 = [] then repositoryName else source0);
          db1 = on_repositories (put_repository (\<lambda>r. r) (configured_repository repositoryName source now)) db
      in case replaceServiceRows (\<lambda>s. svRepository s = repositoryName \<and> svRuntime s = runtime \<and> svSourcePath s = source)
               services True fresh db1 of
           Inl e \<Rightarrow> (db, Some e)
         | Inr db2 \<Rightarrow> (after_inventory cleanup db2, None))"

definition runtimeSourceKey :: "string \<Rightarrow> string \<Rightarrow> string" where
  "runtimeSourceKey repository sourcePath = repository @ nul @ sourcePath"

definition removed_runtime_rows :: "string \<Rightarrow> (string \<times> string) list \<Rightarrow> DashDB \<Rightarrow> ServiceRow list" where
  "removed_runtime_rows runtime keep db =
     filter (\<lambda>r. svRuntime (rwService r) = runtime \<and>
       runtimeSourceKey (svRepository (rwService r)) (svSourcePath (rwService r)) \<notin> set (map (\<lambda>(a, b). runtimeSourceKey a b) keep))
       (dbServices db)"

definition delete_service :: "string \<Rightarrow> DashDB \<Rightarrow> DashDB" where
  "delete_service sid db = (let db1 = deleteStatusForService sid db in
     db1\<lparr>dbServices := filter (\<lambda>r. svID (rwService r) \<noteq> sid) (dbServices db1)\<rparr>)"

definition delete_empty_configured :: "string \<Rightarrow> DashDB \<Rightarrow> DashDB" where
  "delete_empty_configured repository db =
     on_repositories (filter (\<lambda>r. \<not> (rpName r = repository \<and> rpDefaultRef r = ''configured'' \<and>
       \<not> list_ex (\<lambda>s. svRepository (rwService s) = repository) (dbServices db)))) db"

text \<open>\<open>keep\<close> holds the pairs of repository and source path of \<open>RuntimeServiceSource\<close>.\<close>

definition PruneRuntimeServices :: "string \<Rightarrow> (string \<times> string) list \<Rightarrow> string option \<Rightarrow> DashDB \<Rightarrow> DashDB" where
  "PruneRuntimeServices runtime keep cleanup db =
     (let removed = removed_runtime_rows runtime keep db;
          db1 = fold delete_service (map (svID \<circ> rwService) removed) db;
          db2 = fold delete_empty_configured (remdups (map (svRepository \<circ> rwService) removed)) db1
      in after_inventory cleanup db2)"

definition RuntimeServiceSourceCommit :: "DashDB \<Rightarrow> string \<Rightarrow> string \<Rightarrow> string \<Rightarrow> string \<times> bool" where
  "RuntimeServiceSourceCommit db repositoryName source runtime =
     (let commits = map (svSourceCommit \<circ> rwService) (filter (\<lambda>r. svRepository (rwService r) = repositoryName \<and>
            svSourcePath (rwService r) = source \<and> svRuntime (rwService r) = runtime) (dbServices db))
      in (fold max commits [], commits \<noteq> []))"

text \<open>The services as the summary shows them.\<close>

definition Services :: "DashDB \<Rightarrow> Service list" where
  "Services db = map normalizeService
     (sort_key (\<lambda>s. (svRepository s, svRuntime s, svName s)) (map rwService (dbServices db)))"

section \<open>Scans\<close>

definition StartScan :: "string \<Rightarrow> gotime \<Rightarrow> DashDB \<Rightarrow> DashDB \<times> int" where
  "StartScan repoName now db =
     (let i = dbScanSeq db + 1;
          db1 = db\<lparr>dbScanSeq := i, dbScans := dbScans db @ [\<lparr>snID = i, snRepository = repoName, snStatus = ''running'',
                   snCommitSHA = [], snStartedAt = RFC3339 now, snFinishedAt = [], snError = []\<rparr>]\<rparr>
      in (commitAndInvalidateSummary db1, i))"

text \<open>The two updates at the head of a finished scan.\<close>

definition close_scan :: "int \<Rightarrow> string \<Rightarrow> string \<Rightarrow> string \<Rightarrow> string \<Rightarrow> gotime \<Rightarrow> DashDB \<Rightarrow> DashDB" where
  "close_scan scanID repoName commit status errText now db =
     on_repositories (map (\<lambda>r. if rpName r = repoName
         then r\<lparr>rpLastCommit := commit, rpLastScanAt := RFC3339 now, rpStatus := status, rpError := errText\<rparr> else r))
       (db\<lparr>dbScans := map (\<lambda>s. if snID s = scanID
         then s\<lparr>snStatus := status, snCommitSHA := commit, snFinishedAt := RFC3339 now, snError := errText\<rparr> else s) (dbScans db)\<rparr>)"

definition delete_repository_exclusions :: "string \<Rightarrow> DashDB \<Rightarrow> DashDB" where
  "delete_repository_exclusions repoName db = db\<lparr>dbExclusions :=
     filter (\<lambda>(sid, old). \<not> list_ex (\<lambda>r. svID (rwService r) = sid \<and> svRepository (rwService r) = repoName) (dbServices db))
       (dbExclusions db)\<rparr>"

text \<open>A rolled back transaction keeps what the process holds in memory.\<close>

definition rolled_back :: "DashDB \<Rightarrow> DashDB \<Rightarrow> DashDB" where
  "rolled_back before after = set_store (rollback (dbStore before) (dbStore after)) before"

text \<open>The part of a successful scan: exclusions, replacements, services.\<close>

definition adopt_scan ::
  "string \<Rightarrow> Service list \<Rightarrow> RouteTargetReplacement list \<Rightarrow> RouteTargetExclusion list \<Rightarrow> string list \<Rightarrow> gotime \<Rightarrow> (nat \<Rightarrow> string) \<Rightarrow>
   DashDB \<Rightarrow> DashDB \<times> inventory_error option" where
  "adopt_scan repoName services replacements exclusions httpTargets now fresh db =
     (let db1 = setRouteTargetExclusions exclusions (delete_repository_exclusions repoName db) in
      case migrateRouteTargetReplacements now replacements (httpRouteTargetNames httpTargets) db1 of
        (db2, Some e) \<Rightarrow> (db2, Some (MigrateRoutes e))
      | (db2, None) \<Rightarrow>
          (case replaceServiceRows (\<lambda>s. svRepository s = repoName) services False fresh db2 of
             Inl e \<Rightarrow> (db2, Some e)
           | Inr db3 \<Rightarrow> (db3, None)))"

text \<open>\<open>scanErr\<close> is the text of the error of a failed scan.\<close>

definition FinishScanWithRouteTargetChanges ::
  "int \<Rightarrow> string \<Rightarrow> string \<Rightarrow> Service list \<Rightarrow> string option \<Rightarrow> RouteTargetReplacement list \<Rightarrow> RouteTargetExclusion list \<Rightarrow>
   string list \<Rightarrow> gotime \<Rightarrow> (nat \<Rightarrow> string) \<Rightarrow> string option \<Rightarrow> DashDB \<Rightarrow> DashDB \<times> inventory_error option" where
  "FinishScanWithRouteTargetChanges scanID repoName commit services scanErr replacements exclusions httpTargets now fresh cleanup db =
     (let status = (case scanErr of None \<Rightarrow> ''ok'' | Some _ \<Rightarrow> ''error'');
          errText = (case scanErr of None \<Rightarrow> [] | Some e \<Rightarrow> db_redact db e);
          db1 = close_scan scanID repoName commit status errText now db in
      case (case scanErr of
              None \<Rightarrow> adopt_scan repoName services replacements exclusions httpTargets now fresh db1
            | Some _ \<Rightarrow> (db1, None)) of
        (db2, Some e) \<Rightarrow> (rolled_back db db2, Some e)
      | (db2, None) \<Rightarrow>
          (let retained = (case scanErr of
                 None \<Rightarrow> routeReplacementServiceIDs replacements (Some (map svID services)) | Some _ \<Rightarrow> [])
           in (on_health (observeHealthAlerts retained now now) (after_inventory cleanup db2), None)))"

definition FinishScanWithRouteTargetReplacements ::
  "int \<Rightarrow> string \<Rightarrow> string \<Rightarrow> Service list \<Rightarrow> string option \<Rightarrow> RouteTargetReplacement list \<Rightarrow> string list \<Rightarrow> gotime \<Rightarrow>
   (nat \<Rightarrow> string) \<Rightarrow> string option \<Rightarrow> DashDB \<Rightarrow> DashDB \<times> inventory_error option" where
  "FinishScanWithRouteTargetReplacements scanID repoName commit services scanErr replacements httpTargets now fresh cleanup db =
     FinishScanWithRouteTargetChanges scanID repoName commit services scanErr replacements [] httpTargets now fresh cleanup db"

definition FinishScan ::
  "int \<Rightarrow> string \<Rightarrow> string \<Rightarrow> Service list \<Rightarrow> string option \<Rightarrow> gotime \<Rightarrow> (nat \<Rightarrow> string) \<Rightarrow> string option \<Rightarrow> DashDB \<Rightarrow>
   DashDB \<times> inventory_error option" where
  "FinishScan scanID repoName commit services scanErr now fresh cleanup db =
     FinishScanWithRouteTargetReplacements scanID repoName commit services scanErr [] [] now fresh cleanup db"

text \<open>Descending, in table order among equals, where the query leaves the order open.\<close>

definition sort_desc :: "('a \<Rightarrow> 'k :: linorder) \<Rightarrow> 'a list \<Rightarrow> 'a list" where
  "sort_desc key xs = rev (sort_key key (rev xs))"

definition Scans :: "DashDB \<Rightarrow> Scan list" where
  "Scans db = map (\<lambda>s. s\<lparr>snError := db_redact db (snError s)\<rparr>) (take 50 (sort_desc snStartedAt (dbScans db)))"

record LatestTerminalScan =
  ltID :: int
  ltStatus :: string
  ltError :: string

definition terminal_scan :: "Scan \<Rightarrow> bool" where
  "terminal_scan s \<longleftrightarrow> snStatus s = ''ok'' \<or> snStatus s = ''error''"

text \<open>The row of the query for one repository: the terminal scan with the greatest id.\<close>

definition latest_terminal :: "Scan list \<Rightarrow> string \<Rightarrow> Scan option" where
  "latest_terminal scans name =
     (let mine = filter (\<lambda>s. snRepository s = name \<and> terminal_scan s) scans in
      find (\<lambda>s. snID s = fold max (map snID mine) 0) mine)"

definition LatestTerminalScansByRepository :: "DashDB \<Rightarrow> string list \<Rightarrow> (string \<rightharpoonup> LatestTerminalScan)" where
  "LatestTerminalScansByRepository db repositoryNames =
     (\<lambda>name. if name \<notin> set (dedupeStrings repositoryNames) then None
       else map_option (\<lambda>s. \<lparr>ltID = snID s, ltStatus = snStatus s, ltError = TrimSpace (db_redact db (snError s))\<rparr>)
              (latest_terminal (dbScans db) name))"

section \<open>Retention of scans\<close>

definition DefaultScanRetentionHorizon :: duration where "DefaultScanRetentionHorizon = 7 * 24 * Hour"
definition DefaultScanRetentionBatchSize :: int where "DefaultScanRetentionBatchSize = 500"

definition newest_ids :: "Scan list \<Rightarrow> int list" where
  "newest_ids scans = List.map_filter (\<lambda>name. map_option snID (latest_terminal scans name)) (map snRepository scans)"

definition prunable_scan :: "string \<Rightarrow> Scan list \<Rightarrow> Scan \<Rightarrow> bool" where
  "prunable_scan cutoff scans s \<longleftrightarrow> terminal_scan s \<and> snStartedAt s < cutoff \<and> snID s \<notin> set (newest_ids scans)"

definition scan_prune_ids :: "string \<Rightarrow> nat \<Rightarrow> Scan list \<Rightarrow> int list" where
  "scan_prune_ids cutoff batch scans = take batch (sort (map snID (filter (prunable_scan cutoff scans) scans)))"

definition delete_scans :: "int list \<Rightarrow> Scan list \<Rightarrow> Scan list" where
  "delete_scans ids scans = filter (\<lambda>s. snID s \<notin> set ids) scans"

datatype prune_outcome = ScansPruned | ScanPruneFailed | ScanPruneCancelled

text \<open>
  The loop over the batches: \<open>fails i\<close> says whether the DELETE of batch \<open>i\<close> fails for good, \<open>stop i\<close>
  whether the context has ended after it.
\<close>

function scan_prune_loop ::
  "(nat \<Rightarrow> bool) \<Rightarrow> (nat \<Rightarrow> bool) \<Rightarrow> string \<Rightarrow> nat \<Rightarrow> nat \<Rightarrow> nat \<Rightarrow> DashDB \<Rightarrow> DashDB \<times> nat \<times> prune_outcome" where
  "scan_prune_loop fails stop cutoff batch i tot db =
     (if fails i then (db, tot, ScanPruneFailed)
      else
       (let scans = delete_scans (scan_prune_ids cutoff batch (dbScans db)) (dbScans db);
            affected = length (dbScans db) - length scans;
            db1 = db\<lparr>dbScans := scans\<rparr>;
            db2 = (if 0 < affected then commitAndInvalidateSummary db1 else db1)
        in if batch = 0 \<or> affected < batch then (db2, tot + affected, ScansPruned)
           else if stop i then (db2, tot + affected, ScanPruneCancelled)
           else scan_prune_loop fails stop cutoff batch (Suc i) (tot + affected) db2))"
  by pat_completeness auto
termination
proof (relation "measure (\<lambda>(fails, stop, cutoff, batch, i, tot, db). length (dbScans db))", goal_cases)
  case (2 fails stop cutoff batch i tot db scans affected db1 db2)
  then have "length scans < length (dbScans db)" by linarith
  with 2 show ?case by (simp add: commitAndInvalidateSummary_def)
qed simp

declare scan_prune_loop.simps [simp del]

definition PruneTerminalScans ::
  "(nat \<Rightarrow> bool) \<Rightarrow> (nat \<Rightarrow> bool) \<Rightarrow> duration \<Rightarrow> int \<Rightarrow> gotime \<Rightarrow> DashDB \<Rightarrow> DashDB \<times> nat \<times> prune_outcome" where
  "PruneTerminalScans fails stop horizon batchSize now db =
     (if horizon \<le> 0 then (db, 0, ScansPruned)
      else
       (let batch = (if batchSize \<le> 0 then DefaultScanRetentionBatchSize else batchSize)
        in scan_prune_loop fails stop (RFC3339 (now - horizon)) (nat batch) 0 0 db))"

end
