(* ===== verification/StatusOps.thy ===== *)
theory StatusOps
  imports Inventory
begin

text \<open>
  Monitor results (\<open>internal/storage/status.go\<close>), agent reports (\<open>agents.go\<close>) and the dashboard summary
  (\<open>Summary\<close> and \<open>buildSummary\<close> of \<open>services.go\<close>): freshness windows, overrides that make a monitor not
  applicable, the write of a result with its history, the view of the results as a reader gets it, the
  uptime of the last day.
\<close>

section \<open>Targets and freshness windows\<close>

definition canonicalStatusTarget :: "string \<Rightarrow> string" where
  "canonicalStatusTarget target =
     (case CanonicalTarget target of (canonical, ok) \<Rightarrow> if ok then canonical else TrimSpace target)"

definition SetStatusTTL :: "string \<Rightarrow> duration \<Rightarrow> DashDB \<Rightarrow> DashDB" where
  "SetStatusTTL target0 ttl db =
     (let target = canonicalStatusTarget target0 in
      if target = [] \<or> ttl \<le> 0 then db else db\<lparr>dbTTLs := (dbTTLs db)(target \<mapsto> ttl)\<rparr>)"

text \<open>A missing key of the map reads as zero.\<close>

definition ttl_at :: "DashDB \<Rightarrow> string \<Rightarrow> duration" where
  "ttl_at db target = (case dbTTLs db target of Some ttl \<Rightarrow> ttl | None \<Rightarrow> 0)"

definition statusTTL :: "DashDB \<Rightarrow> string \<Rightarrow> duration" where
  "statusTTL db target0 =
     (let target = canonicalStatusTarget target0 in
      if 0 < ttl_at db target then ttl_at db target
      else (case Cut target '': '' of (parent, _, ok) \<Rightarrow> if ok then ttl_at db parent else 0))"

section \<open>Overrides\<close>

text \<open>The key under which the code keeps a service and a target in one map.\<close>

definition status_key :: "string \<Rightarrow> string \<Rightarrow> string" where
  "status_key sid target = sid @ nul @ target"

definition activeMonitorOverrides :: "DashDB \<Rightarrow> string list" where
  "activeMonitorOverrides db =
     map (\<lambda>ov. status_key (ovServiceID ov) (ovTarget ov)) (filter (\<lambda>ov. ovNotApplicable ov = 1) (dbOverrides db))"

definition serviceMonitorRoutes :: "DashDB \<Rightarrow> string \<Rightarrow> string list" where
  "serviceMonitorRoutes db sid =
     (case service_row db sid of None \<Rightarrow> [] | Some r \<Rightarrow> monitorRoutesFromExposure (svExposure (rwService r)))"

text \<open>The services whose routes are all not applicable: the join of services and active parent overrides.\<close>

definition parentRouteOverrideServices :: "DashDB \<Rightarrow> string list" where
  "parentRouteOverrideServices db =
     map (svID \<circ> rwService) (filter (\<lambda>r.
       list_ex (\<lambda>ov. ovServiceID ov = svID (rwService r) \<and> ovTarget ov = routeMonitorTarget \<and> ovNotApplicable ov = 1) (dbOverrides db) \<and>
       monitorRoutesFromExposure (svExposure (rwService r)) \<noteq> []) (dbServices db))"

text \<open>Whether the target itself, and whether the parent of a route target, is not applicable.\<close>

definition monitorOverrideState :: "DashDB \<Rightarrow> string \<Rightarrow> string \<Rightarrow> bool \<times> bool" where
  "monitorOverrideState db sid target0 =
     (let target = canonicalStatusTarget target0; childTarget = IsChildTarget target;
          rows = filter (\<lambda>ov. ovServiceID ov = sid \<and> ovNotApplicable ov = 1 \<and>
                          (ovTarget ov = target \<or> childTarget \<and> ovTarget ov = routeMonitorTarget)) (dbOverrides db);
          exactOverride = list_ex (\<lambda>ov. ovTarget ov = target) rows;
          parentOverride = list_ex (\<lambda>ov. ovTarget ov \<noteq> target \<and> childTarget \<and> ovTarget ov = routeMonitorTarget) rows
      in (exactOverride, parentOverride \<and> serviceMonitorRoutes db sid \<noteq> []))"

definition MonitorNotApplicable :: "DashDB \<Rightarrow> string \<Rightarrow> string \<Rightarrow> bool" where
  "MonitorNotApplicable db sid0 target0 =
     (let sid = TrimSpace sid0; target = canonicalStatusTarget target0 in
      if sid = [] \<or> target = [] then False
      else (case monitorOverrideState db sid target of (exact, parent) \<Rightarrow> exact \<or> parent))"

record resolvedMonitorOverrideTarget =
  rsTarget :: string
  rsSyntheticRouteTarget :: bool
  rsSyntheticRouteParent :: bool

definition resolveMonitorOverrideTarget :: "DashDB \<Rightarrow> string \<Rightarrow> string \<Rightarrow> resolvedMonitorOverrideTarget" where
  "resolveMonitorOverrideTarget db sid target =
     (let value = TrimSpace target; routes = serviceMonitorRoutes db sid;
          plain = \<lparr>rsTarget = value, rsSyntheticRouteTarget = False, rsSyntheticRouteParent = False\<rparr> in
      if value = routeMonitorTarget then
        (if routes \<noteq> [] then plain\<lparr>rsSyntheticRouteTarget := True, rsSyntheticRouteParent := True\<rparr> else plain)
      else
       (case RouteFromTarget value of
          None \<Rightarrow> plain
        | Some route \<Rightarrow> plain\<lparr>rsTarget := Target route, rsSyntheticRouteTarget := route \<in> set routes\<rparr>))"

text \<open>Insertion of an override with \<open>ON CONFLICT(service_id, target) DO UPDATE\<close>.\<close>

fun put_override :: "OverrideRow \<Rightarrow> OverrideRow list \<Rightarrow> OverrideRow list" where
  "put_override new [] = [new]"
| "put_override new (ov # rest) =
     (if ovServiceID ov = ovServiceID new \<and> ovTarget ov = ovTarget new then new # rest else ov # put_override new rest)"

definition not_applicable_text :: string where "not_applicable_text = ''not applicable''"

definition not_applicable_status :: "string \<Rightarrow> string \<Rightarrow> gotime \<Rightarrow> StatusResult" where
  "not_applicable_status sid target now = \<lparr>srServiceID = sid, srTarget = target, srHealth = HealthNotApplicable,
     srMessage = not_applicable_text, srCheckedAt = to_seconds now, srExpiresAt = zero_time, srObservedImages = []\<rparr>"

definition insert_status :: "StatusResult \<Rightarrow> DashDB \<Rightarrow> DashDB" where
  "insert_status row db = set_statuses (put_status (\<lambda>_. row) row (dbStatuses db)) db"

datatype status_error = ServiceAndTargetRequired | ErrStatusNotFound

definition set_not_applicable :: "string \<Rightarrow> resolvedMonitorOverrideTarget \<Rightarrow> gotime \<Rightarrow> DashDB \<Rightarrow> DashDB" where
  "set_not_applicable sid resolved now db =
     (let target = rsTarget resolved;
          db1 = db\<lparr>dbOverrides := put_override \<lparr>ovServiceID = sid, ovTarget = target, ovNotApplicable = 1, ovUpdatedAt = RFC3339 now\<rparr>
                     (dbOverrides db)\<rparr>;
          db2 = insert_status (not_applicable_status sid target now) db1;
          db3 = (if rsSyntheticRouteParent resolved then deleteStatusForServiceTargetPrefix sid (target_Prefix @ ''%'') db2 else db2)
      in deleteStatusHistoryForServiceTarget sid target db3)"

definition enabled_status :: "gotime \<Rightarrow> StatusResult \<Rightarrow> StatusResult" where
  "enabled_status now s = s\<lparr>srHealth := HealthUnknown, srMessage := ''monitor enabled; waiting for next check'', srCheckedAt := to_seconds now\<rparr>"

definition set_applicable :: "string \<Rightarrow> string \<Rightarrow> gotime \<Rightarrow> DashDB \<Rightarrow> DashDB" where
  "set_applicable sid target now db =
     (let db1 = db\<lparr>dbOverrides := filter (\<lambda>ov. \<not> (ovServiceID ov = sid \<and> ovTarget ov = target)) (dbOverrides db)\<rparr>
      in set_statuses (map (\<lambda>s. if srServiceID s = sid \<and> srTarget s = target \<and> srHealth s = HealthNotApplicable
                                then enabled_status now s else s) (dbStatuses db1)) db1)"

definition SetMonitorNotApplicable :: "string \<Rightarrow> string \<Rightarrow> bool \<Rightarrow> gotime \<Rightarrow> DashDB \<Rightarrow> DashDB \<times> status_error option" where
  "SetMonitorNotApplicable sid0 target0 notApplicable now db =
     (let sid = TrimSpace sid0; target = TrimSpace target0 in
      if sid = [] \<or> target = [] then (db, Some ServiceAndTargetRequired)
      else
       (let resolved = resolveMonitorOverrideTarget db sid target in
        if status_at db sid (rsTarget resolved) = None \<and> (\<not> notApplicable \<or> \<not> rsSyntheticRouteTarget resolved)
        then (db, Some ErrStatusNotFound)
        else
         (let db1 = (if notApplicable then set_not_applicable sid resolved now db
                     else set_applicable sid (rsTarget resolved) now db)
          in (observe sid now now (commitAndInvalidateSummary db1), None))))"

section \<open>Writing results\<close>

text \<open>
  The result as it is written: trimmed, under its canonical target, made not applicable by an override
  of the target; a child of an overridden parent is not written.
\<close>

definition overridden_status :: "StatusResult \<Rightarrow> StatusResult" where
  "overridden_status s = s\<lparr>srHealth := HealthNotApplicable, srMessage := not_applicable_text, srObservedImages := [], srExpiresAt := zero_time\<rparr>"

definition canonical_status :: "StatusResult \<Rightarrow> StatusResult" where
  "canonical_status s = s\<lparr>srServiceID := TrimSpace (srServiceID s), srTarget := canonicalStatusTarget (srTarget s)\<rparr>"

definition admitted_status :: "DashDB \<Rightarrow> StatusResult \<Rightarrow> StatusResult option" where
  "admitted_status db s =
     (case monitorOverrideState db (srServiceID s) (srTarget s) of (exactOverride, parentOverride) \<Rightarrow>
        if parentOverride \<and> IsChildTarget (srTarget s) then None
        else Some (if exactOverride then overridden_status s else s))"

text \<open>The columns: text with seconds, the message redacted, an empty text for no expiry.\<close>

definition status_columns :: "DashDB \<Rightarrow> StatusResult \<Rightarrow> StatusResult" where
  "status_columns db s = s\<lparr>srMessage := db_redact db (srMessage s), srCheckedAt := to_seconds (srCheckedAt s),
     srExpiresAt := (if srExpiresAt s = zero_time then zero_time else to_seconds (srExpiresAt s))\<rparr>"

definition write_status :: "StatusResult \<Rightarrow> DashDB \<Rightarrow> DashDB" where
  "write_status s db =
     (let row = status_columns db s; db1 = insert_status row db in
      if srHealth s = HealthNotApplicable then deleteStatusHistoryForServiceTarget (srServiceID s) (srTarget s) db1
      else insert_history (srServiceID s) (srTarget s) (srHealth s) (srMessage row) (RFC3339 (srCheckedAt s)) db1)"

definition with_expiry :: "DashDB \<Rightarrow> StatusResult \<Rightarrow> StatusResult" where
  "with_expiry db s =
     (if srExpiresAt s = zero_time \<and> 0 < statusTTL db (srTarget s) \<and> srCheckedAt s \<noteq> zero_time
      then s\<lparr>srExpiresAt := srCheckedAt s + statusTTL db (srTarget s)\<rparr> else s)"

definition UpsertStatus :: "StatusResult \<Rightarrow> gotime \<Rightarrow> DashDB \<Rightarrow> DashDB" where
  "UpsertStatus status0 now db =
     (let status = with_expiry db (canonical_status status0) in
      case admitted_status db status of
        None \<Rightarrow> db
      | Some s \<Rightarrow> observe (srServiceID s) (srCheckedAt s) now (commitAndInvalidateSummary (write_status s db)))"

section \<open>Agents\<close>

fun put_agent :: "AgentRow \<Rightarrow> AgentRow list \<Rightarrow> AgentRow list" where
  "put_agent new [] = [new]"
| "put_agent new (a # rest) = (if arTarget a = arTarget new then new # rest else a # put_agent new rest)"

definition agent_row :: "AgentMessage \<Rightarrow> gotime \<Rightarrow> AgentRow" where
  "agent_row message received =
     \<lparr>arTarget = amTarget message, arLastSeenAt = RFC3339 received,
      arStaleAfter = (if amStaleAfter message = zero_time then [] else RFC3339 (amStaleAfter message)),
      arContainers = amContainers message\<rparr>"

definition UpsertAgent :: "AgentMessage \<Rightarrow> gotime \<Rightarrow> DashDB \<Rightarrow> DashDB" where
  "UpsertAgent message now db =
     db\<lparr>dbAgents := put_agent (agent_row (FilterAgentMessageDockerLabels message) now) (dbAgents db)\<rparr>"

text \<open>One status of a report; the ids of the services written are collected.\<close>

definition report_step :: "StatusResult \<Rightarrow> DashDB \<times> string list \<Rightarrow> DashDB \<times> string list" where
  "report_step status st =
     (case admitted_status (fst st) (canonical_status status) of
        None \<Rightarrow> st
      | Some s \<Rightarrow> (write_status s (fst st), snd st @ [srServiceID s]))"

definition UpsertAgentReport :: "AgentMessage \<Rightarrow> StatusResult list \<Rightarrow> gotime \<Rightarrow> gotime \<Rightarrow> DashDB \<Rightarrow> DashDB" where
  "UpsertAgentReport message statuses receivedAt now db =
     (let db1 = db\<lparr>dbAgents := put_agent (agent_row (FilterAgentMessageDockerLabels message) receivedAt) (dbAgents db)\<rparr>
      in case fold report_step statuses (db1, []) of (db2, affected) \<Rightarrow>
           on_health (observeHealthAlerts (dedupeStrings affected) receivedAt now) (commitAndInvalidateSummary db2))"

definition agent_info :: "DashDB \<Rightarrow> AgentRow \<Rightarrow> AgentInfo" where
  "agent_info db a =
     \<lparr>agTarget = arTarget a, agLastSeenAt = arLastSeenAt a,
      agStaleAfter = (if arStaleAfter a \<noteq> [] then arStaleAfter a
        else (case parse_RFC3339 (arLastSeenAt a) of
                None \<Rightarrow> []
              | Some seen \<Rightarrow> if 0 < statusTTL db (arTarget a) then RFC3339 (seen + statusTTL db (arTarget a)) else [])),
      agConfigured = False, agContainers = arContainers a\<rparr>"

definition Agents :: "DashDB \<Rightarrow> AgentInfo list" where
  "Agents db = map (agent_info db) (sort_key arTarget (dbAgents db))"

section \<open>Removing statuses\<close>

definition commitStatusTargetPrune :: "string \<Rightarrow> string list \<Rightarrow> gotime \<Rightarrow> DashDB \<Rightarrow> DashDB" where
  "commitStatusTargetPrune sid removeTargets now db =
     observe sid now now (commitAndInvalidateSummary (deleteByServiceAndTargets sid removeTargets db))"

definition PruneStatusTargets :: "string \<Rightarrow> string \<Rightarrow> string \<Rightarrow> string list \<Rightarrow> gotime \<Rightarrow> DashDB \<Rightarrow> DashDB" where
  "PruneStatusTargets sid exactTarget pre keep now db =
     (let targets = map srTarget (filter (\<lambda>s. srServiceID s = sid) (dbStatuses db));
          removeTargets = filter (\<lambda>t. \<not> (t \<noteq> exactTarget \<and> (pre = [] \<or> \<not> HasPrefix t pre)) \<and> t \<notin> set keep) targets
      in commitStatusTargetPrune sid removeTargets now db)"

text \<open>The variant for targets already looked up: the routes of ambiguous identities stay.\<close>

definition excluded_routes :: "DashDB \<Rightarrow> string \<Rightarrow> string \<Rightarrow> string list \<Rightarrow> string list" where
  "excluded_routes db sid pre statusTargets =
     (if pre = [] then []
      else (let candidateRoutes = map (\<lambda>t. TrimPrefix t pre) (filter (\<lambda>t. HasPrefix t pre) statusTargets) in
            map snd (filter (\<lambda>(s, old). s = sid \<and> old \<in> set candidateRoutes) (dbExclusions db))))"

definition PruneStatusTargetsFromKnown ::
  "string \<Rightarrow> string \<Rightarrow> string \<Rightarrow> string list \<Rightarrow> string list \<Rightarrow> bool \<Rightarrow> gotime \<Rightarrow> DashDB \<Rightarrow> DashDB" where
  "PruneStatusTargetsFromKnown sid exactTarget pre keep statusTargets keepExact now db =
     (let excludedRoutes = excluded_routes db sid pre statusTargets;
          removeTargets = filter (\<lambda>t.
            if t = exactTarget \<and> exactTarget \<noteq> [] then \<not> keepExact
            else \<not> (pre = [] \<or> \<not> HasPrefix t pre) \<and> t \<notin> set keep \<and> TrimPrefix t pre \<notin> set excludedRoutes) statusTargets
      in if removeTargets = [] then db else commitStatusTargetPrune sid removeTargets now db)"

definition statusHistoryWindow :: duration where "statusHistoryWindow = 7 * 24 * Hour"

definition PruneStatusHistory :: "gotime \<Rightarrow> DashDB \<Rightarrow> DashDB" where
  "PruneStatusHistory now db =
     (case deleteStatusHistoryBefore (RFC3339 (now - statusHistoryWindow)) db of
        (db1, deleted) \<Rightarrow> if deleted then commitAndInvalidateSummary db1 else db1)"

section \<open>The lookup of route monitors\<close>

record RouteMonitorLookup =
  rlOverrides :: "string list"
  rlStatusTargets :: "string list"

definition routeMonitorLookupBatchSize :: int where "routeMonitorLookupBatchSize = 500"

text \<open>One batch: the two queries, each row added to the entry of its service.\<close>

definition add_override :: "string \<times> string \<Rightarrow> (string \<rightharpoonup> RouteMonitorLookup) \<Rightarrow> (string \<rightharpoonup> RouteMonitorLookup)" where
  "add_override row result = (case result (fst row) of
     None \<Rightarrow> result | Some st \<Rightarrow> result(fst row \<mapsto> st\<lparr>rlOverrides := List.insert (snd row) (rlOverrides st)\<rparr>))"

definition add_target :: "string \<times> string \<Rightarrow> (string \<rightharpoonup> RouteMonitorLookup) \<Rightarrow> (string \<rightharpoonup> RouteMonitorLookup)" where
  "add_target row result = (case result (fst row) of
     None \<Rightarrow> result | Some st \<Rightarrow> result(fst row \<mapsto> st\<lparr>rlStatusTargets := List.insert (snd row) (rlStatusTargets st)\<rparr>))"

definition lookup_target :: "string \<Rightarrow> string \<Rightarrow> string \<Rightarrow> bool" where
  "lookup_target exactTarget targetPrefix target \<longleftrightarrow> target = exactTarget \<or> like (targetPrefix @ ''%'') target"

definition routeMonitorLookupChunk ::
  "DashDB \<Rightarrow> string \<Rightarrow> string \<Rightarrow> string list \<Rightarrow> (string \<rightharpoonup> RouteMonitorLookup) \<Rightarrow> (string \<rightharpoonup> RouteMonitorLookup)" where
  "routeMonitorLookupChunk db exactTarget targetPrefix serviceIDs result =
     (let overrideRows = map (\<lambda>ov. (ovServiceID ov, ovTarget ov)) (filter (\<lambda>ov. ovServiceID ov \<in> set serviceIDs \<and>
            ovNotApplicable ov = 1 \<and> lookup_target exactTarget targetPrefix (ovTarget ov)) (dbOverrides db));
          statusRows = map (\<lambda>s. (srServiceID s, srTarget s)) (filter (\<lambda>s. srServiceID s \<in> set serviceIDs \<and>
            lookup_target exactTarget targetPrefix (srTarget s)) (dbStatuses db))
      in fold add_target statusRows (fold add_override overrideRows result))"

definition RouteMonitorLookup_of ::
  "DashDB \<Rightarrow> string list \<Rightarrow> string \<Rightarrow> string \<Rightarrow> (string \<rightharpoonup> RouteMonitorLookup)" where
  "RouteMonitorLookup_of db serviceIDs0 exactTarget targetPrefix =
     (let serviceIDs = dedupeStrings serviceIDs0;
          empty = (\<lambda>sid. if sid \<in> set serviceIDs then Some \<lparr>rlOverrides = [], rlStatusTargets = []\<rparr> else None)
      in fold (routeMonitorLookupChunk db exactTarget targetPrefix) (chunkStrings serviceIDs routeMonitorLookupBatchSize) empty)"

section \<open>Reading results\<close>

text \<open>
  The expiry of a row: its own, or for a row written before there were any the one that its agent or the
  configured window gives.
\<close>

definition derived_expiry :: "DashDB \<Rightarrow> StatusResult \<Rightarrow> gotime" where
  "derived_expiry db s =
     (if srExpiresAt s \<noteq> zero_time then srExpiresAt s
      else if srCheckedAt s = zero_time then zero_time
      else
       (let agent = find (\<lambda>a. arTarget a = srTarget s) (dbAgents db);
            basis = (case bind_opt agent (\<lambda>a. parse_RFC3339 (arLastSeenAt a)) of Some seen \<Rightarrow> seen | None \<Rightarrow> srCheckedAt s);
            ttl = statusTTL db (srTarget s)
        in case bind_opt agent (\<lambda>a. parse_RFC3339 (arStaleAfter a)) of
             Some t \<Rightarrow> t
           | None \<Rightarrow> if 0 < ttl then basis + ttl
                     else if agent \<noteq> None \<and> srCheckedAt s \<noteq> basis then basis
                     else zero_time))"

definition stale_text :: string where "stale_text = ''monitor result is stale; waiting for a current check''"

definition aged_status :: "DashDB \<Rightarrow> gotime \<Rightarrow> StatusResult \<Rightarrow> StatusResult" where
  "aged_status db now row =
     (let s = row\<lparr>srMessage := db_redact db (srMessage row), srExpiresAt := derived_expiry db row\<rparr> in
      if srExpiresAt s \<noteq> zero_time \<and> \<not> now < srExpiresAt s \<and> srHealth s \<noteq> HealthNotApplicable
      then s\<lparr>srHealth := HealthUnknown, srMessage := stale_text, srObservedImages := [], srExpiresAt := zero_time\<rparr>
      else s)"

definition read_status :: "DashDB \<Rightarrow> gotime \<Rightarrow> StatusResult \<Rightarrow> StatusResult option" where
  "read_status db now row =
     (let s = aged_status db now row in
      if srServiceID s \<in> set (parentRouteOverrideServices db) \<and> HasPrefix (srTarget s) target_Prefix then None
      else if status_key (srServiceID s) (srTarget s) \<in> set (activeMonitorOverrides db)
      then Some (s\<lparr>srHealth := HealthNotApplicable, srMessage := not_applicable_text, srObservedImages := []\<rparr>)
      else Some s)"

definition StatusResults :: "DashDB \<Rightarrow> gotime \<Rightarrow> StatusResult list" where
  "StatusResults db now = List.map_filter (read_status db now) (sort_desc srCheckedAt (dbStatuses db))"

section \<open>Uptime\<close>

text \<open>
  The rows of the last day that count. A percentage with one digit is kept in tenths, rounded half up;
  the code computes it in floating point. Rows checked at the same instant come in the order of their ids.
\<close>

definition uptime_rows :: "DashDB \<Rightarrow> string \<Rightarrow> HistoryRow list" where
  "uptime_rows db windowStart =
     filter (\<lambda>h. windowStart \<le> hyCheckedAt h \<and> hyHealth h \<noteq> HealthNotApplicable \<and>
       \<not> list_ex (\<lambda>ov. ovServiceID ov = hyServiceID h \<and> ovTarget ov = hyTarget h \<and> ovNotApplicable ov = 1) (dbOverrides db))
       (dbHistory db)"

definition uptime_tenths :: "nat \<Rightarrow> nat \<Rightarrow> nat" where
  "uptime_tenths up tot = (if tot = 0 then 0 else (2000 * up + tot) div (2 * tot))"

definition counts_as_up :: "HistoryRow \<Rightarrow> bool" where
  "counts_as_up h \<longleftrightarrow> hyHealth h = HealthHealthy \<or> hyHealth h = HealthDegraded"

definition uptime_sample :: "DashDB \<Rightarrow> HistoryRow \<Rightarrow> UptimeSample" where
  "uptime_sample db h = \<lparr>usHealth = hyHealth h,
     usCheckedAt = (case parse_RFC3339 (hyCheckedAt h) of Some t \<Rightarrow> t | None \<Rightarrow> zero_time), usMessage = db_redact db (hyMessage h)\<rparr>"

definition newest_samples :: "HistoryRow list \<Rightarrow> HistoryRow list" where
  "newest_samples rows = rev (take 40 (rev (sort_key (\<lambda>h. (hyCheckedAt h, hyID h)) rows)))"

definition uptime_stat :: "DashDB \<Rightarrow> HistoryRow list \<Rightarrow> string \<times> string \<Rightarrow> UptimeStat" where
  "uptime_stat db rows key =
     (let mine = filter (\<lambda>h. (hyServiceID h, hyTarget h) = key) rows
      in \<lparr>utServiceID = fst key, utTarget = snd key, utTenths = uptime_tenths (length (filter counts_as_up mine)) (length mine),
          utCheckCount = length mine, utSamples = map (uptime_sample db) (newest_samples mine)\<rparr>)"

definition UptimeStats :: "DashDB \<Rightarrow> gotime \<Rightarrow> UptimeStat list" where
  "UptimeStats db now =
     (let rows = uptime_rows db (RFC3339 (now - 24 * Hour));
          parents = parentRouteOverrideServices db;
          keys = filter (\<lambda>(sid, target). \<not> (sid \<in> set parents \<and> HasPrefix target target_Prefix))
                   (dedup_by (\<lambda>k. k) (map (\<lambda>h. (hyServiceID h, hyTarget h)) rows))
      in sort_key (\<lambda>s. (utServiceID s, utTarget s)) (map (uptime_stat db rows) keys))"

section \<open>The summary\<close>

definition no_build :: BuildInfo where "no_build = \<lparr>biVersion = [], biCommit = [], biBuildDate = []\<rparr>"

definition buildSummary :: "DashDB \<Rightarrow> gotime \<Rightarrow> DashboardSummary" where
  "buildSummary db now =
     (let statuses = StatusResults db now;
          services = ApplyImageVersionComparisons (applyLatestStatus (Services db) statuses) statuses
      in \<lparr>dsRepositories = Repositories db, dsServices = services, dsScans = Scans db, dsStatuses = statuses,
          dsUptime = UptimeStats db now, dsAgents = [], dsVersion = no_build, dsGeneratedAt = now\<rparr>)"

definition Summary :: "gotime \<Rightarrow> DashDB \<Rightarrow> DashDB \<times> DashboardSummary" where
  "Summary now db =
     (case cachedSummary now (dbCache db) of
        Some summary \<Rightarrow> (db, summary)
      | None \<Rightarrow>
          (let version = currentSummaryVersion (dbCache db); summary = buildSummary db now
           in (db\<lparr>dbCache := cacheSummary version summary now (dbCache db)\<rparr>, summary)))"

end
