(* ===== verification/HealthProps.thy ===== *)
theory HealthProps
  imports AlertOutbox Health "HOL-Library.Sublist"
begin

text \<open>
  What the roll-up means, which row of each target counts, and what the producer of health alerts
  guarantees over a whole run of observations: an event needs a window of observations that agree on
  the new state, long enough for the configured number of samples and for the debounce time.
\<close>

section \<open>The roll-up\<close>

lemma priority_healthy: "healthPriority h = 3 \<longleftrightarrow> h = HealthHealthy"
  by (auto simp: healthPriority_def)

lemma priority_le4: "h \<noteq> HealthNotApplicable \<Longrightarrow> healthPriority h \<le> 4"
  by (auto simp: healthPriority_def)

lemma priority_unknown: "healthPriority HealthUnknown = 4"
  by (simp add: healthPriority_def)

lemma image_constant_iff: "f ` set (x # xs) = {c} \<longleftrightarrow> (\<forall>y \<in> set (x # xs). f y = c)"
  by auto

lemma image_mem_iff: "c \<in> f ` S \<longleftrightarrow> (\<exists>y \<in> S. f y = c)"
  by auto

lemma rollup_step_apply:
  "rollup_step s (a, b, c, w) =
     (if srHealth s = HealthHealthy then a else False, if srHealth s = HealthHealthy then True else b,
      if srHealth s \<noteq> HealthUnknown then False else c,
      if healthPriority (srHealth s) < healthPriority w then srHealth s else w)"
  by (simp add: rollup_step_def)

lemma fold_rollup:
  "fold rollup_step ss (a, b, c, w) = (a', b', c', w') \<Longrightarrow>
     (a' \<longleftrightarrow> a \<and> (\<forall>s \<in> set ss. srHealth s = HealthHealthy)) \<and>
     (b' \<longleftrightarrow> b \<or> (\<exists>s \<in> set ss. srHealth s = HealthHealthy)) \<and>
     (c' \<longleftrightarrow> c \<and> (\<forall>s \<in> set ss. srHealth s = HealthUnknown)) \<and>
     healthPriority w' = Min (insert (healthPriority w) ((healthPriority \<circ> srHealth) ` set ss))"
proof (induction ss arbitrary: a b c w)
  case Nil
  then show ?case by simp
next
  case (Cons s ss)
  let ?w = "if healthPriority (srHealth s) < healthPriority w then srHealth s else w"
  have p: "healthPriority ?w = min (healthPriority w) (healthPriority (srHealth s))" by (simp add: min_def)
  have fin: "finite ((healthPriority \<circ> srHealth) ` set ss)" by simp
  from Cons.prems have "fold rollup_step ss
      (if srHealth s = HealthHealthy then a else False, if srHealth s = HealthHealthy then True else b,
       if srHealth s \<noteq> HealthUnknown then False else c, ?w) = (a', b', c', w')"
    by (simp only: fold_simps rollup_step_apply)
  from Cons.IH [OF this] p fin show ?case
    by (cases "(healthPriority \<circ> srHealth) ` set ss = {}") (auto simp: min.assoc min.commute min.left_commute)
qed

definition applicable_healths :: "StatusResult list \<Rightarrow> HealthState set" where
  "applicable_healths ss = srHealth ` {s \<in> set ss. srHealth s \<noteq> HealthNotApplicable}"

lemma aggregate_many:
  assumes "filter (\<lambda>s. srHealth s \<noteq> HealthNotApplicable) ss = s # t # rest"
  shows "aggregateTargetHealth ss =
     (if applicable_healths ss = {HealthHealthy} then HealthHealthy
      else if HealthHealthy \<in> applicable_healths ss then HealthDegraded
      else aggregateTargetHealth ss)"
    and "HealthHealthy \<notin> applicable_healths ss \<Longrightarrow>
      healthPriority (aggregateTargetHealth ss) = Min (healthPriority ` applicable_healths ss)"
proof -
  let ?F = "s # t # rest"
  obtain a b c w where f: "fold rollup_step ?F (True, False, True, HealthUnknown) = (a, b, c, w)"
    by (metis prod.exhaust)
  have A: "applicable_healths ss = srHealth ` set ?F"
    by (simp only: applicable_healths_def set_filter [symmetric] assms)
  have na: "srHealth x \<noteq> HealthNotApplicable" if "x \<in> set ?F" for x
  proof -
    from that have "x \<in> set (filter (\<lambda>s. srHealth s \<noteq> HealthNotApplicable) ss)" by (simp only: assms)
    then show ?thesis by simp
  qed
  note m = fold_rollup [OF f]
  have agg: "aggregateTargetHealth ss =
      (if a then HealthHealthy else if b then HealthDegraded else if c then HealthUnknown else w)"
    by (simp add: aggregateTargetHealth_def assms f del: fold.simps)
  have abc: "a \<longleftrightarrow> applicable_healths ss = {HealthHealthy}" "b \<longleftrightarrow> HealthHealthy \<in> applicable_healths ss"
    using conjunct1 [OF m] conjunct1 [OF conjunct2 [OF m]]
    by (simp_all only: A image_constant_iff image_mem_iff simp_thms)
  show "aggregateTargetHealth ss = (if applicable_healths ss = {HealthHealthy} then HealthHealthy
      else if HealthHealthy \<in> applicable_healths ss then HealthDegraded else aggregateTargetHealth ss)"
    unfolding agg abc by (rule if_cong [OF refl refl], simp)
  assume none: "HealthHealthy \<notin> applicable_healths ss"
  have img: "(healthPriority \<circ> srHealth) ` set ?F = healthPriority ` applicable_healths ss" by (simp only: A image_comp)
  have ne: "healthPriority ` applicable_healths ss \<noteq> {}" "finite (healthPriority ` applicable_healths ss)"
    by (simp_all add: A)
  have le: "Min (healthPriority ` applicable_healths ss) \<le> 4"
    using na [of s] priority_le4 [of "srHealth s"] by (intro order_trans [OF Min_le]) (auto simp: A)
  have "healthPriority w = Min (insert (healthPriority HealthUnknown) ((healthPriority \<circ> srHealth) ` set ?F))"
    using m by (elim conjE)
  then have w: "healthPriority w = Min (healthPriority ` applicable_healths ss)"
    by (simp only: img priority_unknown Min_insert [OF ne(2) ne(1)] min_absorb2 [OF le])
  show "healthPriority (aggregateTargetHealth ss) = Min (healthPriority ` applicable_healths ss)"
  proof (cases c)
    case True
    with m have "\<forall>x \<in> set ?F. srHealth x = HealthUnknown" by (elim conjE) blast
    then have "applicable_healths ss = {HealthUnknown}" by (simp only: A image_constant_iff)
    with True none abc agg show ?thesis by (auto simp: priority_unknown)
  next
    case False
    with none abc agg w show ?thesis by auto
  qed
qed

text \<open>C28: The roll-up of a service: with no applicable target it is unknown; it is healthy exactly when
  every applicable target is; a mixture of healthy and other targets is degraded; and with no healthy
  target it is a state of the worst priority among them.\<close>
theorem rollup_meaning:
  "(applicable_healths ss = {} \<longrightarrow> aggregateTargetHealth ss = HealthUnknown) \<and>
   (aggregateTargetHealth ss = HealthHealthy \<longleftrightarrow> applicable_healths ss = {HealthHealthy}) \<and>
   (HealthHealthy \<in> applicable_healths ss \<and> applicable_healths ss \<noteq> {HealthHealthy} \<longrightarrow>
      aggregateTargetHealth ss = HealthDegraded) \<and>
   (applicable_healths ss \<noteq> {} \<and> HealthHealthy \<notin> applicable_healths ss \<longrightarrow>
      healthPriority (aggregateTargetHealth ss) = Min (healthPriority ` applicable_healths ss))"
proof -
  let ?F = "filter (\<lambda>s. srHealth s \<noteq> HealthNotApplicable) ss"
  have A: "applicable_healths ss = srHealth ` set ?F" by (simp add: applicable_healths_def)
  consider (none) "?F = []" | (one) s where "?F = [s]" | (many) s t rest where "?F = s # t # rest"
    by (metis neq_Nil_conv)
  then show ?thesis
  proof cases
    case none
    then show ?thesis by (simp add: A aggregateTargetHealth_def)
  next
    case one
    then show ?thesis by (auto simp: A aggregateTargetHealth_def)
  next
    case many
    note m = aggregate_many [OF many]
    have ne: "applicable_healths ss \<noteq> {}" "finite (applicable_healths ss)" by (simp_all only: A many) auto
    have "aggregateTargetHealth ss \<noteq> HealthHealthy" if n: "HealthHealthy \<notin> applicable_healths ss"
    proof
      assume "aggregateTargetHealth ss = HealthHealthy"
      with m(2) [OF n] have "Min (healthPriority ` applicable_healths ss) = 3"
        using priority_healthy [of HealthHealthy] by simp
      then have "3 \<in> healthPriority ` applicable_healths ss"
        using ne Min_in [of "healthPriority ` applicable_healths ss"] by simp
      with n show False using priority_healthy by (metis imageE)
    qed
    with m ne show ?thesis by (auto split: if_splits)
  qed
qed

definition demo_status :: "string \<Rightarrow> HealthState \<Rightarrow> gotime \<Rightarrow> StatusResult" where
  "demo_status target h t = \<lparr>srServiceID = ''web'', srTarget = target, srHealth = h, srMessage = [],
     srCheckedAt = t, srExpiresAt = 0, srObservedImages = []\<rparr>"

theorem rollup_meaning_witness:
  "aggregateTargetHealth [demo_status ''a'' HealthHealthy 1, demo_status ''b'' HealthError 1] = HealthDegraded"
proof -
  have "applicable_healths [demo_status ''a'' HealthHealthy 1, demo_status ''b'' HealthError 1] = {HealthHealthy, HealthError}"
    by (simp add: applicable_healths_def demo_status_def insert_Collect [symmetric] Collect_disj_eq conj_disj_distribR cong: conj_cong) auto
  then show ?thesis
    using rollup_meaning [of "[demo_status ''a'' HealthHealthy 1, demo_status ''b'' HealthError 1]"] by auto
qed

section \<open>The latest row of each target\<close>

text \<open>The order in which \<open>applyLatestStatus\<close> prefers the rows of a target: the later one, and the
  worse one of two at the same instant.\<close>

definition outranks :: "StatusResult \<Rightarrow> StatusResult \<Rightarrow> bool" where
  "outranks s t \<longleftrightarrow> srCheckedAt t < srCheckedAt s \<or>
     (srCheckedAt s = srCheckedAt t \<and> healthPriority (srHealth s) \<le> healthPriority (srHealth t))"

lemma outranks_refl [simp]: "outranks s s"
  by (simp add: outranks_def)

lemma outranks_trans: "outranks s t \<Longrightarrow> outranks t u \<Longrightarrow> outranks s u"
  by (auto simp: outranks_def)

lemma outranks_linear: "outranks s t \<or> outranks t s"
  by (auto simp: outranks_def)

lemma replaced_outranks:
  "(srCheckedAt c < srCheckedAt s \<or> (srCheckedAt s = srCheckedAt c \<and> healthPriority (srHealth s) < healthPriority (srHealth c)))
     \<longleftrightarrow> \<not> outranks c s"
  by (auto simp: outranks_def)

lemma latest_insert_targets:
  "srTarget ` set (latest_insert s acc) = insert (srTarget s) (srTarget ` set acc)"
  by (induction acc) (auto simp: insert_commute)

lemma latest_insert_distinct:
  "distinct (map srTarget acc) \<Longrightarrow> distinct (map srTarget (latest_insert s acc))"
proof (induction acc)
  case (Cons c acc)
  have "srTarget c \<notin> srTarget ` set (latest_insert s acc)" if "srTarget c \<noteq> srTarget s"
    using Cons.prems that by (simp add: latest_insert_targets)
  with Cons show ?case by auto
qed simp

lemma latest_insert_from: "set (latest_insert s acc) \<subseteq> insert s (set acc)"
  by (induction acc) auto

lemma latest_insert_best:
  assumes "distinct (map srTarget acc)" "x \<in> set (latest_insert s acc)"
  shows "(x \<in> set acc \<or> srTarget x = srTarget s) \<and> (srTarget x = srTarget s \<longrightarrow> outranks x s) \<and>
    (\<forall>y \<in> set acc. srTarget y = srTarget x \<longrightarrow> outranks x y)"
  using assms
proof (induction acc)
  case Nil
  then show ?case by simp
next
  case (Cons c acc)
  show ?case
  proof (cases "srTarget c = srTarget s")
    case True
    then have x: "x = (if \<not> outranks c s then s else c) \<or> x \<in> set acc" using Cons.prems(2) by (auto simp: replaced_outranks)
    then show ?thesis
    proof
      assume e: "x = (if \<not> outranks c s then s else c)"
      have "srTarget y \<noteq> srTarget c" if "y \<in> set acc" for y using Cons.prems(1) that by (auto simp: image_iff)
      with e True outranks_linear [of c s] show ?thesis by auto
    next
      assume m: "x \<in> set acc"
      then have "srTarget x \<noteq> srTarget c" using Cons.prems(1) by (auto simp: image_iff)
      moreover have "y = x" if "y \<in> set acc" "srTarget y = srTarget x" for y
        using Cons.prems(1) m that by (simp add: distinct_map inj_on_def)
      ultimately show ?thesis using m True by (auto simp: outranks_def)
    qed
  next
    case False
    then consider "x = c" | "x \<in> set (latest_insert s acc)" using Cons.prems(2) by auto
    then show ?thesis
    proof cases
      case 1
      have "srTarget y \<noteq> srTarget c" if "y \<in> set acc" for y using Cons.prems(1) that by (auto simp: image_iff)
      with 1 False show ?thesis by auto
    next
      case 2
      with Cons have ih: "(x \<in> set acc \<or> srTarget x = srTarget s) \<and> (srTarget x = srTarget s \<longrightarrow> outranks x s) \<and>
        (\<forall>y \<in> set acc. srTarget y = srTarget x \<longrightarrow> outranks x y)" by simp
      then have "srTarget x \<noteq> srTarget c" using Cons.prems(1) False by (auto simp: image_iff)
      with ih show ?thesis by auto
    qed
  qed
qed

lemma latest_fold:
  "distinct (map srTarget acc) \<Longrightarrow>
   distinct (map srTarget (fold latest_insert ss acc)) \<and>
   srTarget ` set (fold latest_insert ss acc) = srTarget ` (set ss \<union> set acc) \<and>
   (\<forall>x \<in> set (fold latest_insert ss acc). x \<in> set ss \<union> set acc \<and>
      (\<forall>y \<in> set ss \<union> set acc. srTarget y = srTarget x \<longrightarrow> outranks x y))"
proof (induction ss arbitrary: acc)
  case Nil
  from Nil have "inj_on srTarget (set acc)" by (simp add: distinct_map)
  then have "outranks x y" if "x \<in> set acc" "y \<in> set acc" "srTarget y = srTarget x" for x y
    using that outranks_refl inj_onD by metis
  with Nil show ?case by simp
next
  case (Cons s ss)
  let ?acc = "latest_insert s acc"
  note ih = Cons.IH [OF latest_insert_distinct [OF Cons.prems], of s]
  have a: "\<exists>z \<in> set ?acc. srTarget z = srTarget y \<and> outranks z y" if "y = s \<or> y \<in> set acc" for y
  proof -
    have "srTarget y \<in> srTarget ` set ?acc" using that by (auto simp: latest_insert_targets)
    then obtain z where z: "z \<in> set ?acc" "srTarget z = srTarget y" by (metis imageE)
    with latest_insert_best [OF Cons.prems z(1)] that show ?thesis by metis
  qed
  have "x \<in> set (s # ss) \<union> set acc \<and> (\<forall>y \<in> set (s # ss) \<union> set acc. srTarget y = srTarget x \<longrightarrow> outranks x y)"
    if x: "x \<in> set (fold latest_insert ss ?acc)" for x
  proof -
    from x ih have 1: "x \<in> set ss \<union> set ?acc" by blast
    from x ih have 2: "outranks x y" if "y \<in> set ss \<union> set ?acc" "srTarget y = srTarget x" for y
      using that by blast
    have 3: "outranks x y" if y: "y = s \<or> y \<in> set acc" "srTarget y = srTarget x" for y
    proof -
      from a [OF y(1)] obtain z where "z \<in> set ?acc" "srTarget z = srTarget y" "outranks z y" by blast
      with 2 [of z] y(2) show ?thesis by (metis UnI2 outranks_trans)
    qed
    from 1 latest_insert_from [of s acc] have "x \<in> set (s # ss) \<union> set acc" by auto
    moreover have "outranks x y" if "y \<in> set (s # ss) \<union> set acc" "srTarget y = srTarget x" for y
      using that 2 [of y] 3 [of y] by auto
    ultimately show ?thesis by blast
  qed
  moreover have "srTarget ` set (fold latest_insert ss ?acc) = srTarget ` (set (s # ss) \<union> set acc)"
    using ih by (simp add: latest_insert_targets image_Un Un_insert_right)
  ultimately show ?case using ih by (simp only: fold_simps) blast
qed

text \<open>The rows a service is rolled up from are one for each of its targets, and each is a row of
  the service that outranks every other row of the same target: the latest, and the worst of several
  at the same instant.\<close>
lemma latest_row_of_each_target:
  fixes statuses :: "StatusResult list" and sid :: string
  defines "rows \<equiv> {s \<in> set statuses. srServiceID s = sid}"
  shows "distinct (map srTarget (latest_by_target sid statuses)) \<and>
    srTarget ` set (latest_by_target sid statuses) = srTarget ` rows \<and>
    (\<forall>x \<in> set (latest_by_target sid statuses). x \<in> rows \<and> (\<forall>y \<in> rows. srTarget y = srTarget x \<longrightarrow> outranks x y))"
proof -
  have r: "rows = set (filter (\<lambda>s. srServiceID s = sid) statuses) \<union> set []" by (simp add: rows_def)
  show ?thesis unfolding r latest_by_target_def by (rule latest_fold) simp
qed

section \<open>The producer over a run\<close>

record HealthObs =
  hoRollup :: HealthState
  hoID :: string
  hoAt :: gotime

definition observation :: "string \<Rightarrow> gotime \<Rightarrow> HealthDB \<Rightarrow> HealthObs" where
  "observation sid observedAt db = (let statuses = service_statuses db sid in
     \<lparr>hoRollup = aggregateTargetHealth statuses, hoID = rollupObservationID statuses, hoAt = observedAt\<rparr>)"

definition producing :: "HealthDB \<Rightarrow> bool" where
  "producing db \<longleftrightarrow> hcEnabled (hdConfig db) \<and> \<not> isAlertStateLocked (hdStore db)"

text \<open>
  A run for one service, with the observations whose transaction committed. Between two of them the
  rest of the program may change anything but the service's row of \<open>health_alert_states\<close>: statuses,
  the configuration, the alert tables, the incarnation of the service.
\<close>

inductive health_run :: "string \<Rightarrow> HealthObs list \<Rightarrow> HealthDB \<Rightarrow> bool" for sid where
  fresh: "hdStates db sid = None \<Longrightarrow> health_run sid [] db"
| other: "health_run sid h db \<Longrightarrow> hdStates db' sid = hdStates db sid \<Longrightarrow> health_run sid h db'"
| observe: "health_run sid h db \<Longrightarrow> producing db \<Longrightarrow> produceHealthAlert sid observedAt now db = (db', None) \<Longrightarrow>
    health_run sid (h @ [observation sid observedAt db]) db'"

definition agreeing :: "HealthState \<Rightarrow> HealthObs list \<Rightarrow> bool" where
  "agreeing r w \<longleftrightarrow> w \<noteq> [] \<and> hoRollup (hd w) = r \<and> (\<forall>x \<in> set w. hoRollup x = r \<or> hoRollup x = HealthNotApplicable)"

text \<open>The number of samples in a window: an observation that repeats the one before it is no new sample.\<close>

definition sample_ids :: "HealthState \<Rightarrow> HealthObs list \<Rightarrow> string list" where
  "sample_ids r w = map hoID (filter (\<lambda>x. hoRollup x = r) w)"

definition samples :: "HealthState \<Rightarrow> HealthObs list \<Rightarrow> int" where
  "samples r w = int (length (remdups_adj (sample_ids r w)))"

definition window_for :: "HealthObs list \<Rightarrow> HealthAlertState \<Rightarrow> HealthObs list \<Rightarrow> bool" where
  "window_for h st w \<longleftrightarrow> suffix w h \<and> agreeing (haCandidate st) w \<and> haCandidate st \<noteq> HealthNotApplicable \<and>
     haCandidateStarted st = Some (hoAt (hd w)) \<and> haSamples st = samples (haCandidate st) w \<and>
     last (sample_ids (haCandidate st) w) = haCandidateObservation st"

definition tracks :: "HealthObs list \<Rightarrow> HealthAlertState \<Rightarrow> bool" where
  "tracks h st \<longleftrightarrow> haCandidate st = haStable st \<or> (\<exists>w. window_for h st w)"

lemma length_remdups_adj_snoc:
  "length (remdups_adj (xs @ [x])) = (if xs \<noteq> [] \<and> last xs = x then length (remdups_adj xs) else Suc (length (remdups_adj xs)))"
proof (induction xs rule: remdups_adj.induct)
  case (3 y z xs)
  then show ?case by (cases xs) auto
qed auto

lemma sample_ids_ne: "agreeing r w \<Longrightarrow> sample_ids r w \<noteq> []"
  by (cases w) (auto simp: agreeing_def sample_ids_def)

lemma window_snoc:
  assumes "suffix w h" "agreeing r w" "hoRollup x = r \<or> hoRollup x = HealthNotApplicable"
  shows "suffix (w @ [x]) (h @ [x])" "agreeing r (w @ [x])" "hd (w @ [x]) = hd w"
  using assms by (auto simp: agreeing_def suffix_def)

lemma tracks_not_applicable:
  assumes "tracks h st" "hoRollup x = HealthNotApplicable"
  shows "tracks (h @ [x]) st"
proof (cases "haCandidate st = haStable st")
  case True
  then show ?thesis by (simp add: tracks_def)
next
  case False
  with assms obtain w where w: "window_for h st w" by (auto simp: tracks_def)
  then have "sample_ids (haCandidate st) (w @ [x]) = sample_ids (haCandidate st) w"
    using assms(2) by (auto simp: sample_ids_def window_for_def)
  then have "window_for (h @ [x]) st (w @ [x])"
    using w window_snoc [of w h "haCandidate st" x] assms(2) by (simp add: window_for_def samples_def)
  then show ?thesis by (auto simp: tracks_def)
qed

lemma count_candidate_fields:
  "haStable (count_candidate r i at st) = haStable st"
  "haCandidate (count_candidate r i at st) = r"
  "haSamples (count_candidate r i at st) =
     (if haCandidate st = r then (if haCandidateObservation st \<noteq> i then haSamples st + 1 else haSamples st) else 1)"
  "haCandidateObservation (count_candidate r i at st) = i"
  "haCandidateStarted (count_candidate r i at st) = (if haCandidate st = r then haCandidateStarted st else Some at)"
  by (auto simp: count_candidate_def Let_def)

lemma window_count_candidate:
  assumes t: "tracks h st" and r: "r \<noteq> HealthNotApplicable" "haStable st \<noteq> r"
    and x: "x = \<lparr>hoRollup = r, hoID = i, hoAt = at\<rparr>"
  shows "\<exists>w. window_for (h @ [x]) (count_candidate r i at st) w"
proof (cases "haCandidate st = r")
  case True
  with t r obtain w where w: "window_for h st w" by (auto simp: tracks_def)
  then have ag: "suffix w h" "agreeing r w" using True by (auto simp: window_for_def)
  have ids: "sample_ids r (w @ [x]) = sample_ids r w @ [i]" by (simp add: sample_ids_def x)
  have "samples r (w @ [x]) = (if last (sample_ids r w) = i then samples r w else samples r w + 1)"
    using sample_ids_ne [OF ag(2)] by (simp add: samples_def ids length_remdups_adj_snoc)
  moreover have "hoRollup x = r" by (simp add: x)
  ultimately have "window_for (h @ [x]) (count_candidate r i at st) (w @ [x])"
    using w True r window_snoc [OF ag, of x] ids
    by (auto simp: window_for_def count_candidate_fields)
  then show ?thesis ..
next
  case False
  have "window_for (h @ [x]) (count_candidate r i at st) [x]"
    using False r by (simp add: window_for_def count_candidate_fields agreeing_def samples_def sample_ids_def x suffix_def)
  then show ?thesis ..
qed

text \<open>The ways an observation can end, for a producer that is on.\<close>

lemma produce_cases:
  assumes "produceHealthAlert sid at now db = (db', e)" "producing db"
  obtains (first) inc where "db' = set_state sid (first_observation (hoRollup (observation sid at db)) at inc) db" "e = None"
    | (na) st where "db' = db" "e = None" "hdStates db sid = Some st" "hoRollup (observation sid at db) = HealthNotApplicable"
    | (same) st where "hdStates db sid = Some st" "db' = set_state sid (abandon_candidate st) db" "e = None"
    | (waiting) st where "hdStates db sid = Some st" "hoRollup (observation sid at db) \<noteq> HealthNotApplicable"
        "haStable st \<noteq> hoRollup (observation sid at db)" "e = None"
        "db' = set_state sid (count_candidate (hoRollup (observation sid at db)) (hoID (observation sid at db)) at st) db"
    | (edge) st st1 where "hdStates db sid = Some st" "hoRollup (observation sid at db) \<noteq> HealthNotApplicable"
        "haStable st \<noteq> hoRollup (observation sid at db)"
        "st1 = count_candidate (hoRollup (observation sid at db)) (hoID (observation sid at db)) at st"
        "candidate_stable (hdConfig db) at st1"
        "emit_health_edge sid (hoRollup (observation sid at db)) at now st1 db = (db', e)"
  using assms
  by (auto simp: produceHealthAlert_def producing_def observation_def Let_def split: option.splits if_splits)

lemma not_producing: "\<not> producing db \<Longrightarrow> produceHealthAlert sid at now db = (db, None)"
  by (auto simp: produceHealthAlert_def producing_def)

lemma set_state_fields [simp]:
  "hdStates (set_state sid st db) = (hdStates db)(sid \<mapsto> st)" "hdStore (set_state sid st db) = hdStore db"
  "hdConfig (set_state sid st db) = hdConfig db" "hdStatuses (set_state sid st db) = hdStatuses db"
  "hdIncarnations (set_state sid st db) = hdIncarnations db"
  by (simp_all add: set_state_def)

lemma emit_cases:
  assumes "emit_health_edge sid r at now st db = (db', e)"
  obtains (failed) err s1 where "e = Some err" "db' = db\<lparr>hdStore := rollback (hdStore db) s1\<rparr>"
    | (settled) s1 x ins where "e = None" "db' = set_state sid (settle_state r at st) (db\<lparr>hdStore := s1\<rparr>)"
        "enqueueAlertEventInTx now (health_event sid r at st) (hcSinks (hdConfig db)) (hcCooldown (hdConfig db)) (hdStore db)
           = (s1, Inr (x, ins))"
  using assms by (auto simp: emit_health_edge_def Let_def split: prod.splits sum.splits if_splits)

lemma run_tracks: "health_run sid h db \<Longrightarrow> (\<forall>st. hdStates db sid = Some st \<longrightarrow> tracks h st)"
proof (induction rule: health_run.induct)
  case (fresh db)
  then show ?case by simp
next
  case (other h db db')
  then show ?case by simp
next
  case (observe h db observedAt now db')
  let ?x = "observation sid observedAt db"
  have eta: "?x = \<lparr>hoRollup = hoRollup ?x, hoID = hoID ?x, hoAt = observedAt\<rparr>" by (simp add: observation_def Let_def)
  from observe(3,2) show ?case
  proof (cases rule: produce_cases)
    case (first inc)
    then show ?thesis by (simp add: tracks_def first_observation_def)
  next
    case (na st)
    with observe(4) show ?thesis by (simp add: tracks_not_applicable)
  next
    case (same st)
    then show ?thesis by (simp add: tracks_def abandon_candidate_def)
  next
    case (waiting st)
    with window_count_candidate [OF _ waiting(2,3) eta] observe(4) show ?thesis by (auto simp: tracks_def)
  next
    case (edge st st1)
    from edge(6) show ?thesis by (cases rule: emit_cases) (auto simp: tracks_def settle_state_def)
  qed
qed

text \<open>C27: Whatever else the program does between the observations of a service, an observation adds an
  event only at the end of a window of committed observations that all show the new state (or show
  nothing applicable), with at least the configured number of samples in it, none of them a
  repetition of the one before, and with at least the debounce time between its first observation
  and this one; the event is for a change of the stable state, which it settles.\<close>
theorem health_event_needs_stability:
  assumes run: "health_run sid h db"
    and step: "produceHealthAlert sid at now db = (db', e)"
    and event: "alertEvents (hdStore db') \<noteq> alertEvents (hdStore db)"
  shows "\<exists>w st st'. suffix w (h @ [observation sid at db]) \<and>
    agreeing (haStable st') w \<and>
    hcStabilitySamples (hdConfig db) \<le> samples (haStable st') w \<and>
    (0 < hcDebounce (hdConfig db) \<longrightarrow> hcDebounce (hdConfig db) \<le> time_sub at (hoAt (hd w))) \<and>
    hdStates db sid = Some st \<and> hdStates db' sid = Some st' \<and> haStable st \<noteq> haStable st' \<and>
    haCandidate st' = haStable st'"
proof -
  have on: "producing db"
  proof (rule ccontr)
    assume "\<not> producing db"
    with step have "db' = db" by (simp add: not_producing)
    with event show False by simp
  qed
  let ?x = "observation sid at db"
  have eta: "?x = \<lparr>hoRollup = hoRollup ?x, hoID = hoID ?x, hoAt = at\<rparr>" by (simp add: observation_def Let_def)
  from step on show ?thesis
  proof (cases rule: produce_cases)
    case (edge st st1)
    from run_tracks [OF run] edge(1) have "tracks h st" by simp
    from window_count_candidate [OF this edge(2,3) eta] edge(4) obtain w where w: "window_for (h @ [?x]) st1 w" by auto
    have c: "haCandidate st1 = hoRollup ?x" by (simp add: edge(4) count_candidate_fields)
    from edge(6) show ?thesis
    proof (cases rule: emit_cases)
      case (failed err s1)
      with event show ?thesis by (simp add: rollback_def)
    next
      case (settled s1 x ins)
      let ?st' = "settle_state (hoRollup ?x) at st1"
      have "hdStates db' sid = Some ?st'" "haStable ?st' = hoRollup ?x" "haCandidate ?st' = hoRollup ?x"
        by (simp_all add: settled(2) settle_state_def)
      with w c edge(1,3,5) show ?thesis
        by (intro exI [of _ w] exI [of _ st] exI [of _ ?st']) (auto simp: window_for_def candidate_stable_def Let_def)
    qed
  qed (use event in auto)
qed

lemma emit_error:
  assumes "emit_health_edge sid r at now st db = (db', Some e)"
  shows "same_tables (hdStore db) (hdStore db')" "db' = db\<lparr>hdStore := hdStore db'\<rparr>"
  using assms by (cases rule: emit_cases; simp)+

text \<open>An observation that fails leaves the health states, the statuses, the configuration and the
  tables of the alert store as they were.\<close>
lemma failed_observation_changes_nothing:
  assumes "produceHealthAlert sid at now db = (db', Some e)"
  shows "same_tables (hdStore db) (hdStore db') \<and> db' = db\<lparr>hdStore := hdStore db'\<rparr>"
proof -
  have on: "producing db" using assms not_producing by fastforce
  from assms on show ?thesis by (cases rule: produce_cases) (auto intro: emit_error)
qed

section \<open>The producer as a client of the outbox\<close>

text \<open>What one observation does to the store is nothing, a rolled back transaction, or one request.\<close>

lemma produce_store:
  assumes "alert_inv (hdStore db)"
  shows "alert_inv (hdStore (observeHealthAlert sid at now db)) \<and>
    (\<exists>new. alertEvents (hdStore (observeHealthAlert sid at now db)) = alertEvents (hdStore db) @ new \<and> length new \<le> 1)"
proof -
  obtain db' e where p: "produceHealthAlert sid at now db = (db', e)" by fastforce
  have "alert_inv (hdStore db') \<and> (\<exists>new. alertEvents (hdStore db') = alertEvents (hdStore db) @ new \<and> length new \<le> 1)"
  proof (cases "producing db")
    case False
    with p have "db' = db" by (simp add: not_producing)
    with assms show ?thesis by simp
  next
    case True
    from p True show ?thesis
    proof (cases rule: produce_cases)
      case (edge st st1)
      from edge(6) show ?thesis
      proof (cases rule: emit_cases)
        case (failed err s1)
        with assms show ?thesis by (simp add: alert_inv_cong [OF rollback_tables]) (simp add: rollback_def)
      next
        case (settled s1 x ins)
        let ?r = "(now, health_event sid (hoRollup (observation sid at db)) at st1, hcSinks (hdConfig db), hcCooldown (hdConfig db))"
        have "hdStore db' = tx_outbox.submit ?r (hdStore db)" by (simp add: settled tx_outbox.submit_def)
        with tx_outbox.submit_inv [OF assms, of ?r] tx_outbox.submit_appends [OF assms, of ?r] show ?thesis by simp
      qed
    qed (use assms in auto)
  qed
  then show ?thesis by (simp add: observeHealthAlert_def p)
qed

text \<open>Observing any services keeps the invariant of the alert store, and only appends events, at
  most one for each service of the list.\<close>
lemma observations_only_append_events:
  "alert_inv (hdStore db) \<Longrightarrow>
     alert_inv (hdStore (observeHealthAlerts sids at now db)) \<and>
     (\<exists>new. alertEvents (hdStore (observeHealthAlerts sids at now db)) = alertEvents (hdStore db) @ new \<and>
        length new \<le> length sids)"
proof (induction sids arbitrary: db)
  case Nil
  then show ?case by (simp add: observeHealthAlerts_def)
next
  case (Cons sid sids)
  from produce_store [OF Cons.prems, of sid at now] obtain n1 where 1: "alert_inv (hdStore (observeHealthAlert sid at now db))"
    "alertEvents (hdStore (observeHealthAlert sid at now db)) = alertEvents (hdStore db) @ n1" "length n1 \<le> 1" by blast
  from Cons.IH [OF 1(1)] obtain n2 where
    2: "alert_inv (hdStore (observeHealthAlerts sids at now (observeHealthAlert sid at now db)))"
    "alertEvents (hdStore (observeHealthAlerts sids at now (observeHealthAlert sid at now db))) =
       alertEvents (hdStore (observeHealthAlert sid at now db)) @ n2" "length n2 \<le> length sids" by blast
  have e: "observeHealthAlerts (sid # sids) at now db = observeHealthAlerts sids at now (observeHealthAlert sid at now db)"
    by (simp add: observeHealthAlerts_def)
  have "alertEvents (hdStore (observeHealthAlerts (sid # sids) at now db)) = alertEvents (hdStore db) @ (n1 @ n2)"
    "length (n1 @ n2) \<le> length (sid # sids)" using 1 2 e by simp_all
  with 2(1) e show ?case by auto
qed

section \<open>A service that turns from healthy to error\<close>

definition demo_db :: "string list \<Rightarrow> HealthState \<Rightarrow> HealthDB" where
  "demo_db ks r = \<lparr>hdStore = demo_empty,
     hdConfig = \<lparr>hcEnabled = True, hcSinks = ks, hcDebounce = 0, hcCooldown = 0, hcStabilitySamples = 1\<rparr>,
     hdStatuses = [demo_status ''a'' r 100], hdStates = Map.empty, hdIncarnations = Map.empty\<rparr>"

definition demo_before :: "string list \<Rightarrow> HealthDB" where
  "demo_before ks = (demo_db ks HealthError)\<lparr>
     hdStates := [''web'' \<mapsto> first_observation HealthHealthy 100 ''legacy:web'']\<rparr>"

lemma demo_producing: "producing (demo_db ks r)" "producing (demo_before ks)"
  by (simp_all add: producing_def demo_before_def demo_db_def isAlertStateLocked_def demo_empty_def)

lemma demo_first:
  "produceHealthAlert ''web'' 100 100 (demo_db ks HealthHealthy) =
     ((demo_db ks HealthHealthy)\<lparr>hdStates := [''web'' \<mapsto> first_observation HealthHealthy 100 ''legacy:web'']\<rparr>, None)"
  using demo_producing(1) [of ks HealthHealthy]
  by (simp add: produceHealthAlert_def demo_db_def service_statuses_def producing_def
      demo_status_def aggregateTargetHealth_def service_incarnation_def set_state_def)

lemma demo_run: "health_run ''web'' [observation ''web'' 100 (demo_db ks HealthHealthy)] (demo_before ks)"
proof -
  have "health_run ''web'' [] (demo_db ks HealthHealthy)" by (rule health_run.fresh) (simp add: demo_db_def)
  from health_run.observe [OF this demo_producing(1) demo_first]
  have "health_run ''web'' [observation ''web'' 100 (demo_db ks HealthHealthy)]
     ((demo_db ks HealthHealthy)\<lparr>hdStates := [''web'' \<mapsto> first_observation HealthHealthy 100 ''legacy:web'']\<rparr>)" by simp
  then show ?thesis by (rule health_run.other) (simp add: demo_before_def)
qed

lemma demo_edge:
  "\<exists>st. haStable st = HealthHealthy \<and> haCandidateStarted st = Some 200 \<and>
     produceHealthAlert ''web'' 200 200 (demo_before ks) = emit_health_edge ''web'' HealthError 200 200 st (demo_before ks)"
proof -
  let ?st = "count_candidate HealthError (rollupObservationID (service_statuses (demo_before ks) ''web'')) 200
     (first_observation HealthHealthy 100 ''legacy:web'')"
  have "produceHealthAlert ''web'' 200 200 (demo_before ks) = emit_health_edge ''web'' HealthError 200 200 ?st (demo_before ks)"
    using demo_producing(2) [of ks]
    by (simp add: produceHealthAlert_def producing_def demo_before_def demo_db_def service_statuses_def demo_status_def
        aggregateTargetHealth_def service_incarnation_def first_observation_def count_candidate_def candidate_stable_def Let_def)
  moreover have "haStable ?st = HealthHealthy" "haCandidateStarted ?st = Some 200"
    by (simp_all add: count_candidate_fields first_observation_def)
  ultimately show ?thesis by blast
qed

lemma prepare_error: "prepareAlertSinks s ks = Inl e \<Longrightarrow> \<exists>e'. prepare_enqueue now s ev ks = Inl e'"
  by (auto simp: prepare_enqueue_def Let_def)

lemma enqueue_empty_inserts:
  assumes "prepare_enqueue now demo_empty ev ks = Inr p"
  shows "\<exists>s x. enqueueAlertEventInTx now ev ks cd demo_empty = (s, Inr (x, True)) \<and> length (alertEvents s) = 1"
proof -
  obtain ev' ks' where p: "p = (ev', ks')" by (cases p) auto
  have empty: "alertEvents demo_empty = []" by (simp add: demo_empty_def)
  have none: "pendingAlertEventForDedupeHash demo_empty h = None" "latest_closed demo_empty P = None"
    "\<not> pending_conflict demo_empty h" for h P
    by (simp_all add: pendingForHash_None latest_closed_def pending_conflict_def empty)
  from assms p none obtain s x where "enqueueAlertEventInTx now ev ks cd demo_empty = (s, Inr (x, True))"
    by (simp add: enqueueAlertEventInTx_def demo_key enqueue_prepared_def cooldownSuppressedAlertEventForEvent_def
        cooldownSuppressedAlertEvent_def latestCooldownAlertEventForDedupeHash_def Let_def)
  moreover have "alert_inv demo_empty" by (rule empty_tables_inv) (simp add: empty_tables_def demo_empty_def)
  ultimately show ?thesis using tx_outbox.enqueue_inserted empty by force
qed

lemma demo_event_prepared:
  assumes "haStable st = HealthHealthy" "haCandidateStarted st = Some 200"
  shows "\<exists>p. prepare_enqueue 200 demo_empty (health_event ''web'' HealthError 200 st) [''log''] = Inr p"
proof -
  let ?ev = "\<lparr>evID = 0, evKind = ''health.transition'', evServiceID = ''web'', evTarget = [], evRepository = [],
     evAgent = [], evOldState = HealthHealthy, evNewState = HealthError, evReason = ''service health transitioned'',
     evDedupeKey = ''health:service:web:healthy:error:1970-01-01T00:00:00.0000002Z'',
     evCooldownKey = ''health:service:web:healthy:error'', evDedupeHash = [], evCreatedAt = zero_time, evStatus = []\<rparr>"
  have "RFC3339Nano 200 = ''1970-01-01T00:00:00.0000002Z''" by code_simp
  then have ev: "health_event ''web'' HealthError 200 st = ?ev"
    by (simp add: health_event_def assms health_reason_def occurrence_id_def)
  have r: "redact demo_empty v = RedactWith v []" for v by (simp add: redact_def demo_empty_def)
  have "TrimSpace (RedactWith ''health.transition'' []) \<noteq> []" "TrimSpace (RedactWith ''error'' []) \<noteq> []"
    "TrimSpace ''health:service:web:healthy:error:1970-01-01T00:00:00.0000002Z'' \<noteq> []"
    by code_simp+
  then have "evKind (prepareAlertEvent demo_empty ?ev) \<noteq> []" "evServiceID (prepareAlertEvent demo_empty ?ev) \<noteq> []"
    "evNewState (prepareAlertEvent demo_empty ?ev) \<noteq> []" "TrimSpace (evDedupeKey ?ev) \<noteq> []"
    "evStatus (prepareAlertEvent demo_empty ?ev) = []"
    by (simp_all add: prepareAlertEvent_def r demo_texts trim_eval)
  moreover have "prepareAlertSinks demo_empty [''log''] = Inr [''log'']"
    by (simp add: prepareAlertSinks_def checked_sink_def validateAlertSinkIdentity_def r demo_texts trim_eval Let_def
        dedup_by_def) (simp add: demo_empty_def)
  ultimately show ?thesis unfolding ev by (simp add: prepare_enqueue_def Let_def)
qed

theorem health_event_needs_stability_witness:
  "\<exists>w. agreeing HealthError w \<and> 1 \<le> samples HealthError w"
proof -
  let ?db = "demo_before [''log'']"
  obtain st where st: "haStable st = HealthHealthy" "haCandidateStarted st = Some 200"
    "produceHealthAlert ''web'' 200 200 ?db = emit_health_edge ''web'' HealthError 200 200 st ?db"
    using demo_edge [of "[''log'']"] by blast
  from demo_event_prepared [OF st(1,2)] obtain s x where
    e: "enqueueAlertEventInTx 200 (health_event ''web'' HealthError 200 st) [''log''] 0 demo_empty = (s, Inr (x, True))"
      "length (alertEvents s) = 1"
    using enqueue_empty_inserts by blast
  have p: "produceHealthAlert ''web'' 200 200 ?db = (set_state ''web'' (settle_state HealthError 200 st) (?db\<lparr>hdStore := s\<rparr>), None)"
    unfolding st(3) by (simp add: emit_health_edge_def Let_def demo_before_def demo_db_def e)
  have "alertEvents s \<noteq> alertEvents demo_empty" using e(2) by (auto simp: demo_empty_def)
  with health_event_needs_stability [OF demo_run p] show ?thesis
    by (fastforce simp: demo_before_def demo_db_def settle_state_def)
qed

text \<open>With no sink configured the same observation fails.\<close>

end
