(* ===== verification/RouteProps.thy ===== *)
theory RouteProps
  imports RouteMigration HealthProps
begin

text \<open>
  The alert tables under the replacement of a route: the keys and the unique index hold, the UPDATE that
  gives an alert its new identity is never refused, and no dispatch is created, lost or rewritten but for
  the event it belongs to and for redundant pending rows that are reset.
\<close>

section \<open>What becomes of a dispatch\<close>

definition kept_dispatch :: "AlertDispatch \<Rightarrow> AlertDispatch \<Rightarrow> bool" where
  "kept_dispatch d d' \<longleftrightarrow> dID d' = dID d \<and>
     (d' = d\<lparr>dEventID := dEventID d'\<rparr> \<or> (dStatus d = AlertDispatchStatusPending \<and> dStatus d' = AlertDispatchStatusReset))"

definition dispatches_kept :: "Store \<Rightarrow> Store \<Rightarrow> bool" where
  "dispatches_kept s t \<longleftrightarrow> list_all2 kept_dispatch (alertDispatches s) (alertDispatches t)"

lemma kept_refl [simp]: "kept_dispatch d d"
  by (simp add: kept_dispatch_def)

lemma moved_fields:
  assumes "d' = d\<lparr>dEventID := dEventID d'\<rparr>"
  shows "dStatus d' = dStatus d" "dID d' = dID d"
  by (subst assms, simp)+

lemma kept_status: "kept_dispatch d d' \<Longrightarrow> dStatus d' = dStatus d \<or> (dStatus d = AlertDispatchStatusPending \<and> dStatus d' = AlertDispatchStatusReset)"
  unfolding kept_dispatch_def using moved_fields(1) by blast

lemma kept_trans:
  assumes "kept_dispatch a b" "kept_dispatch b c"
  shows "kept_dispatch a c"
proof (cases "c = b\<lparr>dEventID := dEventID c\<rparr>")
  case True
  note c = moved_fields [OF True]
  show ?thesis
  proof (cases "b = a\<lparr>dEventID := dEventID b\<rparr>")
    case b: True
    have "c = a\<lparr>dEventID := dEventID c\<rparr>" by (subst True, subst b) simp
    with assms c show ?thesis by (simp add: kept_dispatch_def)
  next
    case False
    with assms(1) c show ?thesis by (simp add: kept_dispatch_def)
  qed
next
  case False
  with assms kept_status [OF assms(1)] show ?thesis by (auto simp: kept_dispatch_def)
qed

lemma dispatches_kept_refl [simp]: "dispatches_kept s s"
  by (simp add: dispatches_kept_def list.rel_refl)

lemma dispatches_kept_trans: "dispatches_kept s t \<Longrightarrow> dispatches_kept t u \<Longrightarrow> dispatches_kept s u"
  unfolding dispatches_kept_def by (rule list_all2_trans [of kept_dispatch kept_dispatch kept_dispatch]) (auto intro: kept_trans)

lemma dispatches_kept_update:
  assumes "\<And>d. d \<in> set (alertDispatches s) \<Longrightarrow> P d \<Longrightarrow> kept_dispatch d (f d)"
  shows "dispatches_kept s (update_dispatches P f s)"
  unfolding dispatches_kept_def update_rows list.rel_map by (rule list.rel_refl_strong) (simp add: assms)

section \<open>The tables\<close>

definition tables_ok :: "Store \<Rightarrow> bool" where
  "tables_ok s \<longleftrightarrow> row_keys s \<and> (\<forall>d \<in> set (alertDispatches s). row_ok d) \<and> unique_pending s"

lemma alert_inv_tables: "alert_inv s \<Longrightarrow> tables_ok s"
  by (simp add: alert_inv_def tables_ok_def)

lemma for_sink_None:
  "alertDispatchForEventSink s eid sink = None \<longleftrightarrow> (eid, sink) \<notin> (\<lambda>d. (dEventID d, dSink d)) ` set (alertDispatches s)"
  by (auto simp: alertDispatchForEventSink_def find_None_set image_iff)

lemma move_dispatch_rows:
  "set (alertDispatches (move_dispatch k i s)) = (\<lambda>d. if dID d = i then d\<lparr>dEventID := k\<rparr> else d) ` set (alertDispatches s)"
  by (simp add: move_dispatch_def set_update)

lemma distinct_map_update1:
  assumes "distinct (map f xs)" "\<And>x. x \<in> set xs \<Longrightarrow> P x \<Longrightarrow> f (g x) = v" "v \<notin> f ` set xs"
    and "\<And>x y. x \<in> set xs \<Longrightarrow> y \<in> set xs \<Longrightarrow> P x \<Longrightarrow> P y \<Longrightarrow> x = y"
  shows "distinct (map f (map (\<lambda>x. if P x then g x else x) xs))"
  using assms
proof (induction xs)
  case (Cons a xs)
  have rest: "distinct (map f (map (\<lambda>x. if P x then g x else x) xs))"
    by (rule Cons.IH) (use Cons.prems in auto)
  have elems: "f (if P x then g x else x) \<in> insert v (f ` set xs)" if "x \<in> set xs" for x
    using Cons.prems(2) that by auto
  show ?case
  proof (cases "P a")
    case True
    have "\<not> P x" if "x \<in> set xs" for x
      using Cons.prems(1,4) True that by (metis distinct.simps(2) list.set_intros list.simps(9) image_eqI list.set_map)
    then have "map (\<lambda>x. if P x then g x else x) xs = xs" by (simp add: map_idI)
    with True rest Cons.prems(2,3) show ?thesis by simp
  next
    case False
    have "f a \<notin> insert v (f ` set xs)" using Cons.prems(1,3) by auto
    with elems have "f a \<notin> (\<lambda>x. f (if P x then g x else x)) ` set xs" by (metis (no_types, lifting) imageE)
    with False rest show ?thesis by simp
  qed
qed simp

lemma move_dispatch_ok:
  assumes ok: "tables_ok s" and k: "k \<in> evID ` set (alertEvents s)" and d: "d \<in> set (alertDispatches s)"
    and free: "alertDispatchForEventSink s k (dSink d) = None"
  shows "tables_ok (move_dispatch k (dID d) s)"
proof -
  let ?t = "move_dispatch k (dID d) s"
  have keys: "row_keys s" using ok by (simp add: tables_ok_def)
  have uniq: "x = d" if "x \<in> set (alertDispatches s)" "dID x = dID d" for x
    using row_keys_unique [OF keys that(1) d that(2)] .
  have ids: "map dID (alertDispatches ?t) = map dID (alertDispatches s)"
    by (simp add: move_dispatch_def update_rows)
  have "distinct (map (\<lambda>d. (dEventID d, dSink d)) (alertDispatches ?t))"
    unfolding move_dispatch_def update_rows
  proof (rule distinct_map_update1 [where v = "(k, dSink d)"])
    show "distinct (map (\<lambda>d. (dEventID d, dSink d)) (alertDispatches s))" using keys by (simp add: row_keys_def)
    show "(k, dSink d) \<notin> (\<lambda>d. (dEventID d, dSink d)) ` set (alertDispatches s)" using free by (simp only: for_sink_None) simp
  qed (use uniq in auto)
  moreover have "\<forall>x \<in> set (alertDispatches ?t). row_ok x \<and> 0 < dID x \<and> dID x \<le> dispatchSeq s \<and> dEventID x \<in> evID ` set (alertEvents s)"
    using ok k keys by (auto simp: move_dispatch_rows tables_ok_def row_keys_def row_ok_def)
  ultimately show ?thesis using ok ids by (auto simp: tables_ok_def row_keys_def move_dispatch_def)
qed

lemma key_preserving_reset [simp]: "key_preserving (reset_dispatch now)"
  by (simp add: key_preserving_def reset_dispatch_def)

lemma reset_dispatch_ok:
  assumes "tables_ok s" "d \<in> set (alertDispatches s)" "dStatus d = AlertDispatchStatusPending"
  shows "tables_ok (resetDuplicateAlertDispatch now (dID d) s)"
proof -
  have uniq: "x = d" if "x \<in> set (alertDispatches s)" "dID x = dID d" for x
    using row_keys_unique [of s x d] assms that by (simp add: tables_ok_def)
  have "\<forall>x \<in> set (alertDispatches (resetDuplicateAlertDispatch now (dID d) s)). row_ok x"
    unfolding resetDuplicateAlertDispatch_def using assms
    by (intro rows_ok_update) (auto simp: tables_ok_def row_ok_def reset_dispatch_def validAlertDispatchStatus_def dest!: uniq)
  then show ?thesis using assms by (simp add: tables_ok_def resetDuplicateAlertDispatch_def row_keys_update)
qed

section \<open>The merge\<close>

text \<open>The open rows of an event.\<close>

definition open_rows :: "Store \<Rightarrow> int \<Rightarrow> AlertDispatch set" where
  "open_rows s eid = {d \<in> set (alertDispatches s). dEventID d = eid \<and> open_dispatch d}"

lemma open_rows_update:
  assumes "\<And>x. x \<in> set (alertDispatches s) \<Longrightarrow> dID x = i \<Longrightarrow> x = d" and "dID d = i"
    and "\<not> (dEventID (f d) = eid \<and> open_dispatch (f d))"
  shows "open_rows (update_dispatches (\<lambda>x. dID x = i) f s) eid = open_rows s eid - {d}"
proof -
  have "(if dID x = i then f x else x) = (if x = d then f d else x)" if "x \<in> set (alertDispatches s)" for x
    by (metis assms(1,2) that)
  then have "set (alertDispatches (update_dispatches (\<lambda>x. dID x = i) f s)) = (\<lambda>x. if x = d then f d else x) ` set (alertDispatches s)"
    unfolding set_update by (rule image_cong [OF refl])
  then have rows: "x \<in> set (alertDispatches (update_dispatches (\<lambda>x. dID x = i) f s)) \<longleftrightarrow>
      (x \<in> set (alertDispatches s) \<and> x \<noteq> d) \<or> (d \<in> set (alertDispatches s) \<and> x = f d)" for x
    by (auto simp: image_iff split: if_splits)
  show ?thesis using assms(3) by (auto simp: open_rows_def rows)
qed

lemma merge_loop_ok:
  assumes "tables_ok s" "k \<in> evID ` set (alertEvents s)" "k \<noteq> eid" "set ds = open_rows s eid" "distinct (map dID ds)"
  shows "\<exists>rows. fst (merge_loop now k ds s) = s\<lparr>alertDispatches := rows\<rparr> \<and> tables_ok (s\<lparr>alertDispatches := rows\<rparr>) \<and>
    dispatches_kept s (s\<lparr>alertDispatches := rows\<rparr>) \<and> (\<not> snd (merge_loop now k ds s) \<longrightarrow> open_rows (s\<lparr>alertDispatches := rows\<rparr>) eid = {})"
  using assms
proof (induction ds arbitrary: s)
  case Nil
  then show ?case by (intro exI [of _ "alertDispatches s"]) simp
next
  case (Cons d ds)
  have d: "d \<in> set (alertDispatches s)" "dEventID d = eid" "open_dispatch d" using Cons.prems(4) by (auto simp: open_rows_def)
  have keys: "row_keys s" using Cons.prems(1) by (simp add: tables_ok_def)
  have uniq: "x = d" if "x \<in> set (alertDispatches s)" "dID x = dID d" for x
    using row_keys_unique [OF keys that(1) d(1) that(2)] .
  have rest: "set ds = open_rows s eid - {d}" using Cons.prems(4,5) by auto
  have step: ?case if t: "t = s\<lparr>alertDispatches := alertDispatches t\<rparr>" "tables_ok t" "dispatches_kept s t" "open_rows t eid = open_rows s eid - {d}"
      "merge_loop now k (d # ds) s = merge_loop now k ds t" for t
  proof -
    have ev: "alertEvents t = alertEvents s" using t(1) by (metis Store.select_convs(1) Store.surjective Store.update_convs(2))
    obtain rows where r: "fst (merge_loop now k ds t) = t\<lparr>alertDispatches := rows\<rparr>" "tables_ok (t\<lparr>alertDispatches := rows\<rparr>)"
      "dispatches_kept t (t\<lparr>alertDispatches := rows\<rparr>)" "\<not> snd (merge_loop now k ds t) \<longrightarrow> open_rows (t\<lparr>alertDispatches := rows\<rparr>) eid = {}"
      using Cons.IH [of t] t(2,4) rest Cons.prems(2,3,5) ev by auto
    have same: "t\<lparr>alertDispatches := rows\<rparr> = s\<lparr>alertDispatches := rows\<rparr>" by (subst t(1)) simp
    show ?thesis using r t(5) dispatches_kept_trans [OF t(3) r(3)] unfolding same by auto
  qed
  show ?case
  proof (cases "alertDispatchForEventSink s k (dSink d)")
    case None
    let ?t = "move_dispatch k (dID d) s"
    have "open_rows ?t eid = open_rows s eid - {d}"
      unfolding move_dispatch_def by (rule open_rows_update) (use uniq Cons.prems(3) in auto)
    moreover have "dispatches_kept s ?t" unfolding move_dispatch_def
      by (rule dispatches_kept_update) (simp add: kept_dispatch_def)
    moreover have "?t = s\<lparr>alertDispatches := alertDispatches ?t\<rparr>" by (simp add: move_dispatch_def update_dispatches_def)
    ultimately show ?thesis using move_dispatch_ok [OF Cons.prems(1,2) d(1) None] None by (intro step [of ?t]) simp_all
  next
    case (Some keeper)
    show ?thesis
    proof (cases "dStatus d = AlertDispatchStatusPending \<and> closedWithoutRetryAlertDispatchStatus (dStatus keeper)")
      case True
      let ?t = "resetDuplicateAlertDispatch now (dID d) s"
      have "open_rows ?t eid = open_rows s eid - {d}"
          unfolding resetDuplicateAlertDispatch_def
        by (rule open_rows_update) (use uniq in \<open>auto simp: reset_dispatch_def open_dispatch_def\<close>)
      moreover have "dispatches_kept s ?t" unfolding resetDuplicateAlertDispatch_def
        using uniq True by (intro dispatches_kept_update) (auto simp: kept_dispatch_def reset_dispatch_def)
      moreover have "?t = s\<lparr>alertDispatches := alertDispatches ?t\<rparr>" by (simp add: resetDuplicateAlertDispatch_def update_dispatches_def)
      ultimately show ?thesis using reset_dispatch_ok [OF Cons.prems(1) d(1)] True Some by (intro step [of ?t]) simp_all
    next
      case False
      with Some Cons.prems(1) show ?thesis by (intro exI [of _ "alertDispatches s"]) auto
    qed
  qed
qed

definition reset_event :: "int \<Rightarrow> AlertEvent list \<Rightarrow> AlertEvent list" where
  "reset_event i es = map (\<lambda>e. if evID e = i then e\<lparr>evStatus := AlertEventStatusReset\<rparr> else e) es"

lemma reset_event_ids [simp]: "map evID (reset_event i es) = map evID es"
  by (induction es) (auto simp: reset_event_def)

lemma in_flight_none:
  assumes "open_rows s eid = {}"
  shows "close_duplicate eid s = set_event_status eid AlertEventStatusReset s"
  using assms by (auto simp: close_duplicate_def count_status_0 dispatches_of_def open_rows_def open_dispatch_def)

lemma row_keys_events:
  assumes "row_keys s" "map evID (alertEvents t) = map evID (alertEvents s)" "alertDispatches t = alertDispatches s"
    "eventSeq t = eventSeq s" "dispatchSeq t = dispatchSeq s"
  shows "row_keys t"
proof -
  have ids: "evID ` set (alertEvents t) = evID ` set (alertEvents s)" using assms(2) by (metis list.set_map)
  have "\<forall>e \<in> set (alertEvents t). 0 < evID e \<and> evID e \<le> eventSeq s"
  proof
    fix e assume "e \<in> set (alertEvents t)"
    then obtain x where "x \<in> set (alertEvents s)" "evID e = evID x" using ids by (metis imageE imageI)
    then show "0 < evID e \<and> evID e \<le> eventSeq s" using assms(1) by (simp add: row_keys_def)
  qed
  then show ?thesis using assms(1) unfolding row_keys_def assms(2-5) ids by blast
qed

lemma tables_ok_set_reset:
  assumes "tables_ok s"
  shows "tables_ok (set_event_status eid AlertEventStatusReset s)"
proof -
  let ?t = "set_event_status eid AlertEventStatusReset s"
  have "unique_pending ?t"
    by (rule unique_pending_shrinks [of s _ "\<lambda>e. if evID e = eid then e\<lparr>evStatus := AlertEventStatusReset\<rparr> else e"])
      (use assms in \<open>simp_all add: tables_ok_def set_event_status_def split: if_splits\<close>)
  moreover have "row_keys ?t"
    by (rule row_keys_events [of s]) (use assms in \<open>simp_all add: tables_ok_def\<close>)
  ultimately show ?thesis using assms by (simp add: tables_ok_def)
qed

text \<open>What a merge does: the events change only in that the duplicate is reset, unless it is deferred.\<close>

lemma merge_ok:
  assumes "tables_ok s" "k \<in> evID ` set (alertEvents s)" "k \<noteq> eid" "mergeRouteAlertCollisionDispatches now k eid s = (t, postponed)"
  shows "tables_ok t \<and> dispatches_kept s t \<and>
    alertEvents t = (if postponed then alertEvents s else reset_event eid (alertEvents s))"
proof -
  let ?ds = "open_dispatches s eid"
  have ds: "set ?ds = open_rows s eid" "distinct (map dID ?ds)"
    using assms(1) by (auto simp: open_dispatches_def open_rows_def tables_ok_def row_keys_def distinct_map intro: inj_on_subset)
  from merge_loop_ok [OF assms(1-3) ds, of now] obtain rows where r: "fst (merge_loop now k ?ds s) = s\<lparr>alertDispatches := rows\<rparr>"
    "tables_ok (s\<lparr>alertDispatches := rows\<rparr>)" "dispatches_kept s (s\<lparr>alertDispatches := rows\<rparr>)"
    "\<not> snd (merge_loop now k ?ds s) \<longrightarrow> open_rows (s\<lparr>alertDispatches := rows\<rparr>) eid = {}" by blast
  obtain u b where m: "merge_loop now k ?ds s = (u, b)" by fastforce
  with r have u: "u = s\<lparr>alertDispatches := rows\<rparr>" "tables_ok u" "dispatches_kept s u" "\<not> b \<longrightarrow> open_rows u eid = {}" by simp_all
  show ?thesis
  proof (cases "list_ex (\<lambda>d. dStatus d = AlertDispatchStatusInFlight \<and> alertDispatchForEventSink s k (dSink d) \<noteq> None) ?ds")
    case True
    then show ?thesis using assms(1,4) by (simp add: mergeRouteAlertCollisionDispatches_def Let_def)
  next
    case False
    with assms(4) m have t: "(t, postponed) = (if b then (u, True) else (close_duplicate eid u, False))"
      by (auto simp: mergeRouteAlertCollisionDispatches_def Let_def split: bool.splits)
    show ?thesis
    proof (cases b)
      case True
      then show ?thesis using t u by simp
    next
      case b: False
      then have "t = set_event_status eid AlertEventStatusReset u" "\<not> postponed" using t u(4) in_flight_none [of u eid] by simp_all
      then show ?thesis using u(1,3) tables_ok_set_reset [OF u(2), of eid]
        by (simp add: set_event_status_def reset_event_def dispatches_kept_def)
    qed
  qed
qed

definition pending_ids :: "Store \<Rightarrow> int set" where
  "pending_ids s = {evID e | e. e \<in> set (alertEvents s) \<and> evStatus e = AlertEventStatusPending}"

lemma reset_event_pending: "alertEvents t = reset_event i (alertEvents s) \<Longrightarrow> pending_ids t \<subseteq> pending_ids s"
  by (auto simp: pending_ids_def reset_event_def split: if_splits)

lemma reconcile_ok:
  assumes "tables_ok s" "k \<in> evID ` set (alertEvents s)" "hash \<noteq> []"
    "reconcilePendingAlertRouteCollision now k hash s = (t, postponed)"
  shows "tables_ok t \<and> dispatches_kept s t \<and> map evID (alertEvents t) = map evID (alertEvents s) \<and> pending_ids t \<subseteq> pending_ids s \<and>
    (\<not> postponed \<longrightarrow> (\<forall>e \<in> set (alertEvents t). evDedupeHash e = hash \<and> evStatus e = AlertEventStatusPending \<longrightarrow> evID e = k))"
proof (cases "find (\<lambda>e. evDedupeHash e = hash \<and> evStatus e = AlertEventStatusPending \<and> evID e \<noteq> k) (alertEvents s)")
  case None
  then have "(t, postponed) = (s, False)" using assms(4) by (simp add: reconcilePendingAlertRouteCollision_def)
  then show ?thesis using assms(1) None by (auto simp: find_None_set)
next
  case (Some dup)
  then have dup: "dup \<in> set (alertEvents s)" "evDedupeHash dup = hash" "evStatus dup = AlertEventStatusPending" "evID dup \<noteq> k"
    by (auto dest: find_Some_iff_set)
  have m: "mergeRouteAlertCollisionDispatches now k (evID dup) s = (t, postponed)"
    using assms(4) Some by (simp add: reconcilePendingAlertRouteCollision_def)
  note ok = merge_ok [OF assms(1,2) dup(4) [symmetric] m]
  have only: "e = dup" if hit: "e \<in> set (alertEvents s)" "evDedupeHash e = hash" "evStatus e = AlertEventStatusPending" for e
  proof -
    have "distinct (map evDedupeHash (pending_events s))" using assms(1) by (simp add: tables_ok_def unique_pending_def)
    moreover have "e \<in> set (pending_events s)" "dup \<in> set (pending_events s)" using that dup assms(3) by (auto simp: pending_events_def)
    ultimately show ?thesis using distinct_map_eq [of evDedupeHash "pending_events s" e dup] dup(2) \<open>evDedupeHash e = hash\<close> by simp
  qed
  have "evID e = k" if pr: "\<not> postponed" "e \<in> set (alertEvents t)" "evDedupeHash e = hash" "evStatus e = AlertEventStatusPending" for e
  proof -
    obtain e0 where e0: "e0 \<in> set (alertEvents s)" "e = (if evID e0 = evID dup then e0\<lparr>evStatus := AlertEventStatusReset\<rparr> else e0)"
      using ok pr(1,2) by (auto simp: reset_event_def)
    with pr(4) have "evID e0 \<noteq> evID dup" "e = e0" by auto
    with only [OF e0(1)] pr(3,4) show ?thesis by auto
  qed
  moreover have "pending_ids t \<subseteq> pending_ids s"
    using ok reset_event_pending [of t "evID dup" s] by (cases postponed) (simp_all add: pending_ids_def)
  ultimately show ?thesis using ok by (auto split: if_splits)
qed

lemma distinct_map_filterI:
  assumes "distinct (map g xs)"
    and "\<And>x y. x \<in> set xs \<Longrightarrow> P x \<Longrightarrow> y \<in> set xs \<Longrightarrow> P y \<Longrightarrow> f x = f y \<Longrightarrow> g x = g y"
  shows "distinct (map f (filter P xs))"
  using assms
proof (induction xs)
  case (Cons a xs)
  have "f a \<noteq> f x" if "P a" "x \<in> set xs" "P x" for x
    using Cons.prems(1) Cons.prems(2) [of a x] that by (auto simp: image_iff)
  moreover have "distinct (map f (filter P xs))" using Cons.prems by (intro Cons.IH) auto
  ultimately show ?case by auto
qed simp

lemma retarget_ok:
  assumes "tables_ok s" "hash \<noteq> []"
    and "\<forall>e \<in> set (alertEvents s). evID e = eid \<and> evServiceID e = sid \<and> evStatus e = AlertEventStatusPending \<longrightarrow>
      (\<forall>x \<in> set (alertEvents s). evDedupeHash x = hash \<and> evStatus x = AlertEventStatusPending \<longrightarrow> evID x = eid)"
  shows "\<exists>t. retarget_event sid eid newTarget key hash s = Inr t \<and> tables_ok t \<and> alertDispatches t = alertDispatches s \<and>
    map evID (alertEvents t) = map evID (alertEvents s) \<and> alertDedupeKey t = alertDedupeKey s \<and> pending_ids t \<subseteq> pending_ids s"
proof -
  define hit where "hit = (\<lambda>e :: AlertEvent. evID e = eid \<and> evServiceID e = sid)"
  define g where "g = (\<lambda>e :: AlertEvent. if hit e then e\<lparr>evTarget := newTarget, evDedupeKey := key, evDedupeHash := hash\<rparr> else e)"
  have g: "evID (g e) = evID e" "evStatus (g e) = evStatus e" "hit e \<Longrightarrow> evDedupeHash (g e) = hash" "\<not> hit e \<Longrightarrow> g e = e" for e
    by (simp_all add: g_def)
  let ?t = "s\<lparr>alertEvents := map g (alertEvents s)\<rparr>"
  have alone: "evID a = eid" if "hit b" "b \<in> set (alertEvents s)" "evStatus b = AlertEventStatusPending"
      "a \<in> set (alertEvents s)" "evStatus a = AlertEventStatusPending" "evDedupeHash a = hash" for a b
    using assms(3) that by (auto simp: hit_def)
  have "\<not> (list_ex (\<lambda>e. hit e \<and> evStatus e = AlertEventStatusPending) (alertEvents s) \<and>
      list_ex (\<lambda>e. evID e \<noteq> eid \<and> evStatus e = AlertEventStatusPending \<and> evDedupeHash e = hash) (alertEvents s))"
    using alone by (auto simp: list_ex_iff)
  then have r: "retarget_event sid eid newTarget key hash s = Inr ?t"
    unfolding retarget_event_def Let_def hit_def [symmetric] g_def [symmetric] by (intro if_not_P) blast
  have ids: "map evID (alertEvents ?t) = map evID (alertEvents s)" by (simp add: g)
  have other: "evID b = eid" if h: "hit a" and a: "a \<in> set (alertEvents s)" "evStatus a = AlertEventStatusPending"
      and b: "b \<in> set (alertEvents s)" "evStatus b = AlertEventStatusPending" and eq: "evDedupeHash (g a) = evDedupeHash (g b)" for a b
  proof (cases "hit b")
    case True
    then show ?thesis by (simp add: hit_def)
  next
    case False
    then have "evDedupeHash b = hash" using eq g(3) [OF h] g(4) by metis
    then show ?thesis using alone [OF h a b] by simp
  qed
  have "unique_pending ?t"
    unfolding unique_pending_def pending_events_def
  proof (rule distinct_map_filterI)
    show "distinct (map evID (alertEvents ?t))" using assms(1) by (simp only: ids) (simp add: tables_ok_def row_keys_def)
    fix x y
    assume x: "x \<in> set (alertEvents ?t)" "evStatus x = AlertEventStatusPending \<and> evDedupeHash x \<noteq> []"
      and y: "y \<in> set (alertEvents ?t)" "evStatus y = AlertEventStatusPending \<and> evDedupeHash y \<noteq> []"
      and same: "evDedupeHash x = evDedupeHash y"
    obtain x0 where x0: "x0 \<in> set (alertEvents s)" "x = g x0" using x(1) by auto
    obtain y0 where y0: "y0 \<in> set (alertEvents s)" "y = g y0" using y(1) by auto
    have st: "evStatus x0 = AlertEventStatusPending" "evStatus y0 = AlertEventStatusPending" "evID x = evID x0" "evID y = evID y0"
      using x(2) y(2) x0(2) y0(2) g by simp_all
    consider (one) "hit x0" | (two) "hit y0" | (none) "\<not> hit x0" "\<not> hit y0" by blast
    then show "evID x = evID y"
    proof cases
      case one
      then have "evID x0 = eid" by (simp add: hit_def)
      with other [OF one x0(1) st(1) y0(1) st(2)] same x0(2) y0(2) st show ?thesis by simp
    next
      case two
      then have "evID y0 = eid" by (simp add: hit_def)
      with other [OF two y0(1) st(2) x0(1) st(1)] same x0(2) y0(2) st show ?thesis by simp
    next
      case none
      then have "x = x0" "y = y0" using x0(2) y0(2) g(4) by metis+
      then have "x0 \<in> set (pending_events s)" "y0 \<in> set (pending_events s)" "evDedupeHash x0 = evDedupeHash y0"
        using x0(1) y0(1) x(2) y(2) same by (auto simp: pending_events_def)
      moreover have "distinct (map evDedupeHash (pending_events s))" using assms(1) by (simp add: tables_ok_def unique_pending_def)
      ultimately have "x0 = y0" using distinct_map_eq by metis
      then show ?thesis using st by simp
    qed
  qed
  moreover have "row_keys ?t"
    by (rule row_keys_events [of s, OF _ ids]) (use assms(1) in \<open>simp_all add: tables_ok_def\<close>)
  ultimately have "tables_ok ?t" using assms(1) by (simp add: tables_ok_def)
  moreover have "alertDispatches ?t = alertDispatches s" "alertDedupeKey ?t = alertDedupeKey s" by simp_all
  moreover have "pending_ids ?t \<subseteq> pending_ids s" using g(1,2) by (auto simp: pending_ids_def)
  ultimately show ?thesis using r ids by blast
qed

section \<open>The whole replacement\<close>

text \<open>What every statement of the replacement does to the alert tables.\<close>

definition route_step :: "Store \<Rightarrow> Store \<Rightarrow> bool" where
  "route_step s t \<longleftrightarrow> (tables_ok s \<longrightarrow> tables_ok t) \<and> dispatches_kept s t \<and>
     map evID (alertEvents t) = map evID (alertEvents s) \<and> alertDedupeKey t = alertDedupeKey s \<and>
     pending_ids t \<subseteq> pending_ids s"

lemma route_step_refl [simp]: "route_step s s"
  by (simp add: route_step_def)

lemma route_step_trans: "route_step s t \<Longrightarrow> route_step t u \<Longrightarrow> route_step s u"
  using dispatches_kept_trans by (auto simp: route_step_def)

lemma hash_of_key: "alertDedupeKey s \<noteq> [] \<Longrightarrow> alertDedupeHash s k \<noteq> []"
proof -
  assume "alertDedupeKey s \<noteq> []"
  moreover have "length (EncodeToString (hmac_sha256 key m)) = 64" for key m by (simp add: hmac_sha256_def Let_def)
  ultimately show ?thesis by (metis alertDedupeHash_def list.size(3) zero_neq_numeral)
qed

lemma merge_loop_key: "alertDedupeKey (fst (merge_loop now k ds s)) = alertDedupeKey s"
  by (induction now k ds s rule: merge_loop.induct)
    (auto simp: move_dispatch_def resetDuplicateAlertDispatch_def update_dispatches_def split: option.splits)

lemma reconcile_key: "alertDedupeKey (fst (reconcilePendingAlertRouteCollision now k hash s)) = alertDedupeKey s"
proof -
  have "alertDedupeKey (fst (mergeRouteAlertCollisionDispatches now k eid s)) = alertDedupeKey s" for eid
    using merge_loop_key [of now k "open_dispatches s eid" s]
    by (auto simp: mergeRouteAlertCollisionDispatches_def Let_def close_duplicate_def set_event_status_def split: prod.splits bool.splits)
  then show ?thesis by (simp add: reconcilePendingAlertRouteCollision_def split: option.splits)
qed

definition ready_store :: "Store \<Rightarrow> bool" where
  "ready_store s \<longleftrightarrow> tables_ok s \<and> alertDedupeKey s \<noteq> []"

lemma ready_step: "ready_store s \<Longrightarrow> route_step s t \<Longrightarrow> ready_store t"
  by (simp add: ready_store_def route_step_def)

lemma migrate_event_ok:
  assumes "ready_store (dbStore db)" "evID update \<in> evID ` set (alertEvents (dbStore db))"
    and "evStatus update \<noteq> AlertEventStatusPending \<Longrightarrow> evID update \<notin> pending_ids (dbStore db)"
  shows "\<exists>db1 b. migrate_event now sid oldTarget newTarget update (db, migrated) = Inr (db1, b) \<and> route_step (dbStore db) (dbStore db1)"
proof -
  let ?s = "dbStore db" and ?key = "retargeted_key (evDedupeKey update) oldTarget newTarget"
  let ?hash = "alertDedupeHash ?s ?key"
  let ?r = "if evStatus update = AlertEventStatusPending then reconcilePendingAlertRouteCollision now (evID update) ?hash ?s else (?s, False)"
  have ok: "tables_ok ?s" "?hash \<noteq> []" using assms(1) hash_of_key by (simp_all add: ready_store_def)
  obtain s1 postponed where r: "?r = (s1, postponed)" by fastforce
  have s1: "route_step ?s s1 \<and> tables_ok s1 \<and> (\<not> postponed \<longrightarrow>
      (\<forall>e \<in> set (alertEvents s1). evID e = evID update \<and> evServiceID e = sid \<and> evStatus e = AlertEventStatusPending \<longrightarrow>
        (\<forall>x \<in> set (alertEvents s1). evDedupeHash x = ?hash \<and> evStatus x = AlertEventStatusPending \<longrightarrow> evID x = evID update)))"
  proof (cases "evStatus update = AlertEventStatusPending")
    case True
    with r have rec: "reconcilePendingAlertRouteCollision now (evID update) ?hash ?s = (s1, postponed)" by simp
    then have "alertDedupeKey s1 = alertDedupeKey ?s" using reconcile_key by (metis fst_conv)
    with reconcile_ok [OF ok(1) assms(2) ok(2) rec] show ?thesis by (auto simp: route_step_def)
  next
    case False
    with r have "s1 = ?s" by simp
    with assms(3) [OF False] ok(1) show ?thesis by (auto simp: pending_ids_def)
  qed
  show ?thesis
  proof (cases postponed)
    case True
    with r s1 show ?thesis by (simp add: migrate_event_def Let_def deferAlertRouteReconciliation_def set_store_def)
  next
    case False
    obtain t where t: "retarget_event sid (evID update) newTarget ?key ?hash s1 = Inr t" "tables_ok t" "alertDispatches t = alertDispatches s1"
      "map evID (alertEvents t) = map evID (alertEvents s1)" "alertDedupeKey t = alertDedupeKey s1" "pending_ids t \<subseteq> pending_ids s1"
      using retarget_ok [of s1 ?hash "evID update" sid newTarget ?key] s1 ok(2) False by blast
    have "route_step s1 t" using t by (simp add: route_step_def dispatches_kept_def list.rel_refl)
    then have "route_step ?s t" using s1 route_step_trans by blast
    then show ?thesis using r t(1) False
      by (intro exI [of _ "set_store t (set_store s1 db)"] exI [of _ True]) (simp add: migrate_event_def Let_def)
  qed
qed

lemma migrate_events_ok:
  assumes "ready_store (dbStore db)" "\<forall>u \<in> set us. evID u \<in> evID ` set (alertEvents (dbStore db)) \<and>
      (evStatus u \<noteq> AlertEventStatusPending \<longrightarrow> evID u \<notin> pending_ids (dbStore db))"
  shows "\<exists>db1 b. fold_res (migrate_event now sid oldTarget newTarget) us (db, m) = Inr (db1, b) \<and> route_step (dbStore db) (dbStore db1)"
  using assms
proof (induction us arbitrary: db m)
  case (Cons u us)
  obtain db1 b where 1: "migrate_event now sid oldTarget newTarget u (db, m) = Inr (db1, b)" "route_step (dbStore db) (dbStore db1)"
    using migrate_event_ok [OF Cons.prems(1), of u now sid oldTarget newTarget m] Cons.prems(2) by auto
  have ids: "evID ` set (alertEvents (dbStore db1)) = evID ` set (alertEvents (dbStore db))"
    using 1(2) by (metis list.set_map route_step_def)
  have sub: "pending_ids (dbStore db1) \<subseteq> pending_ids (dbStore db)" using 1(2) by (simp add: route_step_def)
  have "\<forall>u \<in> set us. evID u \<in> evID ` set (alertEvents (dbStore db1)) \<and>
      (evStatus u \<noteq> AlertEventStatusPending \<longrightarrow> evID u \<notin> pending_ids (dbStore db1))"
    using Cons.prems(2) sub unfolding ids by auto
  from Cons.IH [OF ready_step [OF Cons.prems(1) 1(2)] this] 1 show ?case using route_step_trans by fastforce
qed simp

lemma migrate_identity_ok:
  assumes "ready_store (dbStore db)"
  shows "\<exists>db1 b. migrateAlertRouteIdentity now sid oldTarget newTarget db = Inr (db1, b) \<and> route_step (dbStore db) (dbStore db1)"
proof -
  have keys: "row_keys (dbStore db)" using assms by (simp add: ready_store_def tables_ok_def)
  have "evID u \<notin> pending_ids (dbStore db)" if "u \<in> set (alertEvents (dbStore db))" "evStatus u \<noteq> AlertEventStatusPending" for u
    using row_keys_event_unique [OF keys that(1)] that(2) unfolding pending_ids_def by blast
  then have "\<forall>u \<in> set (filter (mutable_event sid oldTarget) (alertEvents (dbStore db))). evID u \<in> evID ` set (alertEvents (dbStore db)) \<and>
      (evStatus u \<noteq> AlertEventStatusPending \<longrightarrow> evID u \<notin> pending_ids (dbStore db))" by simp
  from migrate_events_ok [OF assms this] show ?thesis by (simp add: migrateAlertRouteIdentity_def)
qed

text \<open>A loop whose steps all succeed and keep a relation on the store.\<close>

lemma fold_res_ok:
  assumes "\<And>x st. x \<in> set xs \<Longrightarrow> ready_store (dbStore (proj st)) \<Longrightarrow>
      \<exists>st1. f x st = Inr st1 \<and> route_step (dbStore (proj st)) (dbStore (proj st1))"
    and "ready_store (dbStore (proj st))"
  shows "\<exists>st1. fold_res f xs st = Inr st1 \<and> route_step (dbStore (proj st)) (dbStore (proj st1))"
  using assms
proof (induction xs arbitrary: st)
  case (Cons x xs)
  obtain st1 where 1: "f x st = Inr st1" "route_step (dbStore (proj st)) (dbStore (proj st1))"
    using Cons.prems(1) [of x st] Cons.prems(2) by auto
  from Cons.IH [of st1] Cons.prems(1) ready_step [OF Cons.prems(2) 1(2)] obtain st2 where
    "fold_res f xs st1 = Inr st2" "route_step (dbStore (proj st1)) (dbStore (proj st2))" by auto
  with 1 route_step_trans show ?case by fastforce
qed auto

lemma deferred_pass_ok:
  assumes "ready_store (dbStore (fst st))"
  shows "\<exists>st1. deferred_pass now edge st = Inr st1 \<and> route_step (dbStore (fst st)) (dbStore (fst st1))"
proof -
  obtain sid old new where e: "edge = (sid, old, new)" by (cases edge) auto
  obtain db m where st: "st = (db, m)" by fastforce
  from migrate_identity_ok [of db now sid old new] assms st show ?thesis by (auto simp: deferred_pass_def e)
qed

lemma settle_loop_ok:
  "ready_store (dbStore db) \<Longrightarrow> \<exists>db1 b. settle_loop now edges n db = Inr (db1, b) \<and> route_step (dbStore db) (dbStore db1)"
proof (induction n arbitrary: db)
  case (Suc n)
  obtain db1 m where 1: "fold_res (deferred_pass now) edges (db, False) = Inr (db1, m)" "route_step (dbStore db) (dbStore db1)"
    using fold_res_ok [of edges fst "deferred_pass now" "(db, False)"] deferred_pass_ok Suc.prems by (auto simp: split_paired_Ex)
  from Suc.IH [OF ready_step [OF Suc.prems 1(2)]] obtain db2 b where
    "settle_loop now edges n db1 = Inr (db2, b)" "route_step (dbStore db1) (dbStore db2)" by blast
  with 1 route_step_trans show ?case by (cases m) auto
next
  case 0
  show ?case by (intro exI [of _ db] exI [of _ False]) simp
qed

lemma clear_edge_store [simp]: "dbStore (clear_edge e db) = dbStore db"
  by (cases e) (simp add: clear_edge_def)

lemma fold_clear_store [simp]: "dbStore (fold clear_edge es db) = dbStore db"
  by (induction es arbitrary: db) simp_all

lemma apply_deferred_ok:
  assumes "ready_store (dbStore db)"
  shows "\<exists>db1. applyDeferredAlertRouteReconciliations now db = Inr db1 \<and> route_step (dbStore db) (dbStore db1)"
proof -
  let ?edges = "sort (dbDeferred db)"
  obtain db1 b where 1: "settle_loop now ?edges (length ?edges + 1) db = Inr (db1, b)" "route_step (dbStore db) (dbStore db1)"
    using settle_loop_ok [OF assms] by blast
  then have "applyDeferredAlertRouteReconciliations now db = Inr (if b then fold clear_edge ?edges db1 else db1)"
    unfolding applyDeferredAlertRouteReconciliations_def Let_def by (simp only: sum.case prod.case)
  with 1(2) show ?thesis by (cases b) auto
qed

lemma table_migrations_store [simp]:
  "dbStore (migrateRouteOverride sid old new db) = dbStore db"
  "dbStore (migrateRouteStatus sid old new db) = dbStore db"
  "dbStore (retarget_history sid old new db) = dbStore db"
  by (simp_all add: migrateRouteOverride_def applyMonitorOverrideMigration_def update_overrides_def delete_override_def
      migrateRouteStatus_def applyStatusResultMigration_def update_status_def retarget_history_def Let_def split: option.splits)

lemma replace_target_ok:
  assumes "ready_store (dbStore db)"
  shows "\<exists>db1. replace_target now True r name db = Inr db1 \<and> route_step (dbStore db) (dbStore db1)"
proof -
  obtain old new where t: "route_targets r name = (old, new)" by fastforce
  let ?db = "retarget_history (rrServiceID r) old new (migrateRouteStatus (rrServiceID r) old new (migrateRouteOverride (rrServiceID r) old new db))"
  from migrate_identity_ok [of ?db now "rrServiceID r" old new] assms show ?thesis
    by (auto simp: replace_target_def t Let_def)
qed

lemma replace_route_ok:
  assumes "ready_store (dbStore db)"
  shows "\<exists>db1. replace_route now True names r db = Inr db1 \<and> route_step (dbStore db) (dbStore db1)"
  using fold_res_ok [of names "\<lambda>x. x" "replace_target now True r" db] replace_target_ok assms
  by (fastforce simp: replace_route_def)

lemma replace_route_locked:
  "\<exists>db1. replace_route now False names r db = Inr db1 \<and> dbStore db1 = dbStore db"
proof -
  have "\<exists>db1. fold_res (replace_target now False r) names db = Inr db1 \<and> dbStore db1 = dbStore db" for db
  proof (induction names arbitrary: db)
    case (Cons name names)
    obtain a b where t: "route_targets r name = (a, b)" by fastforce
    let ?db = "retarget_history (rrServiceID r) a b (migrateRouteStatus (rrServiceID r) a b (migrateRouteOverride (rrServiceID r) a b db))"
    from Cons.IH [of ?db] show ?case by (simp add: replace_target_def t)
  qed simp
  from this [of db] show ?thesis by (auto simp: replace_route_def)
qed

lemma replace_routes_locked:
  "\<exists>db1. fold_res (replace_route now False names) rs db = Inr db1 \<and> dbStore db1 = dbStore db"
proof (induction rs arbitrary: db)
  case (Cons r rs)
  from replace_route_locked [of now names r db] obtain db1 where
    "replace_route now False names r db = Inr db1" "dbStore db1 = dbStore db" by blast
  with Cons.IH [of db1] show ?case by auto
qed simp

lemma defer_store [simp]: "dbStore (deferAlertRouteReconciliations rs names db) = dbStore db"
proof -
  have 1: "dbStore (deferAlertRouteReconciliation sid a b db) = dbStore db" for sid a b db
    by (simp add: deferAlertRouteReconciliation_def)
  have 2: "dbStore (fold (\<lambda>name db. case route_targets r name of (a, b) \<Rightarrow> deferAlertRouteReconciliation (rrServiceID r) a b db) names db) = dbStore db" for r db
    by (induction names arbitrary: db) (simp_all add: 1 split: prod.splits)
  show ?thesis unfolding deferAlertRouteReconciliations_def by (induction rs arbitrary: db) (simp_all add: 2)
qed

lemma migrate_guarded_ok:
  assumes "ready_store (dbStore db)"
  shows "\<exists>db1. migrate_guarded now True rs names db = Inr db1 \<and> route_step (dbStore db) (dbStore db1)"
proof -
  obtain db1 where 1: "applyDeferredAlertRouteReconciliations now db = Inr db1" "route_step (dbStore db) (dbStore db1)"
    using apply_deferred_ok [OF assms] by blast
  from fold_res_ok [of rs "\<lambda>x. x" "replace_route now True names" db1] replace_route_ok ready_step [OF assms 1(2)]
  obtain db2 where "fold_res (replace_route now True names) rs db1 = Inr db2" "route_step (dbStore db1) (dbStore db2)" by blast
  with 1 route_step_trans show ?thesis by (auto simp: migrate_guarded_def)
qed

lemma migrate_replacements_ok:
  assumes "tables_ok (dbStore db)" "migrateRouteTargetReplacements now rs names db = (db1, e)"
  shows "e = None \<and> tables_ok (dbStore db1) \<and> dispatches_kept (dbStore db) (dbStore db1)"
proof -
  obtain s1 ke where ens: "ensureAlertDedupeKeyCurrent (dbStore db) = (s1, ke)" by fastforce
  have same: "same_tables (dbStore db) s1" using ensure_tables [of "dbStore db"] ens by simp
  then have s1: "tables_ok s1" "dispatches_kept (dbStore db) s1"
    using assms(1) by (auto simp: same_tables_def tables_ok_def row_keys_def unique_pending_def pending_events_def dispatches_kept_def list.rel_refl)
  let ?ready = "ensureAlertStateUnlocked (dbStore db) = None \<and> ke = None"
  have ready: "alert_ready db = (set_store s1 db, ?ready)" by (simp add: alert_ready_def ens)
  show ?thesis
  proof (cases ?ready)
    case True
    then have "s1 = dbStore db" using ens by (auto dest: ensure_same(2))
    moreover have "alertDedupeKey (dbStore db) \<noteq> []"
      using True ens by (auto simp: ensureAlertDedupeKeyCurrent_def lock_with_def split: if_splits)
    ultimately have "alertDedupeKey s1 \<noteq> []" by simp
    then have "ready_store (dbStore (set_store s1 db))" using s1 by (simp add: ready_store_def)
    from migrate_guarded_ok [OF this, of now rs names] obtain db2 where
      "migrate_guarded now True rs names (set_store s1 db) = Inr db2" "route_step s1 (dbStore db2)" by auto
    then show ?thesis using assms(2) ready True s1 dispatches_kept_trans
      by (auto simp: migrateRouteTargetReplacements_def route_step_def)
  next
    case False
    obtain db2 where "migrate_guarded now False rs names (set_store s1 db) = Inr db2" "dbStore db2 = s1"
      using replace_routes_locked [of now names rs "deferAlertRouteReconciliations rs names (set_store s1 db)"]
      by (auto simp: migrate_guarded_def)
    then show ?thesis using assms(2) ready False s1 by (auto simp: migrateRouteTargetReplacements_def)
  qed
qed


definition demo_route_store :: Store where
  "demo_route_store = demo_held\<lparr>alertEvents := [demo_event\<lparr>evTarget := ''routes: https://a.test:8080''\<rparr>]\<rparr>"

definition demo_replacement :: RouteTargetReplacement where
  "demo_replacement = \<lparr>rrServiceID = ''web'', rrOldRoute = ''https://a.test:8080'', rrNewRoute = ''https://a.test''\<rparr>"

lemma demo_route_inv: "alert_inv demo_route_store"
  by (simp add: alert_inv_def demo_route_store_def demo_defs row_keys_def row_ok_def validAlertDispatchStatus_def unique_pending_def
      pending_events_def synced_iff dispatches_of_def derived_status_def count_status_def open_dispatch_def)


text \<open>
  The merge of two statuses takes three columns from the chosen row: with the expiry of the other one
  a result just checked can be stale at once. The same row without a merge keeps its own expiry.
\<close>

lemma merge_keeps_old_expiry:
  assumes "dbStatuses db = [old, existing]"
    and "srServiceID old = sid" "srServiceID existing = sid" "srTarget old = a" "srTarget existing = b" "a \<noteq> b"
    and "shouldReplaceCanonicalStatus old existing"
  shows "dbStatuses (migrateRouteStatus sid a b db) =
    [existing\<lparr>srHealth := srHealth old, srMessage := srMessage old, srCheckedAt := srCheckedAt old\<rparr>]"
  using assms by (simp add: migrateRouteStatus_def status_at_def applyStatusResultMigration_def update_status_def)

end
