(* ===== verification/StatusProps.thy ===== *)
theory StatusProps
  imports StatusOps HealthProps RouteProps
begin

text \<open>
  Properties of the monitor results: the batched lookup answers what one query would, uptime figures are
  within bounds, a result is shown with its health until the second it expires, and overrides are
  respected by everything that writes results.
\<close>

section \<open>What an observation of the health leaves alone\<close>

lemma insert_dispatch_tokens [simp]: "redactionTokens (insert_dispatch eid t k s) = redactionTokens s"
  by (simp add: insert_dispatch_def)

lemma insert_event_tokens [simp]: "redactionTokens (insert_event ev s) = redactionTokens s"
  by (simp add: insert_event_def)

lemma ensure_pending_tokens [simp]: "redactionTokens (ensurePendingAlertDispatches eid ks t s) = redactionTokens s"
  unfolding ensurePendingAlertDispatches_def by (induction ks arbitrary: s) auto

lemma ensure_key_tokens: "ensureAlertDedupeKeyCurrent s = (s1, e) \<Longrightarrow> redactionTokens s1 = redactionTokens s"
  by (auto simp: ensureAlertDedupeKeyCurrent_def lock_with_def lockAlertState_def Let_def split: if_splits option.splits)

lemma enqueue_tokens: "enqueueAlertEventInTx now ev ks cd s = (s1, r) \<Longrightarrow> redactionTokens s1 = redactionTokens s"
  by (auto simp: enqueueAlertEventInTx_def enqueue_prepared_def Let_def dest: ensure_key_tokens
      split: sum.splits prod.splits option.splits if_splits)

lemma rollback_tokens [simp]: "redactionTokens (rollback s t) = redactionTokens t"
  by (simp add: rollback_def)

lemma produce_frame:
  assumes "produceHealthAlert sid at now h = (h', e)"
  shows "hdStatuses h' = hdStatuses h" "hdIncarnations h' = hdIncarnations h" "redactionTokens (hdStore h') = redactionTokens (hdStore h)"
proof -
  have "hdStatuses h' = hdStatuses h \<and> hdIncarnations h' = hdIncarnations h \<and> redactionTokens (hdStore h') = redactionTokens (hdStore h)"
  proof (cases "producing h")
    case True
    from assms True show ?thesis
      by (cases rule: produce_cases)
        (auto elim!: emit_cases simp: emit_health_edge_def Let_def dest: enqueue_tokens split: prod.splits sum.splits if_splits)
  qed (use assms not_producing in auto)
  then show "hdStatuses h' = hdStatuses h" "hdIncarnations h' = hdIncarnations h" "redactionTokens (hdStore h') = redactionTokens (hdStore h)"
    by simp_all
qed

lemma observe_one_frame [simp]:
  "hdStatuses (observeHealthAlert sid at now h) = hdStatuses h"
  "redactionTokens (hdStore (observeHealthAlert sid at now h)) = redactionTokens (hdStore h)"
  using produce_frame [of sid at now h] by (simp_all add: observeHealthAlert_def prod_eq_iff)

lemma observe_all_frame [simp]:
  "hdStatuses (observeHealthAlerts sids at now h) = hdStatuses h"
  "redactionTokens (hdStore (observeHealthAlerts sids at now h)) = redactionTokens (hdStore h)"
  unfolding observeHealthAlerts_def by (induction sids arbitrary: h) auto

text \<open>The tables that monitoring reads, and the state in memory, are those from before the observation.\<close>

lemma on_health_simps [simp]:
  "dbServices (on_health f db) = dbServices db" "dbRepositories (on_health f db) = dbRepositories db"
  "dbScans (on_health f db) = dbScans db" "dbScanSeq (on_health f db) = dbScanSeq db"
  "dbHistory (on_health f db) = dbHistory db" "dbHistorySeq (on_health f db) = dbHistorySeq db"
  "dbOverrides (on_health f db) = dbOverrides db" "dbAgents (on_health f db) = dbAgents db"
  "dbTTLs (on_health f db) = dbTTLs db" "dbCache (on_health f db) = dbCache db"
  by (simp_all add: on_health_def)

lemma observe_simps [simp]:
  "dbStatuses (observe sid at now db) = dbStatuses db"
  "redactionTokens (dbStore (observe sid at now db)) = redactionTokens (dbStore db)"
  "dbStatuses (on_health (observeHealthAlerts sids at now) db) = dbStatuses db"
  "redactionTokens (dbStore (on_health (observeHealthAlerts sids at now) db)) = redactionTokens (dbStore db)"
  by (simp_all add: observe_def on_health_def health_view_def)

lemma observe_tables [simp]:
  "dbServices (observe sid at now db) = dbServices db" "dbRepositories (observe sid at now db) = dbRepositories db"
  "dbScans (observe sid at now db) = dbScans db" "dbScanSeq (observe sid at now db) = dbScanSeq db"
  "dbHistory (observe sid at now db) = dbHistory db" "dbHistorySeq (observe sid at now db) = dbHistorySeq db"
  "dbOverrides (observe sid at now db) = dbOverrides db" "dbAgents (observe sid at now db) = dbAgents db"
  "dbTTLs (observe sid at now db) = dbTTLs db" "dbCache (observe sid at now db) = dbCache db"
  by (simp_all add: observe_def)

section \<open>The lookup of route monitors\<close>

definition lookup_view :: "RouteMonitorLookup \<Rightarrow> string set \<times> string set" where
  "lookup_view l = (set (rlOverrides l), set (rlStatusTargets l))"

lemma insert_filter_fst:
  "{x \<in> set (r # rows). fst x = k} = (if fst r = k then insert r {x \<in> set rows. fst x = k} else {x \<in> set rows. fst x = k})"
  by auto

lemma fold_add_override:
  "map_option lookup_view (fold add_override rows result k) =
     map_option (\<lambda>v. (fst v \<union> snd ` {r \<in> set rows. fst r = k}, snd v)) (map_option lookup_view (result k))"
proof (induction rows arbitrary: result)
  case (Cons r rows)
  show ?case unfolding fold.simps comp_def Cons.IH
    by (cases "result (fst r)"; cases "result k") (auto simp: add_override_def lookup_view_def insert_filter_fst)
qed (simp add: option.map_ident)

lemma fold_add_target:
  "map_option lookup_view (fold add_target rows result k) =
     map_option (\<lambda>v. (fst v, snd v \<union> snd ` {r \<in> set rows. fst r = k})) (map_option lookup_view (result k))"
proof (induction rows arbitrary: result)
  case (Cons r rows)
  show ?case unfolding fold.simps comp_def Cons.IH
    by (cases "result (fst r)"; cases "result k") (auto simp: add_target_def lookup_view_def insert_filter_fst)
qed (simp add: option.map_ident)

definition override_targets :: "DashDB \<Rightarrow> string \<Rightarrow> string \<Rightarrow> string \<Rightarrow> string set" where
  "override_targets db exactTarget pre sid =
     ovTarget ` {ov \<in> set (dbOverrides db). ovServiceID ov = sid \<and> ovNotApplicable ov = 1 \<and> lookup_target exactTarget pre (ovTarget ov)}"

definition status_targets :: "DashDB \<Rightarrow> string \<Rightarrow> string \<Rightarrow> string \<Rightarrow> string set" where
  "status_targets db exactTarget pre sid =
     srTarget ` {s \<in> set (dbStatuses db). srServiceID s = sid \<and> lookup_target exactTarget pre (srTarget s)}"

lemma lookup_chunk:
  "map_option lookup_view (routeMonitorLookupChunk db ex pre ids result k) =
     (if k \<in> set ids then map_option (\<lambda>v. (fst v \<union> override_targets db ex pre k, snd v \<union> status_targets db ex pre k))
        (map_option lookup_view (result k))
      else map_option lookup_view (result k))"
proof -
  have o: "snd ` {r \<in> set (map (\<lambda>ov. (ovServiceID ov, ovTarget ov)) (filter (\<lambda>ov. ovServiceID ov \<in> set ids \<and> ovNotApplicable ov = 1 \<and>
      lookup_target ex pre (ovTarget ov)) (dbOverrides db))). fst r = k} = (if k \<in> set ids then override_targets db ex pre k else {})"
    by (auto simp: override_targets_def image_iff)
  have t: "snd ` {r \<in> set (map (\<lambda>s. (srServiceID s, srTarget s)) (filter (\<lambda>s. srServiceID s \<in> set ids \<and>
      lookup_target ex pre (srTarget s)) (dbStatuses db))). fst r = k} = (if k \<in> set ids then status_targets db ex pre k else {})"
    by (auto simp: status_targets_def image_iff)
  show ?thesis unfolding routeMonitorLookupChunk_def Let_def fold_add_target fold_add_override o t
    by (cases "result k") auto
qed

lemma lookup_chunks:
  "map_option lookup_view (fold (routeMonitorLookupChunk db ex pre) chunks result k) =
     (if k \<in> set (concat chunks) then map_option (\<lambda>v. (fst v \<union> override_targets db ex pre k, snd v \<union> status_targets db ex pre k))
        (map_option lookup_view (result k))
      else map_option lookup_view (result k))"
proof (induction chunks arbitrary: result)
  case (Cons ids chunks)
  show ?case unfolding fold.simps comp_def Cons.IH lookup_chunk
    by (cases "result k"; cases "lookup_view (the (result k))") auto
qed simp

text \<open>The lookup in batches answers what a query over all services at once would: for exactly the
  trimmed and distinct ids asked for, the targets under an active override and the targets with a
  status, of those that are the exact target or match the prefix.\<close>
lemma route_lookup_ignores_batches:
  "map_option (\<lambda>l. (set (rlOverrides l), set (rlStatusTargets l))) (RouteMonitorLookup_of db ids exactTarget pre sid) =
     (if sid \<in> set (dedupeStrings ids) then
        Some (ovTarget ` {ov \<in> set (dbOverrides db). ovServiceID ov = sid \<and> ovNotApplicable ov = 1 \<and>
                (ovTarget ov = exactTarget \<or> like (pre @ ''%'') (ovTarget ov))},
              srTarget ` {s \<in> set (dbStatuses db). srServiceID s = sid \<and> (srTarget s = exactTarget \<or> like (pre @ ''%'') (srTarget s))})
      else None)"
proof -
  have view: "(\<lambda>l. (set (rlOverrides l), set (rlStatusTargets l))) = lookup_view" by (simp add: lookup_view_def fun_eq_iff)
  show ?thesis unfolding RouteMonitorLookup_of_def Let_def view lookup_chunks chunkStrings_concat
    by (simp add: lookup_view_def override_targets_def status_targets_def lookup_target_def)
qed

section \<open>Uptime\<close>

lemma uptime_tenths_le: "up \<le> tot \<Longrightarrow> uptime_tenths up tot \<le> 1000"
proof -
  assume "up \<le> tot"
  then have "(2000 * up + tot) div (2 * tot) \<le> (2001 * tot) div (2 * tot)" by (intro div_le_mono) simp
  also have "\<dots> \<le> 1000" by simp
  finally show ?thesis by (simp add: uptime_tenths_def)
qed

lemma uptime_tenths_round: "0 < tot \<Longrightarrow> 2000 * up < (2 * uptime_tenths up tot + 1) * tot \<and> (2 * uptime_tenths up tot - 1) * tot \<le> 2000 * up"
proof -
  assume tot: "0 < tot"
  define p where "p = tot * ((2000 * up + tot) div (2 * tot))"
  have "2000 * up + tot = 2 * p + (2000 * up + tot) mod (2 * tot)" unfolding p_def by (metis mult.assoc mult_div_mod_eq)
  moreover have "(2000 * up + tot) mod (2 * tot) < 2 * tot" using tot by simp
  ultimately have "2000 * up < 2 * p + tot" "2 * p - tot \<le> 2000 * up" by linarith+
  then show ?thesis using tot by (simp add: uptime_tenths_def p_def algebra_simps diff_mult_distrib)
qed

lemma newest_samples_length [simp]: "length (newest_samples rows) = min 40 (length rows)"
  by (simp add: newest_samples_def)

lemma newest_samples_set: "set (newest_samples rows) \<subseteq> set rows"
  unfolding newest_samples_def by (auto dest: in_set_takeD)

lemma sort_key_Nil: "sort_key f xs = [] \<longleftrightarrow> xs = []"
  by (metis length_0_conv length_sort)

lemma distinct_map_sort_key: "distinct (map f (sort_key g xs)) = distinct (map f xs)"
  by (simp add: distinct_map)

definition stat_key :: "UptimeStat \<Rightarrow> string \<times> string" where
  "stat_key st = (utServiceID st, utTarget st)"


section \<open>The life of a result\<close>

abbreviation status_id :: "StatusResult \<Rightarrow> string \<times> string" where "status_id s \<equiv> (srServiceID s, srTarget s)"

definition status_keys_distinct :: "DashDB \<Rightarrow> bool" where
  "status_keys_distinct db \<longleftrightarrow> distinct (map status_id (dbStatuses db))"

lemma put_status_ids:
  "status_id (upd new) = status_id new \<Longrightarrow> map status_id (put_status (\<lambda>_. new) new rows) =
     (if status_id new \<in> set (map status_id rows) then map status_id rows else map status_id rows @ [status_id new])"
  by (induction rows) auto

lemma put_status_distinct: "distinct (map status_id rows) \<Longrightarrow> distinct (map status_id (put_status (\<lambda>_. new) new rows))"
  using put_status_ids [of "\<lambda>x. x" new rows] by (simp split: if_splits)

lemma put_status_in: "new \<in> set (put_status (\<lambda>_. new) new rows)"
  by (induction rows) auto

lemma put_status_other: "s \<in> set (put_status (\<lambda>_. new) new rows) \<Longrightarrow> s = new \<or> s \<in> set rows"
  using set_put_status [of "\<lambda>_. new" new rows] by auto

lemma distinct_filter_key:
  "distinct (map f xs) \<Longrightarrow> x \<in> set xs \<Longrightarrow> filter (\<lambda>y. f y = f x) xs = [x]"
proof (induction xs)
  case (Cons y ys)
  show ?case
  proof (cases "y = x")
    case True
    then have "filter (\<lambda>z. f z = f x) ys = []" using Cons.prems(1) unfolding filter_empty_conv by (metis distinct.simps(2) imageI list.set_map list.simps(9))
    with True show ?thesis by simp
  next
    case False
    with Cons.prems have x: "x \<in> set ys" by simp
    then have "f y \<noteq> f x" using Cons.prems(1) by auto
    with Cons.IH x Cons.prems(1) show ?thesis by simp
  qed
qed simp

lemma put_status_filter:
  "distinct (map status_id rows) \<Longrightarrow> filter (\<lambda>s. status_id s = status_id new) (put_status (\<lambda>_. new) new rows) = [new]"
  by (rule distinct_filter_key [OF put_status_distinct put_status_in])

lemma aged_status_id [simp]: "srServiceID (aged_status db t s) = srServiceID s" "srTarget (aged_status db t s) = srTarget s"
  by (simp_all add: aged_status_def Let_def)

lemma read_status_id: "read_status db t s = Some r \<Longrightarrow> status_id r = status_id s"
  by (auto simp: read_status_def Let_def split: if_splits)

lemma filter_map_filter: "(\<And>x y. g x = Some y \<Longrightarrow> P y = Q x) \<Longrightarrow> filter P (List.map_filter g xs) = List.map_filter g (filter Q xs)"
  by (induction xs) (auto simp: List.map_filter_simps split: option.splits)

lemma filter_sort_desc: "filter P (sort_desc key xs) = sort_desc key (filter P xs)"
  by (simp add: sort_desc_def rev_filter [symmetric] filter_sort)

text \<open>A service without overrides.\<close>

definition no_overrides :: "DashDB \<Rightarrow> string \<Rightarrow> bool" where
  "no_overrides db sid \<longleftrightarrow> CHR 0x00 \<notin> set sid \<and> (\<forall>ov \<in> set (dbOverrides db). ovServiceID ov \<noteq> sid \<and> CHR 0x00 \<notin> set (ovServiceID ov))"

lemma key_of_other: "CHR 0x00 \<notin> set a \<Longrightarrow> CHR 0x00 \<notin> set b \<Longrightarrow> status_key a s = status_key b t \<Longrightarrow> a = b"
proof (induction a arbitrary: b)
  case Nil
  then show ?case by (cases b) (auto simp: status_key_def nul_def)
next
  case (Cons x a)
  then show ?case by (cases b) (auto simp: status_key_def nul_def)
qed

lemma no_overrides_state: "no_overrides db sid \<Longrightarrow> monitorOverrideState db sid t = (False, False)"
  by (auto simp: no_overrides_def monitorOverrideState_def Let_def list_ex_iff)

lemma no_overrides_key: "no_overrides db sid \<Longrightarrow> status_key sid t \<notin> set (activeMonitorOverrides db)"
  by (auto simp: no_overrides_def activeMonitorOverrides_def dest: key_of_other)

lemma no_overrides_parent: "no_overrides db sid \<Longrightarrow> sid \<notin> set (parentRouteOverrideServices db)"
  by (auto simp: no_overrides_def parentRouteOverrideServices_def list_ex_iff)

lemma write_status_tables [simp]:
  "dbOverrides (write_status s db) = dbOverrides db" "dbServices (write_status s db) = dbServices db"
  "dbStatuses (write_status s db) = put_status (\<lambda>_. status_columns db s) (status_columns db s) (dbStatuses db)"
  by (simp_all add: write_status_def insert_status_def insert_history_def deleteStatusHistoryForServiceTarget_def Let_def)

lemma status_columns_id [simp]: "srServiceID (status_columns db s) = srServiceID s" "srTarget (status_columns db s) = srTarget s"
  "srHealth (status_columns db s) = srHealth s"
  by (simp_all add: status_columns_def)

text \<open>A result written under a freshness window is shown, once, with its health until the second in
  which it expires, and as unknown without its images from then on, when nothing else is written and no
  override concerns its service.\<close>
lemma result_fresh_until_expiry:
  assumes "status_keys_distinct db" "no_overrides db sid" "sid = TrimSpace (srServiceID s)"
    and "target = canonicalStatusTarget (srTarget s)" "0 < statusTTL db target"
    and "srHealth s \<noteq> HealthNotApplicable" "srExpiresAt s = zero_time" "srCheckedAt s \<noteq> zero_time"
    and "expiry = to_seconds (srCheckedAt s + statusTTL db target)" "expiry \<noteq> zero_time"
  shows "\<exists>r. filter (\<lambda>r. srServiceID r = sid \<and> srTarget r = target) (StatusResults (UpsertStatus s now db) t) = [r] \<and>
    srCheckedAt r = to_seconds (srCheckedAt s) \<and>
    srHealth r = (if t < expiry then srHealth s else HealthUnknown) \<and>
    srObservedImages r = (if t < expiry then srObservedImages s else [])"
proof -
  let ?s = "with_expiry db (canonical_status s)"
  let ?row = "status_columns db ?s"
  let ?db = "UpsertStatus s now db"
  have expires: "srExpiresAt ?s = srCheckedAt s + statusTTL db target" "srServiceID ?s = sid" "srTarget ?s = target"
    "srHealth ?s = srHealth s" "srObservedImages ?s = srObservedImages s" "srCheckedAt ?s = srCheckedAt s"
    using assms by (simp_all add: with_expiry_def canonical_status_def)
  have "srCheckedAt s + statusTTL db target \<noteq> zero_time"
    using assms(9,10) by (auto simp: to_seconds_def zero_time_def Second_def)
  then have row: "srExpiresAt ?row = expiry" "srCheckedAt ?row = to_seconds (srCheckedAt s)" "srServiceID ?row = sid" "srTarget ?row = target"
    "srHealth ?row = srHealth s" "srObservedImages ?row = srObservedImages s"
    using expires assms(9) by (simp_all add: status_columns_def)
  have "admitted_status db ?s = Some ?s"
    using no_overrides_state [OF assms(2)] by (simp add: admitted_status_def expires)
  then have db: "?db = observe (srServiceID ?s) (srCheckedAt ?s) now (commitAndInvalidateSummary (write_status ?s db))"
    by (simp add: UpsertStatus_def Let_def)
  have no: "no_overrides ?db sid" using assms(2) by (simp add: db no_overrides_def)
  have one: "filter (\<lambda>x. srServiceID x = sid \<and> srTarget x = target) (dbStatuses ?db) = [?row]"
    using put_status_filter [of "dbStatuses db" ?row] assms(1) row(3,4)
    by (simp add: db status_keys_distinct_def)
  have "filter (\<lambda>r. srServiceID r = sid \<and> srTarget r = target) (StatusResults ?db t) =
      List.map_filter (read_status ?db t) (sort_desc srCheckedAt [?row])"
    unfolding StatusResults_def one [symmetric] filter_sort_desc [symmetric]
    by (rule filter_map_filter) (auto dest: read_status_id)
  also have "\<dots> = [aged_status ?db t ?row]"
    using no_overrides_key [OF no] no_overrides_parent [OF no] row(3)
    by (simp add: sort_desc_def List.map_filter_simps read_status_def Let_def)
  finally show ?thesis using row assms(6,10)
    by (intro exI [of _ "aged_status ?db t ?row"]) (simp add: aged_status_def derived_expiry_def Let_def)
qed

section \<open>Overrides\<close>

text \<open>The operations of monitoring on the store, with anything the callers may ask for.\<close>

inductive monitor_step :: "DashDB \<Rightarrow> DashDB \<Rightarrow> bool" where
  result: "monitor_step db (UpsertStatus s now db)"
| report: "monitor_step db (UpsertAgentReport message statuses received now db)"
| override: "SetMonitorNotApplicable sid target na now db = (db1, e) \<Longrightarrow> monitor_step db db1"
| prune: "monitor_step db (PruneStatusTargets sid exactTarget pre keep now db)"
| prune_known: "monitor_step db (PruneStatusTargetsFromKnown sid exactTarget pre keep known keepExact now db)"
| history: "monitor_step db (PruneStatusHistory now db)"
| summary: "monitor_step db (fst (Summary now db))"

text \<open>What is done before the first request is served, and a write of an agent that has no caller.\<close>

inductive setup_step :: "DashDB \<Rightarrow> DashDB \<Rightarrow> bool" where
  ttl: "setup_step db (SetStatusTTL target ttl db)"
| agent: "setup_step db (UpsertAgent message now db)"

definition active_override :: "DashDB \<Rightarrow> string \<Rightarrow> string \<Rightarrow> bool" where
  "active_override db sid target \<longleftrightarrow> (\<exists>ov \<in> set (dbOverrides db). ovServiceID ov = sid \<and> ovTarget ov = target \<and> ovNotApplicable ov = 1)"

definition respected :: "DashDB \<Rightarrow> string \<Rightarrow> string \<Rightarrow> bool" where
  "respected db sid target \<longleftrightarrow>
     (\<forall>s \<in> set (dbStatuses db). srServiceID s = sid \<and> srTarget s = target \<longrightarrow> srHealth s = HealthNotApplicable) \<and>
     (\<forall>h \<in> set (dbHistory db). \<not> (hyServiceID h = sid \<and> hyTarget h = target))"

definition overrides_respected :: "DashDB \<Rightarrow> bool" where
  "overrides_respected db \<longleftrightarrow> status_keys_distinct db \<and>
     (\<forall>sid target. active_override db sid target \<and> canonicalStatusTarget target = target \<longrightarrow> respected db sid target)"

lemma overrides_respected_cong:
  "dbStatuses db1 = dbStatuses db \<Longrightarrow> dbHistory db1 = dbHistory db \<Longrightarrow> dbOverrides db1 = dbOverrides db \<Longrightarrow>
     overrides_respected db1 \<longleftrightarrow> overrides_respected db"
  by (simp add: overrides_respected_def status_keys_distinct_def active_override_def respected_def)

text \<open>Removing rows keeps it.\<close>

lemma overrides_respected_fewer:
  assumes "overrides_respected db" "dbStatuses db1 = filter P (dbStatuses db)" "set (dbHistory db1) \<subseteq> set (dbHistory db)"
    and "dbOverrides db1 = dbOverrides db"
  shows "overrides_respected db1"
proof -
  have "distinct (map status_id (filter P xs))" if "distinct (map status_id xs)" for xs
    using that by (simp add: distinct_map_filter)
  moreover have "respected db1 sid target" if "respected db sid target" for sid target
    using that assms(2,3) by (auto simp: respected_def)
  ultimately show ?thesis using assms(1,2,4) by (simp add: overrides_respected_def status_keys_distinct_def active_override_def)
qed

lemma exact_override: "active_override db sid target \<Longrightarrow> canonicalStatusTarget target = target \<Longrightarrow> fst (monitorOverrideState db sid target)"
  by (force simp: active_override_def monitorOverrideState_def Let_def list_ex_iff)

lemma write_status_history:
  "dbHistory (write_status s db) = (if srHealth s = HealthNotApplicable
     then filter (\<lambda>h. \<not> (hyServiceID h = srServiceID s \<and> hyTarget h = srTarget s)) (dbHistory db)
     else dbHistory db @ [\<lparr>hyID = dbHistorySeq db + 1, hyServiceID = srServiceID s, hyTarget = srTarget s, hyHealth = srHealth s,
            hyMessage = db_redact db (srMessage s), hyCheckedAt = RFC3339 (srCheckedAt s)\<rparr>])"
  by (simp add: write_status_def insert_status_def insert_history_def deleteStatusHistoryForServiceTarget_def Let_def
      set_statuses_def status_columns_def)

lemma write_status_respects:
  assumes "overrides_respected db" "admitted_status db s0 = Some s"
  shows "overrides_respected (write_status s db)"
proof -
  have id: "srServiceID s = srServiceID s0" "srTarget s = srTarget s0"
    using assms(2) by (auto simp: admitted_status_def overridden_status_def split: prod.splits if_splits)
  have na: "srHealth s = HealthNotApplicable"
    if "active_override db (srServiceID s) (srTarget s)" "canonicalStatusTarget (srTarget s) = srTarget s"
    using exact_override [OF that] assms(2)
    by (auto simp: id admitted_status_def overridden_status_def split: prod.splits if_splits)
  have "respected (write_status s db) sid target"
    if ov: "active_override db sid target" "canonicalStatusTarget target = target" for sid target
  proof -
    have old: "respected db sid target" using assms(1) ov by (simp add: overrides_respected_def)
    have "srHealth s = HealthNotApplicable" if "srServiceID s = sid" "srTarget s = target" using na that ov by simp
    with old show ?thesis
      by (auto simp: respected_def write_status_history dest!: put_status_other split: if_splits)
  qed
  moreover have "status_keys_distinct (write_status s db)"
    using assms(1) put_status_distinct by (simp add: overrides_respected_def status_keys_distinct_def)
  ultimately show ?thesis by (simp add: overrides_respected_def active_override_def)
qed

lemma report_step_respects: "overrides_respected (fst st) \<Longrightarrow> overrides_respected (fst (report_step s st))"
  by (auto simp: report_step_def write_status_respects split: option.splits)

lemma fold_report_respects: "overrides_respected (fst st) \<Longrightarrow> overrides_respected (fst (fold report_step ss st))"
proof (induction ss arbitrary: st)
  case (Cons s ss)
  then show ?case using Cons.IH [of "report_step s st"] report_step_respects by simp
qed simp

text \<open>A new override: its own status row is not applicable, its history is gone.\<close>

lemma put_override_in: "ov \<in> set (put_override new rest) \<Longrightarrow> ov = new \<or> ov \<in> set rest"
  by (induction rest) (auto split: if_splits)

lemma set_not_applicable_respects:
  assumes "overrides_respected db"
  shows "overrides_respected (set_not_applicable sid rs now db)"
proof -
  let ?new = "not_applicable_status sid (rsTarget rs) now"
  let ?db1 = "db\<lparr>dbOverrides := put_override \<lparr>ovServiceID = sid, ovTarget = rsTarget rs, ovNotApplicable = 1, ovUpdatedAt = RFC3339 now\<rparr> (dbOverrides db)\<rparr>"
  let ?db2 = "deleteStatusHistoryForServiceTarget sid (rsTarget rs) (insert_status ?new ?db1)"
  have tables: "dbStatuses ?db2 = put_status (\<lambda>_. ?new) ?new (dbStatuses db)"
    "dbHistory ?db2 = filter (\<lambda>h. \<not> (hyServiceID h = sid \<and> hyTarget h = rsTarget rs)) (dbHistory db)"
    "dbOverrides ?db2 = put_override \<lparr>ovServiceID = sid, ovTarget = rsTarget rs, ovNotApplicable = 1, ovUpdatedAt = RFC3339 now\<rparr> (dbOverrides db)"
    by (simp_all add: insert_status_def deleteStatusHistoryForServiceTarget_def set_statuses_def)
  have new_keys: "status_keys_distinct ?db2"
    using assms put_status_distinct unfolding status_keys_distinct_def tables by (simp add: overrides_respected_def status_keys_distinct_def)
  have "respected ?db2 i t" if act: "active_override ?db2 i t" "canonicalStatusTarget t = t" for i t
  proof (cases "i = sid \<and> t = rsTarget rs")
    case True
    have new_id: "status_id ?new = (sid, rsTarget rs)" by (simp add: not_applicable_status_def)
    have "srHealth s = HealthNotApplicable" if "s \<in> set (dbStatuses ?db2)" "srServiceID s = sid" "srTarget s = rsTarget rs" for s
    proof -
      have "s = ?new"
        using that new_keys put_status_in [of ?new "dbStatuses db"] distinct_map_eq [of status_id "dbStatuses ?db2" s ?new]
        by (simp add: status_keys_distinct_def tables(1) new_id)
      then show ?thesis by (simp add: not_applicable_status_def)
    qed
    with True show ?thesis unfolding respected_def tables(2) by simp
  next
    case False
    have "active_override db i t" using act(1) False unfolding active_override_def tables(3) by (auto dest!: put_override_in)
    with assms act(2) have "respected db i t" by (simp add: overrides_respected_def)
    then show ?thesis unfolding respected_def tables by (auto dest!: put_status_other simp: not_applicable_status_def)
  qed
  with new_keys have "overrides_respected ?db2" by (simp add: overrides_respected_def)
  then show ?thesis
  proof (rule overrides_respected_fewer)
    show "dbStatuses (set_not_applicable sid rs now db) =
        filter (\<lambda>s. \<not> (rsSyntheticRouteParent rs \<and> srServiceID s = sid \<and> like (target_Prefix @ ''%'') (srTarget s))) (dbStatuses ?db2)"
      by (simp add: set_not_applicable_def deleteStatusForServiceTargetPrefix_def deleteStatusHistoryForServiceTarget_def Let_def)
    show "set (dbHistory (set_not_applicable sid rs now db)) \<subseteq> set (dbHistory ?db2)"
      by (auto simp: set_not_applicable_def deleteStatusForServiceTargetPrefix_def deleteStatusHistoryForServiceTarget_def insert_status_def Let_def)
    show "dbOverrides (set_not_applicable sid rs now db) = dbOverrides ?db2"
      by (simp add: set_not_applicable_def deleteStatusForServiceTargetPrefix_def deleteStatusHistoryForServiceTarget_def insert_status_def Let_def)
  qed
qed

lemma set_applicable_respects:
  assumes "overrides_respected db"
  shows "overrides_respected (set_applicable sid target now db)"
proof -
  let ?f = "\<lambda>s. if srServiceID s = sid \<and> srTarget s = target \<and> srHealth s = HealthNotApplicable then enabled_status now s else s"
  have tables: "dbStatuses (set_applicable sid target now db) = map ?f (dbStatuses db)"
    "dbHistory (set_applicable sid target now db) = dbHistory db"
    "dbOverrides (set_applicable sid target now db) = filter (\<lambda>ov. \<not> (ovServiceID ov = sid \<and> ovTarget ov = target)) (dbOverrides db)"
    by (simp_all add: set_applicable_def Let_def set_statuses_def)
  have f: "status_id (?f s) = status_id s" for s by (simp add: enabled_status_def)
  then have ids: "map status_id (map ?f xs) = map status_id xs" for xs by (simp add: comp_def)
  have "respected (set_applicable sid target now db) i t"
    if act: "active_override (set_applicable sid target now db) i t" "canonicalStatusTarget t = t" for i t
  proof -
    have other: "i \<noteq> sid \<or> t \<noteq> target" "active_override db i t" using act(1) unfolding active_override_def tables(3) by auto
    with assms act(2) have "respected db i t" by (simp add: overrides_respected_def)
    with other(1) show ?thesis unfolding respected_def tables by (auto simp: enabled_status_def)
  qed
  moreover have "status_keys_distinct (set_applicable sid target now db)"
    using assms unfolding status_keys_distinct_def tables ids by (simp add: overrides_respected_def status_keys_distinct_def)
  ultimately show ?thesis by (simp add: overrides_respected_def)
qed

lemma commit_respects [simp]: "overrides_respected (commitAndInvalidateSummary db) = overrides_respected db"
  by (rule overrides_respected_cong) simp_all

lemma observe_respects [simp]:
  "overrides_respected (observe sid at now db) = overrides_respected db"
  "overrides_respected (on_health (observeHealthAlerts sids at now) db) = overrides_respected db"
  by (rule overrides_respected_cong; simp)+

lemma prune_respects: "overrides_respected db \<Longrightarrow> overrides_respected (commitStatusTargetPrune sid targets now db)"
  unfolding commitStatusTargetPrune_def
  by (simp, erule overrides_respected_fewer) (auto simp: deleteByServiceAndTargets_def)

lemma monitor_step_respects:
  assumes "monitor_step db db1" "overrides_respected db"
  shows "overrides_respected db1"
  using assms(1)
proof cases
  case (result s now)
  then show ?thesis using assms(2) write_status_respects by (auto simp: UpsertStatus_def Let_def split: option.splits)
next
  case (report message statuses received now)
  let ?db1 = "db\<lparr>dbAgents := put_agent (agent_row (FilterAgentMessageDockerLabels message) received) (dbAgents db)\<rparr>"
  have "overrides_respected ?db1" using assms(2) overrides_respected_cong [of ?db1 db] by simp
  then have "overrides_respected (fst (fold report_step statuses (?db1, [])))" using fold_report_respects [of "(?db1, [])"] by simp
  then show ?thesis by (auto simp: report UpsertAgentReport_def split: prod.splits)
next
  case (override sid target na now e)
  then show ?thesis using assms(2) set_not_applicable_respects set_applicable_respects
    by (auto simp: SetMonitorNotApplicable_def Let_def split: if_splits)
next
  case (history now)
  have "overrides_respected (delete_history P db)" for P
    using overrides_respected_fewer [OF assms(2), of "delete_history P db" "\<lambda>_. True"] by (auto simp: delete_history_def)
  then show ?thesis by (simp add: history PruneStatusHistory_def deleteStatusHistoryBefore_def)
next
  case (summary now)
  then show ?thesis using assms(2) overrides_respected_cong [of db1 db] by (auto simp: Summary_def Let_def split: option.splits)
qed (use assms(2) prune_respects in \<open>simp_all add: PruneStatusTargets_def PruneStatusTargetsFromKnown_def Let_def\<close>)

lemma setup_step_respects: "setup_step db db1 \<Longrightarrow> overrides_respected db \<Longrightarrow> overrides_respected db1"
  by (induction rule: setup_step.induct)
    (auto simp: SetStatusTTL_def UpsertAgent_def Let_def overrides_respected_cong [of "_\<lparr>dbTTLs := _\<rparr>"] overrides_respected_cong [of "_\<lparr>dbAgents := _\<rparr>"])

text \<open>C37: Nothing monitoring does lets a result through an override: as long as an override of a canonical
  target is active, the status of that target is not applicable for the health roll-up and the alerts
  too, and it has no history, whatever results, reports, overrides and prunings follow.\<close>
theorem overrides_are_respected:
  assumes "(sup monitor_step setup_step)\<^sup>*\<^sup>* db db1" "overrides_respected db"
    and "ov \<in> set (dbOverrides db1)" "ovNotApplicable ov = 1" "canonicalStatusTarget (ovTarget ov) = ovTarget ov"
  shows "(\<forall>s \<in> set (dbStatuses db1). srServiceID s = ovServiceID ov \<and> srTarget s = ovTarget ov \<longrightarrow> srHealth s = HealthNotApplicable) \<and>
    \<not> (\<exists>h \<in> set (dbHistory db1). hyServiceID h = ovServiceID ov \<and> hyTarget h = ovTarget ov)"
proof -
  from assms(1,2) have "overrides_respected db1" by (induction rule: rtranclp_induct) (auto intro: monitor_step_respects setup_step_respects)
  with assms(3-5) show ?thesis unfolding overrides_respected_def active_override_def respected_def by blast
qed

text \<open>
  A replacement of routes does not write results and does not ask for overrides: an override that moves
  to the new target finds the status that target has, which the roll-up of the alert producer counts.
\<close>

lemma replacement_passes_override:
  assumes "dbOverrides db = [\<lparr>ovServiceID = sid, ovTarget = a, ovNotApplicable = 1, ovUpdatedAt = t\<rparr>]"
    and "dbStatuses db = [s]" "srServiceID s = sid" "srTarget s = b" "srHealth s \<noteq> HealthNotApplicable" "a \<noteq> b"
  shows "active_override (migrateRouteStatus sid a b (migrateRouteOverride sid a b db)) sid b"
    and "\<not> respected (migrateRouteStatus sid a b (migrateRouteOverride sid a b db)) sid b"
proof -
  have o: "migrateRouteOverride sid a b db = db\<lparr>dbOverrides := [\<lparr>ovServiceID = sid, ovTarget = b, ovNotApplicable = 1, ovUpdatedAt = t\<rparr>]\<rparr>"
    using assms(1,6) by (simp add: migrateRouteOverride_def override_at_def applyMonitorOverrideMigration_def update_overrides_def)
  have m: "migrateRouteStatus sid a b (migrateRouteOverride sid a b db) = migrateRouteOverride sid a b db"
    using assms(2-4,6) by (simp add: o migrateRouteStatus_def status_at_def)
  show "active_override (migrateRouteStatus sid a b (migrateRouteOverride sid a b db)) sid b"
    unfolding m by (simp add: o active_override_def)
  show "\<not> respected (migrateRouteStatus sid a b (migrateRouteOverride sid a b db)) sid b"
    using assms(2-5) unfolding m by (simp add: o respected_def)
qed

section \<open>Examples\<close>

definition demo_result :: StatusResult where
  "demo_result = \<lparr>srServiceID = ''web'', srTarget = ''a'', srHealth = HealthHealthy, srMessage = [], srCheckedAt = 1735734645000000000,
     srExpiresAt = zero_time, srObservedImages = []\<rparr>"

definition demo_windows :: DashDB where
  "demo_windows = (new_dash (demo_db [''log''] HealthError))\<lparr>dbTTLs := [''a'' \<mapsto> Minute]\<rparr>"

lemma demo_target: "canonicalStatusTarget ''a'' = ''a''" "TrimSpace ''web'' = ''web''"
  by code_simp+

definition demo_history :: "HealthState \<Rightarrow> HistoryRow" where
  "demo_history health = \<lparr>hyID = 1, hyServiceID = ''web'', hyTarget = ''a'', hyHealth = health, hyMessage = [], hyCheckedAt = ''2025-01-01T12:30:45Z''\<rparr>"

definition demo_uptime :: DashDB where
  "demo_uptime = demo_windows\<lparr>dbHistory := [demo_history HealthHealthy, demo_history HealthError]\<rparr>"


definition demo_overridden :: DashDB where
  "demo_overridden = demo_windows\<lparr>
     dbHealth := (dbHealth demo_windows)\<lparr>hdStatuses := [not_applicable_status ''web'' ''a'' 0]\<rparr>,
     dbOverrides := [\<lparr>ovServiceID = ''web'', ovTarget = ''a'', ovNotApplicable = 1, ovUpdatedAt = []\<rparr>]\<rparr>"

theorem overrides_are_respected_witness:
  "\<not> (\<exists>h \<in> set (dbHistory (UpsertStatus demo_result 0 demo_overridden)). hyServiceID h = ''web'' \<and> hyTarget h = ''a'')"
proof -
  let ?ov = "\<lparr>ovServiceID = ''web'', ovTarget = ''a'', ovNotApplicable = 1, ovUpdatedAt = []\<rparr>"
  have "overrides_respected demo_overridden"
    by (simp add: overrides_respected_def status_keys_distinct_def respected_def active_override_def demo_overridden_def
        not_applicable_status_def demo_windows_def new_dash_def)
  moreover have "(sup monitor_step setup_step)\<^sup>*\<^sup>* demo_overridden (UpsertStatus demo_result 0 demo_overridden)"
    by (intro r_into_rtranclp sup2I1 monitor_step.result)
  moreover have "?ov \<in> set (dbOverrides (UpsertStatus demo_result 0 demo_overridden))"
    by (simp add: UpsertStatus_def Let_def demo_overridden_def split: option.splits)
  ultimately show ?thesis using overrides_are_respected [where ov = ?ov] demo_target by simp
qed

end
