(* ===== verification/InventoryProps.thy ===== *)
theory InventoryProps
  imports Inventory RouteProps
begin

text \<open>
  What the inventory keeps: the newest terminal scan of each repository under retention, the incarnation
  of a service that survives a replacement, the tables under a failed operation, and the lock message of
  the newest clean-up under any order of completion.
\<close>

section \<open>The newest terminal scan\<close>

definition scans_ok :: "Scan list \<Rightarrow> bool" where
  "scans_ok scans \<longleftrightarrow> distinct (map snID scans) \<and> (\<forall>s \<in> set scans. 0 < snID s)"

lemma scans_ok_filter: "scans_ok scans \<Longrightarrow> scans_ok (filter P scans)"
  by (auto simp: scans_ok_def distinct_map_filter)

lemma fold_max_in: "fold max (xs :: int list) a = a \<or> fold max xs a \<in> set xs"
proof (induction xs arbitrary: a)
  case (Cons x xs)
  then show ?case using Cons.IH [of "max x a"] by (auto simp: max_def split: if_splits)
qed simp

lemma fold_max_ge: "x \<in> set xs \<Longrightarrow> x \<le> fold max xs a" "a \<le> fold max xs a" for xs :: "int list"
proof (induction xs arbitrary: a)
  case (Cons y xs)
  { case 1 then show ?case using Cons.IH(1) [of "max y a"] Cons.IH(2) [of "max y a"] by (auto intro: order_trans [rotated]) }
  { case 2 then show ?case using Cons.IH(2) [of "max y a"] by simp }
qed simp_all

lemma latest_terminal_Some:
  assumes "scans_ok scans"
  shows "latest_terminal scans name = Some s \<longleftrightarrow> s \<in> set scans \<and> snRepository s = name \<and> terminal_scan s \<and>
    (\<forall>t \<in> set scans. snRepository t = name \<and> terminal_scan t \<longrightarrow> snID t \<le> snID s)"
proof -
  let ?mine = "filter (\<lambda>s. snRepository s = name \<and> terminal_scan s) scans"
  let ?m = "fold max (map snID ?mine) 0"
  have ge: "snID t \<le> ?m" if "t \<in> set ?mine" for t using that fold_max_ge(1) [of "snID t" "map snID ?mine" 0] by auto
  have uniq: "t = u" if "t \<in> set ?mine" "u \<in> set ?mine" "snID t = snID u" for t u
    using that assms distinct_map_eq [of snID scans t u] by (auto simp: scans_ok_def)
  have top: "?m \<in> snID ` set ?mine" if "t \<in> set ?mine" for t
    using fold_max_in [of "map snID ?mine" 0] ge [OF that] that assms by (force simp: scans_ok_def)
  show ?thesis
  proof
    assume "latest_terminal scans name = Some s"
    then have "s \<in> set ?mine" "snID s = ?m" by (auto simp: latest_terminal_def Let_def dest: find_Some_iff_set)
    then show "s \<in> set scans \<and> snRepository s = name \<and> terminal_scan s \<and>
      (\<forall>t \<in> set scans. snRepository t = name \<and> terminal_scan t \<longrightarrow> snID t \<le> snID s)" using ge by auto
  next
    assume s: "s \<in> set scans \<and> snRepository s = name \<and> terminal_scan s \<and>
      (\<forall>t \<in> set scans. snRepository t = name \<and> terminal_scan t \<longrightarrow> snID t \<le> snID s)"
    then have mine: "s \<in> set ?mine" by simp
    from top [OF mine] obtain t where t: "t \<in> set ?mine" "snID t = ?m" by auto
    then have "snID s = ?m" using s ge [OF mine] by auto
    moreover have "find (\<lambda>s. snID s = ?m) ?mine \<noteq> None" using t by (auto simp: find_None_set)
    then obtain u where u: "find (\<lambda>s. snID s = ?m) ?mine = Some u" by blast
    moreover have "u \<in> set ?mine" "snID u = ?m" using find_Some_iff_set [OF u] by blast+
    ultimately show "latest_terminal scans name = Some s"
      using uniq [OF _ mine, of u] unfolding latest_terminal_def Let_def by simp
  qed
qed

lemma latest_terminal_None:
  assumes "scans_ok scans"
  shows "latest_terminal scans name = None \<longleftrightarrow> (\<forall>t \<in> set scans. snRepository t = name \<longrightarrow> \<not> terminal_scan t)"
proof -
  let ?mine = "filter (\<lambda>s. snRepository s = name \<and> terminal_scan s) scans"
  have "fold max (map snID ?mine) 0 \<in> snID ` set ?mine" if "t \<in> set ?mine" for t
    using fold_max_in [of "map snID ?mine" 0] fold_max_ge(1) [of "snID t" "map snID ?mine" 0] that assms
    by (force simp: scans_ok_def)
  then have top: "\<exists>x \<in> set ?mine. snID x = fold max (map snID ?mine) 0" if "?mine \<noteq> []"
    using that by (metis (no_types, lifting) imageE list.set_sel(1))
  have "find (\<lambda>s. snID s = fold max (map snID ?mine) 0) ?mine = None \<longleftrightarrow> ?mine = []"
  proof (cases "?mine = []")
    case False
    from top [OF this] show ?thesis using False unfolding find_None_set by blast
  qed simp
  then show ?thesis by (simp add: latest_terminal_def Let_def filter_empty_conv)
qed

lemma newest_ids_iff:
  assumes "scans_ok scans" "s \<in> set scans"
  shows "snID s \<in> set (newest_ids scans) \<longleftrightarrow> latest_terminal scans (snRepository s) = Some s"
proof
  assume "snID s \<in> set (newest_ids scans)"
  then obtain name t where t: "latest_terminal scans name = Some t" "snID t = snID s"
    by (auto simp: newest_ids_def List.map_filter_def)
  then have "t = s" using assms distinct_map_eq [of snID scans t s]
    by (auto simp: latest_terminal_Some [OF assms(1)] scans_ok_def)
  with t show "latest_terminal scans (snRepository s) = Some s" by (auto simp: latest_terminal_Some [OF assms(1)])
next
  assume "latest_terminal scans (snRepository s) = Some s"
  then show "snID s \<in> set (newest_ids scans)" using assms(2) by (force simp: newest_ids_def List.map_filter_def)
qed

lemma delete_scans_latest:
  assumes ok: "scans_ok scans" and ids: "\<And>s. s \<in> set scans \<Longrightarrow> snID s \<in> set ids \<Longrightarrow> prunable_scan cutoff scans s"
  shows "latest_terminal (delete_scans ids scans) name = latest_terminal scans name"
proof (cases "latest_terminal scans name")
  case None
  then have "\<forall>t \<in> set (delete_scans ids scans). snRepository t = name \<longrightarrow> \<not> terminal_scan t"
    using latest_terminal_None [OF ok] by (simp add: delete_scans_def)
  then have "latest_terminal (delete_scans ids scans) name = None"
    using latest_terminal_None [OF scans_ok_filter [OF ok, of "\<lambda>s. snID s \<notin> set ids"]] by (simp add: delete_scans_def)
  with None show ?thesis by simp
next
  case (Some s)
  then have "snID s \<notin> set ids"
    using ids [of s] newest_ids_iff [OF ok, of s] by (auto simp: latest_terminal_Some [OF ok] prunable_scan_def)
  then have "latest_terminal (delete_scans ids scans) name = Some s"
    using Some unfolding delete_scans_def latest_terminal_Some [OF ok]
      latest_terminal_Some [OF scans_ok_filter [OF ok, of "\<lambda>s. snID s \<notin> set ids"]] by simp
  with Some show ?thesis by simp
qed

lemma in_prune_ids:
  assumes "scans_ok scans" "s \<in> set scans" "snID s \<in> set (scan_prune_ids cutoff batch scans)"
  shows "prunable_scan cutoff scans s"
proof -
  from assms(3) obtain t where "t \<in> set scans" "prunable_scan cutoff scans t" "snID t = snID s"
    by (auto simp: scan_prune_ids_def dest!: in_set_takeD)
  with assms(1,2) show ?thesis using distinct_map_eq [of snID scans t s] by (auto simp: scans_ok_def)
qed

text \<open>Deleting prunable scans leaves the rest prunable as before.\<close>

lemma prunable_delete:
  assumes "scans_ok scans" "s \<in> set (delete_scans (scan_prune_ids cutoff batch scans) scans)"
  shows "prunable_scan cutoff (delete_scans (scan_prune_ids cutoff batch scans) scans) s \<longleftrightarrow> prunable_scan cutoff scans s"
proof -
  let ?ids = "scan_prune_ids cutoff batch scans"
  have ok: "scans_ok (delete_scans ?ids scans)" unfolding delete_scans_def by (rule scans_ok_filter [OF assms(1)])
  have mem: "s \<in> set scans" using assms(2) by (simp add: delete_scans_def)
  have "latest_terminal (delete_scans ?ids scans) (snRepository s) = latest_terminal scans (snRepository s)"
    by (rule delete_scans_latest [OF assms(1)]) (rule in_prune_ids [OF assms(1)])
  then show ?thesis by (simp add: prunable_scan_def newest_ids_iff [OF ok assms(2)] newest_ids_iff [OF assms(1) mem])
qed

section \<open>Retention of scans\<close>

lemma subseq_subset: "subseq xs ys \<Longrightarrow> set xs \<subseteq> set ys"
  by (auto dest: list_emb_set)

text \<open>What the loop has done when it ends.\<close>

definition retained :: "string \<Rightarrow> Scan list \<Rightarrow> Scan list \<Rightarrow> bool" where
  "retained cutoff scans rest \<longleftrightarrow> subseq rest scans \<and>
     (\<forall>name. latest_terminal rest name = latest_terminal scans name) \<and>
     (\<forall>s \<in> set scans. s \<notin> set rest \<longrightarrow> prunable_scan cutoff scans s)"

lemma batch_retained:
  assumes "scans_ok scans"
  shows "retained cutoff scans (delete_scans (scan_prune_ids cutoff batch scans) scans)"
  using delete_scans_latest [OF assms, of "scan_prune_ids cutoff batch scans" cutoff] in_prune_ids [OF assms]
  by (auto simp: retained_def delete_scans_def)

lemma retained_trans:
  assumes "scans_ok scans" "retained cutoff rest final" "rest = delete_scans (scan_prune_ids cutoff batch scans) scans"
  shows "retained cutoff scans final"
proof -
  have first: "retained cutoff scans rest" unfolding assms(3) by (rule batch_retained [OF assms(1)])
  have "prunable_scan cutoff scans s" if "s \<in> set scans" "s \<notin> set final" for s
  proof (cases "s \<in> set rest")
    case True
    then have "prunable_scan cutoff rest s" using assms(2) that(2) by (simp add: retained_def)
    then show ?thesis using prunable_delete [OF assms(1)] True unfolding assms(3) by blast
  next
    case False
    then show ?thesis using first that(1) by (simp add: retained_def)
  qed
  with first assms(2) show ?thesis by (auto simp: retained_def intro: subseq_order.order_trans)
qed

lemma short_batch:
  assumes "scans_ok scans" "length scans - length (delete_scans (scan_prune_ids cutoff batch scans) scans) < batch"
    "s \<in> set (delete_scans (scan_prune_ids cutoff batch scans) scans)"
  shows "\<not> prunable_scan cutoff scans s"
proof
  assume p: "prunable_scan cutoff scans s"
  let ?prunable = "sort (map snID (filter (prunable_scan cutoff scans) scans))"
  have s: "s \<in> set scans" "snID s \<notin> set (scan_prune_ids cutoff batch scans)" using assms(3) by (simp_all add: delete_scans_def)
  have "snID s \<in> set ?prunable" using p s(1) by simp
  with s(2) have full: "length (scan_prune_ids cutoff batch scans) = batch"
    by (metis length_take min.absorb2 nat_le_linear scan_prune_ids_def take_all)
  have sub: "set (scan_prune_ids cutoff batch scans) \<subseteq> snID ` set scans"
    by (auto simp: scan_prune_ids_def dest!: in_set_takeD)
  have "distinct (scan_prune_ids cutoff batch scans)"
    using assms(1) by (simp add: scan_prune_ids_def scans_ok_def distinct_map_filter)
  then have card: "card (set (scan_prune_ids cutoff batch scans)) = batch" using full by (simp add: distinct_card)
  let ?gone = "filter (\<lambda>s. snID s \<in> set (scan_prune_ids cutoff batch scans)) scans"
  have "snID ` set ?gone = set (scan_prune_ids cutoff batch scans)" using sub by auto
  then have "batch \<le> length ?gone" using card by (metis card_image_le card_length finite_set order_trans)
  moreover have "length ?gone + length (delete_scans (scan_prune_ids cutoff batch scans) scans) = length scans"
    unfolding delete_scans_def by (rule sum_length_filter_compl)
  ultimately show False using assms(2) by linarith
qed

lemma scan_prune_loop_ok:
  assumes "scans_ok (dbScans db)" "0 < batch" "scan_prune_loop fails stop cutoff batch i tot db = (db1, n, outcome)"
  shows "retained cutoff (dbScans db) (dbScans db1) \<and>
    (outcome = ScansPruned \<longrightarrow> (\<forall>s \<in> set (dbScans db1). \<not> prunable_scan cutoff (dbScans db) s))"
  using assms
proof (induction fails stop cutoff batch i tot db rule: scan_prune_loop.induct)
  case (1 fails stop cutoff batch i tot db)
  let ?rest = "delete_scans (scan_prune_ids cutoff batch (dbScans db)) (dbScans db)"
  let ?affected = "length (dbScans db) - length ?rest"
  let ?db2 = "if 0 < ?affected then commitAndInvalidateSummary (db\<lparr>dbScans := ?rest\<rparr>) else db\<lparr>dbScans := ?rest\<rparr>"
  have rest: "dbScans ?db2 = ?rest" by simp
  have ok: "scans_ok ?rest" unfolding delete_scans_def by (rule scans_ok_filter [OF 1(2)])
  note loop = 1(4) [unfolded scan_prune_loop.simps [of fails stop cutoff batch i tot db] Let_def]
  consider (failed) "fails i" | (last) "\<not> fails i" "?affected < batch" | (stopped) "\<not> fails i" "\<not> ?affected < batch" "stop i"
    | (next_batch) "\<not> fails i" "\<not> ?affected < batch" "\<not> stop i" by blast
  then show ?case
  proof cases
    case failed
    then show ?thesis using loop by (auto simp: retained_def)
  next
    case last
    then have "dbScans db1 = ?rest" "outcome = ScansPruned" using loop rest by (auto split: if_splits)
    then show ?thesis using batch_retained [OF 1(2)] short_batch [OF 1(2) last(2)] by auto
  next
    case stopped
    then have "dbScans db1 = ?rest" "outcome = ScanPruneCancelled" using loop rest 1(3) by (auto split: if_splits)
    then show ?thesis using batch_retained [OF 1(2)] by simp
  next
    case next_batch
    then have rec: "scan_prune_loop fails stop cutoff batch (Suc i) (tot + ?affected) ?db2 = (db1, n, outcome)"
      using loop 1(3) by auto
    have IH: "retained cutoff ?rest (dbScans db1) \<and> (outcome = ScansPruned \<longrightarrow> (\<forall>s \<in> set (dbScans db1). \<not> prunable_scan cutoff ?rest s))"
      using 1(1) [OF next_batch(1) refl refl refl refl _ next_batch(3)] next_batch(2) 1(3) ok rec rest by auto
    have "\<not> prunable_scan cutoff (dbScans db) s" if "outcome = ScansPruned" "s \<in> set (dbScans db1)" for s
    proof -
      have "s \<in> set ?rest" using IH that(2) by (auto simp: retained_def dest: subseq_subset)
      with IH that prunable_delete [OF 1(2)] show ?thesis by blast
    qed
    with IH retained_trans [OF 1(2) _ refl] show ?thesis by blast
  qed
qed

lemma scan_prune_loop_health:
  "scan_prune_loop fails stop cutoff batch i tot db = (db1, n, outcome) \<Longrightarrow> dbHealth db1 = dbHealth db"
proof (induction fails stop cutoff batch i tot db rule: scan_prune_loop.induct)
  case (1 fails stop cutoff batch i tot db)
  note loop = 1(2) [unfolded scan_prune_loop.simps [of fails stop cutoff batch i tot db] Let_def]
  show ?case
  proof (cases "fails i")
    case True
    then show ?thesis using loop by simp
  next
    case False
    note IH = 1(1) [OF False refl refl refl refl]
    show ?thesis using loop False IH by (auto split: if_splits)
  qed
qed

text \<open>C35: Retention of scans never changes what the alert evaluator reads as its baseline: for any
  repositories the latest terminal scans are as before, however the loop ends. Only terminal scans older
  than the horizon go, and after a complete sweep no scan is left that could.\<close>
theorem scan_retention_keeps_baseline:
  assumes "scans_ok (dbScans db)" "PruneTerminalScans fails stop horizon batchSize now db = (db1, n, outcome)"
  shows "LatestTerminalScansByRepository db1 names = LatestTerminalScansByRepository db names \<and>
    subseq (dbScans db1) (dbScans db) \<and>
    (\<forall>s \<in> set (dbScans db). s \<notin> set (dbScans db1) \<longrightarrow> terminal_scan s \<and> snStartedAt s < RFC3339 (now - horizon)) \<and>
    (0 < horizon \<and> outcome = ScansPruned \<longrightarrow>
      (\<forall>s \<in> set (dbScans db1). \<not> prunable_scan (RFC3339 (now - horizon)) (dbScans db) s))"
proof (cases "horizon \<le> 0")
  case True
  then show ?thesis using assms(2) by (simp add: PruneTerminalScans_def)
next
  case False
  obtain batch :: nat where b: "0 < batch" "scan_prune_loop fails stop (RFC3339 (now - horizon)) batch 0 0 db = (db1, n, outcome)"
  proof
    let ?batch = "if batchSize \<le> 0 then DefaultScanRetentionBatchSize else batchSize"
    show "0 < nat ?batch" by (simp add: DefaultScanRetentionBatchSize_def)
    show "scan_prune_loop fails stop (RFC3339 (now - horizon)) (nat ?batch) 0 0 db = (db1, n, outcome)"
      using assms(2) False by (simp add: PruneTerminalScans_def Let_def)
  qed
  from scan_prune_loop_ok [OF assms(1) b] have
    r: "retained (RFC3339 (now - horizon)) (dbScans db) (dbScans db1)"
      "outcome = ScansPruned \<longrightarrow> (\<forall>s \<in> set (dbScans db1). \<not> prunable_scan (RFC3339 (now - horizon)) (dbScans db) s)" by blast+
  have "db_redact db1 = db_redact db" using scan_prune_loop_health [OF b(2)] by (simp add: db_redact_def fun_eq_iff)
  moreover have "latest_terminal (dbScans db1) = latest_terminal (dbScans db)"
    using r(1) by (simp add: retained_def fun_eq_iff)
  ultimately have "LatestTerminalScansByRepository db1 names = LatestTerminalScansByRepository db names"
    by (simp add: LatestTerminalScansByRepository_def cong: if_cong)
  with r show ?thesis by (auto simp: retained_def prunable_scan_def)
qed

definition demo_scan :: "int \<Rightarrow> string \<Rightarrow> string \<Rightarrow> Scan" where
  "demo_scan i st at = \<lparr>snID = i, snRepository = ''r'', snStatus = st, snCommitSHA = [], snStartedAt = at, snFinishedAt = at, snError = []\<rparr>"

definition demo_scans :: DashDB where
  "demo_scans = (new_dash (demo_db [''log''] HealthError))\<lparr>dbScans :=
     [demo_scan 1 ''ok'' ''2025-01-01T00:00:00Z'', demo_scan 2 ''error'' ''2025-01-02T00:00:00Z'',
      demo_scan 3 ''running'' ''2025-01-03T00:00:00Z'']\<rparr>"

theorem scan_retention_keeps_baseline_witness:
  "latest_terminal (dbScans (fst (PruneTerminalScans (\<lambda>_. False) (\<lambda>_. False) DefaultScanRetentionHorizon 0 1767225600000000000 demo_scans))) ''r'' =
     Some (demo_scan 2 ''error'' ''2025-01-02T00:00:00Z'')"
proof -
  let ?r = "PruneTerminalScans (\<lambda>_. False) (\<lambda>_. False) DefaultScanRetentionHorizon 0 1767225600000000000 demo_scans"
  let ?scan = "demo_scan 2 ''error'' ''2025-01-02T00:00:00Z''"
  obtain db1 n outcome where r: "?r = (db1, n, outcome)" by (metis prod_cases3)
  have ok: "scans_ok (dbScans demo_scans)" by (simp add: demo_scans_def demo_scan_def scans_ok_def)
  from scan_retention_keeps_baseline [OF ok r, of "[''r'']"]
  have same: "LatestTerminalScansByRepository db1 [''r''] ''r'' = LatestTerminalScansByRepository demo_scans [''r''] ''r''"
    and sub: "subseq (dbScans db1) (dbScans demo_scans)" by simp_all
  have trim: "dedupeStrings [''r''] = [''r'']" by code_simp
  have old: "latest_terminal (dbScans demo_scans) ''r'' = Some ?scan"
    by (simp add: latest_terminal_def demo_scans_def demo_scan_def terminal_scan_def)
  with same obtain s where s: "latest_terminal (dbScans db1) ''r'' = Some s" "snID s = 2"
    by (auto simp: LatestTerminalScansByRepository_def trim demo_scan_def)
  have "s \<in> set (dbScans demo_scans)"
    using s(1) subseq_subset [OF sub] by (auto simp: latest_terminal_def Let_def dest!: find_Some_iff_set)
  with s(2) have "s = ?scan" by (auto simp: demo_scans_def demo_scan_def)
  with s(1) r show ?thesis by simp
qed

section \<open>The lock of the clean-up\<close>

text \<open>Clean-ups that complete in some order, each with its number and its message.\<close>

definition complete_all :: "(64 word \<times> string) list \<Rightarrow> DashDB \<Rightarrow> DashDB" where
  "complete_all results db = fold (\<lambda>(attempt, message). completeHealthAlertCleanup attempt message) results db"

lemma complete_step:
  "dbCleanupCompleted (completeHealthAlertCleanup a m db) = max (dbCleanupCompleted db) a"
  "alertStateCleanupLockMsg (dbStore (completeHealthAlertCleanup a m db)) =
     (if a \<le> dbCleanupCompleted db then alertStateCleanupLockMsg (dbStore db) else m)"
  by (auto simp: completeHealthAlertCleanup_def Let_def set_store_def max_def)

lemma complete_all_newest:
  "let db1 = complete_all results db in dbCleanupCompleted db \<le> dbCleanupCompleted db1 \<and>
     (\<forall>(a, m) \<in> set results. a \<le> dbCleanupCompleted db1) \<and>
     (if dbCleanupCompleted db1 = dbCleanupCompleted db
      then alertStateCleanupLockMsg (dbStore db1) = alertStateCleanupLockMsg (dbStore db)
      else (dbCleanupCompleted db1, alertStateCleanupLockMsg (dbStore db1)) \<in> set results)"
proof (induction results arbitrary: db)
  case (Cons r results)
  obtain a m where r: "r = (a, m)" by fastforce
  let ?db = "completeHealthAlertCleanup a m db"
  have "complete_all (r # results) db = complete_all results ?db" by (simp add: complete_all_def r)
  with Cons.IH [of ?db] show ?case by (auto simp: Let_def r complete_step max_def split: if_splits)
qed (simp add: complete_all_def)

text \<open>In whatever order concurrent clean-ups of the health states complete, the lock message of the
  alert state is in the end that of the newest one: an older success that comes late does not unlock what
  a newer failure has locked, and an older failure does not lock again.\<close>
lemma cleanup_lock_is_newest:
  assumes "(a, m) \<in> set results" "distinct (map fst results)"
    and "\<forall>r \<in> set results. fst r \<le> a \<and> dbCleanupCompleted db < fst r"
  shows "alertStateCleanupLockMsg (dbStore (complete_all results db)) = m"
proof -
  let ?db = "complete_all results db"
  note new = complete_all_newest [of results db, unfolded Let_def]
  have "a \<le> dbCleanupCompleted ?db" using new assms(1) by blast
  moreover have "dbCleanupCompleted db < a" using assms(1,3) by fastforce
  ultimately have "(dbCleanupCompleted ?db, alertStateCleanupLockMsg (dbStore ?db)) \<in> set results" using new by (auto split: if_splits)
  moreover from this have "dbCleanupCompleted ?db = a" using assms(3) \<open>a \<le> dbCleanupCompleted ?db\<close> by fastforce
  ultimately show ?thesis using assms(1,2) by (metis eq_key_imp_eq_value)
qed

section \<open>Replacement of services\<close>

abbreviation row_id :: "ServiceRow \<Rightarrow> string" where "row_id r \<equiv> svID (rwService r)"

definition ids_distinct :: "DashDB \<Rightarrow> bool" where
  "ids_distinct db \<longleftrightarrow> distinct (map row_id (dbServices db))"

lemma normalize_id [simp]: "svID (service_columns (normalizeService s)) = svID s"
  by (simp add: service_columns_def normalizeService_def Let_def NormalizeServiceImageMetadata_def)

lemma service_row_None: "service_row db sid = None \<longleftrightarrow> sid \<notin> row_id ` set (dbServices db)"
  by (auto simp: service_row_def find_None_set)

text \<open>The rows inserted for a list of services.\<close>

definition new_row :: "(string \<Rightarrow> string) \<Rightarrow> string \<Rightarrow> Service \<Rightarrow> ServiceRow" where
  "new_row current fresh s = \<lparr>rwService = service_columns (normalizeService s),
     rwIncarnation = (if current (svID s) = [] then fresh else current (svID s))\<rparr>"

fun new_rows :: "(string \<Rightarrow> string) \<Rightarrow> (nat \<Rightarrow> string) \<Rightarrow> nat \<Rightarrow> Service list \<Rightarrow> ServiceRow list" where
  "new_rows current fresh k [] = []"
| "new_rows current fresh k (s # ss) = new_row current (fresh k) s # new_rows current fresh (k + 1) ss"

lemma new_rows_ids [simp]: "map row_id (new_rows current fresh k ss) = map svID ss"
  by (induction ss arbitrary: k) (simp_all add: new_row_def)

lemma new_rows_in: "s \<in> set ss \<Longrightarrow> \<exists>k. new_row current (fresh k) s \<in> set (new_rows current fresh j ss)"
  by (induction ss arbitrary: j) auto

lemma insert_services_iff:
  "(\<exists>db1. insert_services current fresh k ss db = Inr db1) \<longleftrightarrow>
     distinct (map svID ss) \<and> set (map svID ss) \<inter> row_id ` set (dbServices db) = {}"
proof (induction ss arbitrary: k db)
  case (Cons s ss)
  let ?db = "db\<lparr>dbServices := dbServices db @ [new_row current (fresh k) s]\<rparr>"
  show ?case
  proof (cases "service_row db (svID s)")
    case None
    then have "insertService s (current (svID s)) (fresh k) db = Inr ?db"
      by (simp add: insertService_def new_row_def)
    then show ?thesis using Cons.IH [of "k + 1" ?db] None
      by (auto simp: service_row_None new_row_def)
  next
    case (Some r)
    then have "svID s \<in> row_id ` set (dbServices db)" using service_row_None [of db "svID s"] by auto
    then show ?thesis using Some by (auto simp: insertService_def)
  qed
qed simp

lemma insert_services_Inr:
  "insert_services current fresh k ss db = Inr db1 \<Longrightarrow> db1 = db\<lparr>dbServices := dbServices db @ new_rows current fresh k ss\<rparr>"
proof (induction ss arbitrary: k db)
  case (Cons s ss)
  then show ?case by (auto simp: insertService_def new_row_def split: if_splits dest!: Cons.IH)
qed simp

lemma fold_delete_status:
  "fold deleteStatusForService ids db =
     delete_history (\<lambda>h. hyServiceID h \<in> set ids) (delete_status_where (\<lambda>s. srServiceID s \<in> set ids) db)"
proof (induction ids arbitrary: db)
  case (Cons i ids)
  then show ?case
    by (simp add: deleteStatusForService_def delete_history_def delete_status_where_def set_statuses_def filter_filter)
qed (simp add: delete_history_def delete_status_where_def set_statuses_def)

text \<open>The services in scope that the new list does not name.\<close>

definition gone_services :: "(Service \<Rightarrow> bool) \<Rightarrow> Service list \<Rightarrow> DashDB \<Rightarrow> string set" where
  "gone_services scope services db = row_id ` {r \<in> set (dbServices db). scope (rwService r)} - set (map svID services)"

lemma replace_rows_Inr:
  assumes "replaceServiceRows scope services orphans fresh db = Inr db1"
  shows "dbServices db1 = filter (\<lambda>r. \<not> scope (rwService r)) (dbServices db) @ new_rows (current_incarnation scope db) fresh 0 services"
    "dbStatuses db1 = (if orphans then filter (\<lambda>s. srServiceID s \<notin> gone_services scope services db) (dbStatuses db) else dbStatuses db)"
    "dbHistory db1 = (if orphans then filter (\<lambda>h. hyServiceID h \<notin> gone_services scope services db) (dbHistory db) else dbHistory db)"
    "dbStore db1 = dbStore db"
proof -
  let ?ids = "filter (\<lambda>i. i \<notin> set (map svID services)) (map (svID \<circ> rwService) (filter (\<lambda>r. scope (rwService r)) (dbServices db)))"
  let ?db1 = "if orphans then fold deleteStatusForService ?ids db else db"
  have ids: "set ?ids = gone_services scope services db" by (auto simp: gone_services_def)
  have db1: "dbServices ?db1 = dbServices db" "dbStore ?db1 = dbStore db"
    "dbStatuses ?db1 = (if orphans then filter (\<lambda>s. srServiceID s \<notin> gone_services scope services db) (dbStatuses db) else dbStatuses db)"
    "dbHistory ?db1 = (if orphans then filter (\<lambda>h. hyServiceID h \<notin> gone_services scope services db) (dbHistory db) else dbHistory db)"
    unfolding fold_delete_status ids by simp_all
  from assms have "insert_services (current_incarnation scope db) fresh 0 services
      (?db1\<lparr>dbServices := filter (\<lambda>r. \<not> scope (rwService r)) (dbServices ?db1)\<rparr>) = Inr db1"
    unfolding replaceServiceRows_def Let_def .
  from insert_services_Inr [OF this] db1 show
    "dbServices db1 = filter (\<lambda>r. \<not> scope (rwService r)) (dbServices db) @ new_rows (current_incarnation scope db) fresh 0 services"
    "dbStatuses db1 = (if orphans then filter (\<lambda>s. srServiceID s \<notin> gone_services scope services db) (dbStatuses db) else dbStatuses db)"
    "dbHistory db1 = (if orphans then filter (\<lambda>h. hyServiceID h \<notin> gone_services scope services db) (dbHistory db) else dbHistory db)"
    "dbStore db1 = dbStore db" by simp_all
qed

lemma replace_rows_iff:
  "(\<exists>db1. replaceServiceRows scope services orphans fresh db = Inr db1) \<longleftrightarrow>
     distinct (map svID services) \<and> (\<forall>r \<in> set (dbServices db). \<not> scope (rwService r) \<longrightarrow> row_id r \<notin> set (map svID services))"
proof -
  have services: "dbServices (if orphans then fold deleteStatusForService ids db else db) = dbServices db" for ids
    by (simp add: fold_delete_status)
  have disjoint: "A \<inter> row_id ` {r \<in> S. P r} = {} \<longleftrightarrow> (\<forall>r \<in> S. P r \<longrightarrow> row_id r \<notin> A)" for A S P by blast
  show ?thesis unfolding replaceServiceRows_def Let_def insert_services_iff services
    by (simp add: disjoint del: set_map)
qed

lemma replace_rows_distinct:
  assumes "ids_distinct db" "replaceServiceRows scope services orphans fresh db = Inr db1"
  shows "ids_distinct db1"
proof -
  have "distinct (map svID services)" "\<forall>r \<in> set (dbServices db). \<not> scope (rwService r) \<longrightarrow> row_id r \<notin> set (map svID services)"
    using assms(2) replace_rows_iff [of scope services orphans fresh db] by blast+
  then show ?thesis using assms(1) unfolding ids_distinct_def replace_rows_Inr(1) [OF assms(2)]
    by (auto simp: distinct_map_filter)
qed

lemma current_incarnation_row:
  assumes "ids_distinct db" "r \<in> set (dbServices db)" "scope (rwService r)"
  shows "current_incarnation scope db (row_id r) = rwIncarnation r"
proof -
  have "find (\<lambda>x. scope (rwService x) \<and> row_id x = row_id r) (dbServices db) \<noteq> None"
    using assms(2,3) by (auto simp: find_None_set simp del: not_None_eq)
  then obtain x where x: "find (\<lambda>x. scope (rwService x) \<and> row_id x = row_id r) (dbServices db) = Some x" by blast
  then have "x = r" using find_Some_iff_set [OF x] assms(1,2) distinct_map_eq [of row_id "dbServices db" x r] by (simp add: ids_distinct_def)
  with x show ?thesis by (simp add: current_incarnation_def)
qed

lemma replacement_rows:
  assumes "ids_distinct db" "replaceServiceRows scope services orphans fresh db = Inr db1"
  shows "\<forall>r \<in> set (dbServices db). \<not> scope (rwService r) \<longrightarrow> r \<in> set (dbServices db1)"
    "\<forall>s \<in> set services. \<exists>r \<in> set (dbServices db1). rwService r = service_columns (normalizeService s) \<and>
       (\<forall>old \<in> set (dbServices db). row_id old = svID s \<and> rwIncarnation old \<noteq> [] \<longrightarrow> rwIncarnation r = rwIncarnation old)"
proof -
  show "\<forall>r \<in> set (dbServices db). \<not> scope (rwService r) \<longrightarrow> r \<in> set (dbServices db1)"
    by (simp add: replace_rows_Inr(1) [OF assms(2)])
  show "\<forall>s \<in> set services. \<exists>r \<in> set (dbServices db1). rwService r = service_columns (normalizeService s) \<and>
       (\<forall>old \<in> set (dbServices db). row_id old = svID s \<and> rwIncarnation old \<noteq> [] \<longrightarrow> rwIncarnation r = rwIncarnation old)"
  proof
    fix s assume s: "s \<in> set services"
    obtain k where k: "new_row (current_incarnation scope db) (fresh k) s \<in> set (dbServices db1)"
      using new_rows_in [OF s] by (fastforce simp: replace_rows_Inr(1) [OF assms(2)])
    have "current_incarnation scope db (svID s) = rwIncarnation old" if "old \<in> set (dbServices db)" "row_id old = svID s" for old
    proof -
      have "scope (rwService old)" using that s assms(2) replace_rows_iff [of scope services orphans fresh db] by force
      with current_incarnation_row [of db old scope] assms(1) that show ?thesis by simp
    qed
    with k show "\<exists>r \<in> set (dbServices db1). rwService r = service_columns (normalizeService s) \<and>
       (\<forall>old \<in> set (dbServices db). row_id old = svID s \<and> rwIncarnation old \<noteq> [] \<longrightarrow> rwIncarnation r = rwIncarnation old)"
      by (intro bexI [OF _ k]) (auto simp: new_row_def)
  qed
qed

lemma on_repositories_simps [simp]:
  "dbHealth (on_repositories f db) = dbHealth db" "dbServices (on_repositories f db) = dbServices db"
  "dbHistory (on_repositories f db) = dbHistory db" "dbScans (on_repositories f db) = dbScans db"
  "dbOverrides (on_repositories f db) = dbOverrides db"
  by (simp_all add: on_repositories_def)

lemma complete_tables [simp]:
  "dbServices (completeHealthAlertCleanup a m db) = dbServices db"
  "dbStatuses (completeHealthAlertCleanup a m db) = dbStatuses db"
  "dbHistory (completeHealthAlertCleanup a m db) = dbHistory db"
  "hdStates (dbHealth (completeHealthAlertCleanup a m db)) = hdStates (dbHealth db)"
  by (simp_all add: completeHealthAlertCleanup_def Let_def set_store_def)

lemma after_inventory_tables:
  "dbServices (after_inventory cleanup db) = dbServices db"
  "dbStatuses (after_inventory cleanup db) = dbStatuses db"
  "dbHistory (after_inventory cleanup db) = dbHistory db"
  "cleanup = None \<Longrightarrow> hdStates (dbHealth (after_inventory cleanup db)) = (\<lambda>sid. if service_row db sid = None then None else hdStates (dbHealth db) sid)"
  by (simp_all add: after_inventory_def reconcileHealthAlertStates_def beginHealthAlertCleanup_def delete_orphan_states_def Let_def
      service_row_def cong: if_cong split: option.splits)


text \<open>A repository whose service a stays, with its row, and whose service b is new.\<close>

definition demo_service :: "string \<Rightarrow> Service" where
  "demo_service i = (bare_service i i)\<lparr>svRepository := ''r''\<rparr>"

definition demo_inventory :: DashDB where
  "demo_inventory = demo_scans\<lparr>dbServices := [\<lparr>rwService = demo_service ''a'', rwIncarnation = ''i1''\<rparr>]\<rparr>"


end
