(* ===== verification/StoreProps.thy ===== *)
theory StoreProps
  imports StatusProps InventoryProps
begin

text \<open>
  Properties of the whole store, over every operation of inventory and monitoring: the primary keys of
  the tables hold, and a summary that is served shows the tables as they are.
\<close>

section \<open>What the migration of alerts leaves alone\<close>

abbreviation tokens :: "DashDB \<Rightarrow> string list" where "tokens db \<equiv> redactionTokens (dbStore db)"

lemma merge_loop_tokens: "redactionTokens (fst (merge_loop now k ds s)) = redactionTokens s"
  by (induction now k ds s rule: merge_loop.induct)
    (auto simp: move_dispatch_def resetDuplicateAlertDispatch_def split: option.splits)

lemma merge_tokens: "redactionTokens (fst (mergeRouteAlertCollisionDispatches now k d s)) = redactionTokens s"
  using merge_loop_tokens [of now k "open_dispatches s d" s]
  by (auto simp: mergeRouteAlertCollisionDispatches_def close_duplicate_def Let_def split: prod.splits bool.splits)

lemma reconcile_tokens: "redactionTokens (fst (reconcilePendingAlertRouteCollision now k h s)) = redactionTokens s"
  by (auto simp: reconcilePendingAlertRouteCollision_def merge_tokens split: option.splits)

lemma retarget_tokens: "retarget_event sid eid nt key hash s = Inr s1 \<Longrightarrow> redactionTokens s1 = redactionTokens s"
  by (auto simp: retarget_event_def Let_def split: if_splits)

lemma migrate_event_tokens: "migrate_event now sid a b u st = Inr st1 \<Longrightarrow> tokens (fst st1) = tokens (fst st)"
  using reconcile_tokens [of now "evID u" "alertDedupeHash (dbStore (fst st)) (retargeted_key (evDedupeKey u) a b)" "dbStore (fst st)"]
  by (auto simp: migrate_event_def deferAlertRouteReconciliation_def Let_def dest: retarget_tokens
      split: prod.splits if_splits sum.splits)

lemma fold_res_keeps:
  assumes "\<And>x s s1. f x s = Inr s1 \<Longrightarrow> g s1 = g s" "fold_res f xs s = Inr s1"
  shows "g s1 = g s"
  using assms(2) by (induction xs arbitrary: s) (auto dest: assms(1) split: sum.splits)

lemma migrate_identity_tokens: "migrateAlertRouteIdentity now sid a b db = Inr r \<Longrightarrow> tokens (fst r) = tokens db"
  unfolding migrateAlertRouteIdentity_def
  by (drule fold_res_keeps [where g = "\<lambda>st. tokens (fst st)", rotated]) (auto dest: migrate_event_tokens)

lemma deferred_pass_tokens: "deferred_pass now e st = Inr st1 \<Longrightarrow> tokens (fst st1) = tokens (fst st)"
  by (auto simp: deferred_pass_def dest: migrate_identity_tokens split: prod.splits sum.splits)

lemma settle_loop_tokens: "settle_loop now edges n db = Inr r \<Longrightarrow> tokens (fst r) = tokens db"
proof (induction n arbitrary: db)
  case (Suc n)
  then obtain db1 m where 1: "fold_res (deferred_pass now) edges (db, False) = Inr (db1, m)"
    by (auto split: sum.splits)
  have "tokens db1 = tokens db"
    using fold_res_keeps [of "deferred_pass now" "\<lambda>st. tokens (fst st)", OF deferred_pass_tokens 1] by simp
  with Suc 1 show ?case by (auto split: if_splits)
qed auto

lemma fold_clear_tokens [simp]: "tokens (fold clear_edge es db) = tokens db"
  by simp

lemma apply_deferred_tokens:
  assumes "applyDeferredAlertRouteReconciliations now db = Inr db1"
  shows "tokens db1 = tokens db"
proof -
  let ?edges = "sort (dbDeferred db)"
  obtain db2 b where s: "settle_loop now ?edges (length ?edges + 1) db = Inr (db2, b)" "db1 = (if b then fold clear_edge ?edges db2 else db2)"
    using assms by (auto simp: applyDeferredAlertRouteReconciliations_def Let_def simp del: settle_loop.simps split: sum.splits)
  from settle_loop_tokens [OF s(1)] s(2) show ?thesis by simp
qed

lemma replace_target_tokens: "replace_target now ready r name db = Inr db1 \<Longrightarrow> tokens db1 = tokens db"
  by (auto simp: replace_target_def Let_def map_sum_def dest: migrate_identity_tokens split: prod.splits if_splits sum.splits)

lemma replace_targets_tokens: "fold_res (replace_target now ready r) names db = Inr db1 \<Longrightarrow> tokens db1 = tokens db"
  by (rule fold_res_keeps [where g = tokens, OF replace_target_tokens])

lemma replace_route_tokens: "replace_route now ready names r db = Inr db1 \<Longrightarrow> tokens db1 = tokens db"
  by (auto simp: replace_route_def bind_res_def dest!: replace_targets_tokens split: if_splits sum.splits)

lemma replace_routes_tokens: "fold_res (replace_route now ready names) rs db = Inr db1 \<Longrightarrow> tokens db1 = tokens db"
  by (rule fold_res_keeps [where g = tokens, OF replace_route_tokens])

lemma migrate_guarded_tokens: "migrate_guarded now ready rs names db = Inr db1 \<Longrightarrow> tokens db1 = tokens db"
  by (auto simp: migrate_guarded_def bind_res_def dest!: apply_deferred_tokens replace_routes_tokens split: if_splits sum.splits)

lemma alert_ready_tokens: "alert_ready db = (db1, r) \<Longrightarrow> tokens db1 = tokens db"
  by (auto simp: alert_ready_def dest: ensure_key_tokens split: prod.splits)

lemma migrate_tokens: "migrateRouteTargetReplacements now rs names db = (db1, e) \<Longrightarrow> tokens db1 = tokens db"
  by (auto simp: migrateRouteTargetReplacements_def dest!: alert_ready_tokens migrate_guarded_tokens split: prod.splits sum.splits)

section \<open>The operations of the inventory\<close>

text \<open>Failed operations are steps too; they leave what a rollback leaves.\<close>

inductive inventory_step :: "DashDB \<Rightarrow> DashDB \<Rightarrow> bool" where
  ensure: "inventory_step db (EnsureRepositories repos db)"
| configured: "ReplaceConfiguredServices repo source services now fresh cleanup db = (db1, e) \<Longrightarrow> inventory_step db db1"
| runtime: "ReplaceRuntimeServices repo source rt services now fresh cleanup db = (db1, e) \<Longrightarrow> inventory_step db db1"
| prune_runtime: "inventory_step db (PruneRuntimeServices rt keep cleanup db)"
| start: "StartScan repo now db = (db1, i) \<Longrightarrow> inventory_step db db1"
| finish: "FinishScanWithRouteTargetChanges i repo commit services scanErr replacements exclusions httpTargets now fresh cleanup db = (db1, e) \<Longrightarrow>
    inventory_step db db1"
| prune_scans: "PruneTerminalScans fails stop horizon batch now db = (db1, n, outcome) \<Longrightarrow> inventory_step db db1"
| exclusions: "inventory_step db (SetRouteTargetExclusions xs db)"
| migrate: "MigrateRouteTargetReplacements now replacements httpTargets db = (db1, e) \<Longrightarrow> inventory_step db db1"

section \<open>A served summary is current\<close>

definition summary_inputs where
  "summary_inputs db = (dbRepositories db, dbServices db, dbScans db, dbStatuses db, dbHistory db, dbOverrides db, dbAgents db, dbTTLs db, tokens db)"

lemma redact_inputs: "tokens db = tokens db1 \<Longrightarrow> db_redact db = db_redact db1"
  by (simp add: db_redact_def redact_def fun_eq_iff)

lemma ttl_inputs: "dbTTLs db = dbTTLs db1 \<Longrightarrow> statusTTL db = statusTTL db1"
  by (intro ext) (simp only: statusTTL_def ttl_at_def)

lemma build_inputs:
  assumes "summary_inputs db = summary_inputs db1"
  shows "buildSummary db = buildSummary db1"
proof -
  note eq = assms [unfolded summary_inputs_def prod.inject]
  have r: "db_redact db = db_redact db1" and ttl: "statusTTL db = statusTTL db1" using eq redact_inputs ttl_inputs by blast+
  have parents: "parentRouteOverrideServices db = parentRouteOverrideServices db1"
    by (simp only: parentRouteOverrideServices_def eq)
  have "derived_expiry db = derived_expiry db1" by (intro ext) (simp only: derived_expiry_def eq ttl)
  then have "aged_status db = aged_status db1" by (intro ext) (simp only: aged_status_def r)
  moreover have "activeMonitorOverrides db = activeMonitorOverrides db1" by (simp only: activeMonitorOverrides_def eq)
  ultimately have "read_status db = read_status db1" by (intro ext) (simp only: read_status_def parents)
  then have "StatusResults db = StatusResults db1" by (intro ext) (simp only: StatusResults_def eq)
  moreover have "uptime_rows db = uptime_rows db1" by (intro ext) (simp only: uptime_rows_def eq)
  moreover have "uptime_sample db = uptime_sample db1" by (intro ext) (simp only: uptime_sample_def r)
  then have "uptime_stat db = uptime_stat db1" by (intro ext) (simp only: uptime_stat_def)
  ultimately show ?thesis
    by (intro ext) (simp only: buildSummary_def UptimeStats_def Repositories_def Services_def Scans_def parents eq r)
qed

definition cache_current :: "DashDB \<Rightarrow> bool" where
  "cache_current db \<longleftrightarrow> (let cache = ssCache (dbCache db) in
     scValid cache \<and> scVersion cache = ssVersion (dbCache db) \<longrightarrow> scSummary cache = Some (buildSummary db (scCachedAt cache)))"

definition no_cache :: "DashDB \<Rightarrow> bool" where
  "no_cache db \<longleftrightarrow> \<not> scValid (ssCache (dbCache db))"

lemma no_cache_current: "no_cache db \<Longrightarrow> cache_current db"
  by (simp add: no_cache_def cache_current_def Let_def)

lemma cache_current_frame:
  "cache_current db \<Longrightarrow> summary_inputs db1 = summary_inputs db \<Longrightarrow> dbCache db1 = dbCache db \<Longrightarrow> cache_current db1"
  using build_inputs [of db1 db] by (simp add: cache_current_def Let_def)

lemma no_cache_commit [simp]: "no_cache (commitAndInvalidateSummary db)"
  by (simp add: no_cache_def commitAndInvalidateSummary_def invalidateSummary_def empty_cache_def)

lemma no_cache_observe [simp]:
  "no_cache (observe sid at now db) = no_cache db" "no_cache (on_health f db) = no_cache db"
  by (simp_all add: no_cache_def)

lemma after_inventory_cache [simp]: "dbCache (after_inventory cleanup db) = invalidateSummary (dbCache db)"
  by (simp add: after_inventory_def reconcileHealthAlertStates_def beginHealthAlertCleanup_def completeHealthAlertCleanup_def
      delete_orphan_states_def commitAndInvalidateSummary_def set_store_def Let_def split: option.splits)

lemma no_cache_inventory [simp]: "no_cache (after_inventory cleanup db)"
  by (simp add: no_cache_def invalidateSummary_def empty_cache_def)

lemma adopt_scan_tokens: "adopt_scan repo services rs xs hs now fresh db = (db1, Some e) \<Longrightarrow> tokens db1 = tokens db"
  by (auto simp: adopt_scan_def Let_def setRouteTargetExclusions_def delete_repository_exclusions_def
      dest!: migrate_tokens split: prod.splits option.splits sum.splits)

lemma rolled_back_frame:
  "tokens db1 = tokens db \<Longrightarrow> summary_inputs (rolled_back db db1) = summary_inputs db" "dbCache (rolled_back db db1) = dbCache db"
  by (simp_all add: summary_inputs_def rolled_back_def set_store_def)

lemma prune_loop_cache:
  "scan_prune_loop fails stop cutoff batch i tot db = (db1, r) \<Longrightarrow> cache_current db \<Longrightarrow> cache_current db1"
proof (induction fails stop cutoff batch i tot db arbitrary: db1 r rule: scan_prune_loop.induct)
  case (1 fails stop cutoff batch i tot db)
  let ?scans = "delete_scans (scan_prune_ids cutoff batch (dbScans db)) (dbScans db)"
  let ?affected = "length (dbScans db) - length ?scans"
  let ?db2 = "if 0 < ?affected then commitAndInvalidateSummary (db\<lparr>dbScans := ?scans\<rparr>) else db\<lparr>dbScans := ?scans\<rparr>"
  have "?scans = dbScans db" if "\<not> 0 < ?affected"
    using that filter_id_conv [of "\<lambda>s. snID s \<notin> set (scan_prune_ids cutoff batch (dbScans db))" "dbScans db"]
      length_filter_less [of _ "dbScans db" "\<lambda>s. snID s \<notin> set (scan_prune_ids cutoff batch (dbScans db))"]
    by (fastforce simp: delete_scans_def)
  then have cur: "cache_current ?db2" using 1(3) no_cache_current by (cases "0 < ?affected") auto
  from 1(2) show ?case
    using 1(1) [OF _ refl refl refl refl] cur 1(3)
    by (subst (asm) scan_prune_loop.simps) (auto simp: Let_def split: if_splits)
qed

lemma close_scan_tokens [simp]: "tokens (close_scan i repo commit status e now db) = tokens db"
  by (simp add: close_scan_def on_repositories_def)

lemma inventory_step_current:
  assumes "inventory_step db db1" "cache_current db"
  shows "cache_current db1"
  using assms(1)
proof cases
  case (configured repo source services now fresh cleanup e)
  with assms(2) show ?thesis
    by (auto simp: ReplaceConfiguredServices_def Let_def intro: no_cache_current split: sum.splits)
next
  case (runtime repo source rt services now fresh cleanup e)
  with assms(2) show ?thesis
    by (auto simp: ReplaceRuntimeServices_def Let_def intro: no_cache_current split: sum.splits)
next
  case (finish i repo commit services scanErr rs xs hs now fresh cleanup e)
  have rolled: "cache_current (rolled_back db db2)" if "tokens db2 = tokens db" for db2
    by (rule cache_current_frame [OF assms(2) rolled_back_frame(1) [OF that] rolled_back_frame(2)])
  show ?thesis
  proof (cases scanErr)
    case (Some err)
    with finish show ?thesis by (auto simp: FinishScanWithRouteTargetChanges_def Let_def intro: no_cache_current)
  next
    case None
    obtain db2 r where r: "adopt_scan repo services rs xs hs now fresh (close_scan i repo commit ''ok'' [] now db) = (db2, r)" by fastforce
    show ?thesis
    proof (cases r)
      case (Some err)
      with r have "tokens db2 = tokens db" using adopt_scan_tokens by fastforce
      with None Some r finish rolled show ?thesis by (auto simp: FinishScanWithRouteTargetChanges_def Let_def)
    next
      case none: None
      with None r finish show ?thesis by (auto simp: FinishScanWithRouteTargetChanges_def Let_def intro: no_cache_current)
    qed
  qed
next
  case (prune_scans fails stop horizon batch now n outcome)
  with assms(2) prune_loop_cache show ?thesis by (auto simp: PruneTerminalScans_def Let_def split: if_splits)
next
  case (migrate now rs hs e)
  have "dbCache db2 = dbCache db" "summary_inputs db2 = summary_inputs db" if "migrateRouteTargetReplacements now rs (httpRouteTargetNames hs) db = (db2, Some e')" for db2 e'
    using that by (auto simp: migrateRouteTargetReplacements_def alert_ready_def set_store_def summary_inputs_def
        dest: ensure_key_tokens split: prod.splits sum.splits)
  with migrate assms(2) cache_current_frame show ?thesis
    by (auto simp: MigrateRouteTargetReplacements_def intro: no_cache_current split: prod.splits option.splits)
qed (use assms(2) no_cache_current in \<open>auto simp: EnsureRepositories_def PruneRuntimeServices_def StartScan_def SetRouteTargetExclusions_def Let_def\<close>)

lemma summary_step_current: "cache_current db \<Longrightarrow> cache_current (fst (Summary now db))"
proof (cases "cachedSummary now (dbCache db)")
  case None
  let ?db1 = "db\<lparr>dbCache := cacheSummary (currentSummaryVersion (dbCache db)) (buildSummary db now) now (dbCache db)\<rparr>"
  have "buildSummary ?db1 = buildSummary db" by (rule build_inputs) (simp add: summary_inputs_def)
  with None show ?thesis by (simp add: Summary_def cache_current_def currentSummaryVersion_def cacheSummary_def Let_def)
qed (simp add: Summary_def)

lemma monitor_step_current:
  assumes "monitor_step db db1" "cache_current db"
  shows "cache_current db1"
  using assms(1)
proof cases
  case (result s now)
  with assms(2) show ?thesis by (auto simp: UpsertStatus_def Let_def intro: no_cache_current split: option.splits)
next
  case (report message statuses received now)
  then show ?thesis by (auto simp: UpsertAgentReport_def intro: no_cache_current split: prod.splits)
next
  case (override sid target na now e)
  with assms(2) show ?thesis by (auto simp: SetMonitorNotApplicable_def Let_def intro: no_cache_current split: if_splits)
next
  case (history now)
  have "summary_inputs (delete_history P db) = summary_inputs db" if "\<not> list_ex P (dbHistory db)" for P
  proof -
    have "filter (\<lambda>r. \<not> P r) (dbHistory db) = dbHistory db" using that by (auto simp: list_ex_iff filter_id_conv)
    then show ?thesis by (simp add: summary_inputs_def delete_history_def)
  qed
  moreover have "dbCache (delete_history P db) = dbCache db" for P by (simp add: delete_history_def)
  ultimately show ?thesis using assms(2) cache_current_frame
    by (auto simp: history PruneStatusHistory_def deleteStatusHistoryBefore_def intro: no_cache_current)
next
  case (summary now)
  with assms(2) summary_step_current show ?thesis by simp
qed (use assms(2) no_cache_current in \<open>auto simp: PruneStatusTargets_def PruneStatusTargetsFromKnown_def commitStatusTargetPrune_def Let_def\<close>)

lemma read_not_expired: "read_status db now row = Some s \<Longrightarrow> \<not> status_expired now s"
  by (auto simp: read_status_def aged_status_def status_expired_def Let_def split: if_splits)

lemma built_not_expired: "s \<in> set (dsStatuses (buildSummary db now)) \<Longrightarrow> \<not> status_expired now s"
  by (auto simp: buildSummary_def StatusResults_def Let_def List.map_filter_def dest: read_not_expired)



section \<open>Primary keys\<close>

definition override_id :: "OverrideRow \<Rightarrow> string \<times> string" where "override_id ov = (ovServiceID ov, ovTarget ov)"

definition ids_below :: "('a \<Rightarrow> int) \<Rightarrow> int \<Rightarrow> 'a list \<Rightarrow> bool" where
  "ids_below f n xs \<longleftrightarrow> distinct (map f xs) \<and> (\<forall>x \<in> set xs. f x \<le> n)"

definition keys_ok :: "DashDB \<Rightarrow> bool" where
  "keys_ok db \<longleftrightarrow> ids_distinct db \<and> status_keys_distinct db \<and> distinct (map override_id (dbOverrides db)) \<and>
     distinct (map arTarget (dbAgents db)) \<and> distinct (map rpName (dbRepositories db)) \<and>
     ids_below snID (dbScanSeq db) (dbScans db) \<and> ids_below hyID (dbHistorySeq db) (dbHistory db)"

lemma keys_ok_cong:
  "dbServices db1 = dbServices db \<Longrightarrow> dbStatuses db1 = dbStatuses db \<Longrightarrow> dbOverrides db1 = dbOverrides db \<Longrightarrow> dbAgents db1 = dbAgents db \<Longrightarrow>
   dbRepositories db1 = dbRepositories db \<Longrightarrow> dbScans db1 = dbScans db \<Longrightarrow> dbScanSeq db1 = dbScanSeq db \<Longrightarrow>
   dbHistory db1 = dbHistory db \<Longrightarrow> dbHistorySeq db1 = dbHistorySeq db \<Longrightarrow> keys_ok db1 = keys_ok db"
  by (simp add: keys_ok_def ids_distinct_def status_keys_distinct_def)

lemma ids_below_filter: "ids_below f n xs \<Longrightarrow> ids_below f n (filter P xs)"
  by (auto simp: ids_below_def distinct_map_filter)

lemma ids_below_snoc: "ids_below f n xs \<Longrightarrow> f x = n + 1 \<Longrightarrow> ids_below f (n + 1) (xs @ [x])"
  by (force simp: ids_below_def)

lemma ids_below_map: "ids_below f n xs \<Longrightarrow> (\<And>x. f (g x) = f x) \<Longrightarrow> ids_below f n (map g xs)"
  by (simp add: ids_below_def comp_def)

text \<open>Retargeting a row keeps a key of two parts distinct when no row has the new key.\<close>

lemma distinct_rekey:
  assumes "distinct (map k xs)" "new \<notin> k ` set xs" "\<And>x. k x = old \<Longrightarrow> k (f x) = new"
  shows "distinct (map k (map (\<lambda>x. if k x = old then f x else x) xs))"
  using assms by (induction xs) (auto simp: image_iff)

lemma put_override_keys:
  "map override_id (put_override new rows) =
     (if override_id new \<in> set (map override_id rows) then map override_id rows else map override_id rows @ [override_id new])"
  by (induction rows) (auto simp: override_id_def)

lemma put_agent_keys:
  "map arTarget (put_agent new rows) =
     (if arTarget new \<in> set (map arTarget rows) then map arTarget rows else map arTarget rows @ [arTarget new])"
  by (induction rows) auto

lemma put_repository_keys:
  "(\<And>x. rpName x = rpName new \<Longrightarrow> rpName (upd x) = rpName new) \<Longrightarrow> map rpName (put_repository upd new rows) =
     (if rpName new \<in> set (map rpName rows) then map rpName rows else map rpName rows @ [rpName new])"
  by (induction rows) auto

lemma put_status_keys:
  "(\<And>x. status_id x = status_id new \<Longrightarrow> status_id (upd x) = status_id new) \<Longrightarrow> map status_id (put_status upd new rows) =
     (if status_id new \<in> set (map status_id rows) then map status_id rows else map status_id rows @ [status_id new])"
  by (induction rows) auto

lemma put_keys_distinct:
  "distinct (map override_id rows) \<Longrightarrow> distinct (map override_id (put_override ov rows))"
  "distinct (map arTarget agents) \<Longrightarrow> distinct (map arTarget (put_agent a agents))"
  by (simp_all add: put_override_keys put_agent_keys)

text \<open>The tables of inventory and monitoring together.\<close>

definition core_tables where
  "core_tables db = (dbServices db, dbStatuses db, dbOverrides db, dbAgents db, dbRepositories db, dbScans db, dbScanSeq db, dbHistory db, dbHistorySeq db)"

lemma keys_of_tables: "core_tables db1 = core_tables db \<Longrightarrow> keys_ok db1 = keys_ok db"
  by (rule keys_ok_cong) (simp_all add: core_tables_def)

lemma core_simps [simp]:
  "core_tables (commitAndInvalidateSummary db) = core_tables db" "core_tables (set_store s db) = core_tables db"
  "core_tables (deferAlertRouteReconciliation sid a b db) = core_tables db"
  "core_tables (observe sid at now db) = core_tables db"
  "core_tables (on_health (observeHealthAlerts sids at now) db) = core_tables db"
  "core_tables (setRouteTargetExclusions xs db) = core_tables db" "core_tables (delete_repository_exclusions repo db) = core_tables db"
  "core_tables (rolled_back db db1) = core_tables db"
  by (simp_all add: core_tables_def commitAndInvalidateSummary_def set_store_def deferAlertRouteReconciliation_def
      setRouteTargetExclusions_def delete_repository_exclusions_def rolled_back_def)

lemma keys_simps [simp]:
  "keys_ok (commitAndInvalidateSummary db) = keys_ok db" "keys_ok (observe sid at now db) = keys_ok db"
  "keys_ok (on_health (observeHealthAlerts sids at now) db) = keys_ok db" "keys_ok (rolled_back db db1) = keys_ok db"
  "keys_ok (set_store s db) = keys_ok db"
  by (rule keys_of_tables; simp)+

lemma after_inventory_keys [simp]: "keys_ok (after_inventory cleanup db) = keys_ok db"
  by (rule keys_of_tables) (simp add: core_tables_def after_inventory_def reconcileHealthAlertStates_def beginHealthAlertCleanup_def
      completeHealthAlertCleanup_def delete_orphan_states_def commitAndInvalidateSummary_def set_store_def Let_def split: option.splits)

lemma migrate_event_tables: "migrate_event now sid a b u st = Inr st1 \<Longrightarrow> core_tables (fst st1) = core_tables (fst st)"
  by (auto simp: migrate_event_def Let_def split: prod.splits if_splits sum.splits)

lemma migrate_identity_tables: "migrateAlertRouteIdentity now sid a b db = Inr r \<Longrightarrow> core_tables (fst r) = core_tables db"
  unfolding migrateAlertRouteIdentity_def
  by (drule fold_res_keeps [where g = "\<lambda>st. core_tables (fst st)", rotated]) (auto dest: migrate_event_tables)

lemma deferred_pass_tables: "deferred_pass now e st = Inr st1 \<Longrightarrow> core_tables (fst st1) = core_tables (fst st)"
  by (auto simp: deferred_pass_def dest: migrate_identity_tables split: prod.splits sum.splits)

lemma settle_loop_tables: "settle_loop now edges n db = Inr r \<Longrightarrow> core_tables (fst r) = core_tables db"
proof (induction n arbitrary: db)
  case (Suc n)
  then obtain db1 m where 1: "fold_res (deferred_pass now) edges (db, False) = Inr (db1, m)"
    by (auto split: sum.splits)
  have "core_tables db1 = core_tables db"
    using fold_res_keeps [of "deferred_pass now" "\<lambda>st. core_tables (fst st)", OF deferred_pass_tables 1] by simp
  with Suc 1 show ?case by (auto split: if_splits)
qed auto

lemma fold_clear_tables [simp]: "core_tables (fold clear_edge es db) = core_tables db"
proof (induction es arbitrary: db)
  case (Cons e es)
  have "core_tables (clear_edge e db) = core_tables db" by (simp add: clear_edge_def core_tables_def split: prod.splits)
  with Cons show ?case by simp
qed simp

lemma apply_deferred_tables:
  assumes "applyDeferredAlertRouteReconciliations now db = Inr db1"
  shows "core_tables db1 = core_tables db"
proof -
  let ?edges = "sort (dbDeferred db)"
  obtain db2 b where s: "settle_loop now ?edges (length ?edges + 1) db = Inr (db2, b)" "db1 = (if b then fold clear_edge ?edges db2 else db2)"
    using assms by (auto simp: applyDeferredAlertRouteReconciliations_def Let_def simp del: settle_loop.simps split: sum.splits)
  from settle_loop_tables [OF s(1)] s(2) show ?thesis by simp
qed

lemma defer_tables [simp]: "core_tables (deferAlertRouteReconciliations rs names db) = core_tables db"
proof -
  have inner: "core_tables (fold (\<lambda>name db. case route_targets r name of (a, b) \<Rightarrow> deferAlertRouteReconciliation (rrServiceID r) a b db) names db) = core_tables db"
    for r db by (induction names arbitrary: db) (simp_all split: prod.splits)
  show ?thesis unfolding deferAlertRouteReconciliations_def by (induction rs arbitrary: db) (simp_all add: inner)
qed

section \<open>Retargeting keeps the keys\<close>

lemma override_at_None: "override_at db sid t = None \<longleftrightarrow> (sid, t) \<notin> override_id ` set (dbOverrides db)"
  by (auto simp: override_at_def find_None_set override_id_def image_iff)

lemma status_at_None: "status_at db sid t = None \<longleftrightarrow> (sid, t) \<notin> status_id ` set (dbStatuses db)"
  by (auto simp: status_at_def find_None_set image_iff)

lemma override_migration_keys:
  assumes "distinct (map override_id (dbOverrides db))"
  shows "distinct (map override_id (dbOverrides (applyMonitorOverrideMigration old nt db)))"
proof (cases "override_at db (ovServiceID old) nt")
  case None
  have cond: "(ovServiceID r = ovServiceID old \<and> ovTarget r = ovTarget old) = (override_id r = override_id old)" for r by (auto simp: override_id_def)
  from distinct_rekey [OF assms None [unfolded override_at_None], of "override_id old" "\<lambda>r. r\<lparr>ovTarget := nt\<rparr>"]
  show ?thesis by (simp add: applyMonitorOverrideMigration_def None update_overrides_def cond) (simp add: override_id_def)
next
  case (Some e)
  have ids: "map override_id (map (\<lambda>r. if P r then r\<lparr>ovNotApplicable := a, ovUpdatedAt := b\<rparr> else r) xs) = map override_id xs" for P a b xs
    by (simp add: override_id_def comp_def)
  have "distinct (map override_id (filter Q (map (\<lambda>r. if P r then r\<lparr>ovNotApplicable := a, ovUpdatedAt := b\<rparr> else r) (dbOverrides db))))" for P Q a b
    by (rule distinct_map_filter) (simp only: ids assms)
  then show ?thesis by (simp add: applyMonitorOverrideMigration_def Some update_overrides_def delete_override_def)
qed

lemma status_migration_keys:
  assumes "distinct (map status_id (dbStatuses db))"
  shows "distinct (map status_id (dbStatuses (applyStatusResultMigration old nt db)))"
proof (cases "status_at db (srServiceID old) nt")
  case None
  have "distinct (map status_id (map (\<lambda>r. if status_id r = status_id old then r\<lparr>srTarget := nt\<rparr> else r) (dbStatuses db)))"
    by (rule distinct_rekey [OF assms None [unfolded status_at_None]]) simp
  then show ?thesis by (simp add: applyStatusResultMigration_def None update_status_def)
next
  case (Some e)
  have ids: "map status_id (map (\<lambda>r. if P r then r\<lparr>srHealth := a, srMessage := b, srCheckedAt := c\<rparr> else r) xs) = map status_id xs" for P a b c xs
    by (simp add: comp_def)
  have "distinct (map status_id (filter Q (map (\<lambda>r. if P r then r\<lparr>srHealth := a, srMessage := b, srCheckedAt := c\<rparr> else r) (dbStatuses db))))" for P Q a b c
    by (rule distinct_map_filter) (simp only: ids assms)
  then show ?thesis by (simp add: applyStatusResultMigration_def Some update_status_def Let_def)
qed

lemma keys_ok_intros:
  "keys_ok db \<Longrightarrow> distinct (map override_id ovs) \<Longrightarrow> keys_ok (db\<lparr>dbOverrides := ovs\<rparr>)"
  "keys_ok db \<Longrightarrow> distinct (map status_id rows) \<Longrightarrow> keys_ok (set_statuses rows db)"
  "keys_ok db \<Longrightarrow> ids_below hyID (dbHistorySeq db) hs \<Longrightarrow> keys_ok (db\<lparr>dbHistory := hs\<rparr>)"
  "keys_ok db \<Longrightarrow> distinct (map row_id rs) \<Longrightarrow> keys_ok (db\<lparr>dbServices := rs\<rparr>)"
  "keys_ok db \<Longrightarrow> distinct (map rpName reps) \<Longrightarrow> keys_ok (db\<lparr>dbRepositories := reps\<rparr>)"
  "keys_ok db \<Longrightarrow> ids_below snID (dbScanSeq db) scs \<Longrightarrow> keys_ok (db\<lparr>dbScans := scs\<rparr>)"
  "keys_ok db \<Longrightarrow> distinct (map arTarget ags) \<Longrightarrow> keys_ok (db\<lparr>dbAgents := ags\<rparr>)"
  by (simp_all add: keys_ok_def ids_distinct_def status_keys_distinct_def set_statuses_def)

lemma keys_okD:
  assumes "keys_ok db"
  shows "distinct (map override_id (dbOverrides db))" "distinct (map status_id (dbStatuses db))" "ids_below hyID (dbHistorySeq db) (dbHistory db)"
    "distinct (map row_id (dbServices db))" "distinct (map rpName (dbRepositories db))" "ids_below snID (dbScanSeq db) (dbScans db)"
    "distinct (map arTarget (dbAgents db))"
  using assms by (simp_all add: keys_ok_def ids_distinct_def status_keys_distinct_def)

lemma delete_ids_keys: "keys_ok db \<Longrightarrow> keys_ok (delete_history P db)" "keys_ok db \<Longrightarrow> keys_ok (delete_status_where Q db)"
  unfolding delete_history_def delete_status_where_def
  by (auto intro!: keys_ok_intros ids_below_filter distinct_map_filter dest: keys_okD)

lemma delete_service_keys:
  "keys_ok db \<Longrightarrow> keys_ok (deleteStatusForService sid db)"
  "keys_ok db \<Longrightarrow> keys_ok (deleteStatusForServiceTargetPrefix sid pat db)"
  "keys_ok db \<Longrightarrow> keys_ok (deleteStatusHistoryForServiceTarget sid tg db)"
  "keys_ok db \<Longrightarrow> keys_ok (deleteByServiceAndTargets sid tgs db)"
  unfolding deleteStatusForService_def deleteStatusForServiceTargetPrefix_def deleteStatusHistoryForServiceTarget_def deleteByServiceAndTargets_def
  by (intro delete_ids_keys; assumption)+

lemma override_migration_ok: "keys_ok db \<Longrightarrow> keys_ok (applyMonitorOverrideMigration old nt db)"
proof -
  assume ok: "keys_ok db"
  have "applyMonitorOverrideMigration old nt db = db\<lparr>dbOverrides := dbOverrides (applyMonitorOverrideMigration old nt db)\<rparr>"
    by (simp add: applyMonitorOverrideMigration_def update_overrides_def delete_override_def split: option.splits)
  with keys_ok_intros(1) [OF ok override_migration_keys [OF keys_okD(1) [OF ok]]] show ?thesis by metis
qed

lemma status_migration_ok: "keys_ok db \<Longrightarrow> keys_ok (applyStatusResultMigration old nt db)"
proof -
  assume ok: "keys_ok db"
  have "applyStatusResultMigration old nt db = set_statuses (dbStatuses (applyStatusResultMigration old nt db)) db"
    by (simp add: applyStatusResultMigration_def update_status_def delete_status_where_def set_statuses_def Let_def split: option.splits)
  with keys_ok_intros(2) [OF ok status_migration_keys [OF keys_okD(2) [OF ok]]] show ?thesis by metis
qed

lemma migrate_rows_ok:
  assumes "keys_ok db"
  shows "keys_ok (retarget_history sid a b (migrateRouteStatus sid a b (migrateRouteOverride sid a b db)))"
proof -
  have h: "keys_ok (retarget_history sid a b d)" if "keys_ok d" for d
    unfolding retarget_history_def by (intro keys_ok_intros(3) that ids_below_map keys_okD(3)) simp
  have "keys_ok (migrateRouteOverride sid a b db)" using assms override_migration_ok by (simp add: migrateRouteOverride_def split: option.splits)
  then have "keys_ok (migrateRouteStatus sid a b (migrateRouteOverride sid a b db))"
    using status_migration_ok by (simp add: migrateRouteStatus_def split: option.splits)
  with h show ?thesis .
qed

lemma fold_res_inv:
  assumes "\<And>x s s1. f x s = Inr s1 \<Longrightarrow> P s \<Longrightarrow> P s1" "fold_res f xs s = Inr s1" "P s"
  shows "P s1"
  using assms(2,3) by (induction xs arbitrary: s) (auto dest: assms(1) split: sum.splits)

lemma replace_target_keys: "replace_target now ready r name db = Inr db1 \<Longrightarrow> keys_ok db \<Longrightarrow> keys_ok db1"
proof -
  assume r: "replace_target now ready r name db = Inr db1" and ok: "keys_ok db"
  obtain a b where t: "route_targets r name = (a, b)" by fastforce
  let ?d = "retarget_history (rrServiceID r) a b (migrateRouteStatus (rrServiceID r) a b (migrateRouteOverride (rrServiceID r) a b db))"
  have d: "keys_ok ?d" by (rule migrate_rows_ok [OF ok])
  show ?thesis
  proof (cases ready)
    case True
    then obtain x where "migrateAlertRouteIdentity now (rrServiceID r) a b ?d = Inr x" "db1 = fst x"
      using r by (auto simp: replace_target_def t map_sum_def Let_def split: sum.splits)
    with keys_of_tables [OF migrate_identity_tables] d show ?thesis by simp
  next
    case False
    with r d show ?thesis by (simp add: replace_target_def t Let_def)
  qed
qed

lemma replace_route_keys: "replace_route now ready names r db = Inr db1 \<Longrightarrow> keys_ok db \<Longrightarrow> keys_ok db1"
proof -
  assume r: "replace_route now ready names r db = Inr db1" and ok: "keys_ok db"
  have "keys_ok d1" if "fold_res (replace_target now ready r) names db = Inr d1" for d1
    by (rule fold_res_inv [of "replace_target now ready r" keys_ok, OF replace_target_keys that ok])
  moreover have "keys_ok (d\<lparr>dbExclusions := x\<rparr>) = keys_ok d" for d x by (rule keys_of_tables) (simp add: core_tables_def)
  ultimately show ?thesis using r ok by (auto simp: replace_route_def bind_res_def split: if_splits sum.splits)
qed

lemma migrate_guarded_keys: "migrate_guarded now ready rs names db = Inr db1 \<Longrightarrow> keys_ok db \<Longrightarrow> keys_ok db1"
proof -
  assume m: "migrate_guarded now ready rs names db = Inr db1" and ok: "keys_ok db"
  have step: "keys_ok d1" if "fold_res (replace_route now ready names) rs d = Inr d1" "keys_ok d" for d d1
    by (rule fold_res_inv [of "replace_route now ready names" keys_ok, OF replace_route_keys that])
  have "keys_ok d" if "applyDeferredAlertRouteReconciliations now db = Inr d" for d
    using keys_of_tables [OF apply_deferred_tables [OF that]] ok by simp
  moreover have "keys_ok (deferAlertRouteReconciliations rs names db)" using keys_of_tables [OF defer_tables] ok by simp
  ultimately show ?thesis using m step by (auto simp: migrate_guarded_def bind_res_def split: if_splits sum.splits)
qed

lemma migrate_keys: "migrateRouteTargetReplacements now rs names db = (db1, e) \<Longrightarrow> keys_ok db \<Longrightarrow> keys_ok db1"
proof -
  assume m: "migrateRouteTargetReplacements now rs names db = (db1, e)" and ok: "keys_ok db"
  obtain d ready where d: "alert_ready db = (d, ready)" by fastforce
  then have "keys_ok d" using ok by (auto simp: alert_ready_def split: prod.splits)
  with m d migrate_guarded_keys show ?thesis by (auto simp: migrateRouteTargetReplacements_def split: sum.splits)
qed

section \<open>Monitoring and inventory keep the keys\<close>

lemma insert_status_keys: "keys_ok db \<Longrightarrow> keys_ok (insert_status row db)"
  unfolding insert_status_def by (intro keys_ok_intros(2) put_status_distinct keys_okD(2))

lemma insert_history_keys: "keys_ok db \<Longrightarrow> keys_ok (insert_history sid t h m c db)"
proof -
  assume ok: "keys_ok db"
  let ?row = "\<lparr>hyID = dbHistorySeq db + 1, hyServiceID = sid, hyTarget = t, hyHealth = h, hyMessage = m, hyCheckedAt = c\<rparr>"
  have "ids_below hyID (dbHistorySeq db + 1) (dbHistory db @ [?row])" by (rule ids_below_snoc [OF keys_okD(3) [OF ok]]) simp
  with ok show ?thesis by (simp add: keys_ok_def insert_history_def ids_distinct_def status_keys_distinct_def)
qed

lemma write_status_keys: "keys_ok db \<Longrightarrow> keys_ok (write_status s db)"
  by (simp add: write_status_def Let_def insert_status_keys insert_history_keys delete_service_keys)

lemma report_keys: "keys_ok (fst st) \<Longrightarrow> keys_ok (fst (fold report_step ss st))"
proof (induction ss arbitrary: st)
  case (Cons s ss)
  have "keys_ok (fst (report_step s st))" using Cons.prems by (auto simp: report_step_def write_status_keys split: option.splits)
  then show ?case using Cons.IH [of "report_step s st"] by simp
qed simp

lemma set_not_applicable_keys: "keys_ok db \<Longrightarrow> keys_ok (set_not_applicable sid rs now db)"
proof -
  assume ok: "keys_ok db"
  have "keys_ok (db\<lparr>dbOverrides := put_override ov (dbOverrides db)\<rparr>)" for ov
    by (rule keys_ok_intros(1) [OF ok put_keys_distinct(1) [OF keys_okD(1) [OF ok]]])
  then show ?thesis by (simp add: set_not_applicable_def Let_def insert_status_keys delete_service_keys)
qed

lemma set_applicable_keys: "keys_ok db \<Longrightarrow> keys_ok (set_applicable sid t now db)"
proof -
  assume ok: "keys_ok db"
  have 1: "keys_ok (db\<lparr>dbOverrides := filter P (dbOverrides db)\<rparr>)" for P
    by (rule keys_ok_intros(1) [OF ok distinct_map_filter [OF keys_okD(1) [OF ok]]])
  have ids: "map status_id (map (\<lambda>s. if P s then enabled_status now s else s) xs) = map status_id xs" for P xs
    by (simp add: enabled_status_def)
  have "dbStatuses (db\<lparr>dbOverrides := ovs\<rparr>) = dbStatuses db" for ovs by simp
  then show ?thesis unfolding set_applicable_def Let_def
    by (intro keys_ok_intros(2) 1) (simp only: ids keys_okD(2) [OF ok])
qed

lemma monitor_step_keys:
  assumes "monitor_step db db1" "keys_ok db"
  shows "keys_ok db1"
  using assms(1)
proof cases
  case (result s now)
  with assms(2) write_status_keys show ?thesis by (auto simp: UpsertStatus_def Let_def split: option.splits)
next
  case (report message statuses received now)
  let ?db1 = "db\<lparr>dbAgents := put_agent (agent_row (FilterAgentMessageDockerLabels message) received) (dbAgents db)\<rparr>"
  have "keys_ok ?db1" by (rule keys_ok_intros(7) [OF assms(2) put_keys_distinct(2) [OF keys_okD(7) [OF assms(2)]]])
  with report_keys [of "(?db1, [])" statuses] show ?thesis by (auto simp: report UpsertAgentReport_def split: prod.splits)
next
  case (override sid target na now e)
  with assms(2) set_not_applicable_keys set_applicable_keys show ?thesis
    by (auto simp: SetMonitorNotApplicable_def Let_def split: if_splits)
next
  case (history now)
  with assms(2) delete_ids_keys(1) show ?thesis by (auto simp: PruneStatusHistory_def deleteStatusHistoryBefore_def)
next
  case (summary now)
  have "keys_ok (db\<lparr>dbCache := c\<rparr>) = keys_ok db" for c by (rule keys_of_tables) (simp add: core_tables_def)
  with summary assms(2) show ?thesis by (auto simp: Summary_def Let_def split: option.splits)
qed (use assms(2) in \<open>auto simp: PruneStatusTargets_def PruneStatusTargetsFromKnown_def commitStatusTargetPrune_def Let_def delete_service_keys\<close>)

lemma setup_step_keys: "setup_step db db1 \<Longrightarrow> keys_ok db \<Longrightarrow> keys_ok db1"
proof (induction rule: setup_step.induct)
  case (ttl db target t)
  have "keys_ok (db\<lparr>dbTTLs := c\<rparr>) = keys_ok db" for c by (rule keys_of_tables) (simp add: core_tables_def)
  with ttl show ?case by (simp add: SetStatusTTL_def Let_def)
next
  case (agent db message now)
  then show ?case unfolding UpsertAgent_def by (intro keys_ok_intros(7) put_keys_distinct(2) keys_okD(7))
qed

lemma fold_keys: "(\<And>x d. keys_ok d \<Longrightarrow> keys_ok (f x d)) \<Longrightarrow> keys_ok db \<Longrightarrow> keys_ok (fold f xs db)"
  by (induction xs arbitrary: db) auto

lemma insert_services_rest: "insert_services current fresh k ss db = Inr db1 \<Longrightarrow> db1 = db\<lparr>dbServices := dbServices db1\<rparr>"
  by (drule insert_services_Inr) simp

lemma replace_rows_keys:
  assumes "replaceServiceRows scope services orphans fresh db = Inr db1" "keys_ok db"
  shows "keys_ok db1"
proof -
  let ?ids = "filter (\<lambda>i. i \<notin> set (map svID services)) (map (svID \<circ> rwService) (filter (\<lambda>r. scope (rwService r)) (dbServices db)))"
  let ?db1 = "if orphans then fold deleteStatusForService ?ids db else db"
  have ok: "keys_ok ?db1" using assms(2) by (auto intro: fold_keys delete_service_keys)
  from assms(1) have "insert_services (current_incarnation scope db) fresh 0 services
      (?db1\<lparr>dbServices := filter (\<lambda>r. \<not> scope (rwService r)) (dbServices ?db1)\<rparr>) = Inr db1"
    unfolding replaceServiceRows_def Let_def .
  from insert_services_rest [OF this] have db1: "db1 = ?db1\<lparr>dbServices := dbServices db1\<rparr>" by simp
  have "ids_distinct db1" using assms replace_rows_distinct by (auto simp: keys_ok_def)
  with keys_ok_intros(4) [OF ok, of "dbServices db1"] show ?thesis unfolding db1 [symmetric] by (simp add: ids_distinct_def)
qed

lemma repositories_keys:
  "keys_ok db \<Longrightarrow> (\<And>x. rpName x = rpName new \<Longrightarrow> rpName (upd x) = rpName new) \<Longrightarrow> keys_ok (on_repositories (put_repository upd new) db)"
  unfolding on_repositories_def by (rule keys_ok_intros(5)) (simp_all add: put_repository_keys keys_okD(5))

lemma ensure_keys: "keys_ok db \<Longrightarrow> keys_ok (EnsureRepositories repos db)"
  unfolding EnsureRepositories_def by (simp, rule fold_keys) (auto simp: Let_def intro!: repositories_keys)

lemma delete_service_row_keys: "keys_ok db \<Longrightarrow> keys_ok (delete_service sid db)"
proof -
  assume "keys_ok db"
  then have "keys_ok (deleteStatusForService sid db)" by (rule delete_service_keys)
  then show ?thesis unfolding delete_service_def Let_def by (intro keys_ok_intros(4) distinct_map_filter keys_okD(4))
qed

lemma delete_empty_keys: "keys_ok db \<Longrightarrow> keys_ok (delete_empty_configured repo db)"
  unfolding delete_empty_configured_def on_repositories_def by (intro keys_ok_intros(5) distinct_map_filter keys_okD(5))

lemma close_scan_keys: "keys_ok db \<Longrightarrow> keys_ok (close_scan i repo commit status e now db)"
  unfolding close_scan_def on_repositories_def
  by (rule keys_ok_intros(5), rule keys_ok_intros(6))
    (auto intro!: ids_below_map keys_okD(6) simp: comp_def if_distrib [of rpName] keys_okD(5) cong: if_cong)

lemma adopt_scan_keys: "adopt_scan repo services rs xs hs now fresh db = (db1, None) \<Longrightarrow> keys_ok db \<Longrightarrow> keys_ok db1"
proof -
  assume a: "adopt_scan repo services rs xs hs now fresh db = (db1, None)" and ok: "keys_ok db"
  let ?d = "setRouteTargetExclusions xs (delete_repository_exclusions repo db)"
  have "keys_ok ?d" using ok keys_of_tables [of ?d db] by simp
  with a migrate_keys replace_rows_keys show ?thesis
    by (auto simp: adopt_scan_def Let_def split: prod.splits option.splits sum.splits)
qed

lemma prune_loop_keys: "scan_prune_loop fails stop cutoff batch i tot db = (db1, r) \<Longrightarrow> keys_ok db \<Longrightarrow> keys_ok db1"
proof (induction fails stop cutoff batch i tot db arbitrary: db1 r rule: scan_prune_loop.induct)
  case (1 fails stop cutoff batch i tot db)
  have "keys_ok (db\<lparr>dbScans := delete_scans ids (dbScans db)\<rparr>)" for ids
    unfolding delete_scans_def by (intro keys_ok_intros(6) ids_below_filter keys_okD(6) 1(3))
  with 1(1) [OF _ refl refl refl refl] 1(2,3) show ?case
    by (subst (asm) scan_prune_loop.simps) (auto simp: Let_def split: if_splits)
qed

lemma start_scan_keys: "keys_ok db \<Longrightarrow> keys_ok (fst (StartScan repo now db))"
proof -
  assume ok: "keys_ok db"
  let ?scan = "\<lparr>snID = dbScanSeq db + 1, snRepository = repo, snStatus = ''running'', snCommitSHA = [], snStartedAt = RFC3339 now, snFinishedAt = [], snError = []\<rparr>"
  have "ids_below snID (dbScanSeq db + 1) (dbScans db @ [?scan])" by (rule ids_below_snoc [OF keys_okD(6) [OF ok]]) simp
  with ok show ?thesis by (simp add: StartScan_def Let_def keys_ok_def ids_distinct_def status_keys_distinct_def)
      (simp add: commitAndInvalidateSummary_def)
qed

lemma inventory_step_keys:
  assumes "inventory_step db db1" "keys_ok db"
  shows "keys_ok db1"
  using assms(1)
proof cases
  case (ensure repos)
  with assms(2) ensure_keys show ?thesis by simp
next
  case (configured repo source services now fresh cleanup e)
  let ?new = "configured_repository repo (if source = [] then repo else source) now"
  have "keys_ok (on_repositories (put_repository (\<lambda>r. ?new\<lparr>rpLastCommit := rpLastCommit r\<rparr>) ?new) db)"
    by (rule repositories_keys [OF assms(2)]) (simp add: configured_repository_def)
  with configured assms(2) replace_rows_keys show ?thesis by (auto simp: ReplaceConfiguredServices_def Let_def split: sum.splits)
next
  case (runtime repo source rt services now fresh cleanup e)
  let ?new = "configured_repository repo (if source = [] then repo else source) now"
  have "keys_ok (on_repositories (put_repository (\<lambda>r. r) ?new) db)" by (rule repositories_keys [OF assms(2)])
  with runtime assms(2) replace_rows_keys show ?thesis by (auto simp: ReplaceRuntimeServices_def Let_def split: sum.splits)
next
  case (prune_runtime rt keep cleanup)
  with assms(2) show ?thesis
    by (auto simp: PruneRuntimeServices_def Let_def intro!: fold_keys delete_empty_keys delete_service_row_keys)
next
  case (start repo now i)
  with start_scan_keys [OF assms(2), of repo now] show ?thesis by simp
next
  case (finish i repo commit services scanErr rs xs hs now fresh cleanup e)
  with assms(2) adopt_scan_keys close_scan_keys show ?thesis
    by (auto simp: FinishScanWithRouteTargetChanges_def Let_def split: prod.splits option.splits)
next
  case (prune_scans fails stop horizon batch now n outcome)
  with assms(2) prune_loop_keys show ?thesis by (auto simp: PruneTerminalScans_def Let_def split: if_splits)
next
  case (exclusions xs)
  have "keys_ok (setRouteTargetExclusions xs db) = keys_ok db" by (rule keys_of_tables) simp
  with exclusions assms(2) show ?thesis by (simp add: SetRouteTargetExclusions_def)
next
  case (migrate now rs hs e)
  with assms(2) migrate_keys show ?thesis
    by (auto simp: MigrateRouteTargetReplacements_def split: prod.splits option.splits)
qed

section \<open>Canonicalization keeps the keys\<close>

lemma fold_alias_keys: "(\<And>r c d. keys_ok d \<Longrightarrow> keys_ok (f r c d)) \<Longrightarrow> keys_ok db \<Longrightarrow> keys_ok (fold (\<lambda>(r, c). f r c) aliases db)"
  by (rule fold_keys) (auto split: prod.splits)

lemma alias_rows_keys:
  "(\<And>r c d. keys_ok d \<Longrightarrow> keys_ok (f r c d)) \<Longrightarrow> keys_ok db \<Longrightarrow> keys_ok (fst (canonicalizeRouteAliasRows name tgt rows f db))"
  by (simp add: canonicalizeRouteAliasRows_def Let_def fold_alias_keys)

lemma force_override_keys: "keys_ok db \<Longrightarrow> keys_ok (force_override ov db)"
  unfolding force_override_def Let_def by (intro keys_ok_intros(2)) (simp_all add: put_status_keys keys_okD(2))

lemma canonicalize_name_keys: "keys_ok (fst st) \<Longrightarrow> keys_ok (fst (canonicalize_name name st))"
proof -
  assume ok: "keys_ok (fst st)"
  have h: "keys_ok (d\<lparr>dbHistory := map (\<lambda>r. if hyID r = i then r\<lparr>hyTarget := c\<rparr> else r) (dbHistory d)\<rparr>)" if "keys_ok d" for d i c
    by (intro keys_ok_intros(3) that ids_below_map keys_okD(3)) simp
  let ?d1 = "fst (canonicalizeMonitorOverrides name (fst st))"
  let ?d2 = "fst (canonicalizeStatusResults name ?d1)"
  let ?d3 = "fst (canonicalizeStatusHistory name ?d2)"
  have 1: "keys_ok ?d1" unfolding canonicalizeMonitorOverrides_def by (intro alias_rows_keys override_migration_ok ok)
  have 2: "keys_ok ?d2" unfolding canonicalizeStatusResults_def by (intro alias_rows_keys status_migration_ok 1)
  have "keys_ok ?d3" unfolding canonicalizeStatusHistory_def by (intro alias_rows_keys h 2)
  then have "keys_ok (enforceActiveRouteOverrideStatuses name ?d3)"
    unfolding enforceActiveRouteOverrideStatuses_def by (intro fold_keys force_override_keys)
  then show ?thesis by (simp add: canonicalize_name_def Let_def split_beta)
qed

lemma canonicalize_keys: "keys_ok db \<Longrightarrow> keys_ok (fst (canonicalizeStoredRouteTargetsForNames names db))"
proof -
  assume ok: "keys_ok db"
  have "keys_ok (fst (fold canonicalize_name names st))" if "keys_ok (fst st)" for st
    using that
  proof (induction names arbitrary: st)
    case (Cons name names)
    then show ?case using Cons.IH [of "canonicalize_name name st"] canonicalize_name_keys by simp
  qed simp
  from this [of "(db, False)"] ok show ?thesis by (simp add: canonicalizeStoredRouteTargetsForNames_def split_beta)
qed

inductive canonical_step :: "DashDB \<Rightarrow> DashDB \<Rightarrow> bool" where
  "canonical_step db (CanonicalizeHTTPRouteTargets targets db)"

text \<open>C38: Every operation of inventory, monitoring and start-up, failed ones included, keeps the tables well
  formed: ids of services, scans and history rows are unique, there is one status and one override for
  a service and a target, one row for an agent and for a repository, and the sequences are not behind.\<close>
theorem primary_keys_hold:
  assumes "(sup (sup monitor_step inventory_step) (sup setup_step canonical_step))\<^sup>*\<^sup>* db db1" "keys_ok db"
  shows "keys_ok db1"
  using assms
proof (induction rule: rtranclp_induct)
  case (step d d1)
  have "keys_ok d1" if "canonical_step d d1" using that step canonicalize_keys
    by (auto simp: canonical_step.simps CanonicalizeHTTPRouteTargets_def)
  with step monitor_step_keys inventory_step_keys setup_step_keys show ?case by auto
qed simp

theorem primary_keys_hold_witness: "keys_ok (UpsertStatus demo_result 0 (fst (StartScan ''r'' 0 demo_windows)))"
proof -
  let ?R = "sup (sup monitor_step inventory_step) (sup setup_step canonical_step)"
  let ?db = "fst (StartScan ''r'' 0 demo_windows)"
  have "?R demo_windows ?db" by (intro sup2I1 sup2I2 inventory_step.start [where i = "snd (StartScan ''r'' 0 demo_windows)"]) simp
  moreover have "?R ?db (UpsertStatus demo_result 0 ?db)" by (intro sup2I1 monitor_step.result)
  ultimately have "?R\<^sup>*\<^sup>* demo_windows (UpsertStatus demo_result 0 ?db)" by (rule rtranclp.rtrancl_into_rtrancl [OF r_into_rtranclp])
  moreover have "keys_ok demo_windows"
    by (simp add: keys_ok_def demo_windows_def new_dash_def ids_distinct_def status_keys_distinct_def demo_db_def ids_below_def)
  ultimately show ?thesis by (rule primary_keys_hold)
qed

end
