(* ===== verification/GoText.thy ===== *)
theory GoText
  imports GoStrings Sanitizer Sha256
begin

text \<open>
  More of the standard library: upper case, \<open>strings.Fields\<close> and \<open>strings.Trim\<close>, base 64, the canonical
  form of header names, and the lexical operations of \<open>path/filepath\<close> on Unix.
\<close>

section \<open>Strings\<close>

definition upper_char :: "char \<Rightarrow> char" where
  "upper_char c = (let n = of_char c :: nat in if 97 \<le> n \<and> n \<le> 122 then char_of (n - 32) else c)"

definition ToUpper :: "string \<Rightarrow> string" where
  "ToUpper s = map upper_char s"

definition TrimRightChar :: "char \<Rightarrow> string \<Rightarrow> string" where
  "TrimRightChar d s = rev (dropWhile (\<lambda>c. c = d) (rev s))"

definition TrimChar :: "char \<Rightarrow> string \<Rightarrow> string" where
  "TrimChar d s = TrimRightChar d (dropWhile (\<lambda>c. c = d) s)"

fun split_word :: "string \<Rightarrow> string \<times> string" where
  "split_word [] = ([], [])"
| "split_word (c # s) =
     (if lead_space (c # s) \<noteq> 0 then ([], c # s) else (case split_word s of (w, r) \<Rightarrow> (c # w, r)))"

lemma split_word_append: "fst (split_word s) @ snd (split_word s) = s"
  by (induction s) (auto split: prod.split)

lemma split_word_le: "length (snd (split_word s)) \<le> length s"
  by (metis length_append le_add2 split_word_append)

lemma split_word_shorter: "s \<noteq> [] \<Longrightarrow> lead_space s = 0 \<Longrightarrow> length (snd (split_word s)) < length s"
  by (cases s) (simp_all add: split_word_le less_Suc_eq_le split: prod.split, metis snd_conv split_word_le)

function Fields :: "string \<Rightarrow> string list" where
  "Fields s =
     (let t = TrimLeftSpace s in
      if t = [] then [] else fst (split_word t) # Fields (snd (split_word t)))"
  by pat_completeness auto
termination
proof (relation "measure length")
  fix s t :: string
  assume t: "t = TrimLeftSpace s" "t \<noteq> []"
  then have "length (snd (split_word t)) < length t"
    using split_word_shorter lead_space_TrimLeft by blast
  moreover have "length t \<le> length s" unfolding t(1) by (rule suffix_length_le [OF TrimLeftSpace_suffix])
  ultimately show "(snd (split_word t), s) \<in> measure length" by simp
qed simp

declare Fields.simps [simp del]

lemma Fields_examples: "Fields ''  Bearer  abc '' = [''Bearer'', ''abc'']" "Fields ''  '' = []"
  by code_simp+

section \<open>Base 64\<close>

definition b64_char :: "char \<Rightarrow> char \<Rightarrow> nat \<Rightarrow> char" where
  "b64_char c62 c63 n =
     (if n < 26 then char_of (65 + n) else if n < 52 then char_of (71 + n)
      else if n < 62 then char_of (n - 4) else if n = 62 then c62 else c63)"

fun b64 :: "(nat \<Rightarrow> char) \<Rightarrow> string \<Rightarrow> nat list \<Rightarrow> string" where
  "b64 e pad [] = []"
| "b64 e pad [a] = [e (a div 4), e (a mod 4 * 16)] @ pad @ pad"
| "b64 e pad [a, b] = [e (a div 4), e (a mod 4 * 16 + b div 16), e (b mod 16 * 4)] @ pad"
| "b64 e pad (a # b # c # r) =
     [e (a div 4), e (a mod 4 * 16 + b div 16), e (b mod 16 * 4 + c div 64), e (c mod 64)] @ b64 e pad r"

abbreviation std_char :: "nat \<Rightarrow> char" where "std_char \<equiv> b64_char (CHR ''+'') (CHR ''/'')"
abbreviation url_char :: "nat \<Rightarrow> char" where "url_char \<equiv> b64_char (CHR ''-'') (CHR ''_'')"

definition base64_Std :: "string \<Rightarrow> string" where "base64_Std s = b64 std_char ''='' (bytes_of s)"
definition base64_RawStd :: "string \<Rightarrow> string" where "base64_RawStd s = b64 std_char [] (bytes_of s)"
definition base64_URL :: "string \<Rightarrow> string" where "base64_URL s = b64 url_char ''='' (bytes_of s)"
definition base64_RawURL :: "string \<Rightarrow> string" where "base64_RawURL s = b64 url_char [] (bytes_of s)"

lemma base64_examples:
  "base64_Std ''Many'' = ''TWFueQ==''" "base64_RawStd ''light w?'' = ''bGlnaHQgdz8''" "base64_URL ''a?>~'' = ''YT8-fg==''"
  by code_simp+

section \<open>Header names\<close>

definition header_byte :: "char \<Rightarrow> bool" where
  "header_byte c \<longleftrightarrow> is_letter c \<or> is_digit c \<or> c \<in> set ''!#$%&*+-.^_`|~'' \<or> c = CHR 0x27"

fun canonical_header :: "bool \<Rightarrow> string \<Rightarrow> string" where
  "canonical_header upper [] = []"
| "canonical_header upper (c # s) = (if upper then upper_char c else lower_char c) # canonical_header (c = CHR ''-'') s"

definition CanonicalMIMEHeaderKey :: "string \<Rightarrow> string" where
  "CanonicalMIMEHeaderKey s = (if list_all header_byte s then canonical_header True s else s)"

section \<open>Paths\<close>

definition clean_step :: "bool \<Rightarrow> string \<Rightarrow> string list \<Rightarrow> string list" where
  "clean_step rooted c stack =
     (if c = [] \<or> c = ''.'' then stack
      else if c = ''..'' then
        (if stack \<noteq> [] \<and> hd stack \<noteq> ''..'' then tl stack else if rooted then stack else ''..'' # stack)
      else c # stack)"

definition clean_parts :: "string \<Rightarrow> string list" where
  "clean_parts p = rev (fold (clean_step (HasPrefix p ''/'')) (split_char (CHR ''/'') p) [])"

definition path_Clean :: "string \<Rightarrow> string" where
  "path_Clean p =
     (let out = (if HasPrefix p ''/'' then ''/'' else []) @ Join (clean_parts p) ''/''
      in if out = [] then ''.'' else out)"

definition path_Join :: "string list \<Rightarrow> string" where
  "path_Join elems =
     (case dropWhile (\<lambda>e. e = []) elems of [] \<Rightarrow> [] | es \<Rightarrow> path_Clean (Join es ''/''))"

definition path_Base :: "string \<Rightarrow> string" where
  "path_Base p =
     (if p = [] then ''.''
      else
       (let t = TrimRightChar (CHR ''/'') p;
            b = rev (takeWhile (\<lambda>c. c \<noteq> CHR ''/'') (rev t))
        in if b = [] then ''/'' else b))"

lemma path_examples:
  "path_Clean ''a//b/./../c/'' = ''a/c''" "path_Clean ''../a/../../b'' = ''../../b''" "path_Clean ''/../a'' = ''/a''"
  "path_Clean [] = ''.''" "path_Clean ''a/..'' = ''.''" "path_Clean ''/..'' = ''/''"
  "path_Join [[], ''a'', ''b/..''] = ''a''" "path_Base ''x/hosts.yml/'' = ''hosts.yml''" "path_Base ''//'' = ''/''"
  by code_simp+

text \<open>The parts of a clean relative path: some steps up, then only steps down.\<close>

lemma clean_stack:
  "(\<exists>k names. stack = names @ replicate k ''..'' \<and> ''..'' \<notin> set names) \<Longrightarrow>
   \<exists>k names. fold (clean_step False) ps stack = names @ replicate k ''..'' \<and> ''..'' \<notin> set names"
proof (induction ps arbitrary: stack)
  case (Cons c ps)
  then obtain k names where s: "stack = names @ replicate k ''..''" "''..'' \<notin> set names" by blast
  have "\<exists>k' names'. clean_step False c stack = names' @ replicate k' ''..'' \<and> ''..'' \<notin> set names'"
  proof (cases "c = ''..''")
    case True
    show ?thesis
    proof (cases names)
      case Nil
      with True s have "clean_step False c stack = [] @ replicate (Suc k) ''..''"
        by (cases k) (simp_all add: clean_step_def)
      then show ?thesis by (metis empty_iff empty_set)
    next
      case (Cons n ns)
      with True s have "clean_step False c stack = ns @ replicate k ''..''" "''..'' \<notin> set ns"
        by (auto simp: clean_step_def)
      then show ?thesis by blast
    qed
  next
    case False
    show ?thesis
    proof (cases "c = [] \<or> c = ''.''")
      case True
      with s show ?thesis by (auto simp: clean_step_def)
    next
      case nodot: False
      with False s have "clean_step False c stack = (c # names) @ replicate k ''..''" "''..'' \<notin> set (c # names)"
        by (simp_all add: clean_step_def)
      then show ?thesis by blast
    qed
  qed
  then show ?case using Cons.IH by simp
qed simp

end
