(* ===== verification/ConfigTypes.thy ===== *)
theory ConfigTypes
  imports EgressPolicy GoTime GoText Url
begin

text \<open>
  The data of \<open>internal/config/config.go\<close>: the structs, the errors, the durations of the fields, the
  effective names of targets and sinks, and the defaults. A Go map is the list of its entries in the order
  the loop over it meets them. An error keeps the field it names, not the text around it.
\<close>

section \<open>Structs\<close>

record ServerConfig =
  scListen :: string
  scDataDir :: string
  scRepoCacheDir :: string
  scAllowedOrigins :: "string list"

record AuthUser =
  auUsername :: string
  auPasswordHash :: string
  auPasswordHashFile :: string
  auPasswordHashEnv :: string

record AgentAuthCfg =
  aaTokens :: "string list"
  aaTokenFile :: string
  aaTokenEnv :: string
  aaAllowedOrigins :: "string list"

record AuthConfig =
  acMode :: string
  acUsers :: "AuthUser list"
  acAgent :: AgentAuthCfg

record RepositoryConfig =
  rcName :: string
  rcURL :: string
  rcDefaultRef :: string
  rcType :: string
  rcTokenFile :: string
  rcTokenEnv :: string
  rcSSHKeyPath :: string
  rcKnownHosts :: string
  rcScanInterval :: string
  rcIncludePaths :: "string list"
  rcExcludePaths :: "string list"

record DockerTarget =
  dtName :: string
  dtKind :: string
  dtHost :: string
  dtAgentToken :: string
  dtAgentTokenFile :: string
  dtAgentTokenEnv :: string
  dtInterval :: string

record KubernetesTarget =
  ktName :: string
  ktKubeconfig :: string
  ktContext :: string
  ktInterval :: string

record EgressRules =
  erDomains :: "string list"
  erCIDRs :: "string list"

record EgressConfig =
  egAllow :: EgressRules
  egDeny :: EgressRules

record HTTPRouteTarget =
  htName :: string
  htInterval :: string
  htTimeout :: string
  htEgress :: EgressConfig

record PingTarget =
  ptName :: string
  ptHost :: string
  ptRepository :: string
  ptAnsibleInventory :: string
  ptInterval :: string
  ptTimeout :: string
  ptMinRefreshInterval :: string
  ptEnvironment :: string

record RuntimeConfig =
  rtDocker :: "DockerTarget list"
  rtKubernetes :: "KubernetesTarget list"
  rtHTTP :: "HTTPRouteTarget list"
  rtPing :: "PingTarget list"

record AlertRetryConfig =
  arcMaxAttempts :: int
  arcInitialInterval :: string
  arcMaxInterval :: string

record AlertRetentionConfig =
  atcHorizon :: string
  atcInterval :: string
  atcBatchSize :: int

record AlertSinkFilterConfig =
  fcServices :: "string list"
  fcTargets :: "string list"

record WebhookAlertSinkConfig =
  wsEnabled :: bool
  wsName :: string
  wsURL :: string
  wsURLEnv :: string
  wsURLFile :: string
  wsRedactValues :: "string list"
  wsInsecureAllowHTTP :: bool
  wsMethod :: string
  wsHeaders :: "(string \<times> string) list"
  wsHeaderEnv :: "(string \<times> string) list"
  wsHeaderFile :: "(string \<times> string) list"
  wsBodyTemplate :: string
  wsTimeout :: string
  wsInclude :: AlertSinkFilterConfig
  wsExclude :: AlertSinkFilterConfig

record DiscordAlertSinkConfig =
  diEnabled :: bool
  diName :: string
  diWebhookURL :: string
  diWebhookURLEnv :: string
  diWebhookURLFile :: string
  diRedactValues :: "string list"
  diTimeout :: string
  diInclude :: AlertSinkFilterConfig
  diExclude :: AlertSinkFilterConfig

record HomeAssistantAlertSinkConfig =
  hsEnabled :: bool
  hsName :: string
  hsBaseURL :: string
  hsBaseURLEnv :: string
  hsBaseURLFile :: string
  hsRedactValues :: "string list"
  hsInsecureAllowHTTP :: bool
  hsToken :: string
  hsTokenEnv :: string
  hsTokenFile :: string
  hsWebhookID :: string
  hsWebhookIDEnv :: string
  hsWebhookIDFile :: string
  hsTimeout :: string
  hsInclude :: AlertSinkFilterConfig
  hsExclude :: AlertSinkFilterConfig

record AlertingConfig =
  alDebounce :: string
  alCooldown :: string
  alStabilitySamples :: int
  alResetOnMissingKey :: bool
  alResetToken :: string
  alRetry :: AlertRetryConfig
  alRetention :: AlertRetentionConfig
  alWebhook :: WebhookAlertSinkConfig
  alDiscord :: DiscordAlertSinkConfig
  alHomeAssistant :: HomeAssistantAlertSinkConfig
  alRedactionValues :: "string list"

record AgentConfig =
  anServerURL :: string
  anTarget :: string
  anToken :: string
  anTokenFile :: string
  anTokenEnv :: string
  anInterval :: string
  anDocker :: DockerTarget

record Config =
  cfServer :: ServerConfig
  cfAuth :: AuthConfig
  cfRepositories :: "RepositoryConfig list"
  cfRuntime :: RuntimeConfig
  cfDefaultInterval :: string
  cfAlerting :: AlertingConfig
  cfAgent :: AgentConfig

datatype config_error =
    FieldRequired string | BadDuration string | NotPositive string | TimeoutExceedsLease string
  | OnlyOneSource string | UnsetEnv string string | FileUnreadable string string | FileEmpty string string
  | HeaderNameEmpty string | HeaderNameInvalid string string | HeaderValueInvalid string string
  | HeaderDuplicate string string string
  | ConfigModeInvalid | ConfigUnreadable string | ConfigEnvUnset "string list" | ConfigUnparsable string
  | AuthModeInvalid | AuthUsersRequired | AuthUserIncomplete | RepositoryIncomplete | EgressInvalid egress_error
  | PingHostRequired | PingRepositoryNeedsInventory | PingInventoryNeedsRepository | PingRepositoryUnknown string
  | PathAbsolute string | PathEscapes string
  | TargetNameEmpty | TargetNameReserved | TargetNameDuplicate string string nat
  | RetryIntervalsReversed | SinkNameEmpty string | SinkNameDuplicate string string string | SinkNameSecret string
  | URLInvalid string | URLNotHTTPS string | MethodInvalid

text \<open>The first error of a sequence of checks.\<close>

fun first_error :: "'e option list \<Rightarrow> 'e option" where
  "first_error [] = None"
| "first_error (None # cs) = first_error cs"
| "first_error (Some e # cs) = Some e"

lemma first_error_None: "first_error cs = None \<longleftrightarrow> (\<forall>c \<in> set cs. c = None)"
  by (induction cs rule: first_error.induct) auto

definition err_of :: "'e + 'a \<Rightarrow> 'e option" where
  "err_of r = (case r of Inl e \<Rightarrow> Some e | Inr _ \<Rightarrow> None)"

lemma err_of_None: "err_of r = None \<longleftrightarrow> (\<exists>x. r = Inr x)"
  by (cases r) (simp_all add: err_of_def)

section \<open>Durations\<close>

definition AlertDeliveryLeaseDuration :: duration where "AlertDeliveryLeaseDuration = 2 * Minute"

definition optionalPositiveDuration :: "string \<Rightarrow> string \<Rightarrow> config_error + duration" where
  "optionalPositiveDuration value field =
     (if value = [] then Inr 0
      else (case ParseDuration value of
              None \<Rightarrow> Inl (BadDuration field)
            | Some interval \<Rightarrow> if interval \<le> 0 then Inl (NotPositive field) else Inr interval))"

definition requiredPositiveDuration :: "string \<Rightarrow> string \<Rightarrow> config_error + duration" where
  "requiredPositiveDuration value field =
     (if TrimSpace value = [] then Inl (FieldRequired field) else optionalPositiveDuration value field)"

definition requiredSinkTimeout :: "string \<Rightarrow> string \<Rightarrow> config_error + duration" where
  "requiredSinkTimeout value field =
     (case requiredPositiveDuration value field of
        Inl e \<Rightarrow> Inl e
      | Inr timeout \<Rightarrow>
          if AlertDeliveryLeaseDuration \<le> timeout then Inl (TimeoutExceedsLease field) else Inr timeout)"

definition DebounceDuration :: "AlertingConfig \<Rightarrow> config_error + duration" where
  "DebounceDuration cfg = requiredPositiveDuration (alDebounce cfg) ''alerting.debounce''"

definition CooldownDuration :: "AlertingConfig \<Rightarrow> config_error + duration" where
  "CooldownDuration cfg = requiredPositiveDuration (alCooldown cfg) ''alerting.cooldown''"

definition RetryInitialIntervalDuration :: "AlertingConfig \<Rightarrow> config_error + duration" where
  "RetryInitialIntervalDuration cfg = requiredPositiveDuration (arcInitialInterval (alRetry cfg)) ''alerting.retry.initialInterval''"

definition RetryMaxIntervalDuration :: "AlertingConfig \<Rightarrow> config_error + duration" where
  "RetryMaxIntervalDuration cfg = requiredPositiveDuration (arcMaxInterval (alRetry cfg)) ''alerting.retry.maxInterval''"

definition RetentionHorizonDuration :: "AlertingConfig \<Rightarrow> config_error + duration" where
  "RetentionHorizonDuration cfg = requiredPositiveDuration (atcHorizon (alRetention cfg)) ''alerting.retention.horizon''"

definition RetentionIntervalDuration :: "AlertingConfig \<Rightarrow> config_error + duration" where
  "RetentionIntervalDuration cfg = requiredPositiveDuration (atcInterval (alRetention cfg)) ''alerting.retention.interval''"

definition webhook_TimeoutDuration :: "WebhookAlertSinkConfig \<Rightarrow> config_error + duration" where
  "webhook_TimeoutDuration sink = requiredSinkTimeout (wsTimeout sink) ''alerting.sinks.webhook.timeout''"

definition discord_TimeoutDuration :: "DiscordAlertSinkConfig \<Rightarrow> config_error + duration" where
  "discord_TimeoutDuration sink = requiredSinkTimeout (diTimeout sink) ''alerting.sinks.discord.timeout''"

definition homeassistant_TimeoutDuration :: "HomeAssistantAlertSinkConfig \<Rightarrow> config_error + duration" where
  "homeassistant_TimeoutDuration sink = requiredSinkTimeout (hsTimeout sink) ''alerting.sinks.homeAssistant.timeout''"

definition docker_IntervalDuration :: "DockerTarget \<Rightarrow> config_error + duration" where
  "docker_IntervalDuration target = optionalPositiveDuration (dtInterval target) ''runtime.docker.interval''"

definition kubernetes_IntervalDuration :: "KubernetesTarget \<Rightarrow> config_error + duration" where
  "kubernetes_IntervalDuration target = optionalPositiveDuration (ktInterval target) ''runtime.kubernetes.interval''"

definition http_IntervalDuration :: "HTTPRouteTarget \<Rightarrow> config_error + duration" where
  "http_IntervalDuration target = optionalPositiveDuration (htInterval target) ''runtime.http.interval''"

definition http_TimeoutDuration :: "HTTPRouteTarget \<Rightarrow> config_error + duration" where
  "http_TimeoutDuration target = optionalPositiveDuration (htTimeout target) ''runtime.http.timeout''"

definition ping_IntervalDuration :: "PingTarget \<Rightarrow> config_error + duration" where
  "ping_IntervalDuration target = optionalPositiveDuration (ptInterval target) ''runtime.ping.interval''"

definition ping_TimeoutDuration :: "PingTarget \<Rightarrow> config_error + duration" where
  "ping_TimeoutDuration target = optionalPositiveDuration (ptTimeout target) ''runtime.ping.timeout''"

definition MinRefreshDuration :: "PingTarget \<Rightarrow> config_error + duration" where
  "MinRefreshDuration target = optionalPositiveDuration (ptMinRefreshInterval target) ''runtime.ping.minRefreshInterval''"

definition agent_IntervalDuration :: "AgentConfig \<Rightarrow> config_error + duration" where
  "agent_IntervalDuration cfg = optionalPositiveDuration (anInterval cfg) ''agent.interval''"

definition ScanDuration :: "RepositoryConfig \<Rightarrow> config_error + duration" where
  "ScanDuration cfg = optionalPositiveDuration (rcScanInterval cfg) (''repository '' @ rcName cfg @ '' scanInterval'')"

definition DefaultInterval :: "Config \<Rightarrow> config_error + duration" where
  "DefaultInterval cfg =
     (case ParseDuration (cfDefaultInterval cfg) of
        None \<Rightarrow> Inl (BadDuration ''monitoring.defaultInterval'') | Some d \<Rightarrow> Inr d)"

text \<open>\<open>CheckInterval\<close> of the four kinds of target, over the interval of the target.\<close>

definition CheckInterval :: "config_error + duration \<Rightarrow> duration \<Rightarrow> duration" where
  "CheckInterval interval defaultInterval =
     (case interval of Inl _ \<Rightarrow> defaultInterval | Inr d \<Rightarrow> if d = 0 then defaultInterval else d)"

section \<open>Names and policies\<close>

definition EffectiveName :: "PingTarget \<Rightarrow> string" where
  "EffectiveName target =
     (if ptName target \<noteq> [] then ptName target
      else if ptHost target \<noteq> [] then ptHost target
      else if ptAnsibleInventory target \<noteq> [] \<and> path_Base (ptAnsibleInventory target) \<noteq> ''.'' \<and>
              path_Base (ptAnsibleInventory target) \<noteq> ''/''
      then path_Base (ptAnsibleInventory target) else ''hosts'')"

definition target_EgressPolicy :: "HTTPRouteTarget \<Rightarrow> config_error + EgressPolicy" where
  "target_EgressPolicy target =
     (case NewEgressPolicy \<lparr>ecAllowDomains = erDomains (egAllow (htEgress target)), ecAllowCIDRs = erCIDRs (egAllow (htEgress target)),
              ecDenyDomains = erDomains (egDeny (htEgress target)), ecDenyCIDRs = erCIDRs (egDeny (htEgress target))\<rparr> of
        Inl e \<Rightarrow> Inl (EgressInvalid e) | Inr policy \<Rightarrow> Inr policy)"

definition alertSinkName :: "string \<Rightarrow> string \<Rightarrow> string" where
  "alertSinkName defaultName configured = (if TrimSpace configured = [] then defaultName else TrimSpace configured)"

definition alerting_Enabled :: "AlertingConfig \<Rightarrow> bool" where
  "alerting_Enabled cfg \<longleftrightarrow> wsEnabled (alWebhook cfg) \<or> diEnabled (alDiscord cfg) \<or> hsEnabled (alHomeAssistant cfg)"

definition EnabledSinkNames :: "AlertingConfig \<Rightarrow> string list" where
  "EnabledSinkNames cfg =
     [alertSinkName ''webhook'' (wsName (alWebhook cfg)), alertSinkName ''discord'' (diName (alDiscord cfg)),
      alertSinkName ''home-assistant'' (hsName (alHomeAssistant cfg))]"

definition ActiveSinkNames :: "AlertingConfig \<Rightarrow> string list" where
  "ActiveSinkNames cfg =
     (if wsEnabled (alWebhook cfg) then [alertSinkName ''webhook'' (wsName (alWebhook cfg))] else []) @
     (if diEnabled (alDiscord cfg) then [alertSinkName ''discord'' (diName (alDiscord cfg))] else []) @
     (if hsEnabled (alHomeAssistant cfg) then [alertSinkName ''home-assistant'' (hsName (alHomeAssistant cfg))] else [])"

section \<open>Defaults\<close>

definition default_to :: "'a \<Rightarrow> 'a \<Rightarrow> 'a \<Rightarrow> 'a" where
  "default_to zero d x = (if x = zero then d else x)"

definition applyAlertingDefaults :: "AlertingConfig \<Rightarrow> AlertingConfig" where
  "applyAlertingDefaults cfg = cfg\<lparr>
     alStabilitySamples := default_to 0 2 (alStabilitySamples cfg),
     alDebounce := default_to [] ''30s'' (alDebounce cfg),
     alCooldown := default_to [] ''5m'' (alCooldown cfg),
     alRetry := \<lparr>arcMaxAttempts = default_to 0 3 (arcMaxAttempts (alRetry cfg)),
                 arcInitialInterval = default_to [] ''10s'' (arcInitialInterval (alRetry cfg)),
                 arcMaxInterval = default_to [] ''5m'' (arcMaxInterval (alRetry cfg))\<rparr>,
     alRetention := \<lparr>atcHorizon = default_to [] ''720h'' (atcHorizon (alRetention cfg)),
                     atcInterval = default_to [] ''1h'' (atcInterval (alRetention cfg)),
                     atcBatchSize = default_to 0 500 (atcBatchSize (alRetention cfg))\<rparr>,
     alWebhook := (alWebhook cfg)\<lparr>
       wsMethod := (if wsMethod (alWebhook cfg) = [] then ''POST'' else ToUpper (wsMethod (alWebhook cfg))),
       wsTimeout := default_to [] ''10s'' (wsTimeout (alWebhook cfg)),
       wsName := alertSinkName ''webhook'' (wsName (alWebhook cfg))\<rparr>,
     alDiscord := (alDiscord cfg)\<lparr>
       diTimeout := default_to [] ''10s'' (diTimeout (alDiscord cfg)),
       diName := alertSinkName ''discord'' (diName (alDiscord cfg))\<rparr>,
     alHomeAssistant := (alHomeAssistant cfg)\<lparr>
       hsTimeout := default_to [] ''10s'' (hsTimeout (alHomeAssistant cfg)),
       hsName := alertSinkName ''home-assistant'' (hsName (alHomeAssistant cfg))\<rparr>\<rparr>"

definition applyServerDefaults :: "Config \<Rightarrow> Config" where
  "applyServerDefaults cfg =
     (let dataDir = default_to [] ''data'' (scDataDir (cfServer cfg)) in
      cfg\<lparr>
        cfServer := (cfServer cfg)\<lparr>
          scListen := default_to [] '':8080'' (scListen (cfServer cfg)), scDataDir := dataDir,
          scRepoCacheDir := default_to [] (path_Join [dataDir, ''repos'']) (scRepoCacheDir (cfServer cfg))\<rparr>,
        cfAuth := (cfAuth cfg)\<lparr>acMode := default_to [] ''basic'' (acMode (cfAuth cfg))\<rparr>,
        cfDefaultInterval := default_to [] ''30s'' (cfDefaultInterval cfg),
        cfAlerting := applyAlertingDefaults (cfAlerting cfg),
        cfRepositories := map (\<lambda>r. r\<lparr>rcDefaultRef := default_to [] ''HEAD'' (rcDefaultRef r)\<rparr>) (cfRepositories cfg)\<rparr>)"

end
