(* ===== verification/AlertRedaction.thy ===== *)
theory AlertRedaction
  imports ConfigTypes
begin

text \<open>
  \<open>internal/config/alert_redaction.go\<close>: the secrets that are derived from the configured URLs, headers and
  declared values, and are registered with the store so that no stored text shows them.
\<close>

section \<open>Values and their escapes\<close>

definition appendAlertRedactValues :: "string list \<Rightarrow> string list \<Rightarrow> string list" where
  "appendAlertRedactValues values extra = values @ filter (\<lambda>v. v \<noteq> []) (map TrimSpace extra)"

definition isAlertSecretParameterName :: "string \<Rightarrow> bool" where
  "isAlertSecretParameterName name =
     (let normalized = map (\<lambda>c. if c = CHR ''_'' then CHR ''-'' else c) (ToLower (TrimSpace name)) in
      normalized \<in> {''access-token'', ''api-key'', ''apikey'', ''auth'', ''authorization'', ''bearer'', ''client-secret'', ''key'',
                    ''password'', ''secret'', ''signature'', ''sig'', ''token'', ''webhook-token''} \<or>
      HasSuffix normalized ''-token'' \<or> HasSuffix normalized ''-secret'' \<or> HasSuffix normalized ''-key'')"

definition alertEscapedSecretVariants :: "string \<Rightarrow> string \<Rightarrow> string list" where
  "alertEscapedSecretVariants escaped decoded =
     [decoded] @ (if escaped \<noteq> [] then [escaped] else []) @
     (if decoded \<noteq> [] then [PathEscape decoded, QueryEscape decoded] else [])"

definition alertHeaderRedactionValues :: "string \<Rightarrow> string \<Rightarrow> string list" where
  "alertHeaderRedactionValues name0 raw0 =
     (let raw = TrimSpace raw0; name = CanonicalMIMEHeaderKey (TrimSpace name0); fields = Fields raw in
      if raw = [] then []
      else if EqualFold name ''Authorization'' \<and> length fields = 2 then appendAlertRedactValues [] [raw, fields ! 1]
      else if isAlertSecretParameterName name then appendAlertRedactValues [] [raw]
      else [])"

definition appendAlertHeaderRedactValues :: "string list \<Rightarrow> string \<Rightarrow> string \<Rightarrow> string list" where
  "appendAlertHeaderRedactValues values name raw = appendAlertRedactValues values (alertHeaderRedactionValues name raw)"

section \<open>URLs\<close>

text \<open>A part of the query: the values it contributes when its key is the name of a secret.\<close>

definition query_part_values :: "string \<Rightarrow> string list" where
  "query_part_values part =
     (if part = [] then []
      else (case Cut part ''='' of (keyPart, valuePart, _) \<Rightarrow>
        (case QueryUnescape keyPart of
           None \<Rightarrow> []
         | Some key \<Rightarrow>
             if \<not> isAlertSecretParameterName key then []
             else alertEscapedSecretVariants valuePart
                    (case QueryUnescape valuePart of None \<Rightarrow> valuePart | Some value \<Rightarrow> value))))"

definition appendAlertURLQueryRedactValues :: "string list \<Rightarrow> string \<Rightarrow> string list" where
  "appendAlertURLQueryRedactValues values rawQuery =
     fold (\<lambda>part vs. appendAlertRedactValues vs (query_part_values part)) (split_char (CHR ''&'') rawQuery) values"

definition alertURLRedactionValues :: "string \<Rightarrow> string list" where
  "alertURLRedactionValues raw0 =
     (let raw = TrimSpace raw0 in
      if raw = [] then []
      else
       (case url_Parse raw of
          None \<Rightarrow> []
        | Some parsed \<Rightarrow>
            fold (\<lambda>(key, value) vs. if isAlertSecretParameterName key
                    then appendAlertRedactValues vs (alertEscapedSecretVariants (QueryEscape value) value) else vs)
              (query_values parsed)
              (appendAlertURLQueryRedactValues (appendAlertRedactValues [] (URLUserinfoValues raw)) (urlRawQuery parsed))))"

definition appendAlertURLRedactValues :: "string list \<Rightarrow> string list \<Rightarrow> string list" where
  "appendAlertURLRedactValues values urls =
     fold (\<lambda>raw vs. appendAlertRedactValues vs (alertURLRedactionValues raw)) urls values"

definition appendAlertURLTrailingPathSecretValues :: "string list \<Rightarrow> string \<Rightarrow> int \<Rightarrow> string list" where
  "appendAlertURLTrailingPathSecretValues values rawURL count =
     (if count \<le> 0 then values
      else
       (case url_Parse (TrimSpace rawURL) of
          None \<Rightarrow> values
        | Some parsed \<Rightarrow>
           (let segments = split_char (CHR ''/'') (TrimChar (CHR ''/'') (EscapedPath parsed)) in
            fold (\<lambda>escaped vs. if escaped = [] then vs
                    else (case PathUnescape escaped of
                            None \<Rightarrow> vs | Some decoded \<Rightarrow> appendAlertRedactValues vs (alertEscapedSecretVariants escaped decoded)))
              (drop (length segments - nat count) segments) values)))"

definition alertEscapedPathVariants :: "URL \<Rightarrow> string list" where
  "alertEscapedPathVariants parsed =
     dedup_by (\<lambda>v. v) (filter (\<lambda>v. v \<noteq> []) [urlRawPath parsed, EscapedPath parsed])"

text \<open>A path segment, and the value of a part of the query, that decodes to a declared secret.\<close>

definition declared_values :: "string list \<Rightarrow> string option \<Rightarrow> string \<Rightarrow> string list" where
  "declared_values declaredSet decoded part =
     (case decoded of
        None \<Rightarrow> [] | Some unescaped \<Rightarrow> if unescaped \<in> set declaredSet then alertEscapedSecretVariants part unescaped else [])"

definition appendAlertDeclaredURLSecretValues :: "string list \<Rightarrow> string \<Rightarrow> string list \<Rightarrow> string list" where
  "appendAlertDeclaredURLSecretValues values0 rawURL declared =
     (let declaredSet = filter (\<lambda>v. v \<noteq> []) (map TrimSpace declared);
          values = fold (\<lambda>v vs. appendAlertRedactValues vs (alertEscapedSecretVariants v v)) declaredSet values0 in
      if declaredSet = [] then values
      else
       (case url_Parse (TrimSpace rawURL) of
          None \<Rightarrow> values
        | Some parsed \<Rightarrow>
           (let paths = concat (map (\<lambda>p. filter (\<lambda>s. s \<noteq> []) (split_char (CHR ''/'') p)) (alertEscapedPathVariants parsed));
                values1 = fold (\<lambda>part vs. appendAlertRedactValues vs (declared_values declaredSet (PathUnescape part) part)) paths values
            in fold (\<lambda>part vs. if part = [] then vs
                       else (case Cut part ''='' of (_, valuePart, _) \<Rightarrow>
                         appendAlertRedactValues vs (declared_values declaredSet (QueryUnescape valuePart) valuePart)))
                 (split_char (CHR ''&'') (urlRawQuery parsed)) values1)))"

section \<open>All values of the alerting section\<close>

definition append_headers :: "(string \<times> string) list \<Rightarrow> string list \<Rightarrow> string list" where
  "append_headers headers values = fold (\<lambda>(name, value) vs. appendAlertHeaderRedactValues vs name value) headers values"

definition AlertingRedactionValues :: "AlertingConfig \<Rightarrow> string list" where
  "AlertingRedactionValues alerting =
     (let v1 = appendAlertURLRedactValues [] [wsURL (alWebhook alerting)];
          v2 = append_headers (wsHeaders (alWebhook alerting)) v1;
          v3 = appendAlertDeclaredURLSecretValues v2 (wsURL (alWebhook alerting)) (wsRedactValues (alWebhook alerting));
          v4 = appendAlertURLRedactValues v3 [diWebhookURL (alDiscord alerting)];
          v5 = appendAlertRedactValues v4 [diWebhookURL (alDiscord alerting)];
          v6 = appendAlertURLTrailingPathSecretValues v5 (diWebhookURL (alDiscord alerting)) 2;
          v7 = appendAlertRedactValues v6 (diRedactValues (alDiscord alerting));
          v8 = appendAlertURLRedactValues v7 [hsBaseURL (alHomeAssistant alerting)];
          v9 = appendAlertRedactValues v8 [hsToken (alHomeAssistant alerting), hsWebhookID (alHomeAssistant alerting)];
          v10 = appendAlertRedactValues v9 (hsRedactValues (alHomeAssistant alerting))
      in appendAlertRedactValues v10 (alRedactionValues alerting))"

lemma redaction_examples:
  "alertURLRedactionValues ''https://bot:p%40s@h/x?access_token=a%2Bb&plain=c'' =
     [''p@s'', ''bot:p%40s'', ''a+b'', ''a%2Bb'', ''a+b'', ''a%2Bb'', ''a+b'', ''a%2Bb'', ''a+b'', ''a%2Bb'']"
  "alertHeaderRedactionValues ''authorization'' ''Bearer s3cret'' = [''Bearer s3cret'', ''s3cret'']"
  "alertHeaderRedactionValues ''X-Trace'' ''abc'' = []"
  "appendAlertURLTrailingPathSecretValues [] ''https://discord.test/api/webhooks/42/tok-en'' 2 =
     [''42'', ''42'', ''42'', ''42'', ''tok-en'', ''tok-en'', ''tok-en'', ''tok-en'']"
  by code_simp+

section \<open>What is registered\<close>

lemma set_appendAlertRedactValues:
  "set (appendAlertRedactValues values extra) = set values \<union> (TrimSpace ` set extra - {[]})"
  by (auto simp: appendAlertRedactValues_def)

lemma append_keeps: "set values \<subseteq> set (appendAlertRedactValues values extra)"
  by (simp add: set_appendAlertRedactValues)

lemma fold_keeps: "(\<And>x vs. set vs \<subseteq> set (f x vs)) \<Longrightarrow> set acc \<subseteq> set (fold f xs acc)"
proof (induction xs arbitrary: acc)
  case (Cons x xs)
  have "set acc \<subseteq> set (f x acc)" by (rule Cons.prems)
  also have "\<dots> \<subseteq> set (fold f xs (f x acc))" by (rule Cons.IH) (rule Cons.prems)
  finally show ?case by simp
qed simp

lemma fold_mem: "v \<in> set acc \<Longrightarrow> (\<And>x vs. set vs \<subseteq> set (f x vs)) \<Longrightarrow> v \<in> set (fold f xs acc)"
  using fold_keeps [of f acc xs] by blast

lemma redaction_keeps:
  "set vals \<subseteq> set (appendAlertURLRedactValues vals urls)"
  "set vals \<subseteq> set (append_headers headers vals)"
  "set vals \<subseteq> set (appendAlertURLTrailingPathSecretValues vals rawURL n)"
  "set vals \<subseteq> set (appendAlertDeclaredURLSecretValues vals rawURL declared)"
  unfolding appendAlertURLRedactValues_def append_headers_def appendAlertHeaderRedactValues_def
    appendAlertURLTrailingPathSecretValues_def appendAlertDeclaredURLSecretValues_def Let_def
  by (rule fold_keeps append_keeps;
      simp add: case_prod_beta set_appendAlertRedactValues)
    (auto split: option.split intro!: fold_mem simp: case_prod_beta set_appendAlertRedactValues)

end
