(* ===== verification/ConfigSecrets.thy ===== *)
theory ConfigSecrets
  imports AlertRedaction
begin

text \<open>
  How \<open>internal/config/config.go\<close> resolves secrets from the environment and from files: the resolved
  configuration and the values registered for redaction. The environment and the file system are an
  argument; the log lines are not modelled.
\<close>

record os_env =
  osLookupEnv :: "string \<Rightarrow> string option"
  osReadFile :: "string \<Rightarrow> string option"

section \<open>One secret\<close>

definition bytes_space :: "char \<Rightarrow> bool" where
  "bytes_space c \<longleftrightarrow> c \<in> {CHR 0x20, CHR 0x0A, CHR 0x0D, CHR 0x09}"

definition bytesTrimSpace :: "string \<Rightarrow> string" where
  "bytesTrimSpace data = rev (dropWhile bytes_space (rev (dropWhile bytes_space data)))"

definition resolveEnvSecret :: "os_env \<Rightarrow> string \<Rightarrow> string \<Rightarrow> config_error + string" where
  "resolveEnvSecret env field envName =
     (case osLookupEnv env envName of
        None \<Rightarrow> Inl (UnsetEnv field envName)
      | Some value \<Rightarrow> if value = [] then Inl (UnsetEnv field envName) else Inr value)"

definition resolveFileSecret :: "os_env \<Rightarrow> string \<Rightarrow> string \<Rightarrow> config_error + string" where
  "resolveFileSecret env field filePath =
     (case osReadFile env filePath of
        None \<Rightarrow> Inl (FileUnreadable field filePath)
      | Some data \<Rightarrow> if bytesTrimSpace data = [] then Inl (FileEmpty field filePath) else Inr (bytesTrimSpace data))"

definition resolveSecret :: "os_env \<Rightarrow> string \<Rightarrow> string \<Rightarrow> string \<Rightarrow> string \<Rightarrow> string \<Rightarrow> string \<Rightarrow> config_error + string" where
  "resolveSecret env value envName filePath valueField envField fileField =
     (if 1 < length (filter (\<lambda>s. s \<noteq> []) [value, envName, filePath]) then Inl (OnlyOneSource valueField)
      else if envName \<noteq> [] then resolveEnvSecret env envField envName
      else if filePath \<noteq> [] then resolveFileSecret env fileField filePath
      else Inr value)"

definition trimmed_value :: "string \<Rightarrow> string list" where
  "trimmed_value raw = (if TrimSpace raw = [] then [] else [TrimSpace raw])"

text \<open>One further source of \<open>resolveSecretBestEffort\<close>.\<close>

definition best_effort_step :: "config_error + string \<Rightarrow> string \<times> string list \<Rightarrow> string \<times> string list" where
  "best_effort_step source result =
     (case source of
        Inl _ \<Rightarrow> result
      | Inr resolved \<Rightarrow> (if fst result = [] then resolved else fst result, snd result @ trimmed_value resolved))"

definition resolveSecretBestEffort :: "os_env \<Rightarrow> string \<Rightarrow> string \<Rightarrow> string \<Rightarrow> string \<Rightarrow> string \<Rightarrow> string \<times> string list" where
  "resolveSecretBestEffort env value envName filePath envField fileField =
     (let r0 = (value, trimmed_value value);
          r1 = (if envName \<noteq> [] then best_effort_step (resolveEnvSecret env envField envName) r0 else r0)
      in if filePath \<noteq> [] then best_effort_step (resolveFileSecret env fileField filePath) r1 else r1)"

section \<open>Headers\<close>

definition canonicalAlertHeaderName :: "string \<Rightarrow> string \<Rightarrow> config_error + string" where
  "canonicalAlertHeaderName field name0 =
     (let name = TrimSpace name0 in
      if name = [] then Inl (HeaderNameEmpty field)
      else if \<not> list_all header_byte name then Inl (HeaderNameInvalid field name)
      else Inr (CanonicalMIMEHeaderKey name))"

definition validateAlertHeaderValue :: "string \<Rightarrow> string \<Rightarrow> string \<Rightarrow> config_error option" where
  "validateAlertHeaderValue field name value =
     (if ContainsAny value {CHR 0x0D, CHR 0x0A} then Some (HeaderValueInvalid field name) else None)"

definition indexed :: "string \<Rightarrow> string \<Rightarrow> string" where
  "indexed field key = field @ ''['' @ key @ '']''"

text \<open>The state of the loops: the resolved headers, the source of each, and the values to redact.\<close>

record header_state =
  hdrValues :: "(string \<times> string) list"
  hdrSources :: "string \<rightharpoonup> string"
  hdrRedaction :: "string list"

definition add_header :: "string \<Rightarrow> string \<Rightarrow> string \<Rightarrow> string \<Rightarrow> header_state \<Rightarrow> header_state" where
  "add_header field key canonicalKey value st = st\<lparr>
     hdrValues := hdrValues st @ [(canonicalKey, value)],
     hdrSources := (hdrSources st)(canonicalKey \<mapsto> indexed field key),
     hdrRedaction := appendAlertHeaderRedactValues (hdrRedaction st) canonicalKey value\<rparr>"

definition header_value_step :: "string \<Rightarrow> string \<times> string \<Rightarrow> header_state \<Rightarrow> config_error + header_state" where
  "header_value_step field kv st =
     (case kv of (key, value) \<Rightarrow>
        (case canonicalAlertHeaderName field key of
           Inl e \<Rightarrow> Inl e
         | Inr canonicalKey \<Rightarrow>
             (case validateAlertHeaderValue field canonicalKey value of
                Some e \<Rightarrow> Inl e
              | None \<Rightarrow>
                  (case hdrSources st canonicalKey of
                     Some previous \<Rightarrow> Inl (HeaderDuplicate field key previous)
                   | None \<Rightarrow> Inr (add_header field key canonicalKey value st)))))"

text \<open>
  A header from the environment or a file. \<open>bestEffort\<close> tells whether a source that cannot be read is
  skipped.
\<close>

definition header_source_step ::
  "bool \<Rightarrow> string \<Rightarrow> (string \<Rightarrow> string \<Rightarrow> config_error + string) \<Rightarrow> string \<times> string \<Rightarrow> header_state \<Rightarrow> config_error + header_state" where
  "header_source_step bestEffort field resolve kv st =
     (case kv of (key, source) \<Rightarrow>
        (case canonicalAlertHeaderName field key of
           Inl e \<Rightarrow> Inl e
         | Inr canonicalKey \<Rightarrow>
             (case hdrSources st canonicalKey of
                Some previous \<Rightarrow> Inl (HeaderDuplicate field key previous)
              | None \<Rightarrow>
                  (case resolve (indexed field key) source of
                     Inl e \<Rightarrow> if bestEffort then Inr st else Inl e
                   | Inr value \<Rightarrow>
                       (case validateAlertHeaderValue field canonicalKey value of
                          Some e \<Rightarrow> Inl e
                        | None \<Rightarrow> Inr (add_header field key canonicalKey value st))))))"

definition no_headers :: header_state where
  "no_headers = \<lparr>hdrValues = [], hdrSources = (\<lambda>_. None), hdrRedaction = []\<rparr>"

definition resolve_headers ::
  "bool \<Rightarrow> os_env \<Rightarrow> (string \<times> string) list \<Rightarrow> (string \<times> string) list \<Rightarrow> (string \<times> string) list \<Rightarrow>
   string \<Rightarrow> string \<Rightarrow> string \<Rightarrow> config_error + header_state" where
  "resolve_headers bestEffort env vals envNames filePaths valueField envField fileField =
     bind_res (fold_res (header_value_step valueField) vals no_headers)
       (\<lambda>s1. bind_res (fold_res (header_source_step bestEffort envField (resolveEnvSecret env)) envNames s1)
         (fold_res (header_source_step bestEffort fileField (resolveFileSecret env)) filePaths))"

definition resolveSecretMap ::
  "os_env \<Rightarrow> (string \<times> string) list \<Rightarrow> (string \<times> string) list \<Rightarrow> (string \<times> string) list \<Rightarrow> string \<Rightarrow> string \<Rightarrow> string \<Rightarrow>
   config_error + (string \<times> string) list" where
  "resolveSecretMap env vals envNames filePaths valueField envField fileField =
     (case resolve_headers False env vals envNames filePaths valueField envField fileField of
        Inl e \<Rightarrow> Inl e | Inr st \<Rightarrow> Inr (hdrValues st))"

definition resolveSecretMapBestEffort ::
  "os_env \<Rightarrow> (string \<times> string) list \<Rightarrow> (string \<times> string) list \<Rightarrow> (string \<times> string) list \<Rightarrow> string \<Rightarrow> string \<Rightarrow> string \<Rightarrow>
   config_error + (string \<times> string) list \<times> string list" where
  "resolveSecretMapBestEffort env vals envNames filePaths valueField envField fileField =
     (case resolve_headers True env vals envNames filePaths valueField envField fileField of
        Inl e \<Rightarrow> Inl e | Inr st \<Rightarrow> Inr (hdrValues st, hdrRedaction st))"

section \<open>The sinks\<close>

abbreviation webhook_field :: "string \<Rightarrow> string" where "webhook_field f \<equiv> ''alerting.sinks.webhook.'' @ f"
abbreviation discord_field :: "string \<Rightarrow> string" where "discord_field f \<equiv> ''alerting.sinks.discord.'' @ f"
abbreviation homeassistant_field :: "string \<Rightarrow> string" where "homeassistant_field f \<equiv> ''alerting.sinks.homeAssistant.'' @ f"

definition enabled_webhook_secrets :: "os_env \<Rightarrow> AlertingConfig \<Rightarrow> config_error + AlertingConfig" where
  "enabled_webhook_secrets env cfg =
     (let sink = alWebhook cfg in
      bind_res (resolveSecret env (wsURL sink) (wsURLEnv sink) (wsURLFile sink)
                  (webhook_field ''url'') (webhook_field ''urlEnv'') (webhook_field ''urlFile''))
       (\<lambda>url. bind_res (resolveSecretMap env (wsHeaders sink) (wsHeaderEnv sink) (wsHeaderFile sink)
                  (webhook_field ''headers'') (webhook_field ''headerEnv'') (webhook_field ''headerFile''))
        (\<lambda>headers. Inr (cfg\<lparr>
           alWebhook := sink\<lparr>wsURL := url, wsURLEnv := [], wsURLFile := [], wsHeaders := headers, wsHeaderEnv := [], wsHeaderFile := []\<rparr>,
           alRedactionValues := append_headers headers
             (appendAlertDeclaredURLSecretValues (appendAlertURLRedactValues (alRedactionValues cfg) [url]) url (wsRedactValues sink))\<rparr>))))"

definition disabled_webhook_secrets :: "os_env \<Rightarrow> AlertingConfig \<Rightarrow> config_error + AlertingConfig" where
  "disabled_webhook_secrets env cfg =
     (let sink = alWebhook cfg in
      case resolveSecretBestEffort env (wsURL sink) (wsURLEnv sink) (wsURLFile sink)
             (webhook_field ''urlEnv'') (webhook_field ''urlFile'') of
        (url, urlValues) \<Rightarrow>
          bind_res (resolveSecretMapBestEffort env (wsHeaders sink) (wsHeaderEnv sink) (wsHeaderFile sink)
                  (webhook_field ''headers'') (webhook_field ''headerEnv'') (webhook_field ''headerFile''))
           (\<lambda>(headers, headerValues). Inr (cfg\<lparr>
              alWebhook := sink\<lparr>wsURL := url, wsHeaders := headers\<rparr>,
              alRedactionValues :=
                appendAlertDeclaredURLSecretValues (appendAlertURLRedactValues (alRedactionValues cfg) urlValues) url (wsRedactValues sink)
                @ headerValues\<rparr>)))"

definition discord_secrets :: "os_env \<Rightarrow> AlertingConfig \<Rightarrow> config_error + AlertingConfig" where
  "discord_secrets env cfg =
     (let sink = alDiscord cfg in
      if diEnabled sink then
        bind_res (resolveSecret env (diWebhookURL sink) (diWebhookURLEnv sink) (diWebhookURLFile sink)
                    (discord_field ''webhookURL'') (discord_field ''webhookURLEnv'') (discord_field ''webhookURLFile''))
          (\<lambda>url. Inr (cfg\<lparr>
             alDiscord := sink\<lparr>diWebhookURL := url, diWebhookURLEnv := [], diWebhookURLFile := []\<rparr>,
             alRedactionValues := appendAlertURLTrailingPathSecretValues
               (appendAlertURLRedactValues (appendAlertRedactValues (alRedactionValues cfg) [url]) [url]) url 2\<rparr>))
      else
        (case resolveSecretBestEffort env (diWebhookURL sink) (diWebhookURLEnv sink) (diWebhookURLFile sink)
                (discord_field ''webhookURLEnv'') (discord_field ''webhookURLFile'') of
           (url, urlValues) \<Rightarrow> Inr (cfg\<lparr>
             alDiscord := sink\<lparr>diWebhookURL := url\<rparr>,
             alRedactionValues := appendAlertURLTrailingPathSecretValues
               (appendAlertURLRedactValues (appendAlertRedactValues (alRedactionValues cfg) urlValues) urlValues) url 2\<rparr>)))"

definition enabled_homeassistant_secrets :: "os_env \<Rightarrow> AlertingConfig \<Rightarrow> config_error + AlertingConfig" where
  "enabled_homeassistant_secrets env cfg =
     (let sink = alHomeAssistant cfg in
      bind_res (resolveSecret env (hsBaseURL sink) (hsBaseURLEnv sink) (hsBaseURLFile sink)
                  (homeassistant_field ''baseURL'') (homeassistant_field ''baseURLEnv'') (homeassistant_field ''baseURLFile''))
       (\<lambda>baseURL. bind_res (resolveSecret env (hsToken sink) (hsTokenEnv sink) (hsTokenFile sink)
                  (homeassistant_field ''token'') (homeassistant_field ''tokenEnv'') (homeassistant_field ''tokenFile''))
        (\<lambda>token. bind_res (resolveSecret env (hsWebhookID sink) (hsWebhookIDEnv sink) (hsWebhookIDFile sink)
                  (homeassistant_field ''webhookID'') (homeassistant_field ''webhookIDEnv'') (homeassistant_field ''webhookIDFile''))
         (\<lambda>webhookID. Inr (cfg\<lparr>
            alHomeAssistant := sink\<lparr>hsBaseURL := baseURL, hsBaseURLEnv := [], hsBaseURLFile := [], hsToken := token, hsTokenEnv := [],
              hsTokenFile := [], hsWebhookID := webhookID, hsWebhookIDEnv := [], hsWebhookIDFile := []\<rparr>,
            alRedactionValues := appendAlertRedactValues
              (appendAlertRedactValues (appendAlertURLRedactValues (alRedactionValues cfg) [baseURL]) [token]) [webhookID]\<rparr>)))))"

definition disabled_homeassistant_secrets :: "os_env \<Rightarrow> AlertingConfig \<Rightarrow> config_error + AlertingConfig" where
  "disabled_homeassistant_secrets env cfg =
     (let sink = alHomeAssistant cfg in
      case resolveSecretBestEffort env (hsBaseURL sink) (hsBaseURLEnv sink) (hsBaseURLFile sink)
             (homeassistant_field ''baseURLEnv'') (homeassistant_field ''baseURLFile'') of
        (baseURL, baseValues) \<Rightarrow>
          (case resolveSecretBestEffort env (hsToken sink) (hsTokenEnv sink) (hsTokenFile sink)
                  (homeassistant_field ''tokenEnv'') (homeassistant_field ''tokenFile'') of
             (token, tokenValues) \<Rightarrow>
               (case resolveSecretBestEffort env (hsWebhookID sink) (hsWebhookIDEnv sink) (hsWebhookIDFile sink)
                       (homeassistant_field ''webhookIDEnv'') (homeassistant_field ''webhookIDFile'') of
                  (webhookID, idValues) \<Rightarrow> Inr (cfg\<lparr>
                    alHomeAssistant := sink\<lparr>hsBaseURL := baseURL, hsToken := token, hsWebhookID := webhookID\<rparr>,
                    alRedactionValues := appendAlertURLRedactValues (alRedactionValues cfg) baseValues @ tokenValues @ idValues\<rparr>))))"

definition resolveAlertingSecrets :: "os_env \<Rightarrow> AlertingConfig \<Rightarrow> config_error + AlertingConfig" where
  "resolveAlertingSecrets env cfg =
     (let declared = appendAlertRedactValues (appendAlertRedactValues (alRedactionValues cfg) (diRedactValues (alDiscord cfg)))
                       (hsRedactValues (alHomeAssistant cfg));
          c0 = cfg\<lparr>alRedactionValues := declared\<rparr> in
      bind_res ((if wsEnabled (alWebhook c0) then enabled_webhook_secrets else disabled_webhook_secrets) env c0)
       (\<lambda>c1. bind_res (discord_secrets env c1)
         (\<lambda>c2. (if hsEnabled (alHomeAssistant c2) then enabled_homeassistant_secrets else disabled_homeassistant_secrets) env c2)))"

section \<open>The whole configuration\<close>

definition user_field :: "nat \<Rightarrow> string \<Rightarrow> string" where
  "user_field i f = ''auth.users['' @ string_of_nat i @ ''].'' @ f"

definition docker_field :: "nat \<Rightarrow> string \<Rightarrow> string" where
  "docker_field i f = ''runtime.docker['' @ string_of_nat i @ ''].'' @ f"

definition resolve_user :: "os_env \<Rightarrow> nat \<times> AuthUser \<Rightarrow> config_error + AuthUser" where
  "resolve_user env iu =
     (case iu of (i, user) \<Rightarrow>
        bind_res (resolveSecret env (auPasswordHash user) (auPasswordHashEnv user) (auPasswordHashFile user)
                    (user_field i ''passwordHash'') (user_field i ''passwordHashEnv'') (user_field i ''passwordHashFile''))
          (\<lambda>h. Inr (user\<lparr>auPasswordHash := h\<rparr>)))"

definition resolve_docker :: "os_env \<Rightarrow> nat \<times> DockerTarget \<Rightarrow> config_error + DockerTarget" where
  "resolve_docker env it =
     (case it of (i, target) \<Rightarrow>
        bind_res (resolveSecret env (dtAgentToken target) (dtAgentTokenEnv target) (dtAgentTokenFile target)
                    (docker_field i ''agentToken'') (docker_field i ''agentTokenEnv'') (docker_field i ''agentTokenFile''))
          (\<lambda>t. Inr (target\<lparr>dtAgentToken := t\<rparr>)))"

definition resolve_agent_tokens :: "os_env \<Rightarrow> AgentAuthCfg \<Rightarrow> config_error + string list" where
  "resolve_agent_tokens env agent =
     bind_res (if aaTokenEnv agent = [] then Inr []
               else bind_res (resolveEnvSecret env ''auth.agent.tokenEnv'' (aaTokenEnv agent)) (\<lambda>t. Inr [t]))
      (\<lambda>fromEnv. bind_res (if aaTokenFile agent = [] then Inr []
                           else bind_res (resolveFileSecret env ''auth.agent.tokenFile'' (aaTokenFile agent)) (\<lambda>t. Inr [t]))
        (\<lambda>fromFile. Inr (aaTokens agent @ fromEnv @ fromFile)))"

definition resolveServerSecrets :: "os_env \<Rightarrow> Config \<Rightarrow> config_error + Config" where
  "resolveServerSecrets env cfg =
     bind_res (map_res (resolve_user env) (List.enumerate 0 (acUsers (cfAuth cfg))))
      (\<lambda>users. bind_res (resolve_agent_tokens env (acAgent (cfAuth cfg)))
       (\<lambda>tokens. bind_res (map_res (resolve_docker env) (List.enumerate 0 (rtDocker (cfRuntime cfg))))
        (\<lambda>docker. bind_res (resolveAlertingSecrets env (cfAlerting cfg))
         (\<lambda>alerting. Inr (cfg\<lparr>
            cfAuth := (cfAuth cfg)\<lparr>acUsers := users, acAgent := (acAgent (cfAuth cfg))\<lparr>aaTokens := tokens\<rparr>\<rparr>,
            cfRuntime := (cfRuntime cfg)\<lparr>rtDocker := docker\<rparr>, cfAlerting := alerting\<rparr>)))))"

definition resolveAgentSecrets :: "os_env \<Rightarrow> Config \<Rightarrow> config_error + Config" where
  "resolveAgentSecrets env cfg =
     (let agent = cfAgent cfg in
      bind_res (resolveSecret env (anToken agent) (anTokenEnv agent) (anTokenFile agent) ''agent.token'' ''agent.tokenEnv'' ''agent.tokenFile'')
        (\<lambda>token. Inr (cfg\<lparr>cfAgent := agent\<lparr>anToken := token\<rparr>\<rparr>)))"

text \<open>\<open>RepositoryConfig.Token\<close>.\<close>

definition repository_Token :: "os_env \<Rightarrow> RepositoryConfig \<Rightarrow> config_error + string" where
  "repository_Token env cfg =
     (if rcTokenEnv cfg \<noteq> [] then Inr (case osLookupEnv env (rcTokenEnv cfg) of None \<Rightarrow> [] | Some v \<Rightarrow> v)
      else if rcTokenFile cfg = [] then Inr []
      else (case osReadFile env (rcTokenFile cfg) of
              None \<Rightarrow> Inl (FileUnreadable (rcName cfg) (rcTokenFile cfg)) | Some data \<Rightarrow> Inr (bytesTrimSpace data)))"

end
