(* ===== verification/ConfigCheck.thy ===== *)
theory ConfigCheck
  imports ConfigSecrets
begin

text \<open>
  Validation and loading of the configuration (\<open>Validate\<close>, \<open>ValidateAgent\<close>, \<open>LoadForMode\<close> of
  \<open>internal/config/config.go\<close>). The YAML decoder is an argument.
\<close>

section \<open>Sinks\<close>

text \<open>The variants of a secret that a sink name must not contain.\<close>

definition alertSecretNameVariants :: "string \<Rightarrow> string list" where
  "alertSecretNameVariants secret =
     (let hexValue = EncodeToString (bytes_of secret) in
      dedup_by (\<lambda>v. v) (filter (\<lambda>v. v \<noteq> [])
        [secret, PathEscape secret, ToLower (PathEscape secret), ToUpper (PathEscape secret),
         QueryEscape secret, ToLower (QueryEscape secret), ToUpper (QueryEscape secret),
         base64_Std secret, base64_RawStd secret, base64_URL secret, base64_RawURL secret, hexValue, ToUpper hexValue]))"

definition alertSinkNameSecretMatch :: "string \<Rightarrow> string list \<Rightarrow> bool" where
  "alertSinkNameSecretMatch name secrets \<longleftrightarrow>
     list_ex (\<lambda>secret. secret \<noteq> [] \<and> list_ex (\<lambda>v. v \<noteq> [] \<and> Contains name v) (alertSecretNameVariants secret)) (map TrimSpace secrets)"

definition check_sink_name ::
  "string list \<Rightarrow> string \<times> string \<times> string \<Rightarrow> (string \<rightharpoonup> string) \<Rightarrow> config_error + (string \<rightharpoonup> string)" where
  "check_sink_name secrets sink seen =
     (case sink of (field, defaultName, configured) \<Rightarrow>
        (let name = alertSinkName defaultName configured in
         if name = [] then Inl (SinkNameEmpty field)
         else (case seen name of
                 Some previous \<Rightarrow> Inl (SinkNameDuplicate field name previous)
               | None \<Rightarrow> if alertSinkNameSecretMatch name secrets then Inl (SinkNameSecret field) else Inr (seen(name \<mapsto> field)))))"

definition validateSinkNames :: "AlertingConfig \<Rightarrow> config_error option" where
  "validateSinkNames cfg =
     err_of (fold_res (check_sink_name (alRedactionValues cfg))
       [(webhook_field ''name'', ''webhook'', wsName (alWebhook cfg)), (discord_field ''name'', ''discord'', diName (alDiscord cfg)),
        (homeassistant_field ''name'', ''home-assistant'', hsName (alHomeAssistant cfg))] (\<lambda>_. None))"

definition validateHTTPURL :: "string \<Rightarrow> string \<Rightarrow> config_error option" where
  "validateHTTPURL field value =
     (if TrimSpace value = [] then Some (FieldRequired field)
      else (case url_Parse value of
              None \<Rightarrow> Some (URLInvalid field)
            | Some parsed \<Rightarrow>
                if urlScheme parsed = [] \<or> urlHost parsed = [] then Some (URLInvalid field)
                else if urlScheme parsed \<noteq> ''http'' \<and> urlScheme parsed \<noteq> ''https'' then Some (URLInvalid field)
                else None))"

definition url_has_scheme :: "string \<Rightarrow> (string \<Rightarrow> bool) \<Rightarrow> bool" where
  "url_has_scheme raw P = (case url_Parse raw of None \<Rightarrow> False | Some parsed \<Rightarrow> P (urlScheme parsed))"

text \<open>The names of the headers of one map; a value is checked for the map of values only.\<close>

definition check_header_source :: "string \<Rightarrow> bool \<Rightarrow> string \<times> string \<Rightarrow> (string \<rightharpoonup> string) \<Rightarrow> config_error + (string \<rightharpoonup> string)" where
  "check_header_source field hasValue kv seen =
     (case canonicalAlertHeaderName field (fst kv) of
        Inl e \<Rightarrow> Inl e
      | Inr canonicalKey \<Rightarrow>
          (case (if hasValue then validateAlertHeaderValue field canonicalKey (snd kv) else None) of
             Some e \<Rightarrow> Inl e
           | None \<Rightarrow>
               (case seen canonicalKey of
                  Some previous \<Rightarrow> Inl (HeaderDuplicate field (fst kv) previous)
                | None \<Rightarrow> Inr (seen(canonicalKey \<mapsto> indexed field (fst kv))))))"

definition validateAlertHeaderSources ::
  "(string \<times> string) list \<Rightarrow> (string \<times> string) list \<Rightarrow> (string \<times> string) list \<Rightarrow> string \<Rightarrow> string \<Rightarrow> string \<Rightarrow> config_error option" where
  "validateAlertHeaderSources vals envNames filePaths valueField envField fileField =
     err_of (bind_res (fold_res (check_header_source valueField True) vals (\<lambda>_. None))
       (\<lambda>s1. bind_res (fold_res (check_header_source envField False) envNames s1)
         (fold_res (check_header_source fileField False) filePaths)))"

definition webhook_Validate :: "WebhookAlertSinkConfig \<Rightarrow> config_error option" where
  "webhook_Validate sink = first_error
     [validateHTTPURL (webhook_field ''url'') (wsURL sink),
      if url_has_scheme (wsURL sink) (\<lambda>s. s = ''http'') \<and> \<not> wsInsecureAllowHTTP sink then Some (URLNotHTTPS (webhook_field ''url'')) else None,
      if wsMethod sink \<in> {''GET'', ''POST'', ''PUT'', ''PATCH''} then None else Some MethodInvalid,
      err_of (webhook_TimeoutDuration sink),
      validateAlertHeaderSources (wsHeaders sink) (wsHeaderEnv sink) (wsHeaderFile sink)
        (webhook_field ''headers'') (webhook_field ''headerEnv'') (webhook_field ''headerFile'')]"

definition discord_Validate :: "DiscordAlertSinkConfig \<Rightarrow> config_error option" where
  "discord_Validate sink = first_error
     [validateHTTPURL (discord_field ''webhookURL'') (diWebhookURL sink),
      if url_has_scheme (diWebhookURL sink) (\<lambda>s. s \<noteq> ''https'') then Some (URLNotHTTPS (discord_field ''webhookURL'')) else None,
      err_of (discord_TimeoutDuration sink)]"

definition homeassistant_Validate :: "HomeAssistantAlertSinkConfig \<Rightarrow> config_error option" where
  "homeassistant_Validate sink = first_error
     [validateHTTPURL (homeassistant_field ''baseURL'') (hsBaseURL sink),
      if url_has_scheme (hsBaseURL sink) (\<lambda>s. s = ''http'') \<and> \<not> hsInsecureAllowHTTP sink
      then Some (URLNotHTTPS (homeassistant_field ''baseURL'')) else None,
      if TrimSpace (hsToken sink) = [] then Some (FieldRequired (homeassistant_field ''token'')) else None,
      if TrimSpace (hsWebhookID sink) = [] then Some (FieldRequired (homeassistant_field ''webhookID'')) else None,
      err_of (homeassistant_TimeoutDuration sink)]"

definition intervals_reversed :: "AlertingConfig \<Rightarrow> bool" where
  "intervals_reversed cfg =
     (case (RetryInitialIntervalDuration cfg, RetryMaxIntervalDuration cfg) of
        (Inr initial, Inr maximum) \<Rightarrow> maximum < initial | _ \<Rightarrow> False)"

definition alerting_Validate :: "AlertingConfig \<Rightarrow> config_error option" where
  "alerting_Validate cfg = first_error
     [if alStabilitySamples cfg \<le> 0 then Some (NotPositive ''alerting.stabilitySamples'') else None,
      err_of (DebounceDuration cfg),
      err_of (CooldownDuration cfg),
      if arcMaxAttempts (alRetry cfg) \<le> 0 then Some (NotPositive ''alerting.retry.maxAttempts'') else None,
      err_of (RetryInitialIntervalDuration cfg),
      err_of (RetryMaxIntervalDuration cfg),
      if intervals_reversed cfg then Some RetryIntervalsReversed else None,
      err_of (RetentionHorizonDuration cfg),
      err_of (RetentionIntervalDuration cfg),
      if atcBatchSize (alRetention cfg) \<le> 0 then Some (NotPositive ''alerting.retention.batchSize'') else None,
      validateSinkNames cfg,
      if wsEnabled (alWebhook cfg) then webhook_Validate (alWebhook cfg) else None,
      if diEnabled (alDiscord cfg) then discord_Validate (alDiscord cfg) else None,
      if hsEnabled (alHomeAssistant cfg) then homeassistant_Validate (alHomeAssistant cfg) else None]"

section \<open>Targets\<close>

definition register_target :: "string \<times> string \<Rightarrow> (string \<rightharpoonup> string) \<Rightarrow> config_error + (string \<rightharpoonup> string)" where
  "register_target target seen =
     (case target of (kind, raw) \<Rightarrow>
        (let name = TrimSpace raw in
         if name = [] then Inl TargetNameEmpty
         else if Contains name '': '' then Inl TargetNameReserved
         else (case seen name of
                 Some previous \<Rightarrow> Inl (TargetNameDuplicate previous (EncodeToString (take 4 (Sum256 (bytes_of name)))) (length name))
               | None \<Rightarrow> Inr (seen(name \<mapsto> kind)))))"

definition http_name :: "HTTPRouteTarget \<Rightarrow> string" where
  "http_name target = (if htName target = [] then ''routes'' else htName target)"

definition monitor_targets :: "RuntimeConfig \<Rightarrow> (string \<times> string) list" where
  "monitor_targets runtime =
     map (\<lambda>t. (''docker'', dtName t)) (rtDocker runtime) @ map (\<lambda>t. (''kubernetes'', ktName t)) (rtKubernetes runtime) @
     map (\<lambda>t. (''http'', http_name t)) (rtHTTP runtime) @ map (\<lambda>t. (''ping'', EffectiveName t)) (rtPing runtime)"

definition validateUniqueMonitorTargetNames :: "Config \<Rightarrow> config_error option" where
  "validateUniqueMonitorTargetNames cfg = err_of (fold_res register_target (monitor_targets (cfRuntime cfg)) (\<lambda>_. None))"

definition validateRepoRelativePath :: "string \<Rightarrow> string \<Rightarrow> config_error option" where
  "validateRepoRelativePath field value =
     (if HasPrefix value ''/'' then Some (PathAbsolute field)
      else (let cleaned = path_Clean value in
            if cleaned = ''.'' \<or> cleaned = ''..'' \<or> HasPrefix cleaned ''../'' then Some (PathEscapes field) else None))"

definition ping_check :: "string list \<Rightarrow> PingTarget \<Rightarrow> config_error option" where
  "ping_check repositoryNames target = first_error
     [if ptHost target = [] \<and> ptAnsibleInventory target = [] then Some PingHostRequired else None,
      if ptRepository target \<noteq> [] \<and> ptAnsibleInventory target = [] then Some PingRepositoryNeedsInventory else None,
      if ptAnsibleInventory target = [] then None
      else if ptRepository target = [] then Some PingInventoryNeedsRepository
      else if ptRepository target \<notin> set repositoryNames then Some (PingRepositoryUnknown (ptRepository target))
      else validateRepoRelativePath ''runtime.ping.ansibleInventory'' (ptAnsibleInventory target),
      err_of (ping_IntervalDuration target), err_of (ping_TimeoutDuration target), err_of (MinRefreshDuration target)]"

definition http_check :: "HTTPRouteTarget \<Rightarrow> config_error option" where
  "http_check target = first_error
     [err_of (http_IntervalDuration target), err_of (http_TimeoutDuration target), err_of (target_EgressPolicy target)]"

section \<open>Validate and load\<close>

definition Validate :: "Config \<Rightarrow> config_error option" where
  "Validate cfg = first_error
     ([if acMode (cfAuth cfg) \<noteq> ''basic'' \<and> acMode (cfAuth cfg) \<noteq> ''dev-no-auth'' then Some AuthModeInvalid else None,
       if acMode (cfAuth cfg) = ''basic'' \<and> acUsers (cfAuth cfg) = [] then Some AuthUsersRequired else None] @
      map (\<lambda>u. if auUsername u = [] \<or> auPasswordHash u = [] then Some AuthUserIncomplete else None) (acUsers (cfAuth cfg)) @
      map (\<lambda>r. first_error [if rcName r = [] \<or> rcURL r = [] then Some RepositoryIncomplete else None, err_of (ScanDuration r)])
        (cfRepositories cfg) @
      [err_of (DefaultInterval cfg)] @
      map (\<lambda>t. err_of (docker_IntervalDuration t)) (rtDocker (cfRuntime cfg)) @
      map (\<lambda>t. err_of (kubernetes_IntervalDuration t)) (rtKubernetes (cfRuntime cfg)) @
      map http_check (rtHTTP (cfRuntime cfg)) @
      map (ping_check (map rcName (cfRepositories cfg))) (rtPing (cfRuntime cfg)) @
      [validateUniqueMonitorTargetNames cfg, alerting_Validate (cfAlerting cfg)])"

definition ValidateAgent :: "Config \<Rightarrow> config_error option" where
  "ValidateAgent cfg = first_error
     [if anServerURL (cfAgent cfg) = [] then Some (FieldRequired ''agent.serverUrl'') else None,
      if anTarget (cfAgent cfg) = [] then Some (FieldRequired ''agent.target'') else None,
      if anToken (cfAgent cfg) = [] then Some (FieldRequired ''agent.token'') else None,
      err_of (agent_IntervalDuration (cfAgent cfg))]"

text \<open>\<open>configEnvPattern\<close>: a reference \<open>${NAME}\<close> at the head of the text, and what follows it.\<close>

definition env_reference :: "string \<Rightarrow> (string \<times> string) option" where
  "env_reference s =
     (if \<not> HasPrefix s ''${'' then None
      else
       (let body = drop 2 s; name = takeWhile (\<lambda>c. is_letter c \<or> is_digit c \<or> c = CHR ''_'') body; rest = drop (length name) body in
        if name = [] \<or> is_digit (hd name) \<or> \<not> HasPrefix rest ''}'' then None else Some (name, drop 1 rest)))"

lemma env_reference_shorter: "env_reference s = Some (name, rest) \<Longrightarrow> length rest < length s"
  by (cases s) (auto simp: env_reference_def Let_def split: if_splits)

text \<open>The expanded text and the unset names.\<close>

function expand_loop :: "(string \<Rightarrow> string option) \<Rightarrow> string \<Rightarrow> string \<times> string list" where
  "expand_loop lookup s =
     (case s of
        [] \<Rightarrow> ([], [])
      | c # r \<Rightarrow>
          (case env_reference s of
             None \<Rightarrow> (case expand_loop lookup r of (out, missing) \<Rightarrow> (c # out, missing))
           | Some (name, rest) \<Rightarrow>
               (case expand_loop lookup rest of (out, missing) \<Rightarrow>
                  (case lookup name of
                     None \<Rightarrow> (''${'' @ name @ ''}'' @ out, name # missing)
                   | Some value \<Rightarrow> (value @ out, missing)))))"
  by pat_completeness auto
termination
  by (relation "measure (\<lambda>(lookup, s). length s)") (auto dest: env_reference_shorter)

declare expand_loop.simps [simp del]

definition expandConfigEnv :: "os_env \<Rightarrow> string \<Rightarrow> config_error + string" where
  "expandConfigEnv env data =
     (case expand_loop (osLookupEnv env) data of
        (expanded, missing) \<Rightarrow> if missing = [] then Inr expanded else Inl (ConfigEnvUnset (sort (dedup_by (\<lambda>n. n) missing))))"

definition LoadForMode :: "(string \<Rightarrow> Config option) \<Rightarrow> os_env \<Rightarrow> string \<Rightarrow> string \<Rightarrow> config_error + Config" where
  "LoadForMode yaml env path mode =
     (case osReadFile env path of
        None \<Rightarrow> Inl (ConfigUnreadable path)
      | Some data \<Rightarrow> bind_res (expandConfigEnv env data)
         (\<lambda>expanded. case yaml expanded of
            None \<Rightarrow> Inl (ConfigUnparsable path)
          | Some cfg \<Rightarrow>
              if mode = ''server'' then
                bind_res (resolveServerSecrets env (applyServerDefaults cfg))
                  (\<lambda>c. case Validate c of None \<Rightarrow> Inr c | Some e \<Rightarrow> Inl e)
              else if mode = ''agent'' then
                bind_res (resolveAgentSecrets env cfg) (\<lambda>c. case ValidateAgent c of None \<Rightarrow> Inr c | Some e \<Rightarrow> Inl e)
              else Inl ConfigModeInvalid))"

definition Load :: "(string \<Rightarrow> Config option) \<Rightarrow> os_env \<Rightarrow> string \<Rightarrow> config_error + Config" where
  "Load yaml env path = LoadForMode yaml env path ''server''"

end
