(* ===== verification/ConfigProps.thy ===== *)
theory ConfigProps
  imports ConfigCheck RouteTarget
begin

text \<open>
  What a configuration that loads guarantees to the other parts: sink timeouts below the delivery lease,
  target names that keep route targets apart, inventory paths inside the repository, and secrets that the
  redaction covers.
\<close>

lemma loaded_server:
  assumes "LoadForMode yaml env path ''server'' = Inr cfg"
  obtains c where "resolveServerSecrets env (applyServerDefaults c) = Inr cfg" "Validate cfg = None"
  using assms by (auto simp: LoadForMode_def bind_res_Inr split: option.splits)

lemma validated:
  assumes "Validate cfg = None"
  shows "validateUniqueMonitorTargetNames cfg = None" "alerting_Validate (cfAlerting cfg) = None"
    "\<And>t. t \<in> set (rtPing (cfRuntime cfg)) \<Longrightarrow> ping_check (map rcName (cfRepositories cfg)) t = None"
  using assms by (auto simp: Validate_def first_error_None)

section \<open>Timeouts\<close>

lemma optional_positive: "optionalPositiveDuration s f = Inr d \<Longrightarrow> s \<noteq> [] \<Longrightarrow> 0 < d"
  by (auto simp: optionalPositiveDuration_def split: option.splits if_splits)

lemma required_positive: "requiredPositiveDuration s f = Inr d \<Longrightarrow> 0 < d"
  by (auto simp: requiredPositiveDuration_def dest: optional_positive split: if_splits)

lemma sink_timeout: "requiredSinkTimeout s f = Inr d \<Longrightarrow> 0 < d \<and> d < AlertDeliveryLeaseDuration"
  by (auto simp: requiredSinkTimeout_def dest: required_positive split: sum.splits if_splits)

lemmas sink_timeout_sym = sink_timeout [OF sym]

text \<open>The timeouts of the enabled sinks, as the alert worker computes them.\<close>

definition enabled_timeouts :: "AlertingConfig \<Rightarrow> (config_error + duration) list" where
  "enabled_timeouts cfg =
     (if wsEnabled (alWebhook cfg) then [webhook_TimeoutDuration (alWebhook cfg)] else []) @
     (if diEnabled (alDiscord cfg) then [discord_TimeoutDuration (alDiscord cfg)] else []) @
     (if hsEnabled (alHomeAssistant cfg) then [homeassistant_TimeoutDuration (alHomeAssistant cfg)] else [])"

lemma valid_timeouts:
  assumes "alerting_Validate cfg = None" "r \<in> set (enabled_timeouts cfg)"
  obtains d where "r = Inr d" "0 < d" "d < AlertDeliveryLeaseDuration"
proof -
  have "err_of r = None"
    using assms by (auto simp: alerting_Validate_def first_error_None enabled_timeouts_def webhook_Validate_def discord_Validate_def
        homeassistant_Validate_def split: if_splits)
  then obtain d where d: "r = Inr d" by (auto simp: err_of_None)
  have "0 < d \<and> d < AlertDeliveryLeaseDuration"
    using assms(2) unfolding d enabled_timeouts_def webhook_TimeoutDuration_def discord_TimeoutDuration_def homeassistant_TimeoutDuration_def
    by (auto split: if_splits dest!: sink_timeout_sym)
  with d that show thesis by blast
qed

lemma check_sink_name_Inr:
  "check_sink_name secrets (field, dflt, configured) seen = Inr seen' \<Longrightarrow>
   alertSinkName dflt configured \<noteq> [] \<and> seen (alertSinkName dflt configured) = None \<and>
   seen' = seen(alertSinkName dflt configured \<mapsto> field) \<and> \<not> alertSinkNameSecretMatch (alertSinkName dflt configured) secrets"
  by (auto simp: check_sink_name_def Let_def split: option.splits if_splits)

lemma valid_sink_names:
  assumes "validateSinkNames cfg = None"
  shows "distinct (EnabledSinkNames cfg)" "[] \<notin> set (EnabledSinkNames cfg)"
    "\<And>name. name \<in> set (EnabledSinkNames cfg) \<Longrightarrow> \<not> alertSinkNameSecretMatch name (alRedactionValues cfg)"
  using assms
  by (auto simp: validateSinkNames_def err_of_None EnabledSinkNames_def split: sum.splits if_splits dest!: check_sink_name_Inr)

lemma active_enabled: "set (ActiveSinkNames cfg) \<subseteq> set (EnabledSinkNames cfg)"
  by (auto simp: ActiveSinkNames_def EnabledSinkNames_def)

text \<open>a server configuration that loads gives the alert worker sound limits: the timeout of every
  enabled sink is positive and below the delivery lease, so an attempt ends before its claim can be taken
  over; the retry intervals are positive and in order; and the names of the sinks are distinct, not empty
  and contain no registered secret, in none of its escaped, base 64 or hexadecimal forms.\<close>

lemma loaded_alerting_limits:
  assumes "LoadForMode yaml env path ''server'' = Inr cfg"
  shows "(\<forall>r \<in> set (enabled_timeouts (cfAlerting cfg)). \<exists>d. r = Inr d \<and> 0 < d \<and> d < AlertDeliveryLeaseDuration) \<and>
    (\<exists>initial maximum. RetryInitialIntervalDuration (cfAlerting cfg) = Inr initial \<and>
       RetryMaxIntervalDuration (cfAlerting cfg) = Inr maximum \<and> 0 < initial \<and> initial \<le> maximum) \<and>
    distinct (EnabledSinkNames (cfAlerting cfg)) \<and> [] \<notin> set (EnabledSinkNames (cfAlerting cfg)) \<and>
    (\<forall>name \<in> set (EnabledSinkNames (cfAlerting cfg)). \<not> alertSinkNameSecretMatch name (alRedactionValues (cfAlerting cfg)))"
proof (intro conjI)
  from assms have v: "alerting_Validate (cfAlerting cfg) = None" by (rule loaded_server) (rule validated)
  then have names: "validateSinkNames (cfAlerting cfg) = None" by (simp add: alerting_Validate_def first_error_None)
  show "\<forall>r \<in> set (enabled_timeouts (cfAlerting cfg)). \<exists>d. r = Inr d \<and> 0 < d \<and> d < AlertDeliveryLeaseDuration"
    using valid_timeouts [OF v] by metis
  show "distinct (EnabledSinkNames (cfAlerting cfg))" "[] \<notin> set (EnabledSinkNames (cfAlerting cfg))"
    "\<forall>name \<in> set (EnabledSinkNames (cfAlerting cfg)). \<not> alertSinkNameSecretMatch name (alRedactionValues (cfAlerting cfg))"
    using valid_sink_names [OF names] by blast+
  from v obtain initial maximum where
    i: "RetryInitialIntervalDuration (cfAlerting cfg) = Inr initial" "RetryMaxIntervalDuration (cfAlerting cfg) = Inr maximum"
    by (auto simp: alerting_Validate_def first_error_None err_of_None)
  from v i have "\<not> maximum < initial" by (auto simp: alerting_Validate_def first_error_None intervals_reversed_def split: if_splits)
  moreover have "0 < initial" using i(1) unfolding RetryInitialIntervalDuration_def by (rule required_positive)
  ultimately show "\<exists>initial maximum. RetryInitialIntervalDuration (cfAlerting cfg) = Inr initial \<and>
       RetryMaxIntervalDuration (cfAlerting cfg) = Inr maximum \<and> 0 < initial \<and> initial \<le> maximum"
    using i by auto
qed

section \<open>Target names\<close>

lemma separator_unique:
  assumes "\<not> Contains x '': ''" "\<not> Contains y '': ''" "x @ '': '' @ r = y @ '': '' @ s"
  shows "x = y \<and> r = s"
proof -
  have short: "us = []" if "a = b @ us" "us @ '': '' @ p = '': '' @ q" "\<not> Contains a '': ''" for a b us p q :: string
  proof (cases us)
    case (Cons c us')
    show ?thesis
    proof (cases us')
      case Nil
      with Cons that(2) show ?thesis by simp
    next
      case (Cons d us'')
      with \<open>us = c # us'\<close> that(1,2) have "a = b @ '': '' @ us''" by simp
      with that(3) show ?thesis by (auto simp: Contains_iff)
    qed
  qed simp
  from assms(3) obtain us where us: "x = y @ us \<and> us @ '': '' @ r = '': '' @ s \<or> x @ us = y \<and> '': '' @ r = us @ '': '' @ s"
    by (auto simp: append_eq_append_conv2)
  then have "us = []" using short [of x y us r s] short [of y x us s r] assms(1,2) by metis
  with us show ?thesis by simp
qed

definition target_names :: "Config \<Rightarrow> string list" where
  "target_names cfg = map (\<lambda>t. TrimSpace (snd t)) (monitor_targets (cfRuntime cfg))"

lemma register_targets_Inr:
  "fold_res register_target ts seen = Inr seen' \<Longrightarrow>
   distinct (map (\<lambda>t. TrimSpace (snd t)) ts) \<and>
   (\<forall>t \<in> set ts. TrimSpace (snd t) \<noteq> [] \<and> \<not> Contains (TrimSpace (snd t)) '': '' \<and> seen (TrimSpace (snd t)) = None)"
proof (induction ts arbitrary: seen)
  case (Cons t ts)
  obtain kind raw where t: "t = (kind, raw)" by (cases t)
  from Cons.prems have r: "register_target t seen = Inr (seen(TrimSpace raw \<mapsto> kind))" "TrimSpace raw \<noteq> []" "\<not> Contains (TrimSpace raw) '': ''"
    "seen (TrimSpace raw) = None" by (auto simp: t register_target_def Let_def split: sum.splits if_splits option.splits)
  with Cons.prems have "fold_res register_target ts (seen(TrimSpace raw \<mapsto> kind)) = Inr seen'" by simp
  from Cons.IH [OF this] r t show ?case by (auto split: if_splits)
qed simp

lemma loaded_target_names:
  assumes "LoadForMode yaml env path ''server'' = Inr cfg"
  shows "distinct (target_names cfg)" "\<And>n. n \<in> set (target_names cfg) \<Longrightarrow> n \<noteq> [] \<and> \<not> Contains n '': '' \<and> TrimSpace n = n"
proof -
  from assms have "validateUniqueMonitorTargetNames cfg = None" by (rule loaded_server) (rule validated)
  then obtain seen where "fold_res register_target (monitor_targets (cfRuntime cfg)) (\<lambda>_. None) = Inr seen"
    by (auto simp: validateUniqueMonitorTargetNames_def err_of_None)
  from register_targets_Inr [OF this] show "distinct (target_names cfg)"
    "\<And>n. n \<in> set (target_names cfg) \<Longrightarrow> n \<noteq> [] \<and> \<not> Contains n '': '' \<and> TrimSpace n = n"
    by (auto simp: target_names_def)
qed

text \<open>in a server configuration that loads, the trimmed names of all monitor targets are distinct, and
  a stored target tells which one it belongs to: the target of a route below one name is neither a name
  itself nor the target of a route below another name.\<close>

lemma loaded_targets_unambiguous:
  assumes "LoadForMode yaml env path ''server'' = Inr cfg"
    and "a \<in> set (target_names cfg)" and "b \<in> set (target_names cfg)"
  shows "distinct (target_names cfg) \<and> TargetForName a route \<noteq> b \<and>
    (TargetForName a route = TargetForName b route' \<longleftrightarrow> a = b \<and> route = route')"
proof -
  note names = loaded_target_names [OF assms(1)]
  have forms: "TargetForName a route = a @ '': '' @ route" "TargetForName b route' = b @ '': '' @ route'"
    using names(2) assms(2,3) by (simp_all add: TargetForName_def target_name_def)
  have "TargetForName a route \<noteq> b" using names(2) [OF assms(3)] unfolding forms by (auto simp: Contains_iff)
  moreover have "a @ '': '' @ route = b @ '': '' @ route' \<Longrightarrow> a = b \<and> route = route'"
    using names(2) [OF assms(2)] names(2) [OF assms(3)] by (intro separator_unique) auto
  ultimately show ?thesis using names(1) unfolding forms by blast
qed

section \<open>Inventory paths\<close>

lemma split_char_append: "split_char d (a @ d # b) = split_char d a @ split_char d b"
  by (induction a) (auto split: list.splits)

lemma Join_append: "xs \<noteq> [] \<Longrightarrow> ys \<noteq> [] \<Longrightarrow> Join (xs @ ys) sep = Join xs sep @ sep @ Join ys sep"
proof (induction xs sep rule: Join.induct)
  case (2 w sep)
  then show ?case by (cases ys) auto
qed auto

lemma clean_up_stays: "''..'' \<in> set stack \<Longrightarrow> ''..'' \<in> set (fold (clean_step False) ps stack)"
proof (induction ps arbitrary: stack)
  case (Cons c ps)
  then have "''..'' \<in> set (clean_step False c stack)" by (cases stack) (auto simp: clean_step_def)
  then show ?case using Cons.IH by simp
qed simp

lemma clean_above:
  "''..'' \<notin> set (fold (clean_step False) ps stack) \<Longrightarrow>
   fold (clean_step rooted) ps (stack @ base) = fold (clean_step False) ps stack @ base"
proof (induction ps arbitrary: stack)
  case (Cons c ps)
  then have "''..'' \<notin> set (clean_step False c stack)" using clean_up_stays [of "clean_step False c stack" ps] by auto
  then have "clean_step rooted c (stack @ base) = clean_step False c stack @ base"
    by (cases stack) (auto simp: clean_step_def split: if_splits)
  with Cons show ?case by simp
qed simp

lemma relative_parts:
  assumes "validateRepoRelativePath field v = None"
  shows "clean_parts v \<noteq> []" "''..'' \<notin> set (clean_parts v)" "\<not> HasPrefix v ''/''"
proof -
  from assms have rel: "\<not> HasPrefix v ''/''" and c: "path_Clean v \<noteq> ''.''" "path_Clean v \<noteq> ''..''" "\<not> HasPrefix (path_Clean v) ''../''"
    by (auto simp: validateRepoRelativePath_def Let_def split: if_splits)
  show "\<not> HasPrefix v ''/''" by (rule rel)
  show ne: "clean_parts v \<noteq> []" using c(1) rel by (auto simp: path_Clean_def)
  have "\<exists>k names. ([] :: string list) = names @ replicate k ''..'' \<and> ''..'' \<notin> set names" by simp
  from clean_stack [OF this, of "split_char (CHR ''/'') v"] rel obtain k names where
    p: "clean_parts v = replicate k ''..'' @ rev names" "''..'' \<notin> set names" by (auto simp: clean_parts_def)
  show "''..'' \<notin> set (clean_parts v)"
  proof (cases k)
    case 0
    with p show ?thesis by simp
  next
    case (Suc n)
    then have parts: "clean_parts v = ''..'' # (replicate n ''..'' @ rev names)" using p by simp
    have "path_Clean v = Join (clean_parts v) ''/''"
      using rel c(1) by (auto simp: path_Clean_def Let_def split: if_splits)
    then have "path_Clean v = ''..'' \<or> HasPrefix (path_Clean v) ''../''"
      unfolding parts by (cases "replicate n ''..'' @ rev names") auto
    with c show ?thesis by blast
  qed
qed

text \<open>an Ansible inventory a loaded configuration names lies inside its repository: joined to the
  absolute directory of the repository and cleaned, its path is that directory followed by at least one
  further part, and no part leads up.\<close>

lemma accepted_inventory_stays_inside:
  assumes "LoadForMode yaml env path ''server'' = Inr cfg"
    and "target \<in> set (rtPing (cfRuntime cfg))" and "ptAnsibleInventory target \<noteq> []"
    and "HasPrefix root ''/''" and "clean_parts root \<noteq> []"
  shows "path_Join [root, ptAnsibleInventory target] = path_Clean root @ ''/'' @ Join (clean_parts (ptAnsibleInventory target)) ''/'' \<and>
    clean_parts (ptAnsibleInventory target) \<noteq> [] \<and> ''..'' \<notin> set (clean_parts (ptAnsibleInventory target))"
proof -
  let ?v = "ptAnsibleInventory target"
  from assms(1) have "ping_check (map rcName (cfRepositories cfg)) target = None"
    by (rule loaded_server) (rule validated(3) [OF _ assms(2)])
  then have "validateRepoRelativePath ''runtime.ping.ansibleInventory'' ?v = None"
    using assms(3) by (auto simp: ping_check_def first_error_None split: if_splits)
  note v = relative_parts [OF this]
  from v(2,3) have nodots: "''..'' \<notin> set (fold (clean_step False) (split_char (CHR ''/'') ?v) [])"
    by (simp add: clean_parts_def)
  have abs: "HasPrefix (root @ ''/'' @ ?v) ''/''" "root \<noteq> []" using assms(4) by (cases root; simp)+
  have "clean_parts (root @ ''/'' @ ?v) = clean_parts root @ clean_parts ?v"
    using abs(1) assms(4) v(3) clean_above [OF nodots, of True "fold (clean_step True) (split_char (CHR ''/'') root) []"]
    by (simp add: clean_parts_def split_char_append)
  then have "path_Clean (root @ ''/'' @ ?v) = path_Clean root @ ''/'' @ Join (clean_parts ?v) ''/''"
    using assms(4,5) v(1) abs(1) by (simp add: path_Clean_def Let_def Join_append)
  moreover have "path_Join [root, ?v] = path_Clean (root @ ''/'' @ ?v)" using abs(2) by (simp add: path_Join_def)
  ultimately show ?thesis using v(1,2) by simp
qed

section \<open>Secrets\<close>

lemma lower_upper: "lower_char (upper_char c) = lower_char c"
  by (auto simp: lower_char_def upper_char_def Let_def)

lemma ToLower_canonical_header: "ToLower (canonical_header up s) = ToLower s"
  by (induction up s rule: canonical_header.induct) (auto simp: ToLower_def lower_upper)

lemma header_byte_graphic: "header_byte c \<Longrightarrow> graphic c"
  by (auto simp: header_byte_def graphic_def ascii_space_def is_letter_def is_digit_def Let_def)

lemma length_canonical_header [simp]: "length (canonical_header up s) = length s"
  by (induction up s rule: canonical_header.induct) auto

lemma graphic_mid: "65 \<le> (of_char d :: nat) \<Longrightarrow> (of_char d :: nat) \<le> 122 \<Longrightarrow> graphic d"
  by (auto simp: graphic_def ascii_space_def)

lemma graphic_case: "graphic c \<Longrightarrow> graphic (upper_char c)" "graphic c \<Longrightarrow> graphic (lower_char c)"
  by (auto simp: lower_char_def upper_char_def Let_def intro: graphic_mid)

lemma canonical_header_graphic: "list_all header_byte s \<Longrightarrow> list_all graphic (canonical_header up s)"
  by (induction up s rule: canonical_header.induct) (simp_all add: header_byte_graphic graphic_case)

lemma secret_name_canonical: "isAlertSecretParameterName (CanonicalMIMEHeaderKey (TrimSpace n)) = isAlertSecretParameterName n"
  by (simp add: isAlertSecretParameterName_def CanonicalMIMEHeaderKey_def TrimSpace_all_graphic [OF canonical_header_graphic]
      ToLower_canonical_header)

lemma secret_header_registered:
  assumes "isAlertSecretParameterName n" "TrimSpace raw \<noteq> []"
  shows "TrimSpace raw \<in> set (alertHeaderRedactionValues n raw)"
  using assms by (simp add: alertHeaderRedactionValues_def Let_def secret_name_canonical set_appendAlertRedactValues)

text \<open>The secrets of a resolved alerting section: the declared values, the access tokens, the headers with
  the name of a secret, and the last two path segments of the Discord URL.\<close>

definition discord_segments :: "string \<Rightarrow> string list" where
  "discord_segments rawURL =
     (case url_Parse (TrimSpace rawURL) of
        None \<Rightarrow> []
      | Some parsed \<Rightarrow>
         (let segments = split_char (CHR ''/'') (TrimChar (CHR ''/'') (EscapedPath parsed)) in
          filter (\<lambda>s. PathUnescape s \<noteq> None) (drop (length segments - 2) segments)))"

definition alert_secrets :: "AlertingConfig \<Rightarrow> string list" where
  "alert_secrets cfg =
     wsRedactValues (alWebhook cfg) @ diRedactValues (alDiscord cfg) @ hsRedactValues (alHomeAssistant cfg) @
     [diWebhookURL (alDiscord cfg), hsToken (alHomeAssistant cfg), hsWebhookID (alHomeAssistant cfg)] @
     map snd (filter (\<lambda>h. isAlertSecretParameterName (fst h)) (wsHeaders (alWebhook cfg))) @
     discord_segments (diWebhookURL (alDiscord cfg))"

lemma fold_adds:
  assumes "x \<in> set xs" "\<And>vs. v \<in> set (f x vs)" "\<And>y vs. set vs \<subseteq> set (f y vs)"
  shows "v \<in> set (fold f xs acc)"
proof -
  obtain a b where xs: "xs = a @ x # b" using assms(1) by (auto simp: in_set_conv_decomp)
  have "v \<in> set (f x (fold f a acc))" by (rule assms(2))
  then show ?thesis unfolding xs using fold_keeps [of f, OF assms(3)] by fastforce
qed

lemma declared_registered:
  assumes "x \<in> set declared" "TrimSpace x \<noteq> []"
  shows "TrimSpace x \<in> set (appendAlertDeclaredURLSecretValues vals rawURL declared)"
proof -
  let ?ds = "filter (\<lambda>v. v \<noteq> []) (map TrimSpace declared)"
  have "TrimSpace x \<in> set (fold (\<lambda>v vs. appendAlertRedactValues vs (alertEscapedSecretVariants v v)) ?ds vals)"
    by (rule fold_adds [where x = "TrimSpace x"])
      (use assms in \<open>auto simp: set_appendAlertRedactValues alertEscapedSecretVariants_def intro: image_eqI [where x = "TrimSpace x"]\<close>)
  then show ?thesis
    unfolding appendAlertDeclaredURLSecretValues_def Let_def
    by (auto split: option.split intro!: fold_mem simp: case_prod_beta set_appendAlertRedactValues)
qed

lemma header_registered:
  assumes "(n, x) \<in> set headers" "isAlertSecretParameterName n" "TrimSpace x \<noteq> []"
  shows "TrimSpace x \<in> set (append_headers headers vals)"
  unfolding append_headers_def
  by (rule fold_adds [OF assms(1)])
    (use secret_header_registered [OF assms(2,3)] assms(3) in
      \<open>auto simp: appendAlertHeaderRedactValues_def set_appendAlertRedactValues intro: image_eqI [where x = "TrimSpace x"]\<close>)

lemma segment_registered:
  assumes "x \<in> set (discord_segments rawURL)" "TrimSpace x \<noteq> []"
  shows "TrimSpace x \<in> set (appendAlertURLTrailingPathSecretValues vals rawURL 2)"
proof -
  have ne: "x \<noteq> []" using assms(2) by auto
  obtain parsed where p: "url_Parse (TrimSpace rawURL) = Some parsed" "PathUnescape x \<noteq> None"
    "x \<in> set (drop (length (split_char (CHR ''/'') (TrimChar (CHR ''/'') (EscapedPath parsed))) - 2)
       (split_char (CHR ''/'') (TrimChar (CHR ''/'') (EscapedPath parsed))))"
    using assms(1) by (cases "url_Parse (TrimSpace rawURL)") (simp_all add: discord_segments_def Let_def that del: not_None_eq)
  show ?thesis
    unfolding appendAlertURLTrailingPathSecretValues_def Let_def p(1)
    using ne p(2) assms(2)
    by (auto intro!: fold_adds [OF p(3)] simp: set_appendAlertRedactValues alertEscapedSecretVariants_def split: option.splits)
qed

lemmas redaction_mem = subsetD [OF append_keeps] subsetD [OF redaction_keeps(1)] subsetD [OF redaction_keeps(2)]
  subsetD [OF redaction_keeps(3)] subsetD [OF redaction_keeps(4)]

lemma append_registers: "x \<in> set extra \<Longrightarrow> TrimSpace x \<noteq> [] \<Longrightarrow> TrimSpace x \<in> set (appendAlertRedactValues vals extra)"
  by (auto simp: set_appendAlertRedactValues)

lemma secrets_registered:
  assumes "x \<in> set (alert_secrets cfg)" "TrimSpace x \<noteq> []"
  shows "TrimSpace x \<in> set (AlertingRedactionValues cfg)"
proof -
  from assms(1) consider "x \<in> set (wsRedactValues (alWebhook cfg))" | "x \<in> set (diRedactValues (alDiscord cfg))"
    | "x \<in> set (hsRedactValues (alHomeAssistant cfg))" | "x \<in> set [diWebhookURL (alDiscord cfg)]"
    | "x \<in> set [hsToken (alHomeAssistant cfg), hsWebhookID (alHomeAssistant cfg)]"
    | n where "(n, x) \<in> set (wsHeaders (alWebhook cfg))" "isAlertSecretParameterName n"
    | "x \<in> set (discord_segments (diWebhookURL (alDiscord cfg)))"
    by (auto simp: alert_secrets_def)
  note cases = this
  define v1 where "v1 = appendAlertURLRedactValues [] [wsURL (alWebhook cfg)]"
  define v2 where "v2 = append_headers (wsHeaders (alWebhook cfg)) v1"
  define v3 where "v3 = appendAlertDeclaredURLSecretValues v2 (wsURL (alWebhook cfg)) (wsRedactValues (alWebhook cfg))"
  define v4 where "v4 = appendAlertURLRedactValues v3 [diWebhookURL (alDiscord cfg)]"
  define v5 where "v5 = appendAlertRedactValues v4 [diWebhookURL (alDiscord cfg)]"
  define v6 where "v6 = appendAlertURLTrailingPathSecretValues v5 (diWebhookURL (alDiscord cfg)) 2"
  define v7 where "v7 = appendAlertRedactValues v6 (diRedactValues (alDiscord cfg))"
  define v8 where "v8 = appendAlertURLRedactValues v7 [hsBaseURL (alHomeAssistant cfg)]"
  define v9 where "v9 = appendAlertRedactValues v8 [hsToken (alHomeAssistant cfg), hsWebhookID (alHomeAssistant cfg)]"
  define v10 where "v10 = appendAlertRedactValues v9 (hsRedactValues (alHomeAssistant cfg))"
  have "AlertingRedactionValues cfg = appendAlertRedactValues v10 (alRedactionValues cfg)"
    by (simp add: AlertingRedactionValues_def v1_def v2_def v3_def v4_def v5_def v6_def v7_def v8_def v9_def v10_def)
  then have chain: "set v2 \<subseteq> set v3" "set v3 \<subseteq> set v4" "set v4 \<subseteq> set v5" "set v5 \<subseteq> set v6" "set v6 \<subseteq> set v7" "set v7 \<subseteq> set v8"
    "set v8 \<subseteq> set v9" "set v9 \<subseteq> set v10" "set v10 \<subseteq> set (AlertingRedactionValues cfg)"
    by (simp_all only: v3_def v4_def v5_def v6_def v7_def v8_def v9_def v10_def append_keeps redaction_keeps)
  have "TrimSpace x \<in> set v2 \<or> TrimSpace x \<in> set v3 \<or> TrimSpace x \<in> set v5 \<or> TrimSpace x \<in> set v6 \<or> TrimSpace x \<in> set v7 \<or>
      TrimSpace x \<in> set v9 \<or> TrimSpace x \<in> set v10"
    using cases
  proof cases
    case 1 then show ?thesis using declared_registered assms(2) by (simp add: v3_def)
  next
    case 2 then show ?thesis using append_registers assms(2) by (simp add: v7_def)
  next
    case 3 then show ?thesis using append_registers assms(2) by (simp add: v10_def)
  next
    case 4 then show ?thesis using append_registers [of x] assms(2) by (auto simp: v5_def)
  next
    case 5 then show ?thesis using append_registers [of x] assms(2) by (auto simp: v9_def)
  next
    case 6 then show ?thesis using header_registered assms(2) by (auto simp: v2_def)
  next
    case 7 then show ?thesis using segment_registered assms(2) by (simp add: v6_def)
  qed
  with chain show ?thesis by blast
qed

section \<open>A configuration that loads\<close>

definition no_filter :: AlertSinkFilterConfig where "no_filter = \<lparr>fcServices = [], fcTargets = []\<rparr>"

definition demo_alerting :: AlertingConfig where
  "demo_alerting = \<lparr>alDebounce = [], alCooldown = [], alStabilitySamples = 0, alResetOnMissingKey = False, alResetToken = [],
     alRetry = \<lparr>arcMaxAttempts = 0, arcInitialInterval = ''5s'', arcMaxInterval = []\<rparr>,
     alRetention = \<lparr>atcHorizon = [], atcInterval = [], atcBatchSize = 0\<rparr>,
     alWebhook = \<lparr>wsEnabled = False, wsName = [], wsURL = [], wsURLEnv = [], wsURLFile = [], wsRedactValues = [], wsInsecureAllowHTTP = False,
       wsMethod = [], wsHeaders = [], wsHeaderEnv = [], wsHeaderFile = [], wsBodyTemplate = [], wsTimeout = [],
       wsInclude = no_filter, wsExclude = no_filter\<rparr>,
     alDiscord = \<lparr>diEnabled = False, diName = [], diWebhookURL = [], diWebhookURLEnv = [], diWebhookURLFile = [], diRedactValues = [],
       diTimeout = [], diInclude = no_filter, diExclude = no_filter\<rparr>,
     alHomeAssistant = \<lparr>hsEnabled = True, hsName = ''ha'', hsBaseURL = ''https://ha.test'', hsBaseURLEnv = [], hsBaseURLFile = [],
       hsRedactValues = [], hsInsecureAllowHTTP = False, hsToken = [], hsTokenEnv = ''HA'', hsTokenFile = [], hsWebhookID = ''k1d'',
       hsWebhookIDEnv = [], hsWebhookIDFile = [], hsTimeout = ''90s'', hsInclude = no_filter, hsExclude = no_filter\<rparr>,
     alRedactionValues = []\<rparr>"

definition demo_docker :: DockerTarget where
  "demo_docker = \<lparr>dtName = ''nas'', dtKind = ''agent'', dtHost = [], dtAgentToken = [], dtAgentTokenFile = [], dtAgentTokenEnv = [], dtInterval = ''30s''\<rparr>"

definition demo_config :: Config where
  "demo_config = \<lparr>cfServer = \<lparr>scListen = [], scDataDir = [], scRepoCacheDir = [], scAllowedOrigins = []\<rparr>,
     cfAuth = \<lparr>acMode = ''dev-no-auth'', acUsers = [], acAgent = \<lparr>aaTokens = [], aaTokenFile = [], aaTokenEnv = [], aaAllowedOrigins = []\<rparr>\<rparr>,
     cfRepositories = [\<lparr>rcName = ''infra'', rcURL = ''https://git.test/infra'', rcDefaultRef = [], rcType = [], rcTokenFile = [], rcTokenEnv = [],
       rcSSHKeyPath = [], rcKnownHosts = [], rcScanInterval = [], rcIncludePaths = [], rcExcludePaths = []\<rparr>],
     cfRuntime = \<lparr>rtDocker = [demo_docker], rtKubernetes = [], rtHTTP = [],
       rtPing = [\<lparr>ptName = ''lan'', ptHost = [], ptRepository = ''infra'', ptAnsibleInventory = ''inv/../hosts.yml'', ptInterval = [],
         ptTimeout = [], ptMinRefreshInterval = [], ptEnvironment = []\<rparr>]\<rparr>,
     cfDefaultInterval = [], cfAlerting = demo_alerting,
     cfAgent = \<lparr>anServerURL = [], anTarget = [], anToken = [], anTokenFile = [], anTokenEnv = [], anInterval = [], anDocker = demo_docker\<rparr>\<rparr>"

definition demo_os :: os_env where
  "demo_os = \<lparr>osLookupEnv = (\<lambda>n. if n = ''HA'' then Some ''t0ken'' else None), osReadFile = (\<lambda>f. if f = ''c.yml'' then Some ''x'' else None)\<rparr>"

definition demo_resolved :: Config where
  "demo_resolved = (case resolveServerSecrets demo_os (applyServerDefaults demo_config) of Inr c \<Rightarrow> c | Inl _ \<Rightarrow> demo_config)"

lemma demo_loads: "LoadForMode (\<lambda>_. Some demo_config) demo_os ''c.yml'' ''server'' = Inr demo_resolved"
  by code_simp

end
