(* ===== verification/AppConfig.thy ===== *)
theory AppConfig
  imports ConfigProps AlertProps Models
begin

text \<open>
  How \<open>internal/app/app.go\<close> hands the configuration to the store: the values registered for redaction
  (\<open>AddRedactionValues\<close> of \<open>internal/storage/redaction.go\<close>), the sink names the store accepts and the
  limits of the producers; and the merge of reported and configured agents.
\<close>

section \<open>Redaction values\<close>

definition add_token :: "string \<Rightarrow> string list \<Rightarrow> string list" where
  "add_token raw tokens = (if TrimSpace raw = [] \<or> TrimSpace raw \<in> set tokens then tokens else tokens @ [TrimSpace raw])"

definition AddRedactionValues :: "string list \<Rightarrow> Store \<Rightarrow> Store" where
  "AddRedactionValues vals store = store\<lparr>redactionTokens := fold add_token vals (redactionTokens store)\<rparr>"

definition repositoryRedactionValues :: "RepositoryConfig list \<Rightarrow> string list" where
  "repositoryRedactionValues repos = concat (map (\<lambda>repo. URLUserinfoValues (rcURL repo)) repos)"

definition app_redaction_values :: "Config \<Rightarrow> string list" where
  "app_redaction_values cfg = repositoryRedactionValues (cfRepositories cfg) @ AlertingRedactionValues (cfAlerting cfg)"

lemma set_add_tokens: "set (fold add_token vals tokens) = set tokens \<union> (TrimSpace ` set vals - {[]})"
  by (induction vals arbitrary: tokens) (auto simp: add_token_def)

section \<open>The alerting options of the store\<close>

definition mustAlertCooldown :: "AlertingConfig \<Rightarrow> duration" where
  "mustAlertCooldown alerting = (case CooldownDuration alerting of Inl _ \<Rightarrow> 0 | Inr d \<Rightarrow> d)"

definition mustAlertDebounce :: "AlertingConfig \<Rightarrow> duration" where
  "mustAlertDebounce alerting = (case DebounceDuration alerting of Inl _ \<Rightarrow> 0 | Inr d \<Rightarrow> d)"

definition alertSinkNameSet :: "string list \<Rightarrow> string list" where
  "alertSinkNameSet names = filter (\<lambda>n. n \<noteq> []) (map TrimSpace names)"

text \<open>What \<open>New\<close> of the app and \<open>OpenWithOptions\<close> make of the configuration, over the opened tables.\<close>

definition configured_store :: "Config \<Rightarrow> Store \<Rightarrow> Store" where
  "configured_store cfg store =
     (AddRedactionValues (app_redaction_values cfg) store)\<lparr>
        alertSinkNames := alertSinkNameSet (EnabledSinkNames (cfAlerting cfg)), alertSinkAllowlist := True\<rparr>"



text \<open>The validation of sink names knows the alerting secrets only: a password in the URL of a repository that is
  a part of a sink name passes it, and then the store refuses every event for that sink.\<close>

definition clashing_config :: Config where
  "clashing_config = demo_config\<lparr>cfRepositories := map (\<lambda>r. r\<lparr>rcURL := ''https://bot:ha@git.test/infra''\<rparr>) (cfRepositories demo_config)\<rparr>"

definition clashing_resolved :: Config where
  "clashing_resolved = (case resolveServerSecrets demo_os (applyServerDefaults clashing_config) of Inr c \<Rightarrow> c | Inl _ \<Rightarrow> demo_config)"

lemma repository_password_blocks_alerts:
  "LoadForMode (\<lambda>_. Some clashing_config) demo_os ''c.yml'' ''server'' = Inr clashing_resolved \<and>
   prepareAlertSinks (configured_store clashing_resolved demo_empty) (ActiveSinkNames (cfAlerting clashing_resolved)) = Inl AlertSinkHasSecret"
proof
  show "LoadForMode (\<lambda>_. Some clashing_config) demo_os ''c.yml'' ''server'' = Inr clashing_resolved" by code_simp
  have "fold add_token (app_redaction_values clashing_resolved) [] = [''ha'', ''bot:ha'', ''t0ken'', ''k1d'']" by code_simp
  then have tokens: "redactionTokens (configured_store clashing_resolved demo_empty) = [''ha'', ''bot:ha'', ''t0ken'', ''k1d'']"
    by (simp add: configured_store_def AddRedactionValues_def demo_empty_def)
  have active: "ActiveSinkNames (cfAlerting clashing_resolved) = [''ha'']" by code_simp
  have "TrimSpace ''ha'' = ''ha''" "RedactWith ''ha'' [''ha'', ''bot:ha'', ''t0ken'', ''k1d''] = ''[REDACTED]''" by code_simp+
  then show "prepareAlertSinks (configured_store clashing_resolved demo_empty) (ActiveSinkNames (cfAlerting clashing_resolved)) =
      Inl AlertSinkHasSecret"
    by (simp add: prepareAlertSinks_def checked_sink_def validateAlertSinkIdentity_def redact_def tokens active)
qed

section \<open>Agents of the summary\<close>

definition merge_reported :: "DockerTarget list \<Rightarrow> AgentInfo \<Rightarrow> AgentInfo" where
  "merge_reported docker agent = agent\<lparr>agConfigured :=
     agTarget agent \<in> set (map dtName (filter (\<lambda>t. dtKind t = ''agent'') docker))\<rparr>"

definition silent_agent :: "string \<Rightarrow> AgentInfo" where
  "silent_agent target = \<lparr>agTarget = target, agLastSeenAt = [], agStaleAfter = [], agConfigured = True, agContainers = []\<rparr>"

definition mergeAgents :: "AgentInfo list \<Rightarrow> DockerTarget list \<Rightarrow> AgentInfo list" where
  "mergeAgents reported docker =
     (let configured = dedup_by (\<lambda>n. n) (map dtName (filter (\<lambda>t. dtKind t = ''agent'') docker));
          merged = map (merge_reported docker) reported;
          missing = filter (\<lambda>n. n \<notin> set (map agTarget reported)) configured
      in sort_key agTarget (merged @ map silent_agent missing))"

end
