(* ===== verification/AlertEvaluator.thy ===== *)
theory AlertEvaluator
  imports StatusOps AppConfig
begin

text \<open>
  The producer of agent and scan alerts, \<open>internal/app/alert_evaluator.go\<close>: the baselines it keeps per
  agent and per repository, the comparison with the persisted state, and the events it enqueues. Log lines
  are not modelled. \<open>aeAccepted\<close> is a history variable: the events the store has accepted so far.
\<close>

section \<open>Baselines\<close>

record agentBaseline =
  abEstablished :: bool
  abOnline :: bool
  abOfflineHandled :: bool

record scanBaseline =
  sbEstablished :: bool
  sbOK :: bool
  sbFailureHandled :: bool

record alertEvaluator =
  aeDocker :: "DockerTarget list"
  aeRepositories :: "RepositoryConfig list"
  aeSinks :: "string list"
  aeCooldown :: duration
  aeAgents :: "string \<rightharpoonup> agentBaseline"
  aeScans :: "string \<rightharpoonup> scanBaseline"
  aeAccepted :: "AlertEvent list"

definition newAlertEvaluator :: "Config \<Rightarrow> alertEvaluator" where
  "newAlertEvaluator cfg =
     \<lparr>aeDocker = rtDocker (cfRuntime cfg), aeRepositories = cfRepositories cfg,
      aeSinks = ActiveSinkNames (cfAlerting cfg), aeCooldown = mustAlertCooldown (cfAlerting cfg),
      aeAgents = (\<lambda>_. None), aeScans = (\<lambda>_. None), aeAccepted = []\<rparr>"

definition agent_baseline :: "alertEvaluator \<Rightarrow> string \<Rightarrow> agentBaseline" where
  "agent_baseline e target =
     (case aeAgents e target of Some b \<Rightarrow> b | None \<Rightarrow> \<lparr>abEstablished = False, abOnline = False, abOfflineHandled = False\<rparr>)"

definition scan_baseline :: "alertEvaluator \<Rightarrow> string \<Rightarrow> scanBaseline" where
  "scan_baseline e name =
     (case aeScans e name of Some b \<Rightarrow> b | None \<Rightarrow> \<lparr>sbEstablished = False, sbOK = False, sbFailureHandled = False\<rparr>)"

definition configuredAgentTargets :: "DockerTarget list \<Rightarrow> string list" where
  "configuredAgentTargets docker =
     filter (\<lambda>n. n \<noteq> []) (map (\<lambda>t. TrimSpace (dtName t)) (filter (\<lambda>t. dtKind t = ''agent'') docker))"

definition configuredRepositoryNames :: "RepositoryConfig list \<Rightarrow> string list" where
  "configuredRepositoryNames repos = filter (\<lambda>n. n \<noteq> []) (map (\<lambda>r. TrimSpace (rcName r)) repos)"

section \<open>Events\<close>

definition alertKindAgentOffline :: string where "alertKindAgentOffline = ''agent.offline''"
definition alertKindAgentRecovery :: string where "alertKindAgentRecovery = ''agent.recovery''"
definition alertKindScanFailure :: string where "alertKindScanFailure = ''scan.failure''"
definition alertKindScanRecovery :: string where "alertKindScanRecovery = ''scan.recovery''"

definition producer_event :: "string \<Rightarrow> string \<Rightarrow> string \<Rightarrow> string \<Rightarrow> string \<Rightarrow> string \<Rightarrow> string \<Rightarrow> string \<Rightarrow> AlertEvent" where
  "producer_event kind repository agent oldState newState reason dedupeKey cooldownKey =
     \<lparr>evID = 0, evKind = kind, evServiceID = [], evTarget = [], evRepository = repository, evAgent = agent,
      evOldState = oldState, evNewState = newState, evReason = reason, evDedupeKey = dedupeKey,
      evCooldownKey = cooldownKey, evDedupeHash = [], evCreatedAt = zero_time, evStatus = []\<rparr>"

definition agent_key :: "string \<Rightarrow> string \<Rightarrow> string" where
  "agent_key target kind = ''agent:'' @ target @ '':'' @ kind"

definition offline_event :: "string \<Rightarrow> gotime \<Rightarrow> AlertEvent" where
  "offline_event target staleAfter =
     producer_event alertKindAgentOffline [] target ''online'' ''offline'' ''agent report is stale''
       (agent_key target alertKindAgentOffline @ '':'' @ RFC3339Nano staleAfter) (agent_key target alertKindAgentOffline)"

definition online_event :: "string \<Rightarrow> gotime \<Rightarrow> AlertEvent" where
  "online_event target lastSeenAt =
     producer_event alertKindAgentRecovery [] target ''offline'' ''online'' ''agent report received''
       (agent_key target alertKindAgentRecovery @ '':'' @ RFC3339Nano lastSeenAt) (agent_key target alertKindAgentRecovery)"

definition scan_key :: "string \<Rightarrow> string \<Rightarrow> string" where
  "scan_key name kind = ''repository:'' @ name @ '':'' @ kind"

definition scan_failed_event :: "string \<Rightarrow> LatestTerminalScan \<Rightarrow> AlertEvent" where
  "scan_failed_event name scan =
     producer_event alertKindScanFailure name [] ''ok'' ''error''
       (if ltError scan = [] then ''repository scan failed'' else ltError scan)
       (scan_key name alertKindScanFailure @ '':'' @ string_of_int (ltID scan)) (scan_key name alertKindScanFailure)"

definition scan_recovered_event :: "string \<Rightarrow> LatestTerminalScan \<Rightarrow> AlertEvent" where
  "scan_recovered_event name scan =
     producer_event alertKindScanRecovery name [] ''error'' ''ok'' ''repository scan recovered''
       (scan_key name alertKindScanRecovery @ '':'' @ string_of_int (ltID scan)) (scan_key name alertKindScanRecovery)"

section \<open>Agents\<close>

text \<open>
  A handler returns the baseline, the events the store accepted and the store; \<open>None\<close> when the call of the
  store does not return.
\<close>

type_synonym 'b handled = "('b \<times> AlertEvent list \<times> Store) option"

definition submit_edge ::
  "tx_env \<Rightarrow> alertEvaluator \<Rightarrow> AlertEvent \<Rightarrow> 'b \<Rightarrow> 'b \<Rightarrow> Store \<Rightarrow> 'b handled" where
  "submit_edge env e event kept moved store =
     (case EnqueueAlertEvent env event (aeSinks e) (aeCooldown e) store of
        None \<Rightarrow> None
      | Some (s, Inl _) \<Rightarrow> Some (kept, [], s)
      | Some (s, Inr _) \<Rightarrow> Some (moved, [event], s))"

definition handleAgentOffline :: "tx_env \<Rightarrow> alertEvaluator \<Rightarrow> string \<Rightarrow> gotime \<Rightarrow> agentBaseline \<Rightarrow> Store \<Rightarrow> agentBaseline handled" where
  "handleAgentOffline env e target staleAfter b store =
     submit_edge env e (offline_event target staleAfter) b (b\<lparr>abOnline := False, abOfflineHandled := True\<rparr>) store"

definition handleAgentOnline :: "tx_env \<Rightarrow> alertEvaluator \<Rightarrow> string \<Rightarrow> AgentInfo \<Rightarrow> agentBaseline \<Rightarrow> Store \<Rightarrow> agentBaseline handled" where
  "handleAgentOnline env e target info b store =
     (if \<not> abOfflineHandled b then Some (b\<lparr>abOnline := True\<rparr>, [], store)
      else
       (case parse_RFC3339 (agLastSeenAt info) of
          None \<Rightarrow> Some (b, [], store)
        | Some lastSeenAt \<Rightarrow>
            submit_edge env e (online_event target lastSeenAt) b (b\<lparr>abOnline := True, abOfflineHandled := False\<rparr>) store))"

definition agent_step ::
  "tx_env \<Rightarrow> gotime \<Rightarrow> alertEvaluator \<Rightarrow> string \<Rightarrow> AgentInfo option \<Rightarrow> agentBaseline \<Rightarrow> Store \<Rightarrow> agentBaseline handled" where
  "agent_step env now e target reported b store =
     (case reported of
        None \<Rightarrow> Some (b, [], store)
      | Some info \<Rightarrow>
          (case parse_RFC3339 (agStaleAfter info) of
             None \<Rightarrow> Some (b, [], store)
           | Some staleAfter \<Rightarrow>
              (let onlineNow = (now < staleAfter) in
               if \<not> abEstablished b then Some (b\<lparr>abEstablished := True, abOnline := onlineNow\<rparr>, [], store)
               else if onlineNow = abOnline b then Some (b, [], store)
               else if \<not> onlineNow then handleAgentOffline env e target staleAfter b store
               else handleAgentOnline env e target info b store)))"

definition evaluateAgent ::
  "tx_env \<Rightarrow> gotime \<Rightarrow> string \<Rightarrow> AgentInfo option \<Rightarrow> alertEvaluator \<times> Store \<Rightarrow> (alertEvaluator \<times> Store) option" where
  "evaluateAgent env now target reported st =
     (case st of (e, store) \<Rightarrow>
        map_option (\<lambda>(b, accepted, s). (e\<lparr>aeAgents := (aeAgents e)(target \<mapsto> b), aeAccepted := aeAccepted e @ accepted\<rparr>, s))
          (agent_step env now e target reported (agent_baseline e target) store))"

section \<open>Scans\<close>

definition handleScanFailed :: "tx_env \<Rightarrow> alertEvaluator \<Rightarrow> string \<Rightarrow> LatestTerminalScan \<Rightarrow> scanBaseline \<Rightarrow> Store \<Rightarrow> scanBaseline handled" where
  "handleScanFailed env e name scan b store =
     submit_edge env e (scan_failed_event name scan) b (b\<lparr>sbOK := False, sbFailureHandled := True\<rparr>) store"

definition handleScanRecovered :: "tx_env \<Rightarrow> alertEvaluator \<Rightarrow> string \<Rightarrow> LatestTerminalScan \<Rightarrow> scanBaseline \<Rightarrow> Store \<Rightarrow> scanBaseline handled" where
  "handleScanRecovered env e name scan b store =
     (if \<not> sbFailureHandled b then Some (b\<lparr>sbOK := True\<rparr>, [], store)
      else submit_edge env e (scan_recovered_event name scan) b (b\<lparr>sbOK := True, sbFailureHandled := False\<rparr>) store)"

definition scan_step ::
  "tx_env \<Rightarrow> alertEvaluator \<Rightarrow> string \<Rightarrow> LatestTerminalScan option \<Rightarrow> scanBaseline \<Rightarrow> Store \<Rightarrow> scanBaseline handled" where
  "scan_step env e name terminal b store =
     (case terminal of
        None \<Rightarrow> Some (b, [], store)
      | Some scan \<Rightarrow>
         (let currentOK = (ltStatus scan = ''ok'') in
          if \<not> sbEstablished b then Some (b\<lparr>sbEstablished := True, sbOK := currentOK\<rparr>, [], store)
          else if currentOK = sbOK b then Some (b, [], store)
          else if \<not> currentOK then handleScanFailed env e name scan b store
          else handleScanRecovered env e name scan b store))"

definition evaluateScan ::
  "tx_env \<Rightarrow> string \<Rightarrow> LatestTerminalScan option \<Rightarrow> alertEvaluator \<times> Store \<Rightarrow> (alertEvaluator \<times> Store) option" where
  "evaluateScan env name terminal st =
     (case st of (e, store) \<Rightarrow>
        map_option (\<lambda>(b, accepted, s). (e\<lparr>aeScans := (aeScans e)(name \<mapsto> b), aeAccepted := aeAccepted e @ accepted\<rparr>, s))
          (scan_step env e name terminal (scan_baseline e name) store))"

section \<open>One evaluation\<close>

text \<open>
  What one evaluation meets: whether the context has ended (at entry, before each target, between the two
  producers), whether a read fails, the clock, and the transactions.
\<close>

record eval_env =
  eeAgentsDone :: bool
  eeAgentsFail :: bool
  eeAgentDone :: "nat \<Rightarrow> bool"
  eeAgentNow :: "nat \<Rightarrow> gotime"
  eeAgentTx :: "nat \<Rightarrow> tx_env"
  eeBetweenDone :: bool
  eeScansDone :: bool
  eeScansFail :: bool
  eeScanDone :: "nat \<Rightarrow> bool"
  eeScanTx :: "nat \<Rightarrow> tx_env"

fun eval_loop :: "(nat \<Rightarrow> bool) \<Rightarrow> (nat \<Rightarrow> string \<Rightarrow> 's \<Rightarrow> 's option) \<Rightarrow> nat \<Rightarrow> string list \<Rightarrow> 's \<Rightarrow> 's option" where
  "eval_loop ended step i [] st = Some st"
| "eval_loop ended step i (name # names) st =
     (if ended i then Some st
      else (case step i name st of None \<Rightarrow> None | Some st' \<Rightarrow> eval_loop ended step (Suc i) names st'))"

definition by_target :: "AgentInfo list \<Rightarrow> string \<rightharpoonup> AgentInfo" where
  "by_target agents = map_of (rev (map (\<lambda>a. (agTarget a, a)) agents))"

text \<open>The reads are taken from the database at the start of the producer.\<close>

definition evaluateAgents :: "eval_env \<Rightarrow> DashDB \<Rightarrow> alertEvaluator \<times> Store \<Rightarrow> (alertEvaluator \<times> Store) option" where
  "evaluateAgents ee db st =
     (let targets = configuredAgentTargets (aeDocker (fst st)); agents = by_target (Agents db) in
      if targets = [] \<or> eeAgentsDone ee \<or> eeAgentsFail ee then Some st
      else eval_loop (eeAgentDone ee) (\<lambda>i target. evaluateAgent (eeAgentTx ee i) (eeAgentNow ee i) target (agents target)) 0 targets st)"

definition evaluateScans :: "eval_env \<Rightarrow> DashDB \<Rightarrow> alertEvaluator \<times> Store \<Rightarrow> (alertEvaluator \<times> Store) option" where
  "evaluateScans ee db st =
     (let names = configuredRepositoryNames (aeRepositories (fst st)); latest = LatestTerminalScansByRepository db names in
      if names = [] \<or> eeScansDone ee \<or> eeScansFail ee then Some st
      else eval_loop (eeScanDone ee) (\<lambda>i name. evaluateScan (eeScanTx ee i) name (latest name)) 0 names st)"

definition evaluate :: "eval_env \<Rightarrow> alertEvaluator \<Rightarrow> DashDB \<Rightarrow> (alertEvaluator \<times> DashDB) option" where
  "evaluate ee e db =
     (case evaluateAgents ee db (e, dbStore db) of
        None \<Rightarrow> None
      | Some (e1, s1) \<Rightarrow>
          if eeBetweenDone ee then Some (e1, set_store s1 db)
          else map_option (\<lambda>(e2, s2). (e2, set_store s2 db)) (evaluateScans ee (set_store s1 db) (e1, s1)))"

end
