(* ===== verification/EvaluatorProps.thy ===== *)
theory EvaluatorProps
  imports AlertEvaluator
begin

text \<open>
  What the evaluator promises, as a machine over edges: a failure is reported once, only after the target has
  been seen up, and a recovery only after a reported failure. Both producers refine the machine; the proof
  that the accepted events alternate is done once, for the interface the producers share.
\<close>

section \<open>The machine of edges\<close>

datatype watch = Unseen | Up | DownSilent | DownHandled
datatype reading = Missing | Good | Bad
datatype edge = Failure | Recovery

fun edge_request :: "watch \<Rightarrow> reading \<Rightarrow> edge option" where
  "edge_request Up Bad = Some Failure"
| "edge_request DownHandled Good = Some Recovery"
| "edge_request w r = None"

text \<open>The next state; the flag tells whether the requested event was accepted.\<close>

fun edge_next :: "watch \<Rightarrow> reading \<Rightarrow> bool \<Rightarrow> watch" where
  "edge_next Unseen Good ok = Up"
| "edge_next Unseen Bad ok = DownSilent"
| "edge_next Up Bad ok = (if ok then DownHandled else Up)"
| "edge_next DownSilent Good ok = Up"
| "edge_next DownHandled Good ok = (if ok then Up else DownHandled)"
| "edge_next w r ok = w"

fun alternating :: "'k \<Rightarrow> 'k \<Rightarrow> 'k list \<Rightarrow> bool" where
  "alternating f r [] = True"
| "alternating f r (k # ks) \<longleftrightarrow> k = f \<and> alternating r f ks"

lemma alternating_snoc: "alternating f r (ks @ [k]) \<longleftrightarrow> alternating f r ks \<and> k = (if even (length ks) then f else r)"
  by (induction f r ks rule: alternating.induct) auto

locale edge_watch =
  fixes watch_of :: "'b \<Rightarrow> watch" and fresh :: "'b \<Rightarrow> bool" and reading_of :: "'i \<Rightarrow> reading" and kind :: "edge \<Rightarrow> string"
    and step :: "'i \<Rightarrow> 'b \<Rightarrow> Store \<Rightarrow> 'b handled"
  assumes refines: "fresh b \<Longrightarrow> step i b s = Some (b', accepted, s') \<Longrightarrow>
      fresh b' \<and> (\<exists>ok. watch_of b' = edge_next (watch_of b) (reading_of i) ok \<and>
        map evKind accepted = (case edge_request (watch_of b) (reading_of i) of Some edge \<Rightarrow> if ok then [kind edge] else [] | None \<Rightarrow> []))"
begin

definition log_ok :: "'b \<Rightarrow> string list \<Rightarrow> bool" where
  "log_ok b ks \<longleftrightarrow> fresh b \<and> alternating (kind Failure) (kind Recovery) ks \<and> (watch_of b = DownHandled \<longleftrightarrow> odd (length ks))"

lemma log_step:
  assumes "log_ok b ks" "step i b s = Some (b', accepted, s')"
  shows "log_ok b' (ks @ map evKind accepted)"
proof -
  from assms refines [of b i s b' accepted s'] obtain ok where
    r: "fresh b'" "watch_of b' = edge_next (watch_of b) (reading_of i) ok"
    "map evKind accepted = (case edge_request (watch_of b) (reading_of i) of Some edge \<Rightarrow> if ok then [kind edge] else [] | None \<Rightarrow> [])"
    by (auto simp: log_ok_def)
  with assms(1) show ?thesis
    by (cases "watch_of b"; cases "reading_of i"; cases ok) (auto simp: log_ok_def alternating_snoc)
qed

end

section \<open>The agents refine the machine\<close>

definition agent_watch_of :: "agentBaseline \<Rightarrow> watch" where
  "agent_watch_of b =
     (if \<not> abEstablished b then Unseen else if abOnline b then Up else if abOfflineHandled b then DownHandled else DownSilent)"

definition agent_fresh :: "agentBaseline \<Rightarrow> bool" where
  "agent_fresh b \<longleftrightarrow> (abEstablished b \<or> \<not> abOfflineHandled b)"

definition agent_reading :: "gotime \<Rightarrow> AgentInfo option \<Rightarrow> reading" where
  "agent_reading now reported =
     (case reported of
        None \<Rightarrow> Missing
      | Some info \<Rightarrow> (case parse_RFC3339 (agStaleAfter info) of None \<Rightarrow> Missing | Some t \<Rightarrow> if now < t then Good else Bad))"

definition agent_edge_event :: "string \<Rightarrow> AgentInfo option \<Rightarrow> edge \<Rightarrow> AlertEvent option" where
  "agent_edge_event target reported edge =
     (case reported of
        None \<Rightarrow> None
      | Some info \<Rightarrow> (case edge of Failure \<Rightarrow> map_option (offline_event target) (parse_RFC3339 (agStaleAfter info))
                      | Recovery \<Rightarrow> map_option (online_event target) (parse_RFC3339 (agLastSeenAt info))))"

lemma event_fields [simp]:
  "evKind (offline_event t x) = alertKindAgentOffline" "evKind (online_event t x) = alertKindAgentRecovery"
  "evAgent (offline_event t x) = t" "evAgent (online_event t x) = t"
  "evRepository (offline_event t x) = []" "evRepository (online_event t x) = []"
  "evKind (scan_failed_event n sc) = alertKindScanFailure" "evKind (scan_recovered_event n sc) = alertKindScanRecovery"
  "evRepository (scan_failed_event n sc) = n" "evRepository (scan_recovered_event n sc) = n"
  "evAgent (scan_failed_event n sc) = []" "evAgent (scan_recovered_event n sc) = []"
  by (simp_all add: offline_event_def online_event_def scan_failed_event_def scan_recovered_event_def producer_event_def)

text \<open>What a handler did with the event of a requested edge.\<close>

definition edge_outcome ::
  "tx_env \<Rightarrow> alertEvaluator \<Rightarrow> AlertEvent option \<Rightarrow> Store \<Rightarrow> bool \<Rightarrow> AlertEvent list \<Rightarrow> Store \<Rightarrow> bool" where
  "edge_outcome env e request s ok accepted s' \<longleftrightarrow>
     (case request of
        None \<Rightarrow> \<not> ok \<and> accepted = [] \<and> s' = s
      | Some ev \<Rightarrow> \<exists>r. EnqueueAlertEvent env ev (aeSinks e) (aeCooldown e) s = Some (s', r) \<and> ok = (\<not> isl r) \<and>
                     accepted = (if ok then [ev] else []))"

lemma submit_edge_cases:
  assumes "submit_edge env e ev kept moved s = Some (b, accepted, s')"
  obtains ok where "b = (if ok then moved else kept)" "edge_outcome env e (Some ev) s ok accepted s'"
  using assms
  by (cases "EnqueueAlertEvent env ev (aeSinks e) (aeCooldown e) s")
    (auto simp: submit_edge_def edge_outcome_def split: sum.splits intro: that [of False] that [of True])

lemma agent_refines:
  assumes "agent_fresh b" "agent_step env now e target reported b s = Some (b', accepted, s')"
  shows "agent_fresh b' \<and> (\<exists>ok. agent_watch_of b' = edge_next (agent_watch_of b) (agent_reading now reported) ok \<and>
    (case edge_request (agent_watch_of b) (agent_reading now reported) of
       None \<Rightarrow> accepted = [] \<and> s' = s
     | Some edge \<Rightarrow> edge_outcome env e (agent_edge_event target reported edge) s ok accepted s'))"
proof -
  show ?thesis
  proof (cases "\<exists>info t. reported = Some info \<and> parse_RFC3339 (agStaleAfter info) = Some t")
    case False
    with assms show ?thesis by (auto simp: agent_step_def agent_reading_def split: option.splits)
  next
    case True
    then obtain info t where i: "reported = Some info" "parse_RFC3339 (agStaleAfter info) = Some t" by blast
    note reading = i agent_reading_def agent_watch_of_def agent_fresh_def agent_edge_event_def
    show ?thesis
    proof (cases "abEstablished b \<and> (now < t) \<noteq> abOnline b \<and> (now < t \<longrightarrow> abOfflineHandled b \<and> parse_RFC3339 (agLastSeenAt info) \<noteq> None)")
      case False
      then consider "\<not> abEstablished b" | "abEstablished b" "(now < t) = abOnline b"
        | "abEstablished b" "now < t" "\<not> abOnline b" "\<not> abOfflineHandled b"
        | "abEstablished b" "now < t" "\<not> abOnline b" "abOfflineHandled b" "parse_RFC3339 (agLastSeenAt info) = None"
        by (cases "abOnline b") auto
      then show ?thesis
      proof cases
        case 1
        with assms i show ?thesis by (cases "now < t") (auto simp: reading agent_step_def)
      next
        case 2
        with assms i show ?thesis by (cases "now < t") (auto simp: reading agent_step_def)
      next
        case 3
        with assms i show ?thesis by (auto simp: reading agent_step_def handleAgentOnline_def)
      next
        case 4
        with assms i have "b' = b" "accepted = []" "s' = s" by (simp_all add: agent_step_def handleAgentOnline_def)
        with 4 assms i show ?thesis by (auto simp: reading edge_outcome_def intro!: exI [of _ False])
      qed
    next
      case sent: True
      show ?thesis
      proof (cases "now < t")
        case False
        with sent assms i have "submit_edge env e (offline_event target t) b (b\<lparr>abOnline := False, abOfflineHandled := True\<rparr>) s = Some (b', accepted, s')"
          by (simp add: agent_step_def handleAgentOffline_def)
        then obtain ok where o': "b' = (if ok then b\<lparr>abOnline := False, abOfflineHandled := True\<rparr> else b)"
          "edge_outcome env e (Some (offline_event target t)) s ok accepted s'" by (rule submit_edge_cases)
        have "agent_watch_of b = Up" "agent_reading now reported = Bad" "agent_edge_event target reported Failure = Some (offline_event target t)"
          using sent False by (simp_all add: reading)
        with o' sent False show ?thesis by (intro conjI exI [of _ ok]) (simp_all add: agent_fresh_def agent_watch_of_def)
      next
        case True
        with sent obtain l where l: "parse_RFC3339 (agLastSeenAt info) = Some l" by auto
        with True sent assms i have "submit_edge env e (online_event target l) b (b\<lparr>abOnline := True, abOfflineHandled := False\<rparr>) s = Some (b', accepted, s')"
          by (simp add: agent_step_def handleAgentOnline_def)
        then obtain ok where o': "b' = (if ok then b\<lparr>abOnline := True, abOfflineHandled := False\<rparr> else b)"
          "edge_outcome env e (Some (online_event target l)) s ok accepted s'" by (rule submit_edge_cases)
        have "agent_watch_of b = DownHandled" "agent_reading now reported = Good" "agent_edge_event target reported Recovery = Some (online_event target l)"
          using sent True l by (simp_all add: reading)
        with o' sent True show ?thesis by (intro conjI exI [of _ ok]) (simp_all add: agent_fresh_def agent_watch_of_def)
      qed
    qed
  qed
qed

section \<open>The scans refine the machine\<close>

definition scan_watch_of :: "scanBaseline \<Rightarrow> watch" where
  "scan_watch_of b =
     (if \<not> sbEstablished b then Unseen else if sbOK b then Up else if sbFailureHandled b then DownHandled else DownSilent)"

definition scan_fresh :: "scanBaseline \<Rightarrow> bool" where
  "scan_fresh b \<longleftrightarrow> (sbEstablished b \<or> \<not> sbFailureHandled b)"

definition scan_reading :: "LatestTerminalScan option \<Rightarrow> reading" where
  "scan_reading terminal = (case terminal of None \<Rightarrow> Missing | Some scan \<Rightarrow> if ltStatus scan = ''ok'' then Good else Bad)"

definition scan_edge_event :: "string \<Rightarrow> LatestTerminalScan option \<Rightarrow> edge \<Rightarrow> AlertEvent option" where
  "scan_edge_event name terminal edge =
     map_option (\<lambda>scan. case edge of Failure \<Rightarrow> scan_failed_event name scan | Recovery \<Rightarrow> scan_recovered_event name scan) terminal"

lemma scan_refines:
  assumes "scan_fresh b" "scan_step env e name terminal b s = Some (b', accepted, s')"
  shows "scan_fresh b' \<and> (\<exists>ok. scan_watch_of b' = edge_next (scan_watch_of b) (scan_reading terminal) ok \<and>
    (case edge_request (scan_watch_of b) (scan_reading terminal) of
       None \<Rightarrow> accepted = [] \<and> s' = s
     | Some edge \<Rightarrow> edge_outcome env e (scan_edge_event name terminal edge) s ok accepted s'))"
proof (cases terminal)
  case None
  with assms show ?thesis by (auto simp: scan_step_def scan_reading_def split: option.splits)
next
  case (Some scan)
  note reading = Some scan_reading_def scan_watch_of_def scan_fresh_def scan_edge_event_def
  let ?up = "ltStatus scan = ''ok''"
  consider "\<not> sbEstablished b" | "sbEstablished b" "?up = sbOK b" | "sbEstablished b" "?up" "\<not> sbOK b" "\<not> sbFailureHandled b"
    | (failed) "sbEstablished b" "\<not> ?up" "sbOK b" | (recovered) "sbEstablished b" "?up" "\<not> sbOK b" "sbFailureHandled b"
    by (cases "sbOK b") auto
  then show ?thesis
  proof cases
    case 1
    with assms show ?thesis by (cases ?up) (auto simp: reading scan_step_def)
  next
    case 2
    with assms show ?thesis by (cases ?up) (auto simp: reading scan_step_def)
  next
    case 3
    with assms show ?thesis by (auto simp: reading scan_step_def handleScanRecovered_def)
  next
    case failed
    with assms Some have "submit_edge env e (scan_failed_event name scan) b (b\<lparr>sbOK := False, sbFailureHandled := True\<rparr>) s = Some (b', accepted, s')"
      by (simp add: scan_step_def handleScanFailed_def)
    then obtain ok where r: "b' = (if ok then b\<lparr>sbOK := False, sbFailureHandled := True\<rparr> else b)"
      "edge_outcome env e (Some (scan_failed_event name scan)) s ok accepted s'" by (rule submit_edge_cases)
    have "scan_watch_of b = Up" "scan_reading terminal = Bad" "scan_edge_event name terminal Failure = Some (scan_failed_event name scan)"
      using failed by (simp_all add: reading)
    with r failed show ?thesis by (intro conjI exI [of _ ok]) (simp_all add: scan_fresh_def scan_watch_of_def)
  next
    case recovered
    with assms Some have "submit_edge env e (scan_recovered_event name scan) b (b\<lparr>sbOK := True, sbFailureHandled := False\<rparr>) s = Some (b', accepted, s')"
      by (simp add: scan_step_def handleScanRecovered_def)
    then obtain ok where r: "b' = (if ok then b\<lparr>sbOK := True, sbFailureHandled := False\<rparr> else b)"
      "edge_outcome env e (Some (scan_recovered_event name scan)) s ok accepted s'" by (rule submit_edge_cases)
    have "scan_watch_of b = DownHandled" "scan_reading terminal = Good" "scan_edge_event name terminal Recovery = Some (scan_recovered_event name scan)"
      using recovered by (simp_all add: reading)
    with r recovered show ?thesis by (intro conjI exI [of _ ok]) (simp_all add: scan_fresh_def scan_watch_of_def)
  qed
qed

section \<open>The producers provide the interface\<close>

definition agent_kind :: "edge \<Rightarrow> string" where
  "agent_kind edge = (case edge of Failure \<Rightarrow> alertKindAgentOffline | Recovery \<Rightarrow> alertKindAgentRecovery)"

definition scan_kind :: "edge \<Rightarrow> string" where
  "scan_kind edge = (case edge of Failure \<Rightarrow> alertKindScanFailure | Recovery \<Rightarrow> alertKindScanRecovery)"

lemma agent_edge_fields:
  "agent_edge_event target reported edge = Some ev \<Longrightarrow> evKind ev = agent_kind edge \<and> evAgent ev = target \<and> evRepository ev = []"
  by (cases edge) (auto simp: agent_edge_event_def agent_kind_def split: option.splits)

lemma scan_edge_fields:
  "scan_edge_event name terminal edge = Some ev \<Longrightarrow> evKind ev = scan_kind edge \<and> evRepository ev = name \<and> evAgent ev = []"
  by (cases edge) (auto simp: scan_edge_event_def scan_kind_def)

lemma edge_outcome_accepted:
  "edge_outcome env e request s ok accepted s' \<Longrightarrow> accepted = (if ok then [the request] else []) \<and> (ok \<longrightarrow> request \<noteq> None)"
  by (auto simp: edge_outcome_def split: option.splits)

interpretation agents: edge_watch agent_watch_of agent_fresh "\<lambda>(env, now, e, target, reported). agent_reading now reported" agent_kind
  "\<lambda>(env, now, e, target, reported). agent_step env now e target reported"
proof
  fix i b s b' accepted s'
  assume fresh: "agent_fresh b"
    and run: "(case i of (env, now, e, target, reported) \<Rightarrow> agent_step env now e target reported) b s = Some (b', accepted, s')"
  obtain env now e target reported where i: "i = (env, now, e, target, reported)" by (cases i)
  with run have "agent_step env now e target reported b s = Some (b', accepted, s')" by simp
  from agent_refines [OF fresh this] show "agent_fresh b' \<and> (\<exists>ok. agent_watch_of b' =
      edge_next (agent_watch_of b) (case i of (env, now, e, target, reported) \<Rightarrow> agent_reading now reported) ok \<and>
      map evKind accepted = (case edge_request (agent_watch_of b) (case i of (env, now, e, target, reported) \<Rightarrow> agent_reading now reported) of
        Some edge \<Rightarrow> if ok then [agent_kind edge] else [] | None \<Rightarrow> []))"
    unfolding i using agent_edge_fields [of target reported "the (edge_request (agent_watch_of b) (agent_reading now reported))"] by (cases "edge_request (agent_watch_of b) (agent_reading now reported)") (fastforce dest: edge_outcome_accepted)+
qed

interpretation scans: edge_watch scan_watch_of scan_fresh "\<lambda>(env, e, name, terminal). scan_reading terminal" scan_kind
  "\<lambda>(env, e, name, terminal). scan_step env e name terminal"
proof
  fix i b s b' accepted s'
  assume fresh: "scan_fresh b"
    and run: "(case i of (env, e, name, terminal) \<Rightarrow> scan_step env e name terminal) b s = Some (b', accepted, s')"
  obtain env e name terminal where i: "i = (env, e, name, terminal)" by (cases i)
  with run have "scan_step env e name terminal b s = Some (b', accepted, s')" by simp
  from scan_refines [OF fresh this] show "scan_fresh b' \<and> (\<exists>ok. scan_watch_of b' =
      edge_next (scan_watch_of b) (case i of (env, e, name, terminal) \<Rightarrow> scan_reading terminal) ok \<and>
      map evKind accepted = (case edge_request (scan_watch_of b) (case i of (env, e, name, terminal) \<Rightarrow> scan_reading terminal) of
        Some edge \<Rightarrow> if ok then [scan_kind edge] else [] | None \<Rightarrow> []))"
    unfolding i using scan_edge_fields [of name terminal "the (edge_request (scan_watch_of b) (scan_reading terminal))"] by (cases "edge_request (scan_watch_of b) (scan_reading terminal)") (fastforce dest: edge_outcome_accepted)+
qed

section \<open>Runs of the evaluator\<close>

definition agent_kinds :: "alertEvaluator \<Rightarrow> string \<Rightarrow> string list" where
  "agent_kinds e target = map evKind (filter (\<lambda>ev. evAgent ev = target) (aeAccepted e))"

definition scan_kinds :: "alertEvaluator \<Rightarrow> string \<Rightarrow> string list" where
  "scan_kinds e name = map evKind (filter (\<lambda>ev. evRepository ev = name) (aeAccepted e))"

definition evaluator_ok :: "alertEvaluator \<Rightarrow> bool" where
  "evaluator_ok e \<longleftrightarrow>
     (\<forall>target. target \<noteq> [] \<longrightarrow> agents.log_ok (agent_baseline e target) (agent_kinds e target)) \<and>
     (\<forall>name. name \<noteq> [] \<longrightarrow> scans.log_ok (scan_baseline e name) (scan_kinds e name))"

lemma agent_accepted:
  assumes "agent_fresh b" "agent_step env now e target reported b s = Some (b', accepted, s')"
  shows "\<forall>ev \<in> set accepted. evAgent ev = target \<and> evRepository ev = []"
proof (cases "edge_request (agent_watch_of b) (agent_reading now reported)")
  case None
  with agent_refines [OF assms] show ?thesis by auto
next
  case (Some edge)
  with agent_refines [OF assms] obtain ok where "edge_outcome env e (agent_edge_event target reported edge) s ok accepted s'" by auto
  from edge_outcome_accepted [OF this] show ?thesis using agent_edge_fields [of target reported edge] by auto
qed

lemma scan_accepted:
  assumes "scan_fresh b" "scan_step env e name terminal b s = Some (b', accepted, s')"
  shows "\<forall>ev \<in> set accepted. evRepository ev = name \<and> evAgent ev = []"
proof (cases "edge_request (scan_watch_of b) (scan_reading terminal)")
  case None
  with scan_refines [OF assms] show ?thesis by auto
next
  case (Some edge)
  with scan_refines [OF assms] obtain ok where "edge_outcome env e (scan_edge_event name terminal edge) s ok accepted s'" by auto
  from edge_outcome_accepted [OF this] show ?thesis using scan_edge_fields [of name terminal edge] by auto
qed

lemma filter_none: "\<forall>x \<in> set xs. \<not> P x \<Longrightarrow> filter P xs = []"
  by simp

lemma filter_whole: "\<forall>x \<in> set xs. P x \<Longrightarrow> filter P xs = xs"
  by simp

lemma evaluateAgent_ok:
  assumes "evaluator_ok e" "target \<noteq> []" "evaluateAgent env now target reported (e, s) = Some (e', s')"
  shows "evaluator_ok e'"
proof -
  obtain b accepted where step: "agent_step env now e target reported (agent_baseline e target) s = Some (b, accepted, s')"
    and e': "e' = e\<lparr>aeAgents := (aeAgents e)(target \<mapsto> b), aeAccepted := aeAccepted e @ accepted\<rparr>"
    using assms(3) by (auto simp: evaluateAgent_def)
  have log: "agents.log_ok (agent_baseline e target) (agent_kinds e target)" using assms(1,2) by (simp add: evaluator_ok_def)
  then have "agent_fresh (agent_baseline e target)" by (simp add: agents.log_ok_def)
  from agent_accepted [OF this step] have acc: "\<forall>ev \<in> set accepted. evAgent ev = target \<and> evRepository ev = []" .
  have new: "agents.log_ok b (agent_kinds e target @ map evKind accepted)"
    by (rule agents.log_step [OF log, where i = "(env, now, e, target, reported)"]) (use step in simp)
  have base: "agent_baseline e' target = b" "\<And>t. t \<noteq> target \<Longrightarrow> agent_baseline e' t = agent_baseline e t" "scan_baseline e' = scan_baseline e"
    by (auto simp: e' agent_baseline_def scan_baseline_def fun_eq_iff)
  have "agent_kinds e' target = agent_kinds e target @ map evKind accepted" using acc by (simp add: agent_kinds_def e' filter_whole)
  moreover have "agent_kinds e' t = agent_kinds e t" if "t \<noteq> target" for t
    using acc that by (auto simp: agent_kinds_def e' intro!: filter_none)
  moreover have "scan_kinds e' n = scan_kinds e n" if "n \<noteq> []" for n
    using acc that by (auto simp: scan_kinds_def e' intro!: filter_none)
  ultimately show ?thesis using assms(1) new base unfolding evaluator_ok_def by metis
qed

lemma evaluateScan_ok:
  assumes "evaluator_ok e" "name \<noteq> []" "evaluateScan env name terminal (e, s) = Some (e', s')"
  shows "evaluator_ok e'"
proof -
  obtain b accepted where step: "scan_step env e name terminal (scan_baseline e name) s = Some (b, accepted, s')"
    and e': "e' = e\<lparr>aeScans := (aeScans e)(name \<mapsto> b), aeAccepted := aeAccepted e @ accepted\<rparr>"
    using assms(3) by (auto simp: evaluateScan_def)
  have log: "scans.log_ok (scan_baseline e name) (scan_kinds e name)" using assms(1,2) by (simp add: evaluator_ok_def)
  then have "scan_fresh (scan_baseline e name)" by (simp add: scans.log_ok_def)
  from scan_accepted [OF this step] have acc: "\<forall>ev \<in> set accepted. evRepository ev = name \<and> evAgent ev = []" .
  have new: "scans.log_ok b (scan_kinds e name @ map evKind accepted)"
    by (rule scans.log_step [OF log, where i = "(env, e, name, terminal)"]) (use step in simp)
  have base: "scan_baseline e' name = b" "\<And>t. t \<noteq> name \<Longrightarrow> scan_baseline e' t = scan_baseline e t" "agent_baseline e' = agent_baseline e"
    by (auto simp: e' agent_baseline_def scan_baseline_def fun_eq_iff)
  have "scan_kinds e' name = scan_kinds e name @ map evKind accepted" using acc by (simp add: scan_kinds_def e' filter_whole)
  moreover have "scan_kinds e' t = scan_kinds e t" if "t \<noteq> name" for t
    using acc that by (auto simp: scan_kinds_def e' intro!: filter_none)
  moreover have "agent_kinds e' n = agent_kinds e n" if "n \<noteq> []" for n
    using acc that by (auto simp: agent_kinds_def e' intro!: filter_none)
  ultimately show ?thesis using assms(1) new base unfolding evaluator_ok_def by metis
qed

lemma eval_loop_inv:
  assumes "\<And>i name st st'. name \<in> set names \<Longrightarrow> P st \<Longrightarrow> step i name st = Some st' \<Longrightarrow> P st'"
  shows "P st \<Longrightarrow> eval_loop ended step i names st = Some st' \<Longrightarrow> P st'"
  using assms by (induction ended step i names st rule: eval_loop.induct) (auto split: if_splits option.splits)

lemma evaluateAgents_ok:
  assumes "evaluator_ok (fst st)" "evaluateAgents ee db st = Some st'"
  shows "evaluator_ok (fst st')"
proof (cases "configuredAgentTargets (aeDocker (fst st)) = [] \<or> eeAgentsDone ee \<or> eeAgentsFail ee")
  case False
  with assms(2) have run: "eval_loop (eeAgentDone ee) (\<lambda>i target. evaluateAgent (eeAgentTx ee i) (eeAgentNow ee i) target (by_target (Agents db) target)) 0
      (configuredAgentTargets (aeDocker (fst st))) st = Some st'" by (simp add: evaluateAgents_def)
  show ?thesis
    by (rule eval_loop_inv [where P = "\<lambda>st. evaluator_ok (fst st)", OF _ assms(1) run])
      (auto simp: configuredAgentTargets_def dest: evaluateAgent_ok)
qed (use assms in \<open>auto simp: evaluateAgents_def\<close>)

lemma evaluateScans_ok:
  assumes "evaluator_ok (fst st)" "evaluateScans ee db st = Some st'"
  shows "evaluator_ok (fst st')"
proof (cases "configuredRepositoryNames (aeRepositories (fst st)) = [] \<or> eeScansDone ee \<or> eeScansFail ee")
  case False
  with assms(2) have run: "eval_loop (eeScanDone ee) (\<lambda>i name. evaluateScan (eeScanTx ee i) name
      (LatestTerminalScansByRepository db (configuredRepositoryNames (aeRepositories (fst st))) name)) 0
      (configuredRepositoryNames (aeRepositories (fst st))) st = Some st'" by (simp add: evaluateScans_def Let_def)
  show ?thesis
    by (rule eval_loop_inv [where P = "\<lambda>st. evaluator_ok (fst st)", OF _ assms(1) run])
      (auto simp: configuredRepositoryNames_def dest: evaluateScan_ok)
qed (use assms in \<open>auto simp: evaluateScans_def\<close>)

lemma evaluate_ok:
  assumes "evaluator_ok e" "evaluate ee e db = Some (e', db')"
  shows "evaluator_ok e'"
  using assms by (auto simp: evaluate_def split: option.splits if_splits dest!: evaluateAgents_ok [rotated] evaluateScans_ok [rotated])

inductive evaluator_step :: "alertEvaluator \<times> DashDB \<Rightarrow> alertEvaluator \<times> DashDB \<Rightarrow> bool" where
  evaluation: "evaluate ee e db = Some (e', db') \<Longrightarrow> evaluator_step (e, db) (e', db')"
| elsewhere: "evaluator_step (e, db) (e, db')"

lemma new_evaluator_ok: "evaluator_ok (newAlertEvaluator cfg)"
  by (simp add: evaluator_ok_def agents.log_ok_def scans.log_ok_def newAlertEvaluator_def agent_baseline_def scan_baseline_def
      agent_kinds_def scan_kinds_def agent_fresh_def scan_fresh_def agent_watch_of_def scan_watch_of_def)

lemma evaluator_reach_ok:
  assumes "evaluator_step\<^sup>*\<^sup>* (newAlertEvaluator cfg, db0) (e, db)"
  shows "evaluator_ok e"
  using assms
proof (induction "(e, db)" arbitrary: e db rule: rtranclp_induct)
  case base
  show ?case by (rule new_evaluator_ok)
next
  case (step mid)
  obtain e1 db1 where mid: "mid = (e1, db1)" by (cases mid)
  with step show ?case by (auto elim!: evaluator_step.cases dest: evaluate_ok)
qed

section \<open>Properties\<close>

text \<open>C10: the evaluation of one agent refines the machine of edges, in every reached state of the evaluator: the
  state of the agent moves as the machine says, nothing is enqueued unless the machine requests an edge, the
  event of a requested edge is handed to the store once, its edge counts as handled exactly when the store
  accepted it, and no other agent or repository is touched.\<close>

theorem agents_follow_edges:
  assumes "evaluator_step\<^sup>*\<^sup>* (newAlertEvaluator cfg, db0) (e, db)" and "target \<noteq> []"
    and "evaluateAgent env now target reported (e, s) = Some (e', s')"
  shows "\<exists>ok accepted. agent_watch_of (agent_baseline e' target) =
      edge_next (agent_watch_of (agent_baseline e target)) (agent_reading now reported) ok \<and>
    aeAccepted e' = aeAccepted e @ accepted \<and>
    (case edge_request (agent_watch_of (agent_baseline e target)) (agent_reading now reported) of
       None \<Rightarrow> accepted = [] \<and> s' = s
     | Some edge \<Rightarrow> edge_outcome env e (agent_edge_event target reported edge) s ok accepted s') \<and>
    (\<forall>other. other \<noteq> target \<longrightarrow> agent_baseline e' other = agent_baseline e other) \<and> scan_baseline e' = scan_baseline e"
proof -
  obtain b accepted where step: "agent_step env now e target reported (agent_baseline e target) s = Some (b, accepted, s')"
    and e': "e' = e\<lparr>aeAgents := (aeAgents e)(target \<mapsto> b), aeAccepted := aeAccepted e @ accepted\<rparr>"
    using assms(3) by (auto simp: evaluateAgent_def)
  have fresh: "agent_fresh (agent_baseline e target)"
    using evaluator_reach_ok [OF assms(1)] assms(2) by (simp add: evaluator_ok_def agents.log_ok_def)
  have "agent_baseline e' target = b" "\<forall>other. other \<noteq> target \<longrightarrow> agent_baseline e' other = agent_baseline e other"
    "scan_baseline e' = scan_baseline e" "aeAccepted e' = aeAccepted e @ accepted"
    by (auto simp: e' agent_baseline_def scan_baseline_def fun_eq_iff)
  with agent_refines [OF fresh step] show ?thesis by blast
qed

text \<open>C11: over any run of the evaluator, whatever happens to the database between evaluations and whichever reads
  and enqueues fail, the events accepted for an agent are offline, recovery, offline, and so on, those for a
  repository failure, recovery, failure, and so on: no recovery without a reported failure, and no failure
  reported twice in a row.\<close>

theorem reported_edges_alternate:
  assumes "evaluator_step\<^sup>*\<^sup>* (newAlertEvaluator cfg, db0) (e, db)" and "target \<noteq> []" and "name \<noteq> []"
  shows "alternating alertKindAgentOffline alertKindAgentRecovery (agent_kinds e target) \<and>
    alternating alertKindScanFailure alertKindScanRecovery (scan_kinds e name)"
  using evaluator_reach_ok [OF assms(1)] assms(2,3)
  by (simp add: evaluator_ok_def agents.log_ok_def scans.log_ok_def agent_kind_def scan_kind_def)

section \<open>A run\<close>

definition demo_ha :: Store where "demo_ha = demo_empty\<lparr>alertSinkNames := [''ha'']\<rparr>"

definition demo_agent_row :: AgentRow where
  "demo_agent_row = \<lparr>arTarget = ''nas'', arLastSeenAt = ''2024-12-31T23:59:00Z'', arStaleAfter = ''2025-01-01T00:00:00Z'', arContainers = []\<rparr>"

definition demo_agents_db :: DashDB where
  "demo_agents_db = (new_dash \<lparr>hdStore = demo_ha, hdConfig = \<lparr>hcEnabled = False, hcSinks = [], hcDebounce = 0, hcCooldown = 0,
     hcStabilitySamples = 0\<rparr>, hdStatuses = [], hdStates = (\<lambda>_. None), hdIncarnations = (\<lambda>_. None)\<rparr>)\<lparr>dbAgents := [demo_agent_row]\<rparr>"

definition demo_eval :: "gotime \<Rightarrow> eval_env" where
  "demo_eval now = \<lparr>eeAgentsDone = False, eeAgentsFail = False, eeAgentDone = (\<lambda>_. False), eeAgentNow = (\<lambda>_. now),
     eeAgentTx = (\<lambda>_. demo_run_env), eeBetweenDone = True, eeScansDone = False, eeScansFail = False, eeScanDone = (\<lambda>_. False),
     eeScanTx = (\<lambda>_. demo_run_env)\<rparr>"

abbreviation demo_evaluator :: alertEvaluator where "demo_evaluator \<equiv> newAlertEvaluator demo_resolved"

definition demo_watching :: alertEvaluator where
  "demo_watching = demo_evaluator\<lparr>aeAgents := [''nas'' \<mapsto> \<lparr>abEstablished = True, abOnline = True, abOfflineHandled = False\<rparr>]\<rparr>"

lemma demo_targets: "configuredAgentTargets (aeDocker demo_evaluator) = [''nas'']" "aeSinks demo_evaluator = [''ha'']"
  "aeCooldown demo_evaluator = 5 * Minute" "parse_RFC3339 ''2025-01-01T00:00:00Z'' = Some 1735689600000000000"
  by code_simp+

lemma demo_agent: "by_target (Agents demo_agents_db) ''nas'' =
    Some \<lparr>agTarget = ''nas'', agLastSeenAt = ''2024-12-31T23:59:00Z'', agStaleAfter = ''2025-01-01T00:00:00Z'', agConfigured = False, agContainers = []\<rparr>"
  by (simp add: by_target_def Agents_def agent_info_def demo_agents_db_def new_dash_def demo_agent_row_def)

lemma demo_evaluation:
  "configuredAgentTargets (aeDocker e) = [''nas''] \<Longrightarrow> evaluate (demo_eval now) e demo_agents_db =
     map_option (\<lambda>(e', s'). (e', set_store s' demo_agents_db))
       (evaluateAgent demo_run_env now ''nas'' (by_target (Agents demo_agents_db) ''nas'') (e, demo_ha))"
  by (cases "evaluateAgent demo_run_env now ''nas'' (by_target (Agents demo_agents_db) ''nas'') (e, demo_ha)")
    (simp_all add: evaluate_def evaluateAgents_def demo_eval_def Let_def demo_agents_db_def new_dash_def split: prod.split)

lemma demo_first_evaluation: "evaluator_step (demo_evaluator, demo_agents_db) (demo_watching, demo_agents_db)"
proof -
  have "set_store demo_ha demo_agents_db = demo_agents_db" by (simp add: set_store_def demo_agents_db_def new_dash_def)
  then have "evaluate (demo_eval 0) demo_evaluator demo_agents_db = Some (demo_watching, demo_agents_db)"
    by (simp add: demo_evaluation demo_targets demo_agent evaluateAgent_def agent_step_def)
      (simp add: demo_watching_def newAlertEvaluator_def agent_baseline_def)
  then show ?thesis by (rule evaluator_step.evaluation)
qed

definition demo_offline :: AlertEvent where "demo_offline = offline_event ''nas'' 1735689600000000000"

lemma demo_offline_texts:
  "TrimSpace (RedactWith (evKind demo_offline) []) = ''agent.offline''" "TrimSpace (RedactWith (evAgent demo_offline) []) = ''nas''"
  "TrimSpace (RedactWith (evOldState demo_offline) []) = ''online''" "TrimSpace (RedactWith (evNewState demo_offline) []) = ''offline''"
  "TrimSpace (evDedupeKey demo_offline) \<noteq> []" "evStatus demo_offline = []" "TrimSpace ''ha'' = ''ha''" "RedactWith ''ha'' [] = ''ha''"
  by code_simp+

lemma demo_offline_accepted:
  "\<exists>s x. EnqueueAlertEvent demo_run_env demo_offline [''ha''] (5 * Minute) demo_ha = Some (s, Inr x)"
proof -
  have r: "redact demo_ha v = RedactWith v []" for v by (simp add: redact_def demo_ha_def demo_empty_def)
  have "prepareAlertSinks demo_ha [''ha''] = Inr [''ha'']"
    by (simp add: prepareAlertSinks_def checked_sink_def validateAlertSinkIdentity_def r demo_offline_texts Let_def dedup_by_def)
      (simp add: demo_ha_def)
  then obtain ev where p: "prepare_enqueue now demo_ha demo_offline [''ha''] = Inr (ev now, [''ha''])" for now
  proof -
    have "\<exists>ev. prepare_enqueue now demo_ha demo_offline [''ha''] = Inr (ev, [''ha''])" for now
      using \<open>prepareAlertSinks demo_ha [''ha''] = Inr [''ha'']\<close>
      by (simp add: prepare_enqueue_def prepareAlertEvent_def Let_def r demo_offline_texts)
    then show thesis using that by metis
  qed
  have inv: "alert_inv demo_ha" by (rule empty_tables_inv) (simp add: empty_tables_def demo_ha_def demo_empty_def)
  have key: "ensureAlertDedupeKeyCurrent demo_ha = (demo_ha, None)"
    by (rule ensure_cong [OF _ _ _ demo_key(1)]) (simp_all add: demo_ha_def)
  have "EnqueueAlertEvent demo_run_env demo_offline [''ha''] (5 * Minute) demo_ha =
      Some (tx_attempt demo_run_env (enqueueAlertEventOnce demo_offline [''ha''] (5 * Minute)) 0 demo_ha)"
    unfolding EnqueueAlertEvent_def
    by (rule alert_tx_first) (simp_all add: ensureAlertStateUnlocked_def alertStateLockMessage_def demo_ha_def demo_empty_def demo_run_env_def)
  moreover obtain u x ins where "enqueueAlertEventOnce demo_offline [''ha''] (5 * Minute) (txNow demo_run_env 0) demo_ha = (u, Inr (x, ins))"
    using enqueue_total [OF inv p key] by blast
  ultimately show ?thesis by (simp add: tx_attempt_def demo_run_env_def)
qed

lemma demo_second_evaluation:
  obtains s where "evaluateAgent demo_run_env 2000000000000000000 ''nas'' (by_target (Agents demo_agents_db) ''nas'') (demo_watching, demo_ha) =
      Some (demo_watching\<lparr>aeAgents := [''nas'' \<mapsto> \<lparr>abEstablished = True, abOnline = False, abOfflineHandled = True\<rparr>],
        aeAccepted := [demo_offline]\<rparr>, s)"
proof -
  obtain s x where sx: "EnqueueAlertEvent demo_run_env demo_offline [''ha''] (5 * Minute) demo_ha = Some (s, Inr x)"
    using demo_offline_accepted by blast
  have w: "agent_baseline demo_watching ''nas'' = \<lparr>abEstablished = True, abOnline = True, abOfflineHandled = False\<rparr>"
    "aeSinks demo_watching = [''ha'']" "aeCooldown demo_watching = 5 * Minute" "aeAccepted demo_watching = []"
    "(aeAgents demo_watching)(''nas'' \<mapsto> b) = [''nas'' \<mapsto> b]" for b
    by (simp_all add: demo_watching_def agent_baseline_def demo_targets newAlertEvaluator_def [where cfg = demo_resolved, THEN arg_cong [where f = aeAccepted]])
  have "evaluateAgent demo_run_env 2000000000000000000 ''nas'' (by_target (Agents demo_agents_db) ''nas'') (demo_watching, demo_ha) =
      Some (demo_watching\<lparr>aeAgents := [''nas'' \<mapsto> \<lparr>abEstablished = True, abOnline = False, abOfflineHandled = True\<rparr>],
        aeAccepted := [demo_offline]\<rparr>, s)"
    by (simp add: evaluateAgent_def agent_step_def demo_agent demo_targets w handleAgentOffline_def submit_edge_def
        sx [unfolded demo_offline_def] demo_offline_def)
  with that show thesis by blast
qed

theorem agents_follow_edges_witness:
  "\<exists>e s. evaluateAgent demo_run_env 2000000000000000000 ''nas'' (by_target (Agents demo_agents_db) ''nas'') (demo_watching, demo_ha) = Some (e, s) \<and>
     scan_baseline e = scan_baseline demo_watching"
proof -
  obtain e s where 1: "evaluateAgent demo_run_env 2000000000000000000 ''nas'' (by_target (Agents demo_agents_db) ''nas'') (demo_watching, demo_ha) = Some (e, s)"
    by (rule demo_second_evaluation) blast
  have "evaluator_step\<^sup>*\<^sup>* (demo_evaluator, demo_agents_db) (demo_watching, demo_agents_db)" using demo_first_evaluation by blast
  from agents_follow_edges [OF this _ 1] 1 show ?thesis by auto
qed

theorem reported_edges_alternate_witness:
  "\<exists>e db. evaluator_step\<^sup>*\<^sup>* (demo_evaluator, demo_agents_db) (e, db) \<and> agent_kinds e ''nas'' = [alertKindAgentOffline] \<and>
     alternating alertKindAgentOffline alertKindAgentRecovery (agent_kinds e ''nas'')"
proof -
  obtain s where 2: "evaluateAgent demo_run_env 2000000000000000000 ''nas'' (by_target (Agents demo_agents_db) ''nas'') (demo_watching, demo_ha) =
      Some (demo_watching\<lparr>aeAgents := [''nas'' \<mapsto> \<lparr>abEstablished = True, abOnline = False, abOfflineHandled = True\<rparr>],
        aeAccepted := [demo_offline]\<rparr>, s)" by (rule demo_second_evaluation)
  let ?e = "demo_watching\<lparr>aeAgents := [''nas'' \<mapsto> \<lparr>abEstablished = True, abOnline = False, abOfflineHandled = True\<rparr>], aeAccepted := [demo_offline]\<rparr>"
  have "configuredAgentTargets (aeDocker demo_watching) = [''nas'']" using demo_targets(1) by (simp add: demo_watching_def)
  from demo_evaluation [OF this] 2 have "evaluate (demo_eval 2000000000000000000) demo_watching demo_agents_db = Some (?e, set_store s demo_agents_db)"
    by simp
  then have "evaluator_step (demo_watching, demo_agents_db) (?e, set_store s demo_agents_db)" by (rule evaluator_step.evaluation)
  with demo_first_evaluation have run: "evaluator_step\<^sup>*\<^sup>* (demo_evaluator, demo_agents_db) (?e, set_store s demo_agents_db)" by (meson converse_rtranclp_into_rtranclp r_into_rtranclp)
  have "agent_kinds ?e ''nas'' = [alertKindAgentOffline]" by (simp add: agent_kinds_def demo_offline_def)
  with run reported_edges_alternate [OF run, of "''nas''" "''infra''"] show ?thesis by blast
qed

end
