(* ===== verification/AlertWorker.thy ===== *)
theory AlertWorker
  imports AppConfig
begin

text \<open>
  The alert worker, \<open>internal/alerter\<close>: the sinks with their filters and messages, what one delivery
  does, the polls and the retention runs. The template engine, the HTTP exchange and the random part of the
  worker id are arguments; a JSON body is the value that is encoded.
\<close>

section \<open>Messages\<close>

record EventPayload =
  pyEventID :: int
  pyKind :: string
  pyServiceID :: string
  pyTarget :: string
  pyRepository :: string
  pyAgent :: string
  pyOldState :: string
  pyNewState :: string
  pyReason :: string
  pyOccurredAt :: gotime

definition newEventPayload :: "AlertEvent \<Rightarrow> EventPayload" where
  "newEventPayload event =
     \<lparr>pyEventID = evID event, pyKind = evKind event, pyServiceID = evServiceID event, pyTarget = evTarget event,
      pyRepository = evRepository event, pyAgent = evAgent event, pyOldState = evOldState event,
      pyNewState = evNewState event, pyReason = evReason event, pyOccurredAt = evCreatedAt event\<rparr>"

definition Subject :: "EventPayload \<Rightarrow> string" where
  "Subject p =
     (if pyServiceID p \<noteq> [] then pyServiceID p
      else if pyTarget p \<noteq> [] then pyTarget p
      else if pyRepository p \<noteq> [] then pyRepository p
      else if pyAgent p \<noteq> [] then pyAgent p
      else ''gitops-dashboard'')"

definition IsRecovery :: "EventPayload \<Rightarrow> bool" where
  "IsRecovery p = HasSuffix (pyKind p) ''.recovery''"

definition payload_Summary :: "EventPayload \<Rightarrow> string" where
  "payload_Summary p =
     (if IsRecovery p \<and> pyOldState p \<noteq> [] then Subject p @ '' recovered ('' @ pyOldState p @ '' -> '' @ pyNewState p @ '')''
      else if IsRecovery p then Subject p @ '' recovered''
      else if pyOldState p \<noteq> [] \<and> pyNewState p \<noteq> [] then Subject p @ '': '' @ pyOldState p @ '' -> '' @ pyNewState p
      else if pyNewState p \<noteq> [] then Subject p @ '': '' @ pyNewState p
      else Subject p @ '': '' @ pyKind p)"

definition red_circle :: string where "red_circle = [CHR 0xF0, CHR 0x9F, CHR 0x94, CHR 0xB4]"
definition check_mark :: string where "check_mark = [CHR 0xE2, CHR 0x9C, CHR 0x85]"
definition right_arrow :: string where "right_arrow = [CHR 0xE2, CHR 0x86, CHR 0x92]"

definition discordContent :: "EventPayload \<Rightarrow> string" where
  "discordContent p = Join
     ([(if IsRecovery p then check_mark else red_circle) @ '' **'' @ Subject p @ ''**''] @
      (if pyOldState p \<noteq> [] \<and> pyNewState p \<noteq> [] then [pyOldState p @ '' '' @ right_arrow @ '' '' @ pyNewState p]
       else if pyNewState p \<noteq> [] then [pyNewState p] else []) @
      (if pyReason p \<noteq> [] then [pyReason p] else []) @
      [''_'' @ pyKind p @ '' at '' @ RFC3339 (pyOccurredAt p) @ ''_'']) [CHR 0x0A]"

section \<open>Sinks\<close>

record sinkFilters =
  sfInclude :: AlertSinkFilterConfig
  sfExclude :: AlertSinkFilterConfig

definition stringInList :: "string list \<Rightarrow> string \<Rightarrow> bool" where
  "stringInList xs v \<longleftrightarrow> v \<noteq> [] \<and> v \<in> set xs"

definition filters_match :: "sinkFilters \<Rightarrow> AlertEvent \<Rightarrow> bool" where
  "filters_match f event =
     (if stringInList (fcServices (sfExclude f)) (evServiceID event) \<or> stringInList (fcTargets (sfExclude f)) (evTarget event) then False
      else if fcServices (sfInclude f) \<noteq> [] \<and> \<not> stringInList (fcServices (sfInclude f)) (evServiceID event) then False
      else if fcTargets (sfInclude f) \<noteq> [] \<and> \<not> stringInList (fcTargets (sfInclude f)) (evTarget event) then False
      else True)"

record baseSink =
  bkName :: string
  bkTimeout :: duration
  bkFilters :: sinkFilters

text \<open>\<open>Rendered\<close> holds the text of an executed template, the other bodies the encoded value.\<close>

datatype body = Rendered string | DiscordMessage string | PayloadJSON EventPayload

record Request =
  rqMethod :: string
  rqURL :: string
  rqHeaders :: "(string \<times> string) list"
  rqBody :: body

type_synonym template = "EventPayload \<Rightarrow> string option"

datatype Sink =
    WebhookSink baseSink string string "(string \<times> string) list" template
  | DiscordSink baseSink string
  | HomeAssistantSink baseSink string string

fun sink_base :: "Sink \<Rightarrow> baseSink" where
  "sink_base (WebhookSink b m u h t) = b"
| "sink_base (DiscordSink b u) = b"
| "sink_base (HomeAssistantSink b u t) = b"

abbreviation sink_Name :: "Sink \<Rightarrow> string" where "sink_Name s \<equiv> bkName (sink_base s)"
abbreviation sink_Timeout :: "Sink \<Rightarrow> duration" where "sink_Timeout s \<equiv> bkTimeout (sink_base s)"
abbreviation sink_Matches :: "Sink \<Rightarrow> AlertEvent \<Rightarrow> bool" where "sink_Matches s \<equiv> filters_match (bkFilters (sink_base s))"

text \<open>\<open>Header.Set\<close> replaces the value of a header.\<close>

definition set_header :: "string \<times> string \<Rightarrow> (string \<times> string) list \<Rightarrow> (string \<times> string) list" where
  "set_header h hs = filter (\<lambda>x. fst x \<noteq> CanonicalMIMEHeaderKey (fst h)) hs @ [(CanonicalMIMEHeaderKey (fst h), snd h)]"

text \<open>
  \<open>send\<close> is the HTTP client within the deadline: the text of its error or the status of the response. A
  result of \<open>None\<close> is a delivery. A request needs a method of token characters and a URL that parses.
\<close>

definition exchange :: "(Request \<Rightarrow> string + int) \<Rightarrow> Request \<Rightarrow> string option" where
  "exchange send request =
     (if \<not> list_all header_byte (rqMethod request) \<or> url_Parse (rqURL request) = None then Some ''build request''
      else (case send request of
              Inl e \<Rightarrow> Some (''request failed: '' @ e)
            | Inr status \<Rightarrow> if status < 200 \<or> 300 \<le> status then Some (''unexpected status '' @ string_of_int status) else None))"

definition webhook_Deliver ::
  "(Request \<Rightarrow> string + int) \<Rightarrow> string \<Rightarrow> string \<Rightarrow> (string \<times> string) list \<Rightarrow> template \<Rightarrow> AlertEvent \<Rightarrow> string option" where
  "webhook_Deliver send sinkMethod url headers render event =
     (case render (newEventPayload event) of
        None \<Rightarrow> Some ''render body template''
      | Some text \<Rightarrow> exchange send
          \<lparr>rqMethod = sinkMethod, rqURL = url,
           rqHeaders = fold set_header headers [(''Content-Type'', ''application/json'')], rqBody = Rendered text\<rparr>)"

definition discord_Deliver :: "(Request \<Rightarrow> string + int) \<Rightarrow> string \<Rightarrow> AlertEvent \<Rightarrow> string option" where
  "discord_Deliver send url event = exchange send
     \<lparr>rqMethod = ''POST'', rqURL = url, rqHeaders = [(''Content-Type'', ''application/json'')],
      rqBody = DiscordMessage (discordContent (newEventPayload event))\<rparr>"

definition homeassistant_Deliver :: "(Request \<Rightarrow> string + int) \<Rightarrow> string \<Rightarrow> string \<Rightarrow> AlertEvent \<Rightarrow> string option" where
  "homeassistant_Deliver send url token event = exchange send
     \<lparr>rqMethod = ''POST'', rqURL = url,
      rqHeaders = [(''Content-Type'', ''application/json''), (''Authorization'', ''Bearer '' @ token)],
      rqBody = PayloadJSON (newEventPayload event)\<rparr>"

fun Deliver :: "(Request \<Rightarrow> string + int) \<Rightarrow> Sink \<Rightarrow> AlertEvent \<Rightarrow> string option" where
  "Deliver send (WebhookSink b m u hs t) event = webhook_Deliver send m u hs t event"
| "Deliver send (DiscordSink b u) event = discord_Deliver send u event"
| "Deliver send (HomeAssistantSink b u token) event = homeassistant_Deliver send u token event"

datatype worker_error = SinkConfigError string config_error | TemplateInvalid string | TemplateFails string

definition empty_payload :: EventPayload where
  "empty_payload = \<lparr>pyEventID = 0, pyKind = [], pyServiceID = [], pyTarget = [], pyRepository = [], pyAgent = [],
     pyOldState = [], pyNewState = [], pyReason = [], pyOccurredAt = zero_time\<rparr>"

text \<open>\<open>compile\<close> is the template parser; the text of the default template is \<open>dflt\<close>.\<close>

definition newWebhookSink :: "(string \<Rightarrow> template option) \<Rightarrow> string \<Rightarrow> WebhookAlertSinkConfig \<Rightarrow> worker_error + Sink" where
  "newWebhookSink compile dflt cfg =
     (case webhook_TimeoutDuration cfg of
        Inl e \<Rightarrow> Inl (SinkConfigError (wsName cfg) e)
      | Inr timeout \<Rightarrow>
         (let raw = TrimSpace (wsBodyTemplate cfg) in
          case compile (if raw = [] then dflt else raw) of
            None \<Rightarrow> Inl (TemplateInvalid (wsName cfg))
          | Some parsed \<Rightarrow>
              if parsed empty_payload = None then Inl (TemplateFails (wsName cfg))
              else Inr (WebhookSink
                \<lparr>bkName = wsName cfg, bkTimeout = timeout, bkFilters = \<lparr>sfInclude = wsInclude cfg, sfExclude = wsExclude cfg\<rparr>\<rparr>
                (wsMethod cfg) (wsURL cfg) (wsHeaders cfg) parsed)))"

definition newDiscordSink :: "DiscordAlertSinkConfig \<Rightarrow> worker_error + Sink" where
  "newDiscordSink cfg =
     (case discord_TimeoutDuration cfg of
        Inl e \<Rightarrow> Inl (SinkConfigError (diName cfg) e)
      | Inr timeout \<Rightarrow> Inr (DiscordSink
          \<lparr>bkName = diName cfg, bkTimeout = timeout, bkFilters = \<lparr>sfInclude = diInclude cfg, sfExclude = diExclude cfg\<rparr>\<rparr>
          (diWebhookURL cfg)))"

definition newHomeAssistantSink :: "HomeAssistantAlertSinkConfig \<Rightarrow> worker_error + Sink" where
  "newHomeAssistantSink cfg =
     (case homeassistant_TimeoutDuration cfg of
        Inl e \<Rightarrow> Inl (SinkConfigError (hsName cfg) e)
      | Inr timeout \<Rightarrow> Inr (HomeAssistantSink
          \<lparr>bkName = hsName cfg, bkTimeout = timeout, bkFilters = \<lparr>sfInclude = hsInclude cfg, sfExclude = hsExclude cfg\<rparr>\<rparr>
          (TrimRightChar (CHR ''/'') (hsBaseURL cfg) @ ''/api/webhook/'' @ PathEscape (hsWebhookID cfg)) (hsToken cfg)))"

definition put_sink :: "Sink \<Rightarrow> (string \<times> Sink) list \<Rightarrow> (string \<times> Sink) list" where
  "put_sink sink sinks = filter (\<lambda>x. fst x \<noteq> sink_Name sink) sinks @ [(sink_Name sink, sink)]"

definition add_sink :: "bool \<Rightarrow> worker_error + Sink \<Rightarrow> (string \<times> Sink) list \<Rightarrow> worker_error + (string \<times> Sink) list" where
  "add_sink enabled sink sinks = (if \<not> enabled then Inr sinks else bind_res sink (\<lambda>s. Inr (put_sink s sinks)))"

definition buildSinks :: "(string \<Rightarrow> template option) \<Rightarrow> string \<Rightarrow> AlertingConfig \<Rightarrow> worker_error + (string \<times> Sink) list" where
  "buildSinks compile dflt cfg =
     bind_res (add_sink (wsEnabled (alWebhook cfg)) (newWebhookSink compile dflt (alWebhook cfg)) [])
      (\<lambda>s1. bind_res (add_sink (diEnabled (alDiscord cfg)) (newDiscordSink (alDiscord cfg)) s1)
        (\<lambda>s2. add_sink (hsEnabled (alHomeAssistant cfg)) (newHomeAssistantSink (alHomeAssistant cfg)) s2))"

section \<open>The worker\<close>

definition defaultPollInterval :: duration where "defaultPollInterval = 5 * Second"
definition defaultClaimBatchSize :: int where "defaultClaimBatchSize = 20"
definition alertRetentionPruneTimeout :: duration where "alertRetentionPruneTimeout = 30 * Second"
definition defaultLeaseDuration :: duration where "defaultLeaseDuration = AlertDeliveryLeaseDuration"

record Worker =
  wkSinks :: "(string \<times> Sink) list"
  wkRetryPolicy :: AlertRetryPolicy
  wkPollInterval :: duration
  wkLeaseDuration :: duration
  wkClaimBatch :: int
  wkWorkerID :: string
  wkRetentionHorizon :: duration
  wkRetentionInterval :: duration
  wkRetentionBatch :: int

definition positive_or :: "duration \<Rightarrow> config_error + duration \<Rightarrow> duration" where
  "positive_or d r = (case r of Inl _ \<Rightarrow> d | Inr x \<Rightarrow> if 0 < x then x else d)"

definition worker_policy :: "AlertingConfig \<Rightarrow> AlertRetryPolicy" where
  "worker_policy cfg =
     (let d = DefaultAlertRetryPolicy in
      \<lparr>MaxAttempts = (if 0 < arcMaxAttempts (alRetry cfg) then arcMaxAttempts (alRetry cfg) else MaxAttempts d),
       InitialInterval = positive_or (InitialInterval d) (RetryInitialIntervalDuration cfg),
       MaxInterval = positive_or (MaxInterval d) (RetryMaxIntervalDuration cfg)\<rparr>)"

definition randomWorkerID :: "string \<Rightarrow> string \<Rightarrow> string \<Rightarrow> string" where
  "randomWorkerID host pid token =
     ''alerter-'' @ (if host = [] then ''gitops-dashboard'' else host) @ ''-'' @ pid @ ''-'' @ EncodeToString (bytes_of token)"

definition duration_or_zero :: "config_error + duration \<Rightarrow> duration" where
  "duration_or_zero r = (case r of Inl _ \<Rightarrow> 0 | Inr d \<Rightarrow> d)"

definition newWorker :: "(string \<Rightarrow> template option) \<Rightarrow> string \<Rightarrow> string \<Rightarrow> AlertingConfig \<Rightarrow> worker_error + Worker" where
  "newWorker compile dflt workerID cfg =
     bind_res (buildSinks compile dflt cfg)
       (\<lambda>sinks. Inr \<lparr>wkSinks = sinks, wkRetryPolicy = worker_policy cfg, wkPollInterval = defaultPollInterval,
          wkLeaseDuration = defaultLeaseDuration, wkClaimBatch = defaultClaimBatchSize, wkWorkerID = workerID,
          wkRetentionHorizon = duration_or_zero (RetentionHorizonDuration cfg),
          wkRetentionInterval = duration_or_zero (RetentionIntervalDuration cfg),
          wkRetentionBatch = (if atcBatchSize (alRetention cfg) \<le> 0 then DefaultAlertRetentionBatchSize else atcBatchSize (alRetention cfg))\<rparr>)"

definition worker_Enabled :: "Worker \<Rightarrow> bool" where "worker_Enabled w \<longleftrightarrow> wkSinks w \<noteq> []"

definition runs_retention :: "Worker \<Rightarrow> bool" where
  "runs_retention w \<longleftrightarrow> worker_Enabled w \<and> 0 < wkRetentionHorizon w \<and> 0 < wkRetentionInterval w"

section \<open>Deliveries\<close>

text \<open>\<open>complete\<close> only logs an error of the store.\<close>

definition complete_delivery :: "tx_env \<Rightarrow> Worker \<Rightarrow> AlertDelivery \<Rightarrow> string \<Rightarrow> string \<Rightarrow> Store \<Rightarrow> Store option" where
  "complete_delivery env w delivery status lastError store =
     map_option fst (RecordAlertDispatchResultWithRetryPolicy env (dID (delDispatch delivery)) (wkWorkerID w)
       (dClaimID (delDispatch delivery)) status lastError (wkRetryPolicy w) store)"

definition delivery_result :: "(Request \<Rightarrow> string + int) \<Rightarrow> Worker \<Rightarrow> AlertDelivery \<Rightarrow> string \<times> string" where
  "delivery_result send w delivery =
     (case map_of (wkSinks w) (dSink (delDispatch delivery)) of
        None \<Rightarrow> (AlertDispatchStatusSkipped, [])
      | Some sink \<Rightarrow>
          if \<not> sink_Matches sink (delEvent delivery) then (AlertDispatchStatusSkipped, [])
          else (case Deliver send sink (delEvent delivery) of
                  Some e \<Rightarrow> (AlertDispatchStatusPending, sink_Name sink @ '': '' @ e)
                | None \<Rightarrow> (AlertDispatchStatusDelivered, [])))"

definition deliverOne :: "(Request \<Rightarrow> string + int) \<Rightarrow> tx_env \<Rightarrow> Worker \<Rightarrow> AlertDelivery \<Rightarrow> Store \<Rightarrow> Store option" where
  "deliverOne send env w delivery store =
     (case delivery_result send w delivery of (status, lastError) \<Rightarrow> complete_delivery env w delivery status lastError store)"

text \<open>
  The deliveries of one batch run concurrently; each writes the store once, at its end. \<open>deliver_all\<close> is one
  order of these writes, with the transaction and the exchange of each delivery.
\<close>

fun deliver_all :: "Worker \<Rightarrow> ((Request \<Rightarrow> string + int) \<times> tx_env \<times> AlertDelivery) list \<Rightarrow> Store \<Rightarrow> Store option" where
  "deliver_all w [] store = Some store"
| "deliver_all w ((send, env, delivery) # rest) store =
     (case deliverOne send env w delivery store of None \<Rightarrow> None | Some s \<Rightarrow> deliver_all w rest s)"

definition poll_claim :: "tx_env \<Rightarrow> string \<Rightarrow> Worker \<Rightarrow> Store \<Rightarrow> (Store \<times> AlertDelivery list) option" where
  "poll_claim env claimID w store =
     (case ClaimPendingAlertDeliveriesWithRetryPolicy env (wkWorkerID w) claimID (wkLeaseDuration w) (wkClaimBatch w) (wkRetryPolicy w) store of
        None \<Rightarrow> None
      | Some (s, Inl _) \<Rightarrow> Some (s, [])
      | Some (s, Inr deliveries) \<Rightarrow> Some (s, deliveries))"

text \<open>\<open>sched\<close> chooses the order, the exchanges and the transactions of the claimed deliveries.\<close>

definition pollOnce ::
  "tx_env \<Rightarrow> string \<Rightarrow> (AlertDelivery list \<Rightarrow> ((Request \<Rightarrow> string + int) \<times> tx_env \<times> AlertDelivery) list) \<Rightarrow> Worker \<Rightarrow> Store \<Rightarrow> Store option" where
  "pollOnce env claimID sched w store =
     (case poll_claim env claimID w store of
        None \<Rightarrow> None | Some (s, deliveries) \<Rightarrow> deliver_all w (sched deliveries) s)"

definition pruneOnce :: "(nat \<Rightarrow> bool) \<Rightarrow> gotime \<Rightarrow> Worker \<Rightarrow> Store \<Rightarrow> Store" where
  "pruneOnce fails now w store = fst (PruneTerminalAlertEvents fails (wkRetentionHorizon w) (wkRetentionBatch w) now store)"

end
