(* ===== verification/WorkerProps.thy ===== *)
theory WorkerProps
  imports AlertWorker "HOL-Library.Multiset"
begin

text \<open>
  What the alert worker achieves: every due dispatch of a poll gets an attempt whose result is recorded, in
  whatever order and with whatever outcome the deliveries of the batch end, as long as the store works and
  each delivery ends within the lease.
\<close>

section \<open>A store that works\<close>

definition working :: "string \<Rightarrow> Store \<Rightarrow> bool" where
  "working workerID s \<longleftrightarrow> alert_inv s \<and> ensureAlertStateUnlocked s = None \<and>
     ensureAlertDedupeKeyCurrent s = (s, None) \<and> workerID \<noteq> [] \<and> TrimSpace (redact s workerID) = workerID"

definition same_settings :: "Store \<Rightarrow> Store \<Rightarrow> bool" where
  "same_settings s t \<longleftrightarrow> redactionTokens t = redactionTokens s \<and> alertDedupeKey t = alertDedupeKey s \<and>
     dedupeKeyFile t = dedupeKeyFile s \<and> fingerprintRow t = fingerprintRow s \<and>
     alertStateDurableLockMsg t = alertStateDurableLockMsg s \<and> alertStateCleanupLockMsg t = alertStateCleanupLockMsg s"

lemma same_settings_trans: "same_settings s t \<Longrightarrow> same_settings t u \<Longrightarrow> same_settings s u"
  by (simp add: same_settings_def)

lemma same_settings_sync: "same_settings s (syncAlertEventStatus i s)"
  by (simp add: same_settings_def syncAlertEventStatus_def set_event_status_def)

lemma same_settings_syncs: "same_settings s (fold syncAlertEventStatus ids s)"
proof (induction ids arbitrary: s)
  case (Cons i ids)
  then show ?case using same_settings_trans [OF same_settings_sync [of s i]] by simp
qed (simp add: same_settings_def)

lemma same_settings_update: "same_settings s (update_dispatches P f s)"
  by (simp add: same_settings_def update_dispatches_def)

lemma same_settings_swept: "same_settings s (swept now m s)"
  unfolding swept_def
  by (rule same_settings_trans [OF _ same_settings_syncs])
    (simp add: deadLetterExpiredAlertDispatches_def same_settings_update Let_def, simp add: same_settings_def)

lemma working_cong:
  assumes "working w s" and "same_settings s t" and "alert_inv t"
  shows "working w t"
  using assms ensure_cong [of t s] redact_cong [of t s w]
  by (auto simp: working_def same_settings_def ensureAlertStateUnlocked_def alertStateLockMessage_def Let_def
      split: if_splits)

section \<open>One result\<close>

text \<open>The result of an attempt that ends within the lease is recorded, and no other row changes.\<close>

lemma record_once_live:
  assumes "working w s" and c: "TrimSpace c = c" "c \<noteq> []" and st: "validAlertDispatchResultStatus st"
    and d0: "d0 \<in> set (alertDispatches s)" and held: "held_by (dID d0) w c d0" and live: "now < lease_ns d0"
  shows "\<exists>t x d'. recordAlertDispatchResultOnce (dID d0) w c st le p now s = (t, Inr x) \<and> working w t \<and>
    d' \<in> set (alertDispatches t) \<and> dID d' = dID d0 \<and> dClaimID d' = c \<and> dAttempts d' = dAttempts d0 + 1 \<and>
    dStatus d' = result_status p (dAttempts d0 + 1) st \<and>
    (\<forall>d. dID d \<noteq> dID d0 \<longrightarrow> (d \<in> set (alertDispatches t) \<longleftrightarrow> d \<in> set (alertDispatches s)))"
proof -
  note work = assms(1) [unfolded working_def]
  have inv: "alert_inv s" and key: "ensureAlertDedupeKeyCurrent s = (s, None)" using work by blast+
  note keys = alert_invD(1) [OF inv]
  let ?x = "prepareScannedAlertDispatch s d0"
  have scanned: "dStatus ?x = AlertDispatchStatusInFlight" "dWorkerID ?x = w" "dClaimID ?x = c"
    using held work c by (simp_all add: prepareScannedAlertDispatch_def held_by_def trim_eval)
  obtain e where "(e, d0) \<in> set (joined s)" using joined_row [OF keys d0] .
  then have row: "find (\<lambda>(e, d). dID d = dID d0) (joined s) = Some (e, d0)"
    using find_distinct [OF distinct_joined [OF keys], of "(e, d0)" "dID d0"] by (simp add: case_prod_unfold)
  have pos: "0 < dID d0" using keys d0 by (simp add: row_keys_def)
  have st': "TrimSpace st = st" using st by (rule trim_valid)
  obtain t r where tr: "record_update ?x w c st (result_error st (TrimSpace (redact s le))) p now s = (t, r)" by fastforce
  have once: "recordAlertDispatchResultOnce (dID d0) w c st le p now s = (t, r)"
    using pos work c st st' scanned
    by (simp add: recordAlertDispatchResultOnce_def Let_def key row tr terminalAlertDispatchStatus_def)
  from inv d0 scanned_fields(1,2) tr show ?thesis
  proof (cases rule: record_update_cases)
    case (live na le')
    define f where "f = complete_dispatch now (result_status p (dAttempts d0 + 1) st) w c le' na"
    have rows: "set (alertDispatches t) = (\<lambda>d. if held_by (dID d0) w c d \<and> now < lease_ns d then f d else d) ` set (alertDispatches s)"
      by (simp add: live(3) set_update f_def)
    have only: "held_by (dID d0) w c d \<and> now < lease_ns d \<longleftrightarrow> d = d0" if "d \<in> set (alertDispatches s)" for d
      using that held_row [OF keys d0 that] live(1,2) by blast
    have "alert_inv t" using record_once_inv [OF inv, of "dID d0" w c st le p now] by (simp add: once)
    moreover have "same_settings s t"
      unfolding live(3) by (rule same_settings_trans [OF same_settings_update same_settings_sync])
    ultimately have "working w t" using assms(1) working_cong by blast
    moreover have "f d0 \<in> set (alertDispatches t)" unfolding rows using d0 only by force
    moreover have "dID (f d) = dID d" for d by (simp add: f_def complete_dispatch_def)
    then have "\<forall>d. dID d \<noteq> dID d0 \<longrightarrow> (d \<in> set (alertDispatches t) \<longleftrightarrow> d \<in> set (alertDispatches s))"
      unfolding rows using only by (auto simp: image_iff split: if_splits)
    moreover have "dClaimID (f d0) = c" "dAttempts (f d0) = dAttempts d0 + 1" "dID (f d0) = dID d0"
      "dStatus (f d0) = result_status p (dAttempts d0 + 1) st" by (simp_all add: f_def complete_dispatch_def)
    ultimately show ?thesis using once live(5) by blast
  qed (use held live in simp_all)
qed

section \<open>One batch\<close>

definition attempted :: "string \<Rightarrow> AlertDispatch \<Rightarrow> Store \<Rightarrow> bool" where
  "attempted c d s \<longleftrightarrow> (\<exists>d' \<in> set (alertDispatches s). dID d' = dID d \<and> dClaimID d' = c \<and>
     dStatus d' \<noteq> AlertDispatchStatusInFlight \<and> dAttempts d' = dAttempts d + 1)"

text \<open>A delivery of the batch with the row it was read from, while its lease is running.\<close>

definition deliverable :: "string \<Rightarrow> string \<Rightarrow> tx_env \<Rightarrow> AlertDelivery \<Rightarrow> AlertDispatch \<Rightarrow> Store \<Rightarrow> bool" where
  "deliverable w c env x d s \<longleftrightarrow> d \<in> set (alertDispatches s) \<and> held_by (dID d) w c d \<and>
     dID (delDispatch x) = dID d \<and> dClaimID (delDispatch x) = c \<and> txSQLError env 0 = None \<and> txNow env 0 < lease_ns d"

lemma delivery_status_valid: "validAlertDispatchResultStatus (fst (delivery_result send w x))"
  by (simp add: delivery_result_def validAlertDispatchResultStatus_def terminalAlertDispatchStatus_def split: option.split)

lemma result_not_in_flight: "validAlertDispatchResultStatus st \<Longrightarrow> result_status p n st \<noteq> AlertDispatchStatusInFlight"
  by (auto simp: result_status_def validAlertDispatchResultStatus_def terminalAlertDispatchStatus_def)

lemma deliverOne_settles:
  assumes work: "working (wkWorkerID w) s" and c: "TrimSpace c = c" "c \<noteq> []"
    and x: "deliverable (wkWorkerID w) c env x d s"
  shows "\<exists>t. deliverOne send env w x s = Some t \<and> working (wkWorkerID w) t \<and> attempted c d t \<and>
    (\<forall>y. dID y \<noteq> dID d \<longrightarrow> (y \<in> set (alertDispatches t) \<longleftrightarrow> y \<in> set (alertDispatches s)))"
proof -
  obtain st le where res: "delivery_result send w x = (st, le)" by fastforce
  then have st: "validAlertDispatchResultStatus st" using delivery_status_valid [of send w x] by simp
  note x' = x [unfolded deliverable_def]
  obtain t r d' where once: "recordAlertDispatchResultOnce (dID d) (wkWorkerID w) c st le (normalized (wkRetryPolicy w)) (txNow env 0) s = (t, Inr r)"
    and t: "working (wkWorkerID w) t" "d' \<in> set (alertDispatches t)" "dID d' = dID d" "dClaimID d' = c" "dAttempts d' = dAttempts d + 1"
      "dStatus d' = result_status (normalized (wkRetryPolicy w)) (dAttempts d + 1) st"
      "\<forall>y. dID y \<noteq> dID d \<longrightarrow> (y \<in> set (alertDispatches t) \<longleftrightarrow> y \<in> set (alertDispatches s))"
    using record_once_live [OF work c st, of d] x' by metis
  have "alert_tx env f s = Some (tx_attempt env f 0 s)" for f :: "gotime \<Rightarrow> Store \<Rightarrow> Store \<times> (alert_error + AlertDispatch)"
    using work x' by (intro alert_tx_first) (simp_all add: working_def)
  then have "deliverOne send env w x s = Some t"
    using x' once by (simp add: deliverOne_def res complete_delivery_def RecordAlertDispatchResultWithRetryPolicy_def tx_attempt_def)
  moreover have "attempted c d t" using t(2-6) result_not_in_flight [OF st] unfolding attempted_def by metis
  ultimately show ?thesis using t(1,7) by blast
qed

lemma deliver_all_settles:
  assumes "working (wkWorkerID w) s" and c: "TrimSpace c = c" "c \<noteq> []"
    and "distinct (map (\<lambda>(send, env, x). dID (delDispatch x)) batch)"
    and "\<forall>(send, env, x) \<in> set batch. deliverable (wkWorkerID w) c env x (row x) s"
  shows "\<exists>t. deliver_all w batch s = Some t \<and> working (wkWorkerID w) t \<and>
    (\<forall>(send, env, x) \<in> set batch. attempted c (row x) t) \<and>
    (\<forall>y. dID y \<notin> (\<lambda>(send, env, x). dID (delDispatch x)) ` set batch \<longrightarrow>
       (y \<in> set (alertDispatches t) \<longleftrightarrow> y \<in> set (alertDispatches s)))"
  using assms(1,4,5)
proof (induction batch arbitrary: s)
  case (Cons b batch)
  obtain send env x where b: "b = (send, env, x)" by (cases b) auto
  have x: "deliverable (wkWorkerID w) c env x (row x) s" using Cons.prems(3) by (simp add: b)
  obtain t where t: "deliverOne send env w x s = Some t" "working (wkWorkerID w) t" "attempted c (row x) t"
      "\<forall>y. dID y \<noteq> dID (row x) \<longrightarrow> (y \<in> set (alertDispatches t) \<longleftrightarrow> y \<in> set (alertDispatches s))"
    using deliverOne_settles [OF Cons.prems(1) c x] by blast
  have rid: "dID (row x) = dID (delDispatch x)" using x by (simp add: deliverable_def)
  have later: "deliverable (wkWorkerID w) c e y (row y) t" if "(sd, e, y) \<in> set batch" for sd e y
  proof -
    have y: "deliverable (wkWorkerID w) c e y (row y) s" using Cons.prems(3) that by auto
    have "dID (delDispatch y) \<noteq> dID (delDispatch x)" using Cons.prems(2) that by (force simp: b)
    with y t(4) rid show ?thesis by (simp add: deliverable_def)
  qed
  obtain u where u: "deliver_all w batch t = Some u" "working (wkWorkerID w) u" "\<forall>(send, env, x) \<in> set batch. attempted c (row x) u"
      "\<forall>y. dID y \<notin> (\<lambda>(send, env, x). dID (delDispatch x)) ` set batch \<longrightarrow> (y \<in> set (alertDispatches u) \<longleftrightarrow> y \<in> set (alertDispatches t))"
    using Cons.IH [OF t(2)] Cons.prems(2) later by (auto simp: b)
  have "dID (delDispatch x) \<notin> (\<lambda>(send, env, x). dID (delDispatch x)) ` set batch" using Cons.prems(2) by (simp add: b)
  then have "attempted c (row x) u" using t(3) u(4) rid unfolding attempted_def by metis
  then show ?case using t(1,4) u rid by (auto simp: b)
qed (simp add: attempted_def)

section \<open>One poll\<close>

text \<open>With at most as many due dispatches as a batch holds, a claim takes them all.\<close>

lemma claim_takes_all:
  assumes "alert_inv s" and few: "length (filter (claimable now m) (alertDispatches s)) \<le> nat n"
    and d: "d \<in> set (alertDispatches s)" "claimable now m d"
  shows "dID d \<in> set (claim_ids now m n (swept now m s))"
proof -
  let ?u = "swept now m s"
  let ?rows = "filter (\<lambda>(e, d). claimable now m d) (joined ?u)"
  note keys = alert_invD(1) [OF swept_inv [OF assms(1), of now m]]
  have kept: "x \<in> set (alertDispatches s)" if "x \<in> set (alertDispatches ?u)" "claimable now m x" for x
    using that by (auto simp: swept_rows claimable_def dead_letter_def split: if_splits)
  have "length ?rows = card (set (map (\<lambda>(e, d). dID d) ?rows))"
    using distinct_card [OF distinct_map_filter [OF distinct_joined [OF keys]], of "\<lambda>(e, d). claimable now m d"] by simp
  also have "\<dots> \<le> card (set (map dID (filter (claimable now m) (alertDispatches s))))"
    using kept by (intro card_mono) (auto simp: set_joined)
  also have "\<dots> \<le> nat n" using card_length [of "map dID (filter (claimable now m) (alertDispatches s))"] few by simp
  finally have ids: "set (claim_ids now m n ?u) = (\<lambda>(e, d). dID d) ` set ?rows" by (simp add: claim_ids_def)
  have "\<not> exhausted now m d" using d(2) by (auto simp: exhausted_def claimable_def)
  then have "d \<in> set (alertDispatches ?u)" using d(1) by (force simp: swept_rows)
  then obtain e where "(e, d) \<in> set (joined ?u)" using joined_row [OF keys] by blast
  then show ?thesis unfolding ids using d(2) by force
qed

text \<open>A claim of a working store hands out deliveries that can be recorded until the lease ends.\<close>

lemma poll_claim_deliverable:
  assumes work: "working (wkWorkerID w) s" and fresh: "\<forall>d \<in> set (alertDispatches s). dClaimID d \<noteq> c"
    and c: "TrimSpace c = c" and env: "txSQLError env 0 = None" and pos: "0 < wkLeaseDuration w" "0 < wkClaimBatch w"
  defines "m \<equiv> MaxAttempts (normalized (wkRetryPolicy w))"
  shows "\<exists>t ds. poll_claim env c w s = Some (t, ds) \<and> working (wkWorkerID w) t \<and>
    distinct (map (\<lambda>x. dID (delDispatch x)) ds) \<and>
    (\<lambda>x. dID (delDispatch x)) ` set ds = set (claim_ids (txNow env 0) m (wkClaimBatch w) (swept (txNow env 0) m s)) \<and>
    (\<forall>x \<in> set ds. dClaimID (delDispatch x) = c \<and> (\<exists>d \<in> set (alertDispatches s). dID d = dID (delDispatch x) \<and>
       take_claim (txNow env 0) (wkWorkerID w) c (txNow env 0 + wkLeaseDuration w) d \<in> set (alertDispatches t)))"
proof -
  let ?p = "normalized (wkRetryPolicy w)" and ?now = "txNow env 0"
  note work' = work [unfolded working_def]
  define t where "t = claim_tx ?now (wkWorkerID w) c (wkLeaseDuration w) (wkClaimBatch w) ?p s"
  define ds where "ds = map (scanAlertDelivery t) (claimed_rows (wkWorkerID w) c t)"
  have inv: "alert_inv s" using work' by blast
  have once: "claimPendingAlertDeliveriesOnce (wkWorkerID w) c (wkLeaseDuration w) (wkClaimBatch w) ?p ?now s = (t, Inr ds)"
    using work' pos by (simp add: claimPendingAlertDeliveriesOnce_def Let_def commit_or_rollback_def t_def ds_def)
  have "ClaimPendingAlertDeliveriesWithRetryPolicy env (wkWorkerID w) c (wkLeaseDuration w) (wkClaimBatch w) (wkRetryPolicy w) s =
      Some (t, Inr ds)"
    unfolding ClaimPendingAlertDeliveriesWithRetryPolicy_def
    using work' env once by (subst alert_tx_first) (simp_all add: tx_attempt_def)
  then have poll: "poll_claim env c w s = Some (t, ds)" by (simp add: poll_claim_def)
  have "same_settings s t"
    unfolding t_def claim_tx_swept by (rule same_settings_trans [OF same_settings_swept same_settings_update])
  then have "working (wkWorkerID w) t"
    using working_cong [OF work] claim_tx_inv [OF inv] by (simp add: t_def)
  moreover have "dClaimID (delDispatch x) = c" if "x \<in> set ds" for x
    using that c by (auto simp: ds_def claimed_rows_def scanAlertDelivery_def scanAlertDispatch_def prepareScannedAlertDispatch_def)
  moreover note ids = claimed_ids [OF inv fresh t_def]
  have map_ids: "map (\<lambda>x. dID (delDispatch x)) ds = map (\<lambda>(e, d). dID d) (claimed_rows (wkWorkerID w) c t)"
    by (simp add: ds_def scanAlertDelivery_def split_beta)
  moreover have "\<exists>d \<in> set (alertDispatches s). dID d = dID (delDispatch x) \<and>
       take_claim ?now (wkWorkerID w) c (?now + wkLeaseDuration w) d \<in> set (alertDispatches t)" if x: "x \<in> set ds" for x
  proof -
    let ?f = "take_claim ?now (wkWorkerID w) c (?now + wkLeaseDuration w)"
    obtain y where y: "y \<in> snd ` set (claimed_rows (wkWorkerID w) c t)" "dID y = dID (delDispatch x)"
      using x by (force simp: ds_def scanAlertDelivery_def scanAlertDispatch_def)
    then obtain d where d: "d \<in> set (alertDispatches s)" "y = ?f d"
      unfolding claimed_dispatches(1) [OF inv fresh t_def] by blast
    from y(1) have "y \<in> set (alertDispatches t)" by (auto simp: claimed_rows_def set_joined)
    with d y(2) show ?thesis by auto
  qed
  ultimately show ?thesis using poll ids(1,2) unfolding m_def by (intro exI conjI) (simp_all flip: map_ids add: image_set [symmetric], blast)
qed

text \<open>The order, the exchanges and the transactions of the deliveries are any that end within the lease.\<close>

definition within_lease ::
  "gotime \<Rightarrow> (AlertDelivery list \<Rightarrow> ((Request \<Rightarrow> string + int) \<times> tx_env \<times> AlertDelivery) list) \<Rightarrow> bool" where
  "within_lease deadline sched \<longleftrightarrow> (\<forall>ds. mset (map (\<lambda>(send, env, x). x) (sched ds)) = mset ds \<and>
     (\<forall>(send, env, x) \<in> set (sched ds). txSQLError env 0 = None \<and> txNow env 0 < deadline))"

lemma new_worker:
  assumes "newWorker compile dflt workerID cfg = Inr w"
  shows "wkWorkerID w = workerID" "wkLeaseDuration w = AlertDeliveryLeaseDuration" "wkClaimBatch w = 20"
    "wkRetryPolicy w = worker_policy cfg" "0 < AlertDeliveryLeaseDuration"
  using assms by (auto simp: newWorker_def bind_res_def defaultLeaseDuration_def defaultClaimBatchSize_def
      AlertDeliveryLeaseDuration_def Minute_def split: sum.splits)


definition demo_sched :: "AlertDelivery list \<Rightarrow> ((Request \<Rightarrow> string + int) \<times> tx_env \<times> AlertDelivery) list" where
  "demo_sched ds = map (\<lambda>x. (\<lambda>_. Inr 204, demo_run_env, x)) (rev ds)"

lemma demo_working: "working ''w'' demo_store"
  by (simp add: working_def demo_store_inv demo_key demo_redact redact_w)
    (simp add: ensureAlertStateUnlocked_def alertStateLockMessage_def demo_defs)

lemma demo_worker: "\<exists>w. newWorker (\<lambda>_. None) [] ''w'' (cfAlerting demo_resolved) = Inr w"
proof -
  have "isl (newWorker (\<lambda>_. None) [] ''w'' (cfAlerting demo_resolved)) = False" by code_simp
  then show ?thesis by (cases "newWorker (\<lambda>_. None) [] ''w'' (cfAlerting demo_resolved)") auto
qed


section \<open>The worker of a loaded configuration\<close>

definition canonical_names :: "AlertingConfig \<Rightarrow> bool" where
  "canonical_names cfg \<longleftrightarrow> alertSinkName ''webhook'' (wsName (alWebhook cfg)) = wsName (alWebhook cfg) \<and>
     alertSinkName ''discord'' (diName (alDiscord cfg)) = diName (alDiscord cfg) \<and>
     alertSinkName ''home-assistant'' (hsName (alHomeAssistant cfg)) = hsName (alHomeAssistant cfg)"

lemma alertSinkName_idem: "TrimSpace dflt = dflt \<Longrightarrow> alertSinkName dflt (alertSinkName dflt s) = alertSinkName dflt s"
  by (simp add: alertSinkName_def)

lemma defaults_canonical: "canonical_names (applyAlertingDefaults cfg)"
proof -
  have "TrimSpace ''webhook'' = ''webhook''" "TrimSpace ''discord'' = ''discord''"
    "TrimSpace ''home-assistant'' = ''home-assistant''" by code_simp+
  then show ?thesis by (simp add: canonical_names_def applyAlertingDefaults_def alertSinkName_idem)
qed

lemma secrets_keep_names:
  assumes "resolveAlertingSecrets env cfg = Inr cfg'"
  shows "wsName (alWebhook cfg') = wsName (alWebhook cfg)" "diName (alDiscord cfg') = diName (alDiscord cfg)"
    "hsName (alHomeAssistant cfg') = hsName (alHomeAssistant cfg)"
proof -
  have ws: "wsName (alWebhook c') = wsName (alWebhook c) \<and> alDiscord c' = alDiscord c \<and> alHomeAssistant c' = alHomeAssistant c"
    if "(if b then enabled_webhook_secrets else disabled_webhook_secrets) env c = Inr c'" for b c c'
    using that by (auto simp: enabled_webhook_secrets_def disabled_webhook_secrets_def Let_def bind_res_Inr
        split: if_splits prod.splits)
  have di: "alWebhook c' = alWebhook c \<and> diName (alDiscord c') = diName (alDiscord c) \<and> alHomeAssistant c' = alHomeAssistant c"
    if "discord_secrets env c = Inr c'" for c c'
    using that by (auto simp: discord_secrets_def Let_def bind_res_Inr split: if_splits prod.splits)
  have ha: "alWebhook c' = alWebhook c \<and> alDiscord c' = alDiscord c \<and> hsName (alHomeAssistant c') = hsName (alHomeAssistant c)"
    if "(if b then enabled_homeassistant_secrets else disabled_homeassistant_secrets) env c = Inr c'" for b c c'
    using that by (auto simp: enabled_homeassistant_secrets_def disabled_homeassistant_secrets_def Let_def bind_res_Inr
        split: if_splits prod.splits)
  from assms show "wsName (alWebhook cfg') = wsName (alWebhook cfg)" "diName (alDiscord cfg') = diName (alDiscord cfg)"
    "hsName (alHomeAssistant cfg') = hsName (alHomeAssistant cfg)"
    unfolding resolveAlertingSecrets_def Let_def bind_res_Inr by (auto dest!: ws di ha)
qed

lemma loaded_canonical:
  assumes "LoadForMode yaml env path ''server'' = Inr cfg"
  shows "canonical_names (cfAlerting cfg)"
proof -
  from assms obtain c where "resolveServerSecrets env (applyServerDefaults c) = Inr cfg" by (rule loaded_server)
  then have "resolveAlertingSecrets env (applyAlertingDefaults (cfAlerting c)) = Inr (cfAlerting cfg)"
    by (auto simp: resolveServerSecrets_def bind_res_Inr applyServerDefaults_def Let_def)
  from secrets_keep_names [OF this] defaults_canonical [of "cfAlerting c"] show ?thesis by (simp add: canonical_names_def)
qed

lemma new_sinks:
  "newWebhookSink compile dflt ws = Inr k \<Longrightarrow> sink_Name k = wsName ws \<and> webhook_TimeoutDuration ws = Inr (sink_Timeout k)"
  "newDiscordSink di = Inr k \<Longrightarrow> sink_Name k = diName di \<and> discord_TimeoutDuration di = Inr (sink_Timeout k)"
  "newHomeAssistantSink hs = Inr k \<Longrightarrow> sink_Name k = hsName hs \<and> homeassistant_TimeoutDuration hs = Inr (sink_Timeout k)"
  by (auto simp: newWebhookSink_def newDiscordSink_def newHomeAssistantSink_def Let_def split: sum.splits option.splits if_splits)

lemma add_sink_Inr:
  assumes "add_sink enabled r sinks = Inr sinks'"
  obtains (skip) "\<not> enabled" "sinks' = sinks" | (add) k where "enabled" "r = Inr k" "sinks' = put_sink k sinks"
  using assms by (auto simp: add_sink_def bind_res_Inr split: if_splits)

lemma put_sink_new: "sink_Name k \<notin> fst ` set sinks \<Longrightarrow> put_sink k sinks = sinks @ [(sink_Name k, k)]"
  by (force simp: put_sink_def filter_id_conv)

lemma built_sinks:
  assumes "canonical_names cfg" and "distinct (EnabledSinkNames cfg)" and "buildSinks compile dflt cfg = Inr sinks"
  shows "map fst sinks = ActiveSinkNames cfg \<and>
    (\<forall>(n, k) \<in> set sinks. sink_Name k = n \<and> Inr (sink_Timeout k) \<in> set (enabled_timeouts cfg))"
proof -
  note names = assms(1) [unfolded canonical_names_def]
  have apart: "wsName (alWebhook cfg) \<noteq> diName (alDiscord cfg)" "wsName (alWebhook cfg) \<noteq> hsName (alHomeAssistant cfg)"
    "diName (alDiscord cfg) \<noteq> hsName (alHomeAssistant cfg)"
    using assms(2) names by (auto simp: EnabledSinkNames_def)
  obtain s1 s2 where 1: "add_sink (wsEnabled (alWebhook cfg)) (newWebhookSink compile dflt (alWebhook cfg)) [] = Inr s1"
    and 2: "add_sink (diEnabled (alDiscord cfg)) (newDiscordSink (alDiscord cfg)) s1 = Inr s2"
    and 3: "add_sink (hsEnabled (alHomeAssistant cfg)) (newHomeAssistantSink (alHomeAssistant cfg)) s2 = Inr sinks"
    using assms(3) by (auto simp: buildSinks_def bind_res_Inr)
  let ?ok = "\<lambda>t sinks. \<forall>(n, k) \<in> set sinks. sink_Name k = n \<and> Inr (sink_Timeout k) \<in> set t"
  let ?t1 = "if wsEnabled (alWebhook cfg) then [webhook_TimeoutDuration (alWebhook cfg)] else []"
  let ?t2 = "?t1 @ (if diEnabled (alDiscord cfg) then [discord_TimeoutDuration (alDiscord cfg)] else [])"
  have s1: "map fst s1 = (if wsEnabled (alWebhook cfg) then [wsName (alWebhook cfg)] else []) \<and> ?ok ?t1 s1"
    using 1 by (cases rule: add_sink_Inr) (auto dest!: new_sinks(1) simp: put_sink_new)
  have s2: "map fst s2 = map fst s1 @ (if diEnabled (alDiscord cfg) then [diName (alDiscord cfg)] else []) \<and> ?ok ?t2 s2"
    using 2
  proof (cases rule: add_sink_Inr)
    case (add k)
    have "sink_Name k \<notin> set (map fst s1)" using new_sinks(2) [OF add(2)] s1 apart by auto
    then show ?thesis using add new_sinks(2) [OF add(2)] s1 by (auto simp: put_sink_new)
  qed (use s1 in auto)
  show ?thesis
    using 3
  proof (cases rule: add_sink_Inr)
    case (add k)
    have "sink_Name k \<notin> set (map fst s2)" using new_sinks(3) [OF add(2)] s1 s2 apart by auto
    then show ?thesis
      using add new_sinks(3) [OF add(2)] s1 s2 names by (auto simp: put_sink_new ActiveSinkNames_def enabled_timeouts_def)
  qed (use s1 s2 names in \<open>auto simp: ActiveSinkNames_def enabled_timeouts_def\<close>)
qed

text \<open>C8: the worker of a server configuration that loads serves exactly the sinks the alert producers address, each
  under the name they use, and the timeout of each delivery is positive and shorter than the lease the worker claims
  with, so that a delivery ends before its claim can be taken over.\<close>

theorem loaded_worker_serves_sinks:
  assumes "LoadForMode yaml env path ''server'' = Inr cfg" and "newWorker compile dflt workerID (cfAlerting cfg) = Inr w"
  shows "map fst (wkSinks w) = ActiveSinkNames (cfAlerting cfg) \<and>
    (\<forall>(n, k) \<in> set (wkSinks w). sink_Name k = n \<and> 0 < sink_Timeout k \<and> sink_Timeout k < wkLeaseDuration w)"
proof -
  note limits = loaded_alerting_limits [OF assms(1)]
  have "buildSinks compile dflt (cfAlerting cfg) = Inr (wkSinks w)"
    using assms(2) by (auto simp: newWorker_def bind_res_Inr)
  from built_sinks [OF loaded_canonical [OF assms(1)] _ this] limits
  have built: "map fst (wkSinks w) = ActiveSinkNames (cfAlerting cfg)"
    "\<forall>(n, k) \<in> set (wkSinks w). sink_Name k = n \<and> Inr (sink_Timeout k) \<in> set (enabled_timeouts (cfAlerting cfg))" by blast+
  have "0 < d \<and> d < wkLeaseDuration w" if "Inr d \<in> set (enabled_timeouts (cfAlerting cfg))" for d
    using limits that new_worker(2) [OF assms(2)] by fastforce
  with built show ?thesis by fast
qed

theorem loaded_worker_serves_sinks_witness:
  "\<exists>w. newWorker (\<lambda>_. None) [] ''w'' (cfAlerting demo_resolved) = Inr w \<and> map fst (wkSinks w) = [''ha'']"
proof -
  obtain w where w: "newWorker (\<lambda>_. None) [] ''w'' (cfAlerting demo_resolved) = Inr w" using demo_worker by blast
  have "ActiveSinkNames (cfAlerting demo_resolved) = [''ha'']" by code_simp
  with loaded_worker_serves_sinks [OF demo_loads w] w show ?thesis by simp
qed

end
