(* ===== verification/Docker.thy ===== *)
theory Docker
  imports Models GoText
begin

text \<open>
  Containers: what \<open>internal/dockerapi\<close> makes of them, which containers belong to a service and the health the
  monitor derives from them (\<open>internal/monitor/monitor.go\<close>), and the health the remote agent reports
  (\<open>internal/agent/agent.go\<close>). What the Docker API answers is an argument.
\<close>

section \<open>The Docker API\<close>

record Container =
  coID :: string
  coNames :: "string list"
  coImage :: string
  coImageID :: string
  coRepoDigests :: "string list"
  coLabels :: "(string \<times> string) list"
  coState :: string
  coStatus :: string
  coRestartCount :: int
  coHealth :: string

definition normal_text :: "string \<Rightarrow> string" where
  "normal_text s = ToLower (TrimSpace s)"

definition LiveContainer :: "string \<Rightarrow> string \<Rightarrow> bool" where
  "LiveContainer state status =
     (if normal_text state \<in> {''running'', ''restarting'', ''paused''} then True
      else if normal_text state = [] then HasPrefix (normal_text status) ''up'' \<or> HasPrefix (normal_text status) ''restarting''
      else False)"

definition MergeRepoDigests :: "string list list \<Rightarrow> string list" where
  "MergeRepoDigests vss = dedup_by (\<lambda>v. v) (filter (\<lambda>v. v \<noteq> []) (map TrimSpace (concat vss)))"

text \<open>
  The inspector with its cache; \<open>inspect\<close> is the answer of the API to one key. The inspector may be absent.
\<close>

type_synonym inspector = "(string \<rightharpoonup> string list) option"

definition inspect_key :: "Container \<Rightarrow> string" where
  "inspect_key c = (if TrimSpace (coImageID c) = [] then TrimSpace (coImage c) else TrimSpace (coImageID c))"

definition RepoDigests :: "(string \<Rightarrow> string list) \<Rightarrow> inspector \<Rightarrow> Container \<Rightarrow> inspector \<times> string list" where
  "RepoDigests inspect inspector container =
     (case inspector of
        None \<Rightarrow> (None, coRepoDigests container)
      | Some cache \<Rightarrow>
          let key = inspect_key container in
          if key = [] then (inspector, coRepoDigests container)
          else (case cache key of
                  Some digests \<Rightarrow> (inspector, MergeRepoDigests [coRepoDigests container, digests])
                | None \<Rightarrow> (Some (cache(key \<mapsto> inspect key)), MergeRepoDigests [coRepoDigests container, inspect key])))"

section \<open>Which containers belong to a service\<close>

definition label_at :: "(string \<times> string) list \<Rightarrow> string \<Rightarrow> string" where
  "label_at labels key = (case map_of labels key of Some v \<Rightarrow> v | None \<Rightarrow> [])"

definition isPositiveInteger :: "string \<Rightarrow> bool" where
  "isPositiveInteger value \<longleftrightarrow> value \<noteq> [] \<and> list_all is_digit value \<and> list_ex (\<lambda>c. c \<noteq> CHR ''0'') value"

text \<open>The check of \<open>matchesGeneratedComposeName\<close> for one separator: the name ends in the separator, the name of
  the service, the separator again and a positive number.\<close>

definition generated_with :: "string \<Rightarrow> string \<Rightarrow> char \<Rightarrow> bool" where
  "generated_with containerName serviceName separator =
     (case LastIndexByte containerName separator of
        None \<Rightarrow> False
      | Some suffixStart \<Rightarrow>
          if suffixStart = 0 \<or> suffixStart = length containerName - 1 then False
          else if \<not> isPositiveInteger (drop (suffixStart + 1) containerName) then False
          else if suffixStart \<le> length serviceName then False
          else (let serviceStart = suffixStart - length serviceName in
                take (length serviceName) (drop serviceStart containerName) = serviceName \<and>
                take 1 (drop (serviceStart - 1) containerName) = [separator]))"

definition matchesGeneratedComposeName :: "string \<Rightarrow> string \<Rightarrow> bool" where
  "matchesGeneratedComposeName containerName0 serviceName0 =
     (let containerName = TrimSpace containerName0; serviceName = TrimSpace serviceName0 in
      if containerName = [] \<or> serviceName = [] then False
      else generated_with containerName serviceName (CHR ''-'') \<or> generated_with containerName serviceName (CHR ''_''))"

definition dockerContainerName :: "string \<Rightarrow> string" where
  "dockerContainerName name = TrimPrefix (TrimSpace name) ''/''"

definition composeProjectName :: "Service \<Rightarrow> string" where
  "composeProjectName service = TrimSpace (svComposeProject service)"

definition matchesComposeLabels :: "Service \<Rightarrow> (string \<times> string) list \<Rightarrow> bool" where
  "matchesComposeLabels service labels =
     (let serviceLabel = TrimSpace (label_at labels DockerComposeServiceLabel);
          expectedService = (if TrimSpace (svResourceName service) = [] then TrimSpace (svName service)
                             else TrimSpace (svResourceName service)) in
      if serviceLabel = [] \<or> serviceLabel \<noteq> expectedService then False
      else
       (let projectLabel = TrimSpace (label_at labels DockerComposeProjectLabel) in
        projectLabel = [] \<or> composeProjectName service = [] \<or> projectLabel = composeProjectName service))"

definition matchesContainer :: "Service \<Rightarrow> Container \<Rightarrow> bool" where
  "matchesContainer service container =
     (if map_of (coLabels container) DockerComposeServiceLabel \<noteq> None then matchesComposeLabels service (coLabels container)
      else
       (let expectedNames = filter (\<lambda>n. n \<noteq> []) [TrimSpace (svName service), TrimSpace (svResourceName service)] in
        list_ex (\<lambda>name. list_ex (\<lambda>expected. dockerContainerName name = expected \<or>
          matchesGeneratedComposeName (dockerContainerName name) expected) expectedNames) (coNames container)))"

definition matchingDockerContainers :: "Service \<Rightarrow> Container list \<Rightarrow> Container list" where
  "matchingDockerContainers service containers = filter (matchesContainer service) containers"

definition filterDockerContainerLabels :: "Container list \<Rightarrow> Container list" where
  "filterDockerContainerLabels containers = map (\<lambda>c. c\<lparr>coLabels := FilterDockerComposeLabels (coLabels c)\<rparr>) containers"

definition composeServiceTarget :: "Service \<Rightarrow> string" where
  "composeServiceTarget service =
     (let path = map (\<lambda>c. if c = CHR 0x5C then CHR ''/'' else c) (svSourcePath service);
          parts = split_char (CHR ''/'') path
      in if 2 \<le> length parts \<and> parts ! 0 = ''docker_files'' then parts ! 1 else [])"

section \<open>Health of a service\<close>

definition dockerHealthPriority :: "HealthState \<Rightarrow> int" where
  "dockerHealthPriority health =
     (if health = HealthUnhealthy then 0 else if health = HealthDegraded then 1 else if health = HealthHealthy then 2 else -1)"

definition worseDockerHealth :: "HealthState \<Rightarrow> HealthState \<Rightarrow> HealthState" where
  "worseDockerHealth left right = (if dockerHealthPriority left \<le> dockerHealthPriority right then left else right)"

definition parseStatusHealth :: "string \<Rightarrow> string" where
  "parseStatusHealth status =
     (if Contains status ''(health: unhealthy)'' \<or> Contains status ''(unhealthy)'' then ''unhealthy''
      else if Contains status ''(health: starting)'' \<or> Contains status ''(starting)'' then ''starting''
      else if Contains status ''(health: none)'' \<or> Contains status ''(health: no healthcheck)'' then ''none''
      else [])"

definition containerHealthFromStatus :: "string \<Rightarrow> string \<Rightarrow> string" where
  "containerHealthFromStatus state status =
     (if state = ''running'' then (if parseStatusHealth status \<noteq> [] then parseStatusHealth status else ''healthy'')
      else if state = ''restarting'' \<or> state = ''paused'' then ''starting''
      else if state = ''exited'' then ''unhealthy''
      else parseStatusHealth status)"

text \<open>What one container contributes to the worst health so far; none is the best state.\<close>

definition contribution :: "Container \<Rightarrow> HealthState option" where
  "contribution c =
     (let lifecycle = normal_text (coState c) in
      if lifecycle \<noteq> ''running'' then
        Some (if lifecycle = ''restarting'' \<or> lifecycle = ''paused'' then HealthDegraded else HealthUnhealthy)
      else
       (let health0 = normal_text (coHealth c);
            health = (if health0 = [] then containerHealthFromStatus lifecycle (normal_text (coStatus c)) else health0)
        in if health = ''healthy'' \<or> health = ''none'' then None
           else if health = ''starting'' then Some HealthDegraded
           else if health = ''unhealthy'' then Some HealthUnhealthy
           else Some (if EqualFold (coState c) ''restarting'' then HealthDegraded else HealthUnhealthy)))"

text \<open>One iteration of the loop of \<open>dockerStatus\<close>: the worst health so far and the messages.\<close>

definition docker_step :: "Container \<Rightarrow> HealthState \<times> string list \<Rightarrow> HealthState \<times> string list" where
  "docker_step container acc =
     (case acc of (worst, messages) \<Rightarrow>
        ((case contribution container of None \<Rightarrow> worst | Some health \<Rightarrow> worseDockerHealth worst health),
         messages @ [TrimSpace (coStatus container)]))"

fun observedDockerImages :: "(string \<Rightarrow> string list) \<Rightarrow> string \<Rightarrow> Container list \<Rightarrow> inspector \<Rightarrow> inspector \<times> ObservedImage list" where
  "observedDockerImages inspect target [] inspector = (inspector, [])"
| "observedDockerImages inspect target (c # cs) inspector =
     (if \<not> LiveContainer (coState c) (coStatus c) then observedDockerImages inspect target cs inspector
      else (case RepoDigests inspect inspector c of (inspector1, digests) \<Rightarrow>
              (case observedDockerImages inspect target cs inspector1 of (inspector2, images) \<Rightarrow>
                 (inspector2, NewObservedImage target ''docker'' (coImage c) (coImageID c) digests # images))))"

definition dockerStatus ::
  "(string \<Rightarrow> string list) \<Rightarrow> Service \<Rightarrow> string \<Rightarrow> Container list \<Rightarrow> inspector \<Rightarrow>
   inspector \<times> HealthState \<times> string \<times> ObservedImage list" where
  "dockerStatus inspect service target containers inspector =
     (let matches = matchingDockerContainers service containers in
      case observedDockerImages inspect target matches inspector of
        (inspector', images) \<Rightarrow>
          if matches = [] then (inspector', HealthUnknown, ''container not found'', [])
          else (case fold docker_step matches (HealthHealthy, []) of
                  (worst, messages) \<Rightarrow>
                    if length matches = 1 then (inspector', worst, messages ! 0, images)
                    else (inspector', worst, string_of_nat (length matches) @ '' replicas: '' @ Join messages ''; '', images)))"

section \<open>The worst container decides\<close>


definition container_health :: "Container \<Rightarrow> HealthState" where
  "container_health c = (case contribution c of None \<Rightarrow> HealthHealthy | Some h \<Rightarrow> h)"

definition health_rank :: "HealthState \<Rightarrow> nat" where
  "health_rank h = (if h = HealthUnhealthy then 0 else if h = HealthDegraded then 1 else 2)"

abbreviation docker_states :: "HealthState set" where
  "docker_states \<equiv> {HealthHealthy, HealthDegraded, HealthUnhealthy}"

lemma if_mem: "x \<in> S \<Longrightarrow> y \<in> S \<Longrightarrow> (if b then x else y) \<in> S"
  by simp

lemma some_if_mem: "Some x \<in> S \<Longrightarrow> Some y \<in> S \<Longrightarrow> Some (if b then x else y) \<in> S"
  by simp

lemma contribution_range: "contribution c \<in> {None, Some HealthDegraded, Some HealthUnhealthy}"
  unfolding contribution_def Let_def by (intro if_mem some_if_mem) simp_all

lemma contribution_states: "contribution c = Some h \<Longrightarrow> h = HealthDegraded \<or> h = HealthUnhealthy"
  using contribution_range [of c] by auto

lemma container_states: "container_health c \<in> docker_states"
  using contribution_states by (cases "contribution c") (auto simp: container_health_def)

lemma worse_states:
  assumes "w \<in> docker_states" and "v \<in> docker_states"
  shows "worseDockerHealth w v \<in> docker_states" "health_rank (worseDockerHealth w v) = min (health_rank w) (health_rank v)"
  using assms by (auto simp: worseDockerHealth_def dockerHealthPriority_def health_rank_def)

lemma docker_step_worse:
  assumes "worst \<in> docker_states"
  shows "docker_step c (worst, messages) = (worseDockerHealth worst (container_health c), messages @ [TrimSpace (coStatus c)])"
proof -
  have "worseDockerHealth worst HealthHealthy = worst" using assms by (auto simp: worseDockerHealth_def dockerHealthPriority_def)
  then show ?thesis by (simp add: docker_step_def container_health_def split: option.split)
qed

lemma docker_fold:
  assumes "worst \<in> docker_states"
  shows "\<exists>h \<in> docker_states. fold docker_step cs (worst, messages) = (h, messages @ map (\<lambda>c. TrimSpace (coStatus c)) cs) \<and>
    health_rank h = Min (health_rank ` insert worst (container_health ` set cs))"
  using assms
proof (induction cs arbitrary: worst messages)
  case (Cons c cs)
  let ?w = "worseDockerHealth worst (container_health c)"
  note w = worse_states [OF Cons.prems container_states [of c]]
  obtain h where h: "h \<in> docker_states"
      "fold docker_step cs (?w, messages @ [TrimSpace (coStatus c)]) =
        (h, (messages @ [TrimSpace (coStatus c)]) @ map (\<lambda>c. TrimSpace (coStatus c)) cs)"
      "health_rank h = Min (health_rank ` insert ?w (container_health ` set cs))"
    using Cons.IH [OF w(1), of "messages @ [TrimSpace (coStatus c)]"] by (elim bexE conjE)
  have "Min (health_rank ` insert ?w (container_health ` set cs)) =
      Min (health_rank ` insert worst (container_health ` set (c # cs)))"
  proof (cases "cs = []")
    case False
    then show ?thesis using w(2) by (simp add: min.assoc)
  qed (use w(2) in simp)
  with h docker_step_worse [OF Cons.prems, of c messages] show ?case by (intro bexI [where x = h]) simp_all
qed simp

text \<open>C23: a compose service with no container is unknown; otherwise its health is that of one of its containers, and
  none of its containers is worse; and every image shown is of a live container of the service.\<close>

theorem docker_health_is_worst:
  assumes "dockerStatus inspect service target containers inspector = (inspector', health, message, images)"
  shows "if matchingDockerContainers service containers = [] then health = HealthUnknown \<and> images = []
    else (\<exists>c \<in> set containers. matchesContainer service c \<and> container_health c = health) \<and>
      (\<forall>c \<in> set containers. matchesContainer service c \<longrightarrow> health_rank health \<le> health_rank (container_health c)) \<and>
      map oiReference images = map (\<lambda>c. ParseImageReference (coImage c))
        (filter (\<lambda>c. LiveContainer (coState c) (coStatus c)) (matchingDockerContainers service containers))"
proof (cases "matchingDockerContainers service containers = []")
  case True
  with assms show ?thesis by (simp add: dockerStatus_def)
next
  case False
  define cs where "cs = matchingDockerContainers service containers"
  have refs: "map oiReference (snd (observedDockerImages inspect target cs i)) =
      map (\<lambda>c. ParseImageReference (coImage c)) (filter (\<lambda>c. LiveContainer (coState c) (coStatus c)) cs)" for cs i
  proof (induction cs arbitrary: i)
    case (Cons c cs)
    obtain i1 ds where 1: "RepoDigests inspect i c = (i1, ds)" by fastforce
    obtain i2 ims where 2: "observedDockerImages inspect target cs i1 = (i2, ims)" by fastforce
    show ?case using Cons.IH [of i1] Cons.IH [of i] by (simp add: 1 2 NewObservedImage_def Let_def)
  qed simp
  obtain h where h: "h \<in> docker_states" "fold docker_step cs (HealthHealthy, []) = (h, map (\<lambda>c. TrimSpace (coStatus c)) cs)"
      "health_rank h = Min (health_rank ` insert HealthHealthy (container_health ` set cs))"
    using docker_fold [of HealthHealthy cs "[]"] by auto
  obtain i images' where obs: "observedDockerImages inspect target cs inspector = (i, images')" by fastforce
  from assms False have result: "health = h" "images = images'"
    by (simp_all add: dockerStatus_def Let_def cs_def [symmetric] obs h(2) split: if_splits)
  have images: "map oiReference images = map (\<lambda>c. ParseImageReference (coImage c)) (filter (\<lambda>c. LiveContainer (coState c) (coStatus c)) cs)"
    using refs [of cs inspector] by (simp add: obs result)
  have ne: "set cs \<noteq> {}" using False by (simp add: cs_def)
  have top: "health_rank g \<le> health_rank HealthHealthy" for g by (simp add: health_rank_def)
  have least: "health_rank h \<le> health_rank (container_health c)" if "c \<in> set cs" for c unfolding h(3) using that by simp
  have "health_rank h \<in> health_rank ` insert HealthHealthy (container_health ` set cs)" unfolding h(3) by (intro Min_in) auto
  then consider "health_rank h = health_rank HealthHealthy" | c where "c \<in> set cs" "health_rank h = health_rank (container_health c)"
    by blast
  then have "\<exists>c \<in> set cs. health_rank (container_health c) = health_rank h"
  proof cases
    case 1
    then show ?thesis using ne top least by (metis all_not_in_conv order_antisym)
  qed auto
  moreover have "g = g'" if "health_rank g = health_rank g'" "g \<in> docker_states" "g' \<in> docker_states" for g g'
    using that by (auto simp: health_rank_def)
  ultimately obtain c where "c \<in> set cs" "container_health c = h" using h(1) container_states by metis
  with least images False result(1) show ?thesis by (auto simp: cs_def matchingDockerContainers_def)
qed

lemma drop_split: "drop a xs = take b (drop a xs) @ drop (a + b) xs"
proof -
  have "drop (a + b) xs = drop b (drop a xs)" by (simp add: add.commute)
  then show ?thesis by (simp only: append_take_drop_id)
qed

text \<open>a container is taken for a replica of a service by its name exactly if the name is some text (the project), a
  separator, the name of the service, the separator again and a positive number.\<close>

lemma generated_name_shape:
  "matchesGeneratedComposeName containerName serviceName \<longleftrightarrow>
     TrimSpace serviceName \<noteq> [] \<and> (\<exists>project num. \<exists>sep \<in> {CHR ''-'', CHR ''_''}. isPositiveInteger num \<and>
       TrimSpace containerName = project @ [sep] @ TrimSpace serviceName @ [sep] @ num)"
proof -
  define n where "n = TrimSpace containerName"
  define s where "s = TrimSpace serviceName"
  have one: "generated_with n s sep \<longleftrightarrow> (\<exists>project num. isPositiveInteger num \<and> n = project @ [sep] @ s @ [sep] @ num)"
    if sep: "\<not> is_digit sep" for sep
  proof
    assume "generated_with n s sep"
    then obtain k where k: "LastIndexByte n sep = Some k" "isPositiveInteger (drop (k + 1) n)" "length s < k"
        "take (length s) (drop (k - length s) n) = s" "take 1 (drop (k - length s - 1) n) = [sep]"
      by (auto simp: generated_with_def Let_def split: option.splits if_splits)
    define j where "j = k - length s - 1"
    have lens: "k < length n" "n ! k = sep" and kj: "k = j + 1 + length s" using LastIndexByte_Some [OF k(1)] k(3) by (simp_all add: j_def)
    have "n = take j n @ drop j n" by simp
    also have "drop j n = take 1 (drop j n) @ drop (j + 1) n" by (rule drop_split)
    also have "drop (j + 1) n = take (length s) (drop (j + 1) n) @ drop k n" unfolding kj by (rule drop_split)
    also have "drop k n = sep # drop (k + 1) n" using lens by (metis Cons_nth_drop_Suc Suc_eq_plus1)
    finally have "n = take j n @ take 1 (drop j n) @ take (length s) (drop (j + 1) n) @ sep # drop (k + 1) n" .
    moreover have "take 1 (drop j n) = [sep]" using k(5) by (simp add: j_def)
    moreover have "k - length s = j + 1" using kj by simp
    then have "take (length s) (drop (j + 1) n) = s" using k(4) by (simp only:)
    ultimately have "n = take j n @ [sep] @ s @ [sep] @ drop (k + 1) n" by (simp only: append_Cons append_Nil)
    with k(2) show "\<exists>project num. isPositiveInteger num \<and> n = project @ [sep] @ s @ [sep] @ num" by blast
  next
    assume "\<exists>project num. isPositiveInteger num \<and> n = project @ [sep] @ s @ [sep] @ num"
    then obtain p num where n: "isPositiveInteger num" "n = (p @ sep # s) @ sep # num" by auto
    have "sep \<notin> set num" using n(1) sep by (auto simp: isPositiveInteger_def list_all_iff)
    then have "LastIndexByte n sep = Some (length p + Suc (length s))" unfolding n(2) by (subst LastIndexByte_last) simp_all
    moreover have "num \<noteq> []" using n(1) by (simp add: isPositiveInteger_def)
    ultimately show "generated_with n s sep" using n by (simp add: generated_with_def Let_def)
  qed
  have "\<not> is_digit (CHR ''-'')" "\<not> is_digit (CHR ''_'')" by code_simp+
  from one [OF this(1)] one [OF this(2)] show ?thesis
    unfolding matchesGeneratedComposeName_def Let_def n_def [symmetric] s_def [symmetric] by auto
qed

definition demo_container :: "string \<Rightarrow> string \<Rightarrow> string \<Rightarrow> Container" where
  "demo_container name state status = \<lparr>coID = name, coNames = [''/'' @ name], coImage = ''nginx:1'', coImageID = [], coRepoDigests = [],
     coLabels = [], coState = state, coStatus = status, coRestartCount = 0, coHealth = []\<rparr>"

definition demo_containers :: "Container list" where
  "demo_containers = [demo_container ''shop-web-1'' ''running'' ''Up'', demo_container ''shop_web_2'' ''running'' ''Up (unhealthy)'',
     demo_container ''shop-db-1'' ''exited'' ''Exited (1)'']"

theorem docker_health_is_worst_witness:
  "\<exists>c \<in> set demo_containers. matchesContainer (bare_service ''s'' ''web'') c \<and> container_health c = HealthUnhealthy"
proof -
  let ?s = "bare_service ''s'' ''web''"
  have ne: "\<not> matchingDockerContainers ?s demo_containers = []" by code_simp
  have "\<exists>i m images. dockerStatus (\<lambda>_. []) ?s ''host'' demo_containers None = (i, HealthUnhealthy, m, images)"
  proof -
    have "fst (snd (dockerStatus (\<lambda>_. []) ?s ''host'' demo_containers None)) = HealthUnhealthy" by code_simp
    then show ?thesis by (metis prod.collapse)
  qed
  then obtain i m images where "dockerStatus (\<lambda>_. []) ?s ''host'' demo_containers None = (i, HealthUnhealthy, m, images)" by blast
  from docker_health_is_worst [OF this] ne show ?thesis by (simp only: if_False)
qed

end
