(* ===== verification/AgentWire.thy ===== *)
theory AgentWire
  imports Docker TimeParse
begin

text \<open>
  The report of a remote agent and its acknowledgement: what the agent sends (\<open>internal/agent\<close>), the strict
  schema and the bounds the server demands (\<open>internal/app/agent_report.go\<close>), and the acknowledgement with the
  agent's reading of it (\<open>internal/agentprotocol\<close>). A message is the JSON value it carries, with whether
  anything follows; the text of JSON is that of the standard library.
\<close>

section \<open>JSON values\<close>

text \<open>A number is an integer literal or another one. An object keeps repeated keys: the last one counts.\<close>

datatype json = JNull | JBool bool | JInt int | JOther string | JString string | JArray "json list" | JObject "(string \<times> json) list"

definition last_fields :: "(string \<times> 'a) list \<Rightarrow> (string \<times> 'a) list" where
  "last_fields fs = rev (dedup_by fst (rev fs))"

record ws_message =
  wmText :: bool
  wmValue :: "json option"
  wmTrailing :: bool

text \<open>\<open>Unmarshal\<close> into a string, where null leaves the empty string, and into an int.\<close>

fun into_string :: "json \<Rightarrow> string option" where
  "into_string (JString s) = Some s"
| "into_string JNull = Some []"
| "into_string _ = None"

fun into_int :: "json \<Rightarrow> int option" where
  "into_int (JInt n) = (if in_int64 n then Some n else None)"
| "into_int JNull = Some 0"
| "into_int _ = None"

fun map_opt :: "('a \<Rightarrow> 'b option) \<Rightarrow> 'a list \<Rightarrow> 'b list option" where
  "map_opt f [] = Some []"
| "map_opt f (x # xs) = (case f x of None \<Rightarrow> None | Some y \<Rightarrow> map_option (Cons y) (map_opt f xs))"

section \<open>The shared protocol\<close>

definition AckType :: string where "AckType = ''agent_report_ack''"
definition AckStatusOK :: string where "AckStatusOK = ''ok''"
definition AckStatusError :: string where "AckStatusError = ''error''"
definition AckCodePersisted :: string where "AckCodePersisted = ''persisted''"
definition AckCodeUnauthorizedTarget :: string where "AckCodeUnauthorizedTarget = ''unauthorized_target''"
definition AckCodeInvalidReport :: string where "AckCodeInvalidReport = ''invalid_report''"
definition AckCodePersistenceFailed :: string where "AckCodePersistenceFailed = ''persistence_failed''"

lemmas ack_defs = AckType_def AckStatusOK_def AckStatusError_def AckCodePersisted_def AckCodeUnauthorizedTarget_def
  AckCodeInvalidReport_def AckCodePersistenceFailed_def

definition DecodeStrictJSONObject :: "json option \<Rightarrow> string list \<Rightarrow> (string \<times> json) list option" where
  "DecodeStrictJSONObject v allowed =
     (case v of Some (JObject fs) \<Rightarrow> if list_all (\<lambda>f. fst f \<in> set allowed) fs then Some (last_fields fs) else None | _ \<Rightarrow> None)"

text \<open>A field that is there and not null.\<close>

definition present :: "(string \<times> json) list \<Rightarrow> string \<Rightarrow> json option" where
  "present fs name = (case map_of fs name of Some JNull \<Rightarrow> None | r \<Rightarrow> r)"

definition DecodeStringFields :: "(string \<times> json) list \<Rightarrow> string list \<Rightarrow> string list option" where
  "DecodeStringFields fs names =
     map_opt (\<lambda>name. case present fs name of None \<Rightarrow> None | Some v \<Rightarrow> into_string v) names"

record agentReportAck =
  ackType :: string
  ackStatus :: string
  ackCode :: string

definition newAgentReportAckOK :: agentReportAck where
  "newAgentReportAckOK = \<lparr>ackType = AckType, ackStatus = AckStatusOK, ackCode = AckCodePersisted\<rparr>"

definition newAgentReportAckError :: "string \<Rightarrow> agentReportAck" where
  "newAgentReportAckError code = \<lparr>ackType = AckType, ackStatus = AckStatusError, ackCode = code\<rparr>"

text \<open>What \<open>WriteJSON\<close> sends.\<close>

definition ack_message :: "agentReportAck \<Rightarrow> ws_message" where
  "ack_message ack = \<lparr>wmText = True, wmValue = Some (JObject [(''type'', JString (ackType ack)),
     (''status'', JString (ackStatus ack)), (''code'', JString (ackCode ack))]), wmTrailing = False\<rparr>"

section \<open>The agent\<close>

definition parse_health_text :: "string \<Rightarrow> string" where
  "parse_health_text status =
     (if Contains status ''(health: unhealthy)'' \<or> Contains status ''(unhealthy)'' then ''unhealthy''
      else if Contains status ''(health: starting)'' \<or> Contains status ''(starting)'' then ''starting''
      else if Contains status ''(health: none)'' \<or> Contains status ''(health: no healthcheck)'' then ''none''
      else [])"

definition inferContainerHealth :: "string \<Rightarrow> string \<Rightarrow> string" where
  "inferContainerHealth state status =
     (let s = normal_text state; t = normal_text status; h = parse_health_text t; up = (if h \<noteq> [] then h else ''healthy'') in
      if s = ''restarting'' then ''starting''
      else if s = ''running'' then up
      else if s = ''paused'' then ''starting''
      else if s = [] \<and> HasPrefix t ''up'' then up
      else if s = [] \<and> HasPrefix t ''restarting'' then ''starting''
      else if s = ''exited'' then ''unhealthy''
      else if h = ''unhealthy'' \<or> h = ''starting'' \<or> h = ''none'' then h
      else ''unhealthy'')"

text \<open>The report of one container and the inspector after it.\<close>

definition collect_one :: "(string \<Rightarrow> string list) \<Rightarrow> Container \<Rightarrow> inspector \<Rightarrow> inspector \<times> ContainerStatus" where
  "collect_one inspect item inspector =
     (case (if inspector \<noteq> None \<and> LiveContainer (coState item) (coStatus item)
            then RepoDigests inspect inspector item else (inspector, coRepoDigests item)) of
        (inspector', digests) \<Rightarrow> (inspector',
          \<lparr>ctID = coID item, ctName = (case coNames item of [] \<Rightarrow> [] | n # _ \<Rightarrow> n), ctImage = coImage item,
           ctImageID = coImageID item, ctRepoDigests = digests, ctLabels = FilterDockerComposeLabels (coLabels item),
           ctState = coState item, ctStatus = coStatus item, ctHealth = inferContainerHealth (coState item) (coStatus item),
           ctRestartCount = coRestartCount item\<rparr>))"

fun collect_all :: "(string \<Rightarrow> string list) \<Rightarrow> Container list \<Rightarrow> inspector \<Rightarrow> ContainerStatus list" where
  "collect_all inspect [] inspector = []"
| "collect_all inspect (c # cs) inspector =
     (case collect_one inspect c inspector of (inspector', status) \<Rightarrow> status # collect_all inspect cs inspector')"

definition collectDocker :: "(string \<Rightarrow> string list) \<Rightarrow> inspector \<Rightarrow> string \<Rightarrow> gotime \<Rightarrow> Container list \<Rightarrow> AgentMessage" where
  "collectDocker inspect inspector target now containers =
     \<lparr>amTarget = target, amCheckedAt = now, amStaleAfter = zero_time, amContainers = collect_all inspect containers inspector\<rparr>"

text \<open>The JSON of a normalized message: empty lists are arrays, a container without labels has no such field.\<close>

definition container_json :: "ContainerStatus \<Rightarrow> json" where
  "container_json c = JObject
     ([(''id'', JString (ctID c)), (''name'', JString (ctName c)), (''image'', JString (ctImage c)),
       (''imageId'', JString (ctImageID c)), (''repoDigests'', JArray (map JString (ctRepoDigests c)))] @
      (if ctLabels c = [] then [] else [(''labels'', JObject (map (\<lambda>(k, v). (k, JString v)) (ctLabels c)))]) @
      [(''state'', JString (ctState c)), (''status'', JString (ctStatus c)), (''health'', JString (ctHealth c)),
       (''restartCount'', JInt (ctRestartCount c))])"

definition report_message :: "AgentMessage \<Rightarrow> ws_message" where
  "report_message m = \<lparr>wmText = True, wmValue = Some (JObject [(''target'', JString (amTarget m)),
     (''checkedAt'', JString (RFC3339Nano (amCheckedAt m))), (''containers'', JArray (map container_json (amContainers m)))]),
     wmTrailing = False\<rparr>"

text \<open>The reading of the acknowledgement, and what \<open>sendOnce\<close> makes of it.\<close>

definition decodeAgentReportAck :: "ws_message \<Rightarrow> agentReportAck option" where
  "decodeAgentReportAck m =
     (case DecodeStrictJSONObject (wmValue m) [''type'', ''status'', ''code''] of
        None \<Rightarrow> None
      | Some fs \<Rightarrow>
          if wmTrailing m then None
          else (case DecodeStringFields fs [''type'', ''status'', ''code''] of
                  Some [t, s, c] \<Rightarrow> if t \<noteq> AckType then None else Some \<lparr>ackType = t, ackStatus = s, ackCode = c\<rparr>
                | _ \<Rightarrow> None))"

definition isAgentAckErrorCode :: "string \<Rightarrow> bool" where
  "isAgentAckErrorCode code \<longleftrightarrow> code \<in> {AckCodeUnauthorizedTarget, AckCodeInvalidReport, AckCodePersistenceFailed}"

datatype send_outcome =
    ReportAccepted | CollectionFailure | ServerRejection string | ConnectionFailure | AcknowledgementTimeout | ProtocolFailure

definition ack_outcome :: "ws_message \<Rightarrow> send_outcome" where
  "ack_outcome m =
     (if \<not> wmText m then ProtocolFailure
      else (case decodeAgentReportAck m of
              None \<Rightarrow> ProtocolFailure
            | Some ack \<Rightarrow>
                if ackStatus ack = AckStatusOK \<and> ackCode ack = AckCodePersisted then ReportAccepted
                else if ackStatus ack = AckStatusError \<and> isAgentAckErrorCode (ackCode ack) then ServerRejection (ackCode ack)
                else ProtocolFailure))"

end
