(* ===== verification/Auth.thy ===== *)
theory Auth
  imports ConfigTypes Sha256
begin

text \<open>
  \<open>internal/auth/auth.go\<close>: the basic authentication of the dashboard and the tokens of the agents with the
  targets each is bound to. The comparison of a password with its hash (bcrypt) is an argument.
\<close>

section \<open>Dashboard users\<close>

record BasicAuth =
  baMode :: string
  baUsers :: "string \<rightharpoonup> string"

definition NewBasicAuth :: "AuthConfig \<Rightarrow> BasicAuth" where
  "NewBasicAuth cfg =
     \<lparr>baMode = acMode cfg, baUsers = fold (\<lambda>u users. users(auUsername u \<mapsto> auPasswordHash u)) (acUsers cfg) (\<lambda>_. None)\<rparr>"

definition valid_user :: "(string \<Rightarrow> string \<Rightarrow> bool) \<Rightarrow> BasicAuth \<Rightarrow> string \<Rightarrow> string \<Rightarrow> bool" where
  "valid_user bcrypt auth username password =
     (case baUsers auth username of None \<Rightarrow> False | Some hash \<Rightarrow> bcrypt hash password)"

definition isPublicPath :: "string \<Rightarrow> bool" where
  "isPublicPath path \<longleftrightarrow> path = ''/healthz'' \<or> path = ''/readyz'' \<or> path = ''/api/agents/connect''"

text \<open>Whether \<open>Middleware\<close> lets a request pass; \<open>credentials\<close> is what the request carries.\<close>

definition Middleware :: "(string \<Rightarrow> string \<Rightarrow> bool) \<Rightarrow> BasicAuth \<Rightarrow> string \<Rightarrow> (string \<times> string) option \<Rightarrow> bool" where
  "Middleware bcrypt auth path credentials =
     (if baMode auth = ''dev-no-auth'' \<or> isPublicPath path then True
      else (case credentials of None \<Rightarrow> False | Some (username, password) \<Rightarrow> valid_user bcrypt auth username password))"

section \<open>Agent tokens\<close>

record agentTokenRecord =
  trToken :: string
  trTargets :: "string list"

definition sortedAgentTargets :: "DockerTarget list \<Rightarrow> string list" where
  "sortedAgentTargets targets =
     sort (dedup_by (\<lambda>n. n) (filter (\<lambda>n. n \<noteq> []) (map (\<lambda>t. TrimSpace (dtName t)) (filter (\<lambda>t. dtKind t = ''agent'') targets))))"

text \<open>The shared tokens are bound to all configured agents, the token of a target to that target.\<close>

definition shared_records :: "string list \<Rightarrow> string list \<Rightarrow> agentTokenRecord list" where
  "shared_records targets tokens =
     concat (map (\<lambda>token. if TrimSpace token = [] \<or> targets = [] then [] else [\<lparr>trToken = TrimSpace token, trTargets = targets\<rparr>]) tokens)"

definition own_records :: "DockerTarget list \<Rightarrow> agentTokenRecord list" where
  "own_records docker =
     concat (map (\<lambda>target.
       if dtKind target \<noteq> ''agent'' then []
       else if TrimSpace (dtName target) = [] \<or> TrimSpace (dtAgentToken target) = [] then []
       else [\<lparr>trToken = TrimSpace (dtAgentToken target), trTargets = [TrimSpace (dtName target)]\<rparr>]) docker)"

definition NewAgentTokenAuthenticator :: "Config \<Rightarrow> agentTokenRecord list" where
  "NewAgentTokenAuthenticator cfg =
     shared_records (sortedAgentTargets (rtDocker (cfRuntime cfg))) (aaTokens (acAgent (cfAuth cfg))) @
     own_records (rtDocker (cfRuntime cfg))"

definition constantTimeStringEqual :: "string \<Rightarrow> string \<Rightarrow> bool" where
  "constantTimeStringEqual candidate configured \<longleftrightarrow> Sum256 (bytes_of candidate) = Sum256 (bytes_of configured)"

text \<open>One step of the loop of \<open>Authenticate\<close>: whether a record has matched, and the targets of those that have.\<close>

definition match_record :: "string \<Rightarrow> agentTokenRecord \<Rightarrow> bool \<times> string list \<Rightarrow> bool \<times> string list" where
  "match_record token rec st =
     (if constantTimeStringEqual token (trToken rec) then (True, snd st @ trTargets rec) else st)"

definition Authenticate :: "agentTokenRecord list \<Rightarrow> string \<Rightarrow> string list option" where
  "Authenticate records raw =
     (let token = TrimSpace raw in
      if token = [] then None
      else (case fold (match_record token) records (False, []) of
              (matched, targets) \<Rightarrow> if \<not> matched \<or> targets = [] then None else Some targets))"

definition Allows :: "string list \<Rightarrow> string \<Rightarrow> bool" where
  "Allows binding target \<longleftrightarrow> TrimSpace target \<in> set binding"

definition Targets :: "string list \<Rightarrow> string list" where
  "Targets binding = sort (remdups binding)"

section \<open>What a token is bound to\<close>

lemma set_sortedAgentTargets:
  "set (sortedAgentTargets docker) = {TrimSpace (dtName t) |t. t \<in> set docker \<and> dtKind t = ''agent'' \<and> TrimSpace (dtName t) \<noteq> []}"
  by (auto simp: sortedAgentTargets_def set_dedup_id)

lemma match_fold:
  "fold (match_record token) records st =
   (fst st \<or> (\<exists>r \<in> set records. constantTimeStringEqual token (trToken r)),
    snd st @ concat (map trTargets (filter (\<lambda>r. constantTimeStringEqual token (trToken r)) records)))"
  by (induction records arbitrary: st) (auto simp: match_record_def prod_eq_iff)

text \<open>A target of the binding is that of a configured agent, and the token has the digest of a shared token or
  of the token of this agent.\<close>

lemma binding_is_configured:
  assumes "Authenticate (NewAgentTokenAuthenticator cfg) raw = Some binding" and "target \<in> set binding"
  shows "\<exists>t \<in> set (rtDocker (cfRuntime cfg)). dtKind t = ''agent'' \<and> TrimSpace (dtName t) = target \<and> target \<noteq> [] \<and>
    (\<exists>token \<in> insert (dtAgentToken t) (set (aaTokens (acAgent (cfAuth cfg)))). TrimSpace token \<noteq> [] \<and>
       constantTimeStringEqual (TrimSpace raw) (TrimSpace token))"
proof -
  from assms obtain r where r: "r \<in> set (NewAgentTokenAuthenticator cfg)" "constantTimeStringEqual (TrimSpace raw) (trToken r)"
    "target \<in> set (trTargets r)"
    by (auto simp: Authenticate_def match_fold Let_def split: if_splits)
  then consider (shared) token where "token \<in> set (aaTokens (acAgent (cfAuth cfg)))" "TrimSpace token \<noteq> []"
      "trToken r = TrimSpace token" "target \<in> set (sortedAgentTargets (rtDocker (cfRuntime cfg)))"
    | (own) t where "t \<in> set (rtDocker (cfRuntime cfg))" "dtKind t = ''agent''" "TrimSpace (dtName t) = target" "target \<noteq> []"
      "TrimSpace (dtAgentToken t) \<noteq> []" "trToken r = TrimSpace (dtAgentToken t)"
    by (auto simp: NewAgentTokenAuthenticator_def shared_records_def own_records_def split: if_splits)
  then show ?thesis
  proof cases
    case shared
    then obtain t where "t \<in> set (rtDocker (cfRuntime cfg))" "dtKind t = ''agent''" "TrimSpace (dtName t) = target" "target \<noteq> []"
      by (auto simp: set_sortedAgentTargets)
    with shared r(2) show ?thesis by auto
  next
    case own
    with r(2) show ?thesis by auto
  qed
qed

end
