(* ===== verification/AgentReport.thy ===== *)
theory AgentReport
  imports AgentWire StatusOps Auth
begin

text \<open>
  The server's side of an agent report: schema and bounds (\<open>internal/app/agent_report.go\<close>), authorization and
  effect (\<open>ApplyAgentReport\<close> of \<open>internal/monitor/monitor.go\<close>), and the connection that carries one report and
  one acknowledgement (\<open>agentConnect\<close> and \<open>handleAgentReport\<close> of \<open>internal/app/app.go\<close>).
\<close>

section \<open>Schema\<close>

record agentReportContainerWire =
  cwID :: string
  cwName :: string
  cwImage :: string
  cwImageID :: string
  cwRepoDigests :: "string list"
  cwLabels :: "(string \<times> string) list"
  cwHasLabels :: bool
  cwState :: string
  cwStatus :: string
  cwHealth :: string
  cwRestartCount :: int

record agentReportWire =
  rwTarget :: string
  rwCheckedAt :: string
  rwContainers :: "agentReportContainerWire list"

definition agentReportTopFields :: "string list" where
  "agentReportTopFields = [''target'', ''checkedAt'', ''containers'']"

definition agentReportContainerFields :: "string list" where
  "agentReportContainerFields = [''id'', ''name'', ''image'', ''imageId'', ''repoDigests'', ''labels'', ''state'', ''status'', ''health'',
     ''restartCount'']"

text \<open>A value of a label is a string, and not null.\<close>

definition label_value :: "string \<times> json \<Rightarrow> (string \<times> string) option" where
  "label_value kv = (case snd kv of JString s \<Rightarrow> Some (fst kv, s) | _ \<Rightarrow> None)"

definition decodeAgentReportLabelsWire :: "json \<Rightarrow> (string \<times> string) list option" where
  "decodeAgentReportLabelsWire raw =
     (case raw of JObject fs \<Rightarrow> map_opt label_value (last_fields fs) | _ \<Rightarrow> None)"

definition decode_string_array :: "json \<Rightarrow> string list option" where
  "decode_string_array raw = (case raw of JArray items \<Rightarrow> map_opt into_string items | _ \<Rightarrow> None)"

definition decode_labels_field :: "(string \<times> json) list \<Rightarrow> (bool \<times> (string \<times> string) list) option" where
  "decode_labels_field fs =
     (case map_of fs ''labels'' of
        None \<Rightarrow> Some (False, [])
      | Some raw \<Rightarrow> map_option (Pair True) (decodeAgentReportLabelsWire raw))"

definition decodeAgentReportContainerWire :: "json \<Rightarrow> agentReportContainerWire option" where
  "decodeAgentReportContainerWire raw =
     (case DecodeStrictJSONObject (Some raw) agentReportContainerFields of
        None \<Rightarrow> None
      | Some fs \<Rightarrow>
          (case DecodeStringFields fs [''id'', ''name'', ''image'', ''imageId'', ''state'', ''status'', ''health''] of
             Some [i, name, img, imgID, state, status, health] \<Rightarrow>
               (case Option.bind (present fs ''repoDigests'') decode_string_array of
                  None \<Rightarrow> None
                | Some digests \<Rightarrow>
                    (case Option.bind (present fs ''restartCount'') into_int of
                       None \<Rightarrow> None
                     | Some restarts \<Rightarrow>
                         (case decode_labels_field fs of
                            None \<Rightarrow> None
                          | Some (hasLabels, labels) \<Rightarrow> Some
                              \<lparr>cwID = i, cwName = name, cwImage = img, cwImageID = imgID, cwRepoDigests = digests,
                               cwLabels = labels, cwHasLabels = hasLabels, cwState = state, cwStatus = status,
                               cwHealth = health, cwRestartCount = restarts\<rparr>)))
           | _ \<Rightarrow> None))"

definition decode_containers :: "json \<Rightarrow> agentReportContainerWire list option" where
  "decode_containers raw = (case raw of JArray items \<Rightarrow> map_opt decodeAgentReportContainerWire items | _ \<Rightarrow> None)"

definition decodeAgentReportWire :: "ws_message \<Rightarrow> agentReportWire option" where
  "decodeAgentReportWire m =
     (case DecodeStrictJSONObject (wmValue m) agentReportTopFields of
        None \<Rightarrow> None
      | Some fs \<Rightarrow>
          if wmTrailing m then None
          else (case (Option.bind (present fs ''target'') into_string, Option.bind (present fs ''checkedAt'') into_string,
                      Option.bind (present fs ''containers'') decode_containers) of
                  (Some target, Some checkedAt, Some containers) \<Rightarrow>
                    Some \<lparr>rwTarget = target, rwCheckedAt = checkedAt, rwContainers = containers\<rparr>
                | _ \<Rightarrow> None))"

section \<open>Bounds\<close>

definition agentReportMaxTargetBytes :: nat where "agentReportMaxTargetBytes = 255"
definition agentReportMaxContainers :: nat where "agentReportMaxContainers = 10000"
definition agentReportMaxIDBytes :: nat where "agentReportMaxIDBytes = 256"
definition agentReportMaxScalarBytes :: nat where "agentReportMaxScalarBytes = 4096"
definition agentReportMaxDigests :: nat where "agentReportMaxDigests = 256"
definition agentReportMaxLabels :: nat where "agentReportMaxLabels = 32"

lemmas report_limits = agentReportMaxTargetBytes_def agentReportMaxContainers_def agentReportMaxIDBytes_def
  agentReportMaxScalarBytes_def agentReportMaxDigests_def agentReportMaxLabels_def

definition agentReportValidHealth :: "string list" where
  "agentReportValidHealth = [''healthy'', ''unhealthy'', ''starting'', ''none'']"

text \<open>The reason a container is refused for; \<open>seenIDs\<close> are those of the containers before it.\<close>

definition validateAgentReportContainerSemantics :: "agentReportContainerWire \<Rightarrow> string list \<Rightarrow> string option" where
  "validateAgentReportContainerSemantics item seenIDs =
     (if agentReportMaxIDBytes < length (cwID item) then Some ''container id exceeds maximum length''
      else if TrimSpace (cwID item) = [] then Some ''container id is empty after trimming''
      else if cwID item \<in> set seenIDs then Some ''duplicate container id''
      else if list_ex (\<lambda>s. agentReportMaxScalarBytes < length s)
                [cwName item, cwImage item, cwImageID item, cwState item, cwStatus item, cwHealth item]
      then Some ''container scalar field exceeds maximum length''
      else if cwRestartCount item < 0 then Some ''restartCount is negative''
      else if cwHealth item \<notin> set agentReportValidHealth then Some ''health is not a recognized value''
      else if agentReportMaxDigests < length (cwRepoDigests item) then Some ''repoDigests exceeds maximum count''
      else if list_ex (\<lambda>s. agentReportMaxScalarBytes < length s) (cwRepoDigests item) then Some ''repoDigests entry exceeds maximum length''
      else if cwHasLabels item \<and> agentReportMaxLabels < length (cwLabels item) then Some ''labels exceeds maximum count''
      else if cwHasLabels item \<and> list_ex (\<lambda>(k, v). agentReportMaxScalarBytes < length k \<or> agentReportMaxScalarBytes < length v) (cwLabels item)
      then Some ''label key or value exceeds maximum length''
      else None)"

definition wire_status :: "agentReportContainerWire \<Rightarrow> ContainerStatus" where
  "wire_status item = \<lparr>ctID = cwID item, ctName = cwName item, ctImage = cwImage item, ctImageID = cwImageID item,
     ctRepoDigests = cwRepoDigests item, ctLabels = cwLabels item, ctState = cwState item, ctStatus = cwStatus item,
     ctHealth = cwHealth item, ctRestartCount = cwRestartCount item\<rparr>"

fun validate_containers :: "agentReportContainerWire list \<Rightarrow> string list \<Rightarrow> string + ContainerStatus list" where
  "validate_containers [] seenIDs = Inr []"
| "validate_containers (item # items) seenIDs =
     (case validateAgentReportContainerSemantics item seenIDs of
        Some e \<Rightarrow> Inl e
      | None \<Rightarrow> bind_res (validate_containers items (cwID item # seenIDs)) (\<lambda>cs. Inr (wire_status item # cs)))"

definition validateAgentReportSemantics :: "agentReportWire \<Rightarrow> string + AgentMessage" where
  "validateAgentReportSemantics wire =
     (if TrimSpace (rwTarget wire) = [] then Inl ''target is empty after trimming''
      else if agentReportMaxTargetBytes < length (rwTarget wire) then Inl ''target exceeds maximum length''
      else (case parse_RFC3339 (rwCheckedAt wire) of
              None \<Rightarrow> Inl ''checkedAt is not a non-zero RFC3339 timestamp''
            | Some checkedAt \<Rightarrow>
                if checkedAt = zero_time then Inl ''checkedAt is not a non-zero RFC3339 timestamp''
                else if agentReportMaxContainers < length (rwContainers wire) then Inl ''containers exceeds maximum count''
                else bind_res (validate_containers (rwContainers wire) [])
                  (\<lambda>containers. Inr \<lparr>amTarget = rwTarget wire, amCheckedAt = checkedAt, amStaleAfter = zero_time,
                     amContainers = containers\<rparr>)))"

section \<open>Authorization and effect\<close>

definition maxAgentClockSkew :: duration where "maxAgentClockSkew = 30 * Second"

definition clampAgentCheckedAt :: "gotime \<Rightarrow> gotime \<Rightarrow> gotime" where
  "clampAgentCheckedAt reported received =
     (if reported = zero_time \<or> reported < received - maxAgentClockSkew \<or> received + maxAgentClockSkew < reported
      then received else reported)"

definition agentTargetAllowed :: "string \<Rightarrow> string list \<Rightarrow> bool" where
  "agentTargetAllowed target authorizedTargets \<longleftrightarrow> target \<noteq> [] \<and> list_ex (\<lambda>t. target = TrimSpace t) authorizedTargets"

definition monitor_statusTTL :: "duration \<Rightarrow> duration" where
  "monitor_statusTTL interval = (if interval \<le> 0 then 0 else 2 * interval)"

definition agentStatusTTL :: "Config \<Rightarrow> string \<Rightarrow> duration" where
  "agentStatusTTL cfg target =
     (case DefaultInterval cfg of
        Inl _ \<Rightarrow> 0
      | Inr defaultInterval \<Rightarrow>
          (case find (\<lambda>t. dtKind t = ''agent'' \<and> TrimSpace (dtName t) = target) (rtDocker (cfRuntime cfg)) of
             None \<Rightarrow> 0
           | Some t \<Rightarrow> monitor_statusTTL (CheckInterval (docker_IntervalDuration t) defaultInterval)))"

definition agentDockerContainers :: "ContainerStatus list \<Rightarrow> Container list" where
  "agentDockerContainers statuses = map (\<lambda>s.
     \<lparr>coID = ctID s, coNames = (if ctName s \<noteq> [] then [ctName s] else []), coImage = ctImage s, coImageID = ctImageID s,
      coRepoDigests = ctRepoDigests s, coLabels = ctLabels s, coState = ctState s, coStatus = ctStatus s,
      coRestartCount = ctRestartCount s, coHealth = ctHealth s\<rparr>) statuses"

text \<open>The message as it is stored, and the results it gives for the services of the target.\<close>

definition received_message :: "Config \<Rightarrow> AgentMessage \<Rightarrow> gotime \<Rightarrow> AgentMessage" where
  "received_message cfg message receivedAt =
     (let target = TrimSpace (amTarget message);
          m = FilterAgentMessageDockerLabels (message\<lparr>amTarget := target\<rparr>);
          ttl = agentStatusTTL cfg target
      in m\<lparr>amCheckedAt := clampAgentCheckedAt (amCheckedAt m) receivedAt,
           amStaleAfter := (if 0 < ttl then receivedAt + ttl else amStaleAfter m)\<rparr>)"

definition agent_result :: "AgentMessage \<Rightarrow> Service \<Rightarrow> StatusResult" where
  "agent_result m service =
     (case dockerStatus (\<lambda>_. []) service (amTarget m) (agentDockerContainers (amContainers m)) None of
        (_, health, statusMessage, images) \<Rightarrow>
          \<lparr>srServiceID = svID service, srTarget = amTarget m, srHealth = health, srMessage = statusMessage,
           srCheckedAt = amCheckedAt m, srExpiresAt = amStaleAfter m, srObservedImages = images\<rparr>)"

definition agent_services :: "string \<Rightarrow> Service list \<Rightarrow> Service list" where
  "agent_services target services = filter (\<lambda>s. svRuntime s = ''compose'' \<and> composeServiceTarget s = target) services"

text \<open>\<open>fails\<close> tells that the database refuses; \<open>None\<close> is an unauthorized target, \<open>Some False\<close> a failure.\<close>

definition ApplyAgentReport :: "Config \<Rightarrow> AgentMessage \<Rightarrow> string list \<Rightarrow> bool \<Rightarrow> gotime \<Rightarrow> gotime \<Rightarrow> DashDB \<Rightarrow> DashDB \<times> bool option" where
  "ApplyAgentReport cfg message authorizedTargets fails receivedAt now db =
     (if \<not> agentTargetAllowed (TrimSpace (amTarget message)) authorizedTargets then (db, None)
      else if fails then (db, Some False)
      else (let m = received_message cfg message receivedAt;
                results = map (agent_result m) (agent_services (amTarget m) (Services db))
            in (UpsertAgentReport m results receivedAt now db, Some True)))"

section \<open>The connection\<close>

text \<open>\<open>handleAgentReport\<close>: no message is the end of the connection, without an acknowledgement.\<close>

definition handleAgentReport ::
  "Config \<Rightarrow> string list \<Rightarrow> bool \<Rightarrow> gotime \<Rightarrow> gotime \<Rightarrow> ws_message option \<Rightarrow> DashDB \<Rightarrow> DashDB \<times> agentReportAck option" where
  "handleAgentReport cfg authorizedTargets fails receivedAt now message db =
     (case message of
        None \<Rightarrow> (db, None)
      | Some m \<Rightarrow>
          if \<not> wmText m then (db, Some (newAgentReportAckError AckCodeInvalidReport))
          else (case decodeAgentReportWire m of
                  None \<Rightarrow> (db, Some (newAgentReportAckError AckCodeInvalidReport))
                | Some wire \<Rightarrow>
                    (case validateAgentReportSemantics wire of
                       Inl _ \<Rightarrow> (db, Some (newAgentReportAckError AckCodeInvalidReport))
                     | Inr report \<Rightarrow>
                         (case ApplyAgentReport cfg report authorizedTargets fails receivedAt now db of
                            (db', None) \<Rightarrow> (db', Some (newAgentReportAckError AckCodeUnauthorizedTarget))
                          | (db', Some False) \<Rightarrow> (db', Some (newAgentReportAckError AckCodePersistenceFailed))
                          | (db', Some True) \<Rightarrow> (db', Some newAgentReportAckOK)))))"

text \<open>\<open>agentConnect\<close>: \<open>queryToken\<close> tells of a token in the query; no acknowledgement when it is refused.\<close>

definition agentConnect ::
  "Config \<Rightarrow> bool \<Rightarrow> string \<Rightarrow> bool \<Rightarrow> gotime \<Rightarrow> gotime \<Rightarrow> ws_message option \<Rightarrow> DashDB \<Rightarrow> DashDB \<times> agentReportAck option" where
  "agentConnect cfg queryToken token fails receivedAt now message db =
     (if queryToken then (db, None)
      else (case Authenticate (NewAgentTokenAuthenticator cfg) token of
              None \<Rightarrow> (db, None)
            | Some binding \<Rightarrow> handleAgentReport cfg (Targets binding) fails receivedAt now message db))"

end
