(* ===== verification/AgentProps.thy ===== *)
theory AgentProps
  imports AgentReport StatusProps ConfigProps
begin

text \<open>
  What a report of a remote agent can change, that the agent learns the truth about it, and that a collected
  report passes the server's schema and bounds and arrives as it was.
\<close>

section \<open>The rows a report writes\<close>

definition owned_status :: "string \<Rightarrow> DashDB \<Rightarrow> StatusResult \<Rightarrow> bool" where
  "owned_status target db s \<longleftrightarrow> srTarget s = canonicalStatusTarget target \<and>
     (\<exists>service \<in> set (agent_services target (Services db)). srServiceID s = TrimSpace (svID service))"

lemma put_status_elsewhere:
  "(\<And>r. status_id r = status_id new \<Longrightarrow> \<not> Q r) \<Longrightarrow> filter Q (put_status (\<lambda>_. new) new rows) = filter Q rows"
  by (induction rows) auto

lemma put_agent_elsewhere:
  "filter (\<lambda>a. arTarget a \<noteq> arTarget new) (put_agent new rows) = filter (\<lambda>a. arTarget a \<noteq> arTarget new) rows"
  by (induction rows) auto

definition same_inventory :: "DashDB \<Rightarrow> DashDB \<Rightarrow> bool" where
  "same_inventory db db' \<longleftrightarrow> dbServices db' = dbServices db \<and> dbOverrides db' = dbOverrides db \<and> dbScans db' = dbScans db \<and>
     dbRepositories db' = dbRepositories db \<and> dbExclusions db' = dbExclusions db"

lemma write_status_inventory: "same_inventory db (write_status s db)" "dbAgents (write_status s db) = dbAgents db"
  by (simp_all add: same_inventory_def write_status_def insert_status_def set_statuses_def insert_history_def
      deleteStatusHistoryForServiceTarget_def delete_history_def Let_def)

lemma admitted_id: "admitted_status db s = Some s' \<Longrightarrow> status_id s' = status_id s"
  by (auto simp: admitted_status_def overridden_status_def split: prod.splits if_splits)

lemma report_step_elsewhere:
  assumes "\<And>r. status_id r = status_id (canonical_status s) \<Longrightarrow> \<not> Q r"
  shows "filter Q (dbStatuses (fst (report_step s st))) = filter Q (dbStatuses (fst st))"
    "same_inventory (fst st) (fst (report_step s st))" "dbAgents (fst (report_step s st)) = dbAgents (fst st)"
proof -
  have "filter Q (dbStatuses (fst (report_step s st))) = filter Q (dbStatuses (fst st)) \<and>
    same_inventory (fst st) (fst (report_step s st)) \<and> dbAgents (fst (report_step s st)) = dbAgents (fst st)"
  proof (cases "admitted_status (fst st) (canonical_status s)")
    case None
    then show ?thesis by (simp add: report_step_def same_inventory_def)
  next
    case (Some s')
    have "\<not> Q r" if "status_id r = status_id (status_columns (fst st) s')" for r
      using assms [of r] admitted_id [OF Some] that by simp
    note kept = put_status_elsewhere [of "status_columns (fst st) s'" Q, OF this]
    show ?thesis using Some kept by (simp add: report_step_def write_status_inventory)
  qed
  then show "filter Q (dbStatuses (fst (report_step s st))) = filter Q (dbStatuses (fst st))"
    "same_inventory (fst st) (fst (report_step s st))" "dbAgents (fst (report_step s st)) = dbAgents (fst st)" by blast+
qed

lemma report_steps_elsewhere:
  assumes "\<And>s r. s \<in> set ss \<Longrightarrow> status_id r = status_id (canonical_status s) \<Longrightarrow> \<not> Q r"
  shows "filter Q (dbStatuses (fst (fold report_step ss st))) = filter Q (dbStatuses (fst st)) \<and>
    same_inventory (fst st) (fst (fold report_step ss st)) \<and> dbAgents (fst (fold report_step ss st)) = dbAgents (fst st)"
  using assms
proof (induction ss arbitrary: st)
  case (Cons s ss)
  have "\<not> Q r" if "status_id r = status_id (canonical_status s)" for r using Cons.prems [of s r] that by simp
  note step = report_step_elsewhere [of s Q st, OF this]
  have later: "\<not> Q r" if "s' \<in> set ss" "status_id r = status_id (canonical_status s')" for s' r
    using Cons.prems [of s' r] that by simp
  note rest = Cons.IH [of "report_step s st", OF later]
  show ?case using rest step by (simp add: same_inventory_def)
qed (simp add: same_inventory_def)

lemma commit_fields [simp]:
  "dbAgents (commitAndInvalidateSummary db) = dbAgents db" "dbStatuses (commitAndInvalidateSummary db) = dbStatuses db"
  "same_inventory db' (commitAndInvalidateSummary db) = same_inventory db' db"
  by (simp_all add: commitAndInvalidateSummary_def same_inventory_def)

lemma on_health_inventory [simp]: "same_inventory db' (on_health f db) = same_inventory db' db"
  by (simp add: same_inventory_def on_health_def)

lemma report_elsewhere:
  assumes "\<And>s r. s \<in> set results \<Longrightarrow> status_id r = status_id (canonical_status s) \<Longrightarrow> \<not> Q r"
  shows "filter Q (dbStatuses (UpsertAgentReport m results receivedAt now db)) = filter Q (dbStatuses db)"
    "same_inventory db (UpsertAgentReport m results receivedAt now db)"
    "filter (\<lambda>a. arTarget a \<noteq> amTarget m) (dbAgents (UpsertAgentReport m results receivedAt now db)) =
       filter (\<lambda>a. arTarget a \<noteq> amTarget m) (dbAgents db)"
proof -
  let ?row = "agent_row (FilterAgentMessageDockerLabels m) receivedAt"
  let ?db1 = "db\<lparr>dbAgents := put_agent ?row (dbAgents db)\<rparr>"
  have row: "arTarget ?row = amTarget m" by (simp add: agent_row_def FilterAgentMessageDockerLabels_def)
  obtain db2 affected where f: "fold report_step results (?db1, []) = (db2, affected)" by fastforce
  note steps = report_steps_elsewhere [of results Q "(?db1, [])", OF assms, unfolded f fst_conv]
  show "filter Q (dbStatuses (UpsertAgentReport m results receivedAt now db)) = filter Q (dbStatuses db)"
    "same_inventory db (UpsertAgentReport m results receivedAt now db)"
    "filter (\<lambda>a. arTarget a \<noteq> amTarget m) (dbAgents (UpsertAgentReport m results receivedAt now db)) =
       filter (\<lambda>a. arTarget a \<noteq> amTarget m) (dbAgents db)"
    using steps put_agent_elsewhere [of ?row "dbAgents db"]
    by (simp_all add: UpsertAgentReport_def Let_def f row) (simp add: same_inventory_def)
qed

section \<open>Authorization\<close>

lemma handle_cases:
  assumes "handleAgentReport cfg authorized fails receivedAt now message db = (db', ack)"
  obtains (unread) "message = None" "db' = db" "ack = None"
  | (rejected) code where "message \<noteq> None" "db' = db" "ack = Some (newAgentReportAckError code)" "isAgentAckErrorCode code"
  | (applied) m wire report where "message = Some m" "decodeAgentReportWire m = Some wire" "validateAgentReportSemantics wire = Inr report"
      "agentTargetAllowed (TrimSpace (amTarget report)) authorized" "\<not> fails" "ack = Some newAgentReportAckOK"
      "db' = fst (ApplyAgentReport cfg report authorized fails receivedAt now db)"
  using assms
  by (auto simp: handleAgentReport_def ApplyAgentReport_def isAgentAckErrorCode_def Let_def
      split: option.splits sum.splits if_splits bool.splits prod.splits)


section \<open>The agent learns the truth\<close>

lemma ack_outcomes:
  "ack_outcome (ack_message newAgentReportAckOK) = ReportAccepted"
  "isAgentAckErrorCode code \<Longrightarrow> ack_outcome (ack_message (newAgentReportAckError code)) = ServerRejection code"
proof -
  show "ack_outcome (ack_message newAgentReportAckOK) = ReportAccepted" by code_simp
  assume "isAgentAckErrorCode code"
  then consider "code = AckCodeUnauthorizedTarget" | "code = AckCodeInvalidReport" | "code = AckCodePersistenceFailed"
    by (auto simp: isAgentAckErrorCode_def)
  then show "ack_outcome (ack_message (newAgentReportAckError code)) = ServerRejection code"
    by cases (simp only:, code_simp)+
qed

lemma put_agent_in: "new \<in> set (put_agent new rows)"
  by (induction rows) auto

lemma report_row_stored:
  "agent_row (FilterAgentMessageDockerLabels m) receivedAt \<in> set (dbAgents (UpsertAgentReport m results receivedAt now db))"
proof -
  let ?row = "agent_row (FilterAgentMessageDockerLabels m) receivedAt"
  let ?db1 = "db\<lparr>dbAgents := put_agent ?row (dbAgents db)\<rparr>"
  obtain db2 affected where f: "fold report_step results (?db1, []) = (db2, affected)" by fastforce
  have "dbAgents db2 = put_agent ?row (dbAgents db)"
    using report_steps_elsewhere [of results "\<lambda>_. False" "(?db1, [])"] f by simp
  then show ?thesis using f by (simp add: UpsertAgentReport_def Let_def put_agent_in)
qed

lemma filter_labels_idem [simp]:
  "FilterDockerComposeLabels (FilterDockerComposeLabels labels) = FilterDockerComposeLabels labels"
  by (cases "map_of labels DockerComposeProjectLabel"; cases "map_of labels DockerComposeServiceLabel")
    (simp_all add: FilterDockerComposeLabels_def List.map_filter_def DockerComposeProjectLabel_def DockerComposeServiceLabel_def)

definition stored_container :: "agentReportContainerWire \<Rightarrow> ContainerStatus" where
  "stored_container item = (wire_status item)\<lparr>ctLabels := FilterDockerComposeLabels (cwLabels item)\<rparr>"

lemma validated_containers: "validate_containers items seen = Inr cs \<Longrightarrow> cs = map wire_status items"
  by (induction items arbitrary: seen cs) (auto simp: bind_res_Inr split: option.splits)

lemma received_row:
  assumes "validateAgentReportSemantics wire = Inr report"
  shows "arContainers (agent_row (FilterAgentMessageDockerLabels (received_message cfg report receivedAt)) receivedAt) =
      map stored_container (rwContainers wire)"
    "arTarget (agent_row (FilterAgentMessageDockerLabels (received_message cfg report receivedAt)) receivedAt) = TrimSpace (rwTarget wire)"
proof -
  have "amContainers report = map wire_status (rwContainers wire)" "amTarget report = rwTarget wire"
    using assms by (auto simp: validateAgentReportSemantics_def bind_res_Inr split: if_splits option.splits dest: validated_containers)
  then show "arContainers (agent_row (FilterAgentMessageDockerLabels (received_message cfg report receivedAt)) receivedAt) =
      map stored_container (rwContainers wire)"
    "arTarget (agent_row (FilterAgentMessageDockerLabels (received_message cfg report receivedAt)) receivedAt) = TrimSpace (rwTarget wire)"
    by (simp_all add: agent_row_def received_message_def FilterAgentMessageDockerLabels_def Let_def comp_def stored_container_def wire_status_def)
qed

text \<open>C21: the agent takes its report as accepted exactly when the server has stored it: the row of its target then
  holds the reported containers and the time of receipt; any other report is a rejection, and changed nothing.\<close>

theorem acknowledged_iff_persisted:
  assumes "handleAgentReport cfg authorized fails receivedAt now (Some message) db = (db', answer)"
  shows "\<exists>ack. answer = Some ack \<and>
    (case ack_outcome (ack_message ack) of
       ReportAccepted \<Rightarrow> \<exists>wire. decodeAgentReportWire message = Some wire \<and>
         (\<exists>a \<in> set (dbAgents db'). arTarget a = TrimSpace (rwTarget wire) \<and> arLastSeenAt a = RFC3339 receivedAt \<and>
           arContainers a = map stored_container (rwContainers wire))
     | ServerRejection code \<Rightarrow> db' = db
     | _ \<Rightarrow> False)"
  using assms
proof (cases rule: handle_cases)
  case (rejected code)
  then show ?thesis by (simp add: ack_outcomes)
next
  case (applied m wire report)
  let ?m = "received_message cfg report receivedAt"
  let ?row = "agent_row (FilterAgentMessageDockerLabels ?m) receivedAt"
  have "?row \<in> set (dbAgents db')"
    using applied by (simp add: ApplyAgentReport_def Let_def report_row_stored)
  moreover have "arLastSeenAt ?row = RFC3339 receivedAt" by (simp add: agent_row_def)
  moreover note received_row [OF applied(3), of cfg receivedAt]
  ultimately show ?thesis using applied by (simp add: ack_outcomes) blast
qed simp

section \<open>A collected report arrives\<close>

definition container_fits :: "ContainerStatus \<Rightarrow> bool" where
  "container_fits c \<longleftrightarrow> TrimSpace (ctID c) \<noteq> [] \<and> length (ctID c) \<le> agentReportMaxIDBytes \<and>
     list_all (\<lambda>s. length s \<le> agentReportMaxScalarBytes)
       ([ctName c, ctImage c, ctImageID c, ctState c, ctStatus c] @ ctRepoDigests c @ map fst (ctLabels c) @ map snd (ctLabels c)) \<and>
     length (ctRepoDigests c) \<le> agentReportMaxDigests \<and> 0 \<le> ctRestartCount c \<and> in_int64 (ctRestartCount c)"

definition report_fits :: "AgentMessage \<Rightarrow> bool" where
  "report_fits m \<longleftrightarrow> TrimSpace (amTarget m) \<noteq> [] \<and> length (amTarget m) \<le> agentReportMaxTargetBytes \<and>
     length (amContainers m) \<le> agentReportMaxContainers \<and> distinct (map ctID (amContainers m)) \<and> list_all container_fits (amContainers m)"

definition wire_of :: "ContainerStatus \<Rightarrow> agentReportContainerWire" where
  "wire_of c = \<lparr>cwID = ctID c, cwName = ctName c, cwImage = ctImage c, cwImageID = ctImageID c, cwRepoDigests = ctRepoDigests c,
     cwLabels = ctLabels c, cwHasLabels = (ctLabels c \<noteq> []), cwState = ctState c, cwStatus = ctStatus c, cwHealth = ctHealth c,
     cwRestartCount = ctRestartCount c\<rparr>"

text \<open>What holds of every container the agent collects, whatever Docker answers.\<close>

definition collected :: "ContainerStatus \<Rightarrow> bool" where
  "collected c \<longleftrightarrow> ctHealth c \<in> set agentReportValidHealth \<and> distinct (map fst (ctLabels c)) \<and> length (ctLabels c) \<le> agentReportMaxLabels"

lemma last_fields_id: "distinct (map fst fs) \<Longrightarrow> last_fields fs = fs"
  by (simp add: last_fields_def dedup_by_id rev_map [symmetric])

lemma map_opt_map: "(\<And>x. x \<in> set xs \<Longrightarrow> f (g x) = Some (h x)) \<Longrightarrow> map_opt f (map g xs) = Some (map h xs)"
  by (induction xs) auto

lemma parse_health_range: "parse_health_text status \<in> {''unhealthy'', ''starting'', ''none'', []}"
  unfolding parse_health_text_def by (intro if_mem) simp_all

lemma inferred_health_valid: "inferContainerHealth state status \<in> set agentReportValidHealth"
proof -
  let ?h = "parse_health_text (normal_text status)"
  have up: "(if ?h \<noteq> [] then ?h else ''healthy'') \<in> set agentReportValidHealth"
    using parse_health_range [of "normal_text status"] by (auto simp: agentReportValidHealth_def)
  have last: "(if ?h = ''unhealthy'' \<or> ?h = ''starting'' \<or> ?h = ''none'' then ?h else ''unhealthy'') \<in> set agentReportValidHealth"
    by (simp add: agentReportValidHealth_def)
  have fixed: "''starting'' \<in> set agentReportValidHealth" "''unhealthy'' \<in> set agentReportValidHealth"
    by (simp_all add: agentReportValidHealth_def)
  show ?thesis unfolding inferContainerHealth_def Let_def by (intro if_mem up last fixed)
qed

lemma filtered_labels:
  "distinct (map fst (FilterDockerComposeLabels labels))" "length (FilterDockerComposeLabels labels) \<le> 2"
  by (cases "map_of labels DockerComposeProjectLabel"; cases "map_of labels DockerComposeServiceLabel";
      simp add: FilterDockerComposeLabels_def List.map_filter_def DockerComposeProjectLabel_def DockerComposeServiceLabel_def)+

lemma collect_one_collected: "collected (snd (collect_one inspect item inspector))"
  using filtered_labels [of "coLabels item"] inferred_health_valid [of "coState item" "coStatus item"]
  by (simp add: collect_one_def collected_def agentReportMaxLabels_def split: prod.split)

lemma collect_all_collected: "list_all collected (collect_all inspect cs inspector)"
proof (induction cs arbitrary: inspector)
  case (Cons c cs)
  obtain inspector' status where "collect_one inspect c inspector = (inspector', status)" by fastforce
  with Cons.IH collect_one_collected [of inspect c inspector] show ?case by simp
qed simp

lemma decode_container:
  assumes "collected c" "container_fits c"
  shows "decodeAgentReportContainerWire (container_json c) = Some (wire_of c)"
proof -
  define labels where "labels = (if ctLabels c = [] then [] else [(''labels'', JObject (map (\<lambda>(k, v). (k, JString v)) (ctLabels c)))])"
  define fs where "fs = [(''id'', JString (ctID c)), (''name'', JString (ctName c)), (''image'', JString (ctImage c)),
       (''imageId'', JString (ctImageID c)), (''repoDigests'', JArray (map JString (ctRepoDigests c)))] @ labels @
      [(''state'', JString (ctState c)), (''status'', JString (ctStatus c)), (''health'', JString (ctHealth c)),
       (''restartCount'', JInt (ctRestartCount c))]"
  have json: "container_json c = JObject fs" by (simp add: container_json_def fs_def labels_def)
  have "distinct (map fst fs)" by (simp add: fs_def labels_def)
  moreover have "list_all (\<lambda>f. fst f \<in> set agentReportContainerFields) fs" by (simp add: fs_def labels_def agentReportContainerFields_def)
  ultimately have obj: "DecodeStrictJSONObject (Some (container_json c)) agentReportContainerFields = Some fs"
    by (simp add: DecodeStrictJSONObject_def json last_fields_id)
  have strings: "DecodeStringFields fs [''id'', ''name'', ''image'', ''imageId'', ''state'', ''status'', ''health''] =
      Some [ctID c, ctName c, ctImage c, ctImageID c, ctState c, ctStatus c, ctHealth c]"
    by (simp add: DecodeStringFields_def present_def fs_def labels_def)
  have digests: "Option.bind (present fs ''repoDigests'') decode_string_array = Some (ctRepoDigests c)"
    using map_opt_map [of "ctRepoDigests c" into_string JString "\<lambda>s. s"]
    by (simp add: present_def fs_def labels_def decode_string_array_def)
  have restarts: "Option.bind (present fs ''restartCount'') into_int = Some (ctRestartCount c)"
    using assms(2) by (simp add: present_def fs_def labels_def container_fits_def)
  have distinct: "distinct (map fst (map (\<lambda>(k, v). (k, JString v)) (ctLabels c)))"
    using assms(1) by (simp add: collected_def comp_def case_prod_beta)
  have "map_opt label_value (map (\<lambda>(k, v). (k, JString v)) (ctLabels c)) = Some (map (\<lambda>kv. kv) (ctLabels c))"
    by (intro map_opt_map) (auto simp: label_value_def)
  then have labels: "decode_labels_field fs = Some (ctLabels c \<noteq> [], ctLabels c)"
    using last_fields_id [OF distinct] by (simp add: decode_labels_field_def fs_def labels_def decodeAgentReportLabelsWire_def)
  show ?thesis unfolding decodeAgentReportContainerWire_def obj
    by (simp add: strings digests restarts labels wire_of_def)
qed

lemma validate_container:
  assumes "collected c" "container_fits c" "ctID c \<notin> set seen"
  shows "validateAgentReportContainerSemantics (wire_of c) seen = None"
proof -
  have health: "length (ctHealth c) \<le> agentReportMaxScalarBytes"
    using assms(1) by (auto simp: collected_def agentReportValidHealth_def agentReportMaxScalarBytes_def)
  have all: "\<forall>s \<in> set (map fst (ctLabels c) @ map snd (ctLabels c)). length s \<le> agentReportMaxScalarBytes"
    using assms(2) by (simp add: container_fits_def list_all_iff del: map_append)
  have texts: "length (fst kv) \<le> agentReportMaxScalarBytes \<and> length (snd kv) \<le> agentReportMaxScalarBytes"
    if "kv \<in> set (ctLabels c)" for kv
    using all that by (metis UnCI image_eqI set_append set_map)
  have lists: "\<not> list_ex (\<lambda>s. agentReportMaxScalarBytes < length s) (ctRepoDigests c)"
    "\<not> list_ex (\<lambda>(k, v). agentReportMaxScalarBytes < length k \<or> agentReportMaxScalarBytes < length v) (ctLabels c)"
    using assms(2) texts by (auto simp: container_fits_def list_ex_iff list_all_iff not_less split_beta simp del: length_0_conv)
  show ?thesis using assms health lists
    by (simp add: validateAgentReportContainerSemantics_def wire_of_def container_fits_def collected_def not_less)
qed

lemma validate_collected:
  assumes "list_all collected cs" "list_all container_fits cs" "distinct (map ctID cs)" "set (map ctID cs) \<inter> set seen = {}"
  shows "validate_containers (map wire_of cs) seen = Inr cs"
  using assms
proof (induction cs arbitrary: seen)
  case (Cons c cs)
  have "validate_containers (map wire_of cs) (ctID c # seen) = Inr cs" using Cons.prems by (intro Cons.IH) auto
  moreover have "validateAgentReportContainerSemantics (wire_of c) seen = None" using Cons.prems by (intro validate_container) auto
  moreover have "wire_status (wire_of c) = c" "cwID (wire_of c) = ctID c" by (simp_all add: wire_status_def wire_of_def)
  ultimately show ?case by simp
qed simp

text \<open>C22: a report the agent collects, with a name for its target and texts, digests, ids and counts within the limits
  of the protocol, passes the schema and the checks of the server and is there what it was at the agent.\<close>

theorem agent_report_roundtrip:
  assumes "m = collectDocker inspect inspector target now containers" and "report_fits m" and "four_digit_year now" and "now \<noteq> zero_time"
  shows "map_option validateAgentReportSemantics (decodeAgentReportWire (report_message m)) = Some (Inr m)"
proof -
  have m: "amTarget m = target" "amCheckedAt m = now" "amStaleAfter m = zero_time" "list_all collected (amContainers m)"
    using collect_all_collected by (simp_all add: assms(1) collectDocker_def)
  let ?fs = "[(''target'', JString target), (''checkedAt'', JString (RFC3339Nano now)), (''containers'', JArray (map container_json (amContainers m)))]"
  let ?wire = "\<lparr>rwTarget = target, rwCheckedAt = RFC3339Nano now, rwContainers = map wire_of (amContainers m)\<rparr>"
  have "DecodeStrictJSONObject (wmValue (report_message m)) agentReportTopFields = Some ?fs"
    by (simp add: DecodeStrictJSONObject_def report_message_def m agentReportTopFields_def last_fields_id)
  moreover have "map_opt decodeAgentReportContainerWire (map container_json (amContainers m)) = Some (map wire_of (amContainers m))"
    using m(4) assms(2) by (intro map_opt_map decode_container) (auto simp: report_fits_def list_all_iff)
  ultimately have decoded: "decodeAgentReportWire (report_message m) = Some ?wire"
    by (simp add: decodeAgentReportWire_def report_message_def present_def decode_containers_def)
  have "validate_containers (map wire_of (amContainers m)) [] = Inr (amContainers m)"
    using m(4) assms(2) by (intro validate_collected) (auto simp: report_fits_def)
  then have "validateAgentReportSemantics ?wire = Inr m"
    using assms(2,4) stored_instant_roundtrip [OF assms(3)] m
    by (simp add: validateAgentReportSemantics_def report_fits_def not_less)
  with decoded show ?thesis by simp
qed

section \<open>A report\<close>

definition demo_agent_config :: Config where
  "demo_agent_config = demo_config\<lparr>cfRuntime := (cfRuntime demo_config)\<lparr>rtDocker := [demo_docker\<lparr>dtAgentToken := ''s3cret ''\<rparr>]\<rparr>\<rparr>"

definition demo_reported :: Container where
  "demo_reported = \<lparr>coID = ''c1'', coNames = [''/shop-web-1''], coImage = ''nginx:1'', coImageID = ''sha256:1'', coRepoDigests = [],
     coLabels = [(''com.docker.compose.service'', ''web''), (''x'', ''y'')], coState = ''running'', coStatus = ''Up'', coRestartCount = 0, coHealth = []\<rparr>"

definition demo_message :: AgentMessage where
  "demo_message = collectDocker (\<lambda>_. [''nginx@sha256:2'']) (Some (\<lambda>_. None)) ''nas'' 1735734645000000000 [demo_reported]"

abbreviation demo_ws :: ws_message where "demo_ws \<equiv> report_message demo_message"

lemma demo_binding: "Authenticate (NewAgentTokenAuthenticator demo_agent_config) ''s3cret'' = Some [''nas'']" "Targets [''nas''] = [''nas'']"
proof -
  have records: "NewAgentTokenAuthenticator demo_agent_config = [\<lparr>trToken = ''s3cret'', trTargets = [''nas'']\<rparr>]" by code_simp
  have trimmed: "TrimSpace ''s3cret'' = ''s3cret''" by code_simp
  show "Authenticate (NewAgentTokenAuthenticator demo_agent_config) ''s3cret'' = Some [''nas'']"
    by (simp add: records trimmed Authenticate_def match_record_def constantTimeStringEqual_def)
  show "Targets [''nas''] = [''nas'']" by (simp add: Targets_def)
qed

lemma demo_decoded:
  "map_option validateAgentReportSemantics (decodeAgentReportWire demo_ws) = Some (Inr demo_message)"
  "agentTargetAllowed (TrimSpace (amTarget demo_message)) [''nas'']"
  "wmText demo_ws"
  by code_simp+

lemma demo_handled:
  "\<exists>db'. handleAgentReport demo_agent_config [''nas''] False 1735734646000000000 0 (Some demo_ws) demo_windows = (db', Some newAgentReportAckOK) \<and>
     db' \<noteq> demo_windows"
proof -
  let ?m = "received_message demo_agent_config demo_message 1735734646000000000"
  let ?db = "UpsertAgentReport ?m (map (agent_result ?m) (agent_services (amTarget ?m) (Services demo_windows))) 1735734646000000000 0 demo_windows"
  obtain wire where "decodeAgentReportWire demo_ws = Some wire" "validateAgentReportSemantics wire = Inr demo_message"
    using demo_decoded(1) by (auto simp: map_option_eq_Some)
  then have "handleAgentReport demo_agent_config [''nas''] False 1735734646000000000 0 (Some demo_ws) demo_windows = (?db, Some newAgentReportAckOK)"
    using demo_decoded(2,3) by (simp add: handleAgentReport_def ApplyAgentReport_def Let_def)
  moreover have "dbAgents demo_windows = []" by (simp add: demo_windows_def new_dash_def)
  then have "?db \<noteq> demo_windows" using report_row_stored by (metis empty_iff list.set(1))
  ultimately show ?thesis by blast
qed


theorem acknowledged_iff_persisted_witness:
  "\<exists>db'. handleAgentReport demo_agent_config [''nas''] False 1735734646000000000 0 (Some demo_ws) demo_windows = (db', Some newAgentReportAckOK) \<and>
     (\<exists>a \<in> set (dbAgents db'). arLastSeenAt a = RFC3339 1735734646000000000)"
proof -
  from demo_handled obtain db' where
    "handleAgentReport demo_agent_config [''nas''] False 1735734646000000000 0 (Some demo_ws) demo_windows = (db', Some newAgentReportAckOK)" by blast
  with acknowledged_iff_persisted [OF this] show ?thesis by (auto simp: ack_outcomes)
qed

theorem agent_report_roundtrip_witness:
  "map_option validateAgentReportSemantics (decodeAgentReportWire demo_ws) = Some (Inr demo_message) \<and>
     map ctHealth (amContainers demo_message) = [''healthy'']"
proof -
  have "report_fits demo_message" "four_digit_year 1735734645000000000" "map ctHealth (amContainers demo_message) = [''healthy'']" by code_simp+
  with agent_report_roundtrip [OF demo_message_def] show ?thesis by (simp add: zero_time_def)
qed

end
