(* ===== verification/Actions.thy ===== *)
theory Actions
  imports GoStrings "HOL-Library.AList"
begin

text \<open>
  \<open>internal/app/actions.go\<close>: the scans and checks started from the dashboard. Each runs in a goroutine of its
  own; a second request for one that is running gets the running one, and a bounded number of finished ones
  is kept. The map of actions is an association list; where Go may iterate in any order, the list is one.
\<close>

section \<open>The board\<close>

definition actionStatusRunning :: string where "actionStatusRunning = ''running''"
definition actionStatusOK :: string where "actionStatusOK = ''ok''"
definition actionStatusError :: string where "actionStatusError = ''error''"
definition maxStoredActions :: nat where "maxStoredActions = 100"

record dashboardAction =
  daID :: string
  daAction :: string
  daStatus :: string
  daStartedAt :: gotime
  daFinishedAt :: "gotime option"
  daError :: string

text \<open>The goroutines that run are the pairs of the id and the name they were started with.\<close>

record ActionBoard =
  bdActions :: "(string \<times> dashboardAction) list"
  bdActive :: "string \<rightharpoonup> string"
  bdNext :: int
  bdGoroutines :: "(string \<times> string) list"

definition no_action :: dashboardAction where
  "no_action = \<lparr>daID = [], daAction = [], daStatus = [], daStartedAt = zero_time, daFinishedAt = None, daError = []\<rparr>"

definition new_board :: ActionBoard where
  "new_board = \<lparr>bdActions = [], bdActive = (\<lambda>_. None), bdNext = 0, bdGoroutines = []\<rparr>"

section \<open>Operations\<close>

definition active_id :: "ActionBoard \<Rightarrow> string \<Rightarrow> string" where
  "active_id board name = (case bdActive board name of Some i \<Rightarrow> i | None \<Rightarrow> [])"

definition startAction :: "string \<Rightarrow> gotime \<Rightarrow> ActionBoard \<Rightarrow> ActionBoard \<times> dashboardAction" where
  "startAction actionName now board =
     (if active_id board actionName \<noteq> [] then
        (board, (case map_of (bdActions board) (active_id board actionName) of Some a \<Rightarrow> a | None \<Rightarrow> no_action))
      else
        (let nextActionID = wrap64 (bdNext board + 1);
             i = string_of_int nextActionID;
             action = \<lparr>daID = i, daAction = actionName, daStatus = actionStatusRunning, daStartedAt = now, daFinishedAt = None, daError = []\<rparr>
         in (board\<lparr>bdActions := AList.update i action (bdActions board), bdActive := (bdActive board)(actionName \<mapsto> i),
                   bdNext := nextActionID, bdGoroutines := bdGoroutines board @ [(i, actionName)]\<rparr>, action)))"

text \<open>One iteration of the search of \<open>pruneActionsLocked\<close> for the finished action that started first.\<close>

definition oldest_step :: "string \<times> dashboardAction \<Rightarrow> string \<times> gotime \<Rightarrow> string \<times> gotime" where
  "oldest_step entry acc =
     (case (entry, acc) of ((i, action), (oldestID, oldestStarted)) \<Rightarrow>
        if daStatus action = actionStatusRunning then (oldestID, oldestStarted)
        else if oldestID = [] \<or> daStartedAt action < oldestStarted then (i, daStartedAt action)
        else (oldestID, oldestStarted))"

definition oldest_id :: "(string \<times> dashboardAction) list \<Rightarrow> string" where
  "oldest_id actions = fst (fold oldest_step actions ([], zero_time))"

lemma oldest_fold:
  "fst (fold oldest_step actions acc) = fst acc \<or>
   (\<exists>a. (fst (fold oldest_step actions acc), a) \<in> set actions \<and> daStatus a \<noteq> actionStatusRunning)"
proof (induction actions arbitrary: acc)
  case (Cons e actions)
  have "fst (oldest_step e acc) = fst acc \<or> (fst (oldest_step e acc) = fst e \<and> daStatus (snd e) \<noteq> actionStatusRunning)"
    by (auto simp: oldest_step_def split: prod.splits)
  with Cons.IH [of "oldest_step e acc"] show ?case by (cases e) auto
qed simp

lemma oldest_is_finished: "oldest_id actions \<noteq> [] \<Longrightarrow> \<exists>a. (oldest_id actions, a) \<in> set actions \<and> daStatus a \<noteq> actionStatusRunning"
  using oldest_fold [of actions "([], zero_time)"] by (simp add: oldest_id_def)

lemma filter_shrinks: "x \<in> set xs \<Longrightarrow> \<not> P x \<Longrightarrow> length (filter P xs) < length xs"
  by (induction xs) (auto simp: less_Suc_eq_le)

function pruneActionsLocked :: "(string \<times> dashboardAction) list \<Rightarrow> (string \<times> dashboardAction) list" where
  "pruneActionsLocked actions =
     (if length actions \<le> maxStoredActions then actions
      else if oldest_id actions = [] then actions
      else pruneActionsLocked (filter (\<lambda>e. fst e \<noteq> oldest_id actions) actions))"
  by pat_completeness auto
termination
proof (relation "measure length")
  fix actions :: "(string \<times> dashboardAction) list"
  assume "oldest_id actions \<noteq> []"
  from oldest_is_finished [OF this] obtain a where "(oldest_id actions, a) \<in> set actions" by blast
  then show "(filter (\<lambda>e. fst e \<noteq> oldest_id actions) actions, actions) \<in> measure length" by (simp add: filter_shrinks)
qed simp

declare pruneActionsLocked.simps [simp del]

definition finished_action :: "string option \<Rightarrow> gotime \<Rightarrow> dashboardAction \<Rightarrow> dashboardAction" where
  "finished_action err now action =
     (case err of
        Some e \<Rightarrow> action\<lparr>daFinishedAt := Some now, daStatus := actionStatusError, daError := e\<rparr>
      | None \<Rightarrow> action\<lparr>daFinishedAt := Some now, daStatus := actionStatusOK\<rparr>)"

definition finishAction :: "string \<Rightarrow> string \<Rightarrow> string option \<Rightarrow> gotime \<Rightarrow> ActionBoard \<Rightarrow> ActionBoard" where
  "finishAction i actionName err now board =
     (case map_of (bdActions board) i of
        None \<Rightarrow> board
      | Some action \<Rightarrow> board\<lparr>
          bdActions := pruneActionsLocked (AList.update i (finished_action err now action) (bdActions board)),
          bdActive := (if active_id board actionName = i then (bdActive board)(actionName := None) else bdActive board)\<rparr>)"

definition actionStatus :: "string \<Rightarrow> ActionBoard \<Rightarrow> dashboardAction option" where
  "actionStatus i board = map_of (bdActions board) i"

section \<open>Runs\<close>

text \<open>A request starts an action, or a goroutine ends with what its run returned.\<close>

inductive board_step :: "ActionBoard \<Rightarrow> ActionBoard \<Rightarrow> bool" where
  requested: "bdNext board < max_int64 \<Longrightarrow> board_step board (fst (startAction actionName now board))"
| ended: "(i, actionName) \<in> set (bdGoroutines board) \<Longrightarrow>
    board_step board (finishAction i actionName err now (board\<lparr>bdGoroutines := remove1 (i, actionName) (bdGoroutines board)\<rparr>))"

inductive_cases board_stepE: "board_step board board'"

inductive board_reach :: "ActionBoard \<Rightarrow> bool" where
  empty: "board_reach new_board"
| step: "board_reach board \<Longrightarrow> board_step board board' \<Longrightarrow> board_reach board'"

section \<open>The invariant\<close>

definition is_running :: "dashboardAction \<Rightarrow> bool" where
  "is_running a \<longleftrightarrow> daStatus a = actionStatusRunning"

definition numbered :: "int \<Rightarrow> string \<Rightarrow> bool" where
  "numbered next i \<longleftrightarrow> (\<exists>n. 0 < n \<and> n \<le> next \<and> i = string_of_int n)"

definition board_ok :: "ActionBoard \<Rightarrow> bool" where
  "board_ok board \<longleftrightarrow>
     distinct (map fst (bdActions board)) \<and> 0 \<le> bdNext board \<and> bdNext board \<le> max_int64 \<and>
     (\<forall>i a. map_of (bdActions board) i = Some a \<longrightarrow> daID a = i \<and> numbered (bdNext board) i) \<and>
     distinct (bdGoroutines board) \<and>
     (\<forall>i name. (i, name) \<in> set (bdGoroutines board) \<longleftrightarrow> bdActive board name = Some i) \<and>
     (\<forall>i name. (i, name) \<in> set (bdGoroutines board) \<longleftrightarrow>
        (\<exists>a. map_of (bdActions board) i = Some a \<and> is_running a \<and> daAction a = name)) \<and>
     length (filter (\<lambda>e. \<not> is_running (snd e)) (bdActions board)) \<le> maxStoredActions"

lemma map_of_filter_key: "map_of (filter (\<lambda>e. fst e \<noteq> k) xs) i = (if i = k then None else map_of xs i)"
  by (induction xs) auto

lemma prune_unfold:
  "length actions \<le> maxStoredActions \<or> oldest_id actions = [] \<Longrightarrow> pruneActionsLocked actions = actions"
  "\<not> (length actions \<le> maxStoredActions \<or> oldest_id actions = []) \<Longrightarrow>
     pruneActionsLocked actions = pruneActionsLocked (filter (\<lambda>e. fst e \<noteq> oldest_id actions) actions)"
  by (subst pruneActionsLocked.simps, auto)+

lemma prune_induct [case_names stop more]:
  assumes "\<And>xs. length xs \<le> maxStoredActions \<or> oldest_id xs = [] \<Longrightarrow> P xs"
    and "\<And>xs. \<not> (length xs \<le> maxStoredActions \<or> oldest_id xs = []) \<Longrightarrow> P (filter (\<lambda>e. fst e \<noteq> oldest_id xs) xs) \<Longrightarrow> P xs"
  shows "P xs"
  using assms by (induction xs rule: pruneActionsLocked.induct) blast

lemma prune_distinct: "distinct (map fst actions) \<Longrightarrow> distinct (map fst (pruneActionsLocked actions))"
  by (induction actions rule: prune_induct) (simp_all add: prune_unfold distinct_map_filter)

lemma prune_old: "map_of (pruneActionsLocked actions) i = Some a \<Longrightarrow> map_of actions i = Some a"
  by (induction actions rule: prune_induct) (auto simp: prune_unfold map_of_filter_key split: if_splits)

lemma prune_running:
  "distinct (map fst actions) \<Longrightarrow> map_of actions i = Some a \<Longrightarrow> is_running a \<Longrightarrow> map_of (pruneActionsLocked actions) i = Some a"
proof (induction actions rule: prune_induct)
  case (more xs)
  then obtain b where b: "(oldest_id xs, b) \<in> set xs" "\<not> is_running b"
    using oldest_is_finished [of xs] by (auto simp: is_running_def)
  have "oldest_id xs \<noteq> i" using b more.prems by (metis map_of_is_SomeI option.inject)
  then show ?case using more by (simp add: prune_unfold(2) map_of_filter_key distinct_map_filter)
qed (simp add: prune_unfold)

lemma oldest_found:
  assumes "(i, a) \<in> set actions" "\<not> is_running a" "\<forall>e \<in> set actions. fst e \<noteq> []"
  shows "oldest_id actions \<noteq> []"
proof -
  have kept: "fst acc \<noteq> [] \<Longrightarrow> fst (fold oldest_step xs acc) \<noteq> []" if "\<forall>e \<in> set xs. fst e \<noteq> []" for xs acc
    using that by (induction xs arbitrary: acc) (auto simp: oldest_step_def split: prod.splits)
  have "fst (fold oldest_step actions acc) \<noteq> []" for acc using assms
  proof (induction actions arbitrary: acc)
    case (Cons e actions)
    show ?case
    proof (cases "(i, a) \<in> set actions")
      case True
      with Cons show ?thesis by simp
    next
      case False
      then have "e = (i, a)" using Cons.prems(1) by simp
      then have "fst (oldest_step e acc) \<noteq> []" using Cons.prems(2,3) by (auto simp: oldest_step_def is_running_def split: prod.splits)
      then show ?thesis using Cons.prems(3) by (simp add: kept)
    qed
  qed simp
  then show ?thesis by (simp add: oldest_id_def)
qed

lemma prune_bound:
  "\<forall>e \<in> set actions. fst e \<noteq> [] \<Longrightarrow> length (filter (\<lambda>e. \<not> is_running (snd e)) (pruneActionsLocked actions)) \<le> maxStoredActions"
proof (induction actions rule: prune_induct)
  case (stop xs)
  show ?case
  proof (cases "length xs \<le> maxStoredActions")
    case True
    then show ?thesis using le_trans [OF length_filter_le True] by (simp add: prune_unfold)
  next
    case False
    then have "filter (\<lambda>e. \<not> is_running (snd e)) xs = []"
      using oldest_found [of _ _ xs] stop by (force simp: filter_empty_conv)
    then show ?thesis using stop by (simp add: prune_unfold)
  qed
qed (simp add: prune_unfold(2))

lemma numbered_ne: "numbered next i \<Longrightarrow> i \<noteq> []"
  by (auto simp: numbered_def string_of_int_def)

lemma numbered_fresh: "0 \<le> next \<Longrightarrow> \<not> numbered next (string_of_int (next + 1))"
  by (auto simp: numbered_def string_of_int_def)

lemma numbered_more: "numbered next i \<Longrightarrow> numbered (next + 1) i"
  by (fastforce simp: numbered_def)

lemma update_new: "k \<notin> fst ` set xs \<Longrightarrow> AList.update k v xs = xs @ [(k, v)]"
  by (induction xs) auto

lemma update_old_filter:
  "distinct (map fst xs) \<Longrightarrow> map_of xs k = Some w \<Longrightarrow> \<forall>e \<in> set xs. fst e \<noteq> [] \<Longrightarrow> \<forall>e \<in> set (AList.update k v xs). fst e \<noteq> []"
  by (induction xs) (auto split: if_splits)

lemma board_ok_running:
  assumes "board_ok board"
  shows "(i, name) \<in> set (bdGoroutines board) \<Longrightarrow> \<exists>a. map_of (bdActions board) i = Some a \<and> is_running a \<and> daAction a = name \<and> daID a = i \<and> i \<noteq> []"
    "(i, name) \<in> set (bdGoroutines board) \<longleftrightarrow> bdActive board name = Some i"
  using assms numbered_ne unfolding board_ok_def by metis+

lemma board_ok_next: "board_ok board \<Longrightarrow> 0 \<le> bdNext board \<and> bdNext board \<le> max_int64"
  unfolding board_ok_def by blast

lemma board_ok_listed:
  "board_ok board \<Longrightarrow> (i, name) \<in> set (bdGoroutines board) \<longleftrightarrow>
     (\<exists>a. map_of (bdActions board) i = Some a \<and> is_running a \<and> daAction a = name)"
  unfolding board_ok_def by blast

lemma active_none: "board_ok board \<Longrightarrow> active_id board name = [] \<Longrightarrow> bdActive board name = None"
  using board_ok_running [of board] by (fastforce simp: active_id_def split: option.splits)

lemma start_fresh:
  assumes "board_ok board" "bdNext board < max_int64"
  shows "wrap64 (bdNext board + 1) = bdNext board + 1" "map_of (bdActions board) (string_of_int (bdNext board + 1)) = None"
proof -
  have n: "0 \<le> bdNext board" using assms(1) by (simp add: board_ok_def)
  then show "wrap64 (bdNext board + 1) = bdNext board + 1" using assms(2) by (simp add: in_int64_def max_int64_def)
  show "map_of (bdActions board) (string_of_int (bdNext board + 1)) = None"
    using assms(1) numbered_fresh [OF n] unfolding board_ok_def by (metis option.exhaust)
qed

lemma start_ok:
  assumes "board_ok board" "bdNext board < max_int64"
  shows "board_ok (fst (startAction name now board))"
proof (cases "active_id board name = []")
  case True
  let ?i = "string_of_int (bdNext board + 1)"
  note fresh = start_fresh [OF assms]
  have new: "?i \<notin> fst ` set (bdActions board)" using fresh(2) by (simp add: map_of_eq_None_iff)
  have none: "bdActive board name = None" using assms(1) True by (rule active_none)
  have idle: "(?i, n) \<notin> set (bdGoroutines board)" for n using board_ok_running(1) [OF assms(1)] fresh(2) by fastforce
  have alone: "(i, name) \<notin> set (bdGoroutines board)" for i using board_ok_running(2) [OF assms(1)] none by simp
  have num: "numbered (bdNext board + 1) ?i" using board_ok_next [OF assms(1)] by (auto simp: numbered_def intro: exI [of _ "bdNext board + 1"])
  let ?a = "\<lparr>daID = ?i, daAction = name, daStatus = actionStatusRunning, daStartedAt = now, daFinishedAt = None, daError = []\<rparr>"
  let ?b = "fst (startAction name now board)"
  have b: "bdActions ?b = bdActions board @ [(?i, ?a)]" "bdActive ?b = (bdActive board)(name \<mapsto> ?i)" "bdNext ?b = bdNext board + 1"
    "bdGoroutines ?b = bdGoroutines board @ [(?i, name)]"
    using True fresh(1) new by (simp_all add: startAction_def Let_def update_new)
  have run: "is_running ?a" by (simp add: is_running_def)
  have at: "map_of (bdActions board @ [(?i, ?a)]) j = (if j = ?i then Some ?a else map_of (bdActions board) j)" for j
    using fresh(2) by (simp add: map_add_def split: option.split)
  have ids: "daID c = j \<and> numbered (bdNext board + 1) j" if "map_of (bdActions board @ [(?i, ?a)]) j = Some c" for j c
    using that assms(1) num numbered_more by (auto simp: at board_ok_def split: if_splits)
  have active: "(j, n) \<in> set (bdGoroutines board @ [(?i, name)]) \<longleftrightarrow> ((bdActive board)(name \<mapsto> ?i)) n = Some j" for j n
    using board_ok_running(2) [OF assms(1), of j n] none alone idle by auto
  have on: "(j, n) \<in> set (bdGoroutines board @ [(?i, name)]) \<longleftrightarrow>
      (\<exists>c. map_of (bdActions board @ [(?i, ?a)]) j = Some c \<and> is_running c \<and> daAction c = n)" for j n
  proof (cases "j = ?i")
    case True
    then show ?thesis unfolding at using run idle by auto
  next
    case False
    then show ?thesis unfolding at using board_ok_listed [OF assms(1), of j n] by simp
  qed
  have sizes: "length (filter (\<lambda>e. \<not> is_running (snd e)) (bdActions board @ [(?i, ?a)])) \<le> maxStoredActions"
    using assms(1) run by (simp add: board_ok_def)
  have "distinct (map fst (bdActions board @ [(?i, ?a)]))" "distinct (bdGoroutines board @ [(?i, name)])"
    "0 \<le> bdNext board + 1" "bdNext board + 1 \<le> max_int64"
    using assms new idle by (auto simp: board_ok_def)
  with ids active on sizes show ?thesis unfolding board_ok_def b by blast
qed (use assms in \<open>simp add: startAction_def\<close>)

lemma finished_not_running: "\<not> is_running (finished_action err now a)"
  by (simp add: finished_action_def is_running_def actionStatusRunning_def actionStatusOK_def actionStatusError_def split: option.split)

lemma finished_id [simp]: "daID (finished_action err now a) = daID a"
  by (simp add: finished_action_def split: option.split)

lemma finish_ok:
  assumes ok: "board_ok board" and run: "(i, name) \<in> set (bdGoroutines board)"
  shows "board_ok (finishAction i name err now (board\<lparr>bdGoroutines := remove1 (i, name) (bdGoroutines board)\<rparr>))"
proof -
  obtain a where a: "map_of (bdActions board) i = Some a" "is_running a" "daAction a = name" "daID a = i" "i \<noteq> []"
    using board_ok_running(1) [OF ok run] by blast
  have act: "bdActive board name = Some i" using board_ok_running(2) [OF ok] run by blast
  have keys: "distinct (map fst (bdActions board))" using ok by (simp add: board_ok_def)
  let ?xs = "AList.update i (finished_action err now a) (bdActions board)"
  let ?b = "finishAction i name err now (board\<lparr>bdGoroutines := remove1 (i, name) (bdGoroutines board)\<rparr>)"
  have b: "bdActions ?b = pruneActionsLocked ?xs" "bdActive ?b = (bdActive board)(name := None)" "bdNext ?b = bdNext board"
    "bdGoroutines ?b = remove1 (i, name) (bdGoroutines board)"
    using a(1) act by (simp_all add: finishAction_def active_id_def)
  have xs: "distinct (map fst ?xs)" using keys by (simp add: distinct_update)
  have at: "map_of ?xs j = (if j = i then Some (finished_action err now a) else map_of (bdActions board) j)" for j
    by (simp add: update_conv')
  have ids: "daID c = j \<and> numbered (bdNext board) j" if "map_of ?xs j = Some c" for j c
    using that ok a by (auto simp: at board_ok_def split: if_splits)
  then have names: "\<forall>e \<in> set ?xs. fst e \<noteq> []" using xs numbered_ne by (metis map_of_eq_Some_iff prod.collapse)
  have rem: "distinct (remove1 (i, name) (bdGoroutines board))"
    "set (remove1 (i, name) (bdGoroutines board)) = set (bdGoroutines board) - {(i, name)}"
    using ok by (simp_all add: board_ok_def)
  have only: "(j, n) \<in> set (bdGoroutines board) \<Longrightarrow> n = name \<longleftrightarrow> j = i" for j n
    using board_ok_running [OF ok] act a by (metis option.inject)
  have on: "(\<exists>c. map_of (pruneActionsLocked ?xs) j = Some c \<and> is_running c \<and> daAction c = n) \<longleftrightarrow>
      (j, n) \<in> set (bdGoroutines board) \<and> j \<noteq> i" for j n
  proof -
    have "(\<exists>c. map_of (pruneActionsLocked ?xs) j = Some c \<and> is_running c \<and> daAction c = n) \<longleftrightarrow>
        (\<exists>c. map_of ?xs j = Some c \<and> is_running c \<and> daAction c = n)"
      using prune_old [of ?xs j] prune_running [OF xs, of j] by blast
    also have "\<dots> \<longleftrightarrow> j \<noteq> i \<and> (\<exists>c. map_of (bdActions board) j = Some c \<and> is_running c \<and> daAction c = n)"
      using finished_not_running by (auto simp: at)
    also have "\<dots> \<longleftrightarrow> (j, n) \<in> set (bdGoroutines board) \<and> j \<noteq> i" using board_ok_listed [OF ok, of j n] by blast
    finally show ?thesis .
  qed
  have active: "(j, n) \<in> set (bdGoroutines board) - {(i, name)} \<longleftrightarrow> ((bdActive board)(name := None)) n = Some j" for j n
    using board_ok_running(2) [OF ok, of j n] only [of j n] act by auto
  have pairs: "(j, n) \<in> set (bdGoroutines board) - {(i, name)} \<longleftrightarrow> (j, n) \<in> set (bdGoroutines board) \<and> j \<noteq> i" for j n
    using only [of j n] by auto
  have listed: "daID c = j \<and> numbered (bdNext board) j" if "map_of (pruneActionsLocked ?xs) j = Some c" for j c
    using ids [OF prune_old [OF that]] .
  show ?thesis
    unfolding board_ok_def b rem(2) pairs on
    using board_ok_next [OF ok] rem(1) prune_distinct [OF xs] prune_bound [OF names] listed active [unfolded pairs] by blast
qed

lemma board_reach_ok: "board_reach board \<Longrightarrow> board_ok board"
proof (induction rule: board_reach.induct)
  case empty
  show ?case by (simp add: board_ok_def new_board_def max_int64_def)
next
  case (step board board')
  then show ?case by (auto elim!: board_stepE intro: start_ok finish_ok)
qed

section \<open>What a client sees\<close>

text \<open>A board on which the first scan runs.\<close>

definition demo_board :: ActionBoard where
  "demo_board = fst (startAction ''scan'' zero_time new_board)"

lemma demo_board_reach: "board_reach demo_board"
  unfolding demo_board_def by (rule board_reach.step [OF board_reach.empty requested]) (simp add: new_board_def max_int64_def)

text \<open>C19: in every state of the board, each action name has at most one run; its action is on the board as running until
  the run ends, and no more than the bound of finished actions is kept.\<close>

theorem one_run_per_action:
  assumes "board_reach board"
  shows "distinct (map snd (bdGoroutines board)) \<and>
    (\<forall>(i, name) \<in> set (bdGoroutines board). \<exists>a. actionStatus i board = Some a \<and> is_running a \<and> daAction a = name) \<and>
    length (filter (\<lambda>e. \<not> is_running (snd e)) (bdActions board)) \<le> maxStoredActions"
proof -
  note ok = board_reach_ok [OF assms]
  have "inj_on snd (set (bdGoroutines board))"
    using board_ok_running(2) [OF ok] by (auto simp: inj_on_def)
  moreover have "distinct (bdGoroutines board)" using ok by (simp add: board_ok_def)
  ultimately show ?thesis using board_ok_running(1) [OF ok] ok by (fastforce simp: distinct_map actionStatus_def board_ok_def)
qed

lemma one_run_per_action_witness:
  "distinct (map snd (bdGoroutines demo_board)) \<and> length (filter (\<lambda>e. \<not> is_running (snd e)) (bdActions demo_board)) \<le> maxStoredActions"
  using one_run_per_action [OF demo_board_reach] by blast

text \<open>a request answers with an action of that name that runs and can be asked for by its id; it is the one that
  ran already, and nothing changes, or one with an id that is not on the board.\<close>

lemma request_joins_or_starts:
  assumes "board_reach board" and "bdNext board < max_int64" and "startAction name now board = (board', a)"
  shows "is_running a \<and> daAction a = name \<and> actionStatus (daID a) board' = Some a \<and> (daID a, name) \<in> set (bdGoroutines board') \<and>
    (if name \<in> snd ` set (bdGoroutines board) then board' = board else actionStatus (daID a) board = None)"
proof -
  note ok = board_reach_ok [OF assms(1)]
  show ?thesis
  proof (cases "active_id board name = []")
    case True
    then have "name \<notin> snd ` set (bdGoroutines board)" using board_ok_running [OF ok] by (force simp: active_id_def)
    moreover note start_fresh [OF ok assms(2)]
    ultimately show ?thesis using assms(3) True
      by (auto simp: startAction_def Let_def is_running_def actionStatus_def update_conv')
  next
    case False
    then obtain i where i: "bdActive board name = Some i" by (auto simp: active_id_def split: option.splits)
    then have run: "(i, name) \<in> set (bdGoroutines board)" using board_ok_running(2) [OF ok] by simp
    from board_ok_running(1) [OF ok run] i run assms(3) False show ?thesis
      by (force simp: startAction_def active_id_def actionStatus_def)
  qed
qed

end
