(* ===== verification/GitSync.thy ===== *)
theory GitSync
  imports GitCredentials
begin

text \<open>
  The synchronization of one repository (\<open>internal/scanner/scanner.go\<close>, \<open>credentials.go\<close> and
  \<open>git_exec.go\<close>): the credentials cached in the remote are scrubbed, those of the configuration
  are resolved, the remote is reconciled, and only then Git reaches for the network. Git is an
  argument: a function of the directory, the environment, the arguments and a world it may change. What is known of it
  is what its documentation says of \<open>git config\<close>. Every invocation is logged with the world it found.
\<close>

section \<open>Git\<close>

datatype exec_error = ExitError int string | ExecError string

definition exec_text :: "exec_error \<Rightarrow> string" where
  "exec_text e = (case e of ExitError _ t \<Rightarrow> t | ExecError t \<Rightarrow> t)"

record gitExecResult =
  grStdout :: string
  grStderr :: string
  grErr :: "exec_error option"

type_synonym 'w git = "string \<Rightarrow> string list \<Rightarrow> string list \<Rightarrow> 'w \<Rightarrow> 'w \<times> gitExecResult"

record 'w invocation =
  inDir :: string
  inEnv :: "string list"
  inArgs :: "string list"
  inWorld :: 'w

text \<open>The world, the invocations, and the values registered for redaction.\<close>

record 'w sync_state =
  syWorld :: 'w
  syLog :: "'w invocation list"
  syValues :: "string list"

datatype sync_error = SyncError string | SyncConfigError config_error

type_synonym ('w, 'a) sync = "'w sync_state \<Rightarrow> 'w sync_state \<times> (sync_error + 'a)"

definition returns :: "'a \<Rightarrow> ('w, 'a) sync" where "returns x st = (st, Inr x)"
definition fails_with :: "sync_error \<Rightarrow> ('w, 'a) sync" where "fails_with e st = (st, Inl e)"

definition and_then :: "('w, 'a) sync \<Rightarrow> ('a \<Rightarrow> ('w, 'b) sync) \<Rightarrow> ('w, 'b) sync" where
  "and_then m f st = (case m st of (st', Inl e) \<Rightarrow> (st', Inl e) | (st', Inr x) \<Rightarrow> f x st')"

definition lift_error :: "(string + 'a) \<Rightarrow> ('w, 'a) sync" where
  "lift_error r st = (case r of Inl e \<Rightarrow> (st, Inl (SyncError e)) | Inr x \<Rightarrow> (st, Inr x))"

definition register :: "string list \<Rightarrow> ('w, unit) sync" where
  "register vals st = (st\<lparr>syValues := syValues st @ vals\<rparr>, Inr ())"

definition invokeGit :: "'w git \<Rightarrow> string \<Rightarrow> string list \<Rightarrow> string list \<Rightarrow> ('w, gitExecResult) sync" where
  "invokeGit git dir env args st =
     (case git dir env args (syWorld st) of
        (w, r) \<Rightarrow> (st\<lparr>syWorld := w, syLog := syLog st @ [\<lparr>inDir = dir, inEnv = env, inArgs = args, inWorld = syWorld st\<rparr>]\<rparr>, Inr r))"

text \<open>A redactor is its list of values.\<close>

definition git_error :: "string \<Rightarrow> string list \<Rightarrow> string list \<Rightarrow> gitExecResult \<Rightarrow> exec_error \<Rightarrow> sync_error" where
  "git_error what redactor args result err =
     SyncError (what @ RedactWith (Join args '' '') redactor @ '': '' @ exec_text err @ '': '' @ RedactWith (grStderr result) redactor)"

definition gitOutput :: "'w git \<Rightarrow> string \<Rightarrow> string list \<Rightarrow> string list \<Rightarrow> string list \<Rightarrow> ('w, string) sync" where
  "gitOutput git dir redactor env args =
     and_then (invokeGit git dir env args)
       (\<lambda>result. case grErr result of Some err \<Rightarrow> fails_with (git_error ''git '' redactor args result err) | None \<Rightarrow> returns (grStdout result))"

section \<open>The cached remote\<close>

definition splitGitConfigLines :: "string \<Rightarrow> string list" where
  "splitGitConfigLines output =
     (if output = [] then []
      else (let lines = split_char (CHR 0x0A) output in if last lines = [] then butlast lines else lines))"

definition gitConfigGetAll :: "'w git \<Rightarrow> string \<Rightarrow> string list \<Rightarrow> string list \<Rightarrow> string \<Rightarrow> ('w, string list) sync" where
  "gitConfigGetAll git repoPath redactor env key =
     and_then (invokeGit git repoPath env [''config'', ''--get-all'', key])
       (\<lambda>result. case grErr result of
          None \<Rightarrow> returns (splitGitConfigLines (grStdout result))
        | Some err \<Rightarrow>
            if (case err of ExitError code _ \<Rightarrow> code = 1 | ExecError _ \<Rightarrow> False) \<and> grStdout result = [] then returns []
            else fails_with (SyncError (''git config --get-all '' @ key @ '': '' @ exec_text err @ '': '' @ RedactWith (grStderr result) redactor)))"

definition gitConfigCommand :: "'w git \<Rightarrow> string \<Rightarrow> string list \<Rightarrow> string list \<Rightarrow> string list \<Rightarrow> ('w, unit) sync" where
  "gitConfigCommand git repoPath redactor env args =
     and_then (invokeGit git repoPath env (''config'' # args))
       (\<lambda>result. case grErr result of Some err \<Rightarrow> fails_with (git_error ''git config '' redactor args result err) | None \<Rightarrow> returns ())"

definition gitConfigUnsetAll :: "'w git \<Rightarrow> string \<Rightarrow> string list \<Rightarrow> string list \<Rightarrow> string \<Rightarrow> ('w, unit) sync" where
  "gitConfigUnsetAll git repoPath redactor env key = gitConfigCommand git repoPath redactor env [''--unset-all'', key]"

definition gitConfigAdd :: "'w git \<Rightarrow> string \<Rightarrow> string list \<Rightarrow> string list \<Rightarrow> string \<Rightarrow> string \<Rightarrow> ('w, unit) sync" where
  "gitConfigAdd git repoPath redactor env key v = gitConfigCommand git repoPath redactor env [''--add'', key, v]"

fun clean_values :: "string list \<Rightarrow> (string \<times> bool) list option" where
  "clean_values [] = Some []"
| "clean_values (v # vs) =
     (case credentialFreeRemoteURL v of None \<Rightarrow> None | Some c \<Rightarrow> map_option ((#) c) (clean_values vs))"

fun add_values :: "'w git \<Rightarrow> string \<Rightarrow> string list \<Rightarrow> string list \<Rightarrow> string \<Rightarrow> string list \<Rightarrow> ('w, unit) sync" where
  "add_values git repoPath redactor env key [] = returns ()"
| "add_values git repoPath redactor env key (v # vs) =
     and_then (gitConfigAdd git repoPath redactor env key v) (\<lambda>_. add_values git repoPath redactor env key vs)"

definition scrubConfigURLList :: "'w git \<Rightarrow> string \<Rightarrow> string list \<Rightarrow> string list \<Rightarrow> string \<Rightarrow> ('w, unit) sync" where
  "scrubConfigURLList git repoPath redactor env key =
     and_then (gitConfigGetAll git repoPath redactor env key)
       (\<lambda>vals.
          if vals = [] then returns ()
          else (case clean_values vals of
                  None \<Rightarrow> fails_with (SyncError (''cached '' @ key @ '' value is invalid''))
                | Some cleaned \<Rightarrow>
                    if \<not> list_ex snd cleaned then returns ()
                    else and_then (gitConfigUnsetAll git repoPath redactor env key)
                           (\<lambda>_. add_values git repoPath redactor env key (map fst cleaned))))"

abbreviation origin_url :: string where "origin_url \<equiv> ''remote.origin.url''"
abbreviation origin_pushurl :: string where "origin_pushurl \<equiv> ''remote.origin.pushurl''"

definition scrubCachedOriginCredentials :: "'w git \<Rightarrow> string \<Rightarrow> string list \<Rightarrow> string list \<Rightarrow> ('w, unit) sync" where
  "scrubCachedOriginCredentials git repoPath redactor env =
     and_then (scrubConfigURLList git repoPath redactor env origin_url)
       (\<lambda>_. scrubConfigURLList git repoPath redactor env origin_pushurl)"

definition reconcileOrigin :: "'w git \<Rightarrow> string \<Rightarrow> string list \<Rightarrow> string list \<Rightarrow> string \<Rightarrow> ('w, unit) sync" where
  "reconcileOrigin git repoPath redactor env configuredCleanURL =
     and_then (gitConfigGetAll git repoPath redactor env origin_url)
       (\<lambda>fetchURLs.
          if length fetchURLs = 1 \<and> map_option fst (credentialFreeRemoteURL (fetchURLs ! 0)) = Some configuredCleanURL then returns ()
          else and_then (if fetchURLs \<noteq> [] then gitConfigUnsetAll git repoPath redactor env origin_url else returns ())
                 (\<lambda>_. gitConfigAdd git repoPath redactor env origin_url configuredCleanURL))"

section \<open>Authentication\<close>

definition shellQuote :: "string \<Rightarrow> string" where
  "shellQuote v = [CHR 0x27] @ ReplaceAll v [CHR 0x27] [CHR 0x27, CHR 0x5C, CHR 0x27, CHR 0x27] @ [CHR 0x27]"

definition gitEnv :: "RepositoryConfig \<Rightarrow> string list" where
  "gitEnv repo =
     (if rcSSHKeyPath repo = [] then []
      else [''GIT_SSH_COMMAND=ssh -i '' @ shellQuote (rcSSHKeyPath repo) @ '' -o IdentitiesOnly=yes'' @
            (if rcKnownHosts repo \<noteq> [] then '' -o UserKnownHostsFile='' @ shellQuote (rcKnownHosts repo) else [])])"

record gitAuth =
  gaRemoteURL :: string
  gaEnv :: "string list"
  gaRedactor :: "string list"
  gaUseTokenAuth :: bool

definition repo_error :: "RepositoryConfig \<Rightarrow> string \<Rightarrow> sync_error" where
  "repo_error repo t = SyncError (''repository '' @ rcName repo @ t)"

text \<open>The token of a repository, after the checks of the remote and of the source of the token.\<close>

definition checked_token :: "os_env \<Rightarrow> RepositoryConfig \<Rightarrow> sync_error + (string \<times> string)" where
  "checked_token os repo =
     (case credentialFreeRemoteURL (rcURL repo) of
        None \<Rightarrow> Inl (repo_error repo '' has an invalid remote url'')
      | Some (clean, stripped) \<Rightarrow>
          if stripped then Inl (repo_error repo '' remote url must not include embedded credentials'')
          else if (rcTokenEnv repo \<noteq> [] \<or> rcTokenFile repo \<noteq> []) \<and>
            (case url_Parse (rcURL repo) of None \<Rightarrow> True | Some parsed \<Rightarrow> \<not> EqualFold (urlScheme parsed) ''https'')
          then Inl (repo_error repo '' token authentication requires an https remote url'')
          else if rcTokenEnv repo \<noteq> [] \<and> TrimSpace (case osLookupEnv os (rcTokenEnv repo) of None \<Rightarrow> [] | Some v \<Rightarrow> v) = []
          then Inl (repo_error repo ('' references unset token env '' @ rcTokenEnv repo))
          else (case repository_Token os repo of Inl e \<Rightarrow> Inl (SyncConfigError e) | Inr token \<Rightarrow> Inr (clean, token)))"

definition gitAuth_of :: "os_env \<Rightarrow> RepositoryConfig \<Rightarrow> ('w, gitAuth) sync" where
  "gitAuth_of os repo st =
     (case checked_token os repo of
        Inl e \<Rightarrow> (st, Inl e)
      | Inr (clean, token) \<Rightarrow>
          let userinfo = URLUserinfoValues (rcURL repo) in
          if token = [] then
            and_then (register userinfo)
              (\<lambda>_. returns \<lparr>gaRemoteURL = clean, gaEnv = gitEnv repo, gaRedactor = userinfo, gaUseTokenAuth = False\<rparr>) st
          else
           (let basicCredential = base64_Std (''x-access-token:'' @ token);
                authHeader = ''Authorization: Basic '' @ basicCredential;
                vals = userinfo @ [token, basicCredential, authHeader]
            in and_then (register vals)
                 (\<lambda>_. returns \<lparr>gaRemoteURL = clean,
                    gaEnv = gitEnv repo @ [''GIT_CONFIG_COUNT=1'', ''GIT_CONFIG_KEY_0=http.'' @ clean @ ''.extraHeader'', ''GIT_CONFIG_VALUE_0='' @ authHeader],
                    gaRedactor = vals, gaUseTokenAuth = True\<rparr>) st))"

section \<open>Synchronization\<close>

definition GitCommandTimeout :: duration where "GitCommandTimeout = 2 * Minute"
definition repoSyncGitCommands :: nat where "repoSyncGitCommands = 7"
definition repoSyncOperationTimeout :: duration where
  "repoSyncOperationTimeout = int repoSyncGitCommands * GitCommandTimeout + 30 * Second"

record syncResult =
  syncPath :: string
  syncCommit :: string

text \<open>The commands on a cache that is there, and the clone of one that is not.\<close>

definition update_cache :: "'w git \<Rightarrow> RepositoryConfig \<Rightarrow> string \<Rightarrow> gitAuth \<Rightarrow> ('w, unit) sync" where
  "update_cache git repo repoPath auth =
     and_then (reconcileOrigin git repoPath (gaRedactor auth) (gaEnv auth) (gaRemoteURL auth)) (\<lambda>_.
     and_then (gitOutput git repoPath (gaRedactor auth) (gaEnv auth) [''fetch'', ''--all'', ''--prune'']) (\<lambda>_.
     and_then (if rcDefaultRef repo \<noteq> ''HEAD''
               then and_then (gitOutput git repoPath (gaRedactor auth) (gaEnv auth) [''checkout'', rcDefaultRef repo]) (\<lambda>_. returns ())
               else returns ()) (\<lambda>_.
     and_then (gitOutput git repoPath (gaRedactor auth) (gaEnv auth) [''pull'', ''--ff-only'']) (\<lambda>_. returns ()))))"

definition clone_args :: "RepositoryConfig \<Rightarrow> string \<Rightarrow> string \<Rightarrow> string list" where
  "clone_args repo remoteURL repoPath =
     [''clone''] @ (if rcDefaultRef repo \<noteq> [] \<and> rcDefaultRef repo \<noteq> ''HEAD'' then [''--branch'', rcDefaultRef repo] else []) @ [remoteURL, repoPath]"

definition filepath_Dir :: "string \<Rightarrow> string" where
  "filepath_Dir p = path_Clean (rev (dropWhile (\<lambda>c. c \<noteq> CHR ''/'') (rev p)))"

definition clone_cache :: "'w git \<Rightarrow> cache_fs \<Rightarrow> RepositoryConfig \<Rightarrow> string \<Rightarrow> string \<Rightarrow> gitAuth \<Rightarrow> ('w, unit) sync" where
  "clone_cache git fs repo resolvedRoot repoPath auth =
     (case fsMkdirAll fs (filepath_Dir repoPath) of
        Some e \<Rightarrow> fails_with (SyncError e)
      | None \<Rightarrow> and_then (gitOutput git resolvedRoot (gaRedactor auth) (gaEnv auth) (clone_args repo (gaRemoteURL auth) repoPath)) (\<lambda>_. returns ()))"

definition syncRepoUnshared :: "'w git \<Rightarrow> cache_fs \<Rightarrow> os_env \<Rightarrow> string \<Rightarrow> RepositoryConfig \<Rightarrow> ('w, syncResult) sync" where
  "syncRepoUnshared git fs os repoCacheDir repo =
     and_then (lift_error (resolveRepoCacheRoot fs repoCacheDir)) (\<lambda>resolvedRoot.
     and_then (lift_error (resolveContainedRepoPath fs resolvedRoot repo)) (\<lambda>(repoPath, pathExists).
     let cacheExists = pathExists \<and> fsStat fs (path_Join [repoPath, ''.git'']);
         redactionValues = URLUserinfoValues (rcURL repo) in
     and_then (register redactionValues) (\<lambda>_.
     and_then (if cacheExists then scrubCachedOriginCredentials git repoPath redactionValues (gitEnv repo) else returns ()) (\<lambda>_.
     and_then (gitAuth_of os repo) (\<lambda>auth.
     and_then (if cacheExists then update_cache git repo repoPath auth else clone_cache git fs repo resolvedRoot repoPath auth) (\<lambda>_.
     and_then (gitOutput git repoPath (gaRedactor auth) (gaEnv auth) [''rev-parse'', ''HEAD'']) (\<lambda>commit.
     returns \<lparr>syncPath = repoPath, syncCommit = TrimSpace commit\<rparr>)))))))"

end
