(* ===== verification/SingleFlight.thy ===== *)
theory SingleFlight
  imports GitCredentials
begin

text \<open>
  \<open>internal/scanner/repo_singleflight.go\<close>: callers that ask for the same operation while it runs share one
  run of it. The goroutines interleave: a step is what one of them does between two operations on the lock, the
  channel of a call, or the context.
\<close>

section \<open>Groups of calls\<close>

text \<open>A \<open>repoOperationCall\<close>: its channel is closed or not, its value and error are set when the operation returns.\<close>

record 'r repoOperationCall =
  clKey :: string
  clResult :: "'r option"
  clDone :: bool

datatype 'r answer = Shared 'r | ContextErr string

text \<open>Where a caller is. A leader of \<open>do\<close> runs the operation itself; one of \<open>doDetached\<close> waits like the others, and a
  goroutine runs it. A return remembers the call it is from.\<close>

datatype 'r phase = Waits nat | Leads nat | Returned "nat option" "'r answer"

text \<open>The group, the calls that were ever made, what its callers asked for and where they are, and the runs: the calls whose
  operation has not been taken off the map.\<close>

record 'r flights =
  fgCalls :: "string \<rightharpoonup> nat"
  fgMade :: "'r repoOperationCall list"
  fgAsked :: "nat \<rightharpoonup> string"
  fgCallers :: "nat \<rightharpoonup> 'r phase"
  fgRuns :: "nat list"

definition no_flights :: "'r flights" where
  "no_flights = \<lparr>fgCalls = (\<lambda>_. None), fgMade = [], fgAsked = (\<lambda>_. None), fgCallers = (\<lambda>_. None), fgRuns = []\<rparr>"

section \<open>Steps\<close>

text \<open>Under the lock: a caller joins the call of its key, or makes one.\<close>

definition make_call :: "bool \<Rightarrow> string \<Rightarrow> nat \<Rightarrow> 'r flights \<Rightarrow> 'r flights" where
  "make_call detached key who st =
     (let c = length (fgMade st)
      in st\<lparr>fgCalls := (fgCalls st)(key \<mapsto> c), fgMade := fgMade st @ [\<lparr>clKey = key, clResult = None, clDone = False\<rparr>],
            fgAsked := (fgAsked st)(who \<mapsto> key), fgCallers := (fgCallers st)(who \<mapsto> (if detached then Waits c else Leads c)), fgRuns := fgRuns st @ [c]\<rparr>)"

definition repo_do :: "string \<Rightarrow> nat \<Rightarrow> 'r flights \<Rightarrow> 'r flights" where
  "repo_do key who st =
     (case fgCalls st key of
        Some c \<Rightarrow> st\<lparr>fgAsked := (fgAsked st)(who \<mapsto> key), fgCallers := (fgCallers st)(who \<mapsto> Waits c)\<rparr>
      | None \<Rightarrow> make_call False key who st)"

definition doDetached :: "string option \<Rightarrow> string \<Rightarrow> nat \<Rightarrow> 'r flights \<Rightarrow> 'r flights" where
  "doDetached ctxErr key who st =
     (case ctxErr of
        Some e \<Rightarrow> st\<lparr>fgAsked := (fgAsked st)(who \<mapsto> key), fgCallers := (fgCallers st)(who \<mapsto> Returned None (ContextErr e))\<rparr>
      | None \<Rightarrow>
          (case fgCalls st key of
             Some c \<Rightarrow> st\<lparr>fgAsked := (fgAsked st)(who \<mapsto> key), fgCallers := (fgCallers st)(who \<mapsto> Waits c)\<rparr>
           | None \<Rightarrow> make_call True key who st))"

text \<open>The operation returns; then, under the lock, its call is taken off the map and its channel is closed.\<close>

definition operation_returns :: "nat \<Rightarrow> 'r \<Rightarrow> 'r flights \<Rightarrow> 'r flights" where
  "operation_returns c r st = st\<lparr>fgMade := (fgMade st)[c := (fgMade st ! c)\<lparr>clResult := Some r\<rparr>]\<rparr>"

definition publish :: "nat \<Rightarrow> 'r flights \<Rightarrow> 'r flights" where
  "publish c st =
     st\<lparr>fgCalls := (fgCalls st)(clKey (fgMade st ! c) := None),
        fgMade := (fgMade st)[c := (fgMade st ! c)\<lparr>clDone := True\<rparr>], fgRuns := remove1 c (fgRuns st)\<rparr>"

definition caller_returns :: "nat \<Rightarrow> nat \<Rightarrow> 'r \<Rightarrow> 'r flights \<Rightarrow> 'r flights" where
  "caller_returns who c r st = st\<lparr>fgCallers := (fgCallers st)(who \<mapsto> Returned (Some c) (Shared r))\<rparr>"

definition caller_gives_up :: "nat \<Rightarrow> string \<Rightarrow> 'r flights \<Rightarrow> 'r flights" where
  "caller_gives_up who e st = st\<lparr>fgCallers := (fgCallers st)(who \<mapsto> Returned None (ContextErr e))\<rparr>"

inductive flight_step :: "'r flights \<Rightarrow> 'r flights \<Rightarrow> bool" where
  call: "fgCallers st who = None \<Longrightarrow> flight_step st (repo_do key who st)"
| call_detached: "fgCallers st who = None \<Longrightarrow> flight_step st (doDetached ctxErr key who st)"
| ran: "c \<in> set (fgRuns st) \<Longrightarrow> clResult (fgMade st ! c) = None \<Longrightarrow> flight_step st (operation_returns c r st)"
| published: "c \<in> set (fgRuns st) \<Longrightarrow> clResult (fgMade st ! c) = Some r \<Longrightarrow> flight_step st (publish c st)"
| answered: "fgCallers st who = Some (Waits c) \<or> fgCallers st who = Some (Leads c) \<Longrightarrow> clDone (fgMade st ! c) \<Longrightarrow>
    clResult (fgMade st ! c) = Some r \<Longrightarrow> flight_step st (caller_returns who c r st)"
| cancelled: "fgCallers st who = Some (Waits c) \<Longrightarrow> flight_step st (caller_gives_up who e st)"

inductive_cases flight_stepE: "flight_step st st'"

abbreviation flight_run :: "'r flights \<Rightarrow> 'r flights \<Rightarrow> bool" where
  "flight_run \<equiv> flight_step\<^sup>*\<^sup>*"

section \<open>The invariant\<close>

definition phase_ok :: "'r repoOperationCall list \<Rightarrow> string \<Rightarrow> 'r phase \<Rightarrow> bool" where
  "phase_ok made key p =
     (case p of
        Waits c \<Rightarrow> c < length made \<and> clKey (made ! c) = key
      | Leads c \<Rightarrow> c < length made \<and> clKey (made ! c) = key
      | Returned (Some c) (Shared r) \<Rightarrow> c < length made \<and> clKey (made ! c) = key \<and> clDone (made ! c) \<and> clResult (made ! c) = Some r
      | Returned (Some c) (ContextErr e) \<Rightarrow> False
      | Returned None (Shared r) \<Rightarrow> False
      | Returned None (ContextErr e) \<Rightarrow> True)"

definition caller_ok :: "'r flights \<Rightarrow> nat \<Rightarrow> bool" where
  "caller_ok st who =
     (case fgCallers st who of
        None \<Rightarrow> True
      | Some p \<Rightarrow> (case fgAsked st who of None \<Rightarrow> False | Some key \<Rightarrow> phase_ok (fgMade st) key p))"

definition flights_ok :: "'r flights \<Rightarrow> bool" where
  "flights_ok st \<longleftrightarrow>
     distinct (fgRuns st) \<and>
     (\<forall>c. c \<in> set (fgRuns st) \<longleftrightarrow> c < length (fgMade st) \<and> \<not> clDone (fgMade st ! c)) \<and>
     (\<forall>key c. fgCalls st key = Some c \<longleftrightarrow> c \<in> set (fgRuns st) \<and> clKey (fgMade st ! c) = key) \<and>
     (\<forall>c < length (fgMade st). clDone (fgMade st ! c) \<longrightarrow> clResult (fgMade st ! c) \<noteq> None) \<and>
     (\<forall>who. caller_ok st who)"

lemma phase_ok_append: "phase_ok made key p \<Longrightarrow> phase_ok (made @ xs) key p"
  by (auto simp: phase_ok_def nth_append split: phase.splits option.splits answer.splits)

lemma phase_ok_update:
  "phase_ok made key p \<Longrightarrow> clKey call = clKey (made ! c) \<Longrightarrow>
   clDone (made ! c) \<longrightarrow> clDone call \<and> clResult call = clResult (made ! c) \<Longrightarrow> phase_ok (made[c := call]) key p"
  by (cases "c < length made") (auto simp: phase_ok_def nth_list_update split: phase.splits option.splits answer.splits)

lemma caller_ok_made:
  "caller_ok st who \<Longrightarrow> fgCallers st' who = fgCallers st who \<Longrightarrow> fgAsked st' who = fgAsked st who \<Longrightarrow>
   (\<And>key p. phase_ok (fgMade st) key p \<Longrightarrow> phase_ok (fgMade st') key p) \<Longrightarrow> caller_ok st' who"
  by (auto simp: caller_ok_def split: option.splits)

lemma flights_okD:
  assumes "flights_ok st"
  shows "distinct (fgRuns st)"
    "c \<in> set (fgRuns st) \<longleftrightarrow> c < length (fgMade st) \<and> \<not> clDone (fgMade st ! c)"
    "fgCalls st key = Some c \<longleftrightarrow> c \<in> set (fgRuns st) \<and> clKey (fgMade st ! c) = key"
    "c < length (fgMade st) \<Longrightarrow> clDone (fgMade st ! c) \<Longrightarrow> clResult (fgMade st ! c) \<noteq> None"
    "caller_ok st who"
  using assms unfolding flights_ok_def by blast+

lemma flights_okI:
  assumes "distinct (fgRuns st)"
    and "\<And>c. c \<in> set (fgRuns st) \<longleftrightarrow> c < length (fgMade st) \<and> \<not> clDone (fgMade st ! c)"
    and "\<And>key c. fgCalls st key = Some c \<longleftrightarrow> c \<in> set (fgRuns st) \<and> clKey (fgMade st ! c) = key"
    and "\<And>c. c < length (fgMade st) \<Longrightarrow> clDone (fgMade st ! c) \<Longrightarrow> clResult (fgMade st ! c) \<noteq> None"
    and "\<And>who. caller_ok st who"
  shows "flights_ok st"
  using assms unfolding flights_ok_def by blast

lemma make_call_ok:
  assumes "flights_ok st" "fgCalls st key = None"
  shows "flights_ok (make_call detached key who st)"
proof (rule flights_okI)
  let ?st = "make_call detached key who st"
  note ok = flights_okD [OF assms(1)]
  have f: "fgMade ?st = fgMade st @ [\<lparr>clKey = key, clResult = None, clDone = False\<rparr>]" "fgRuns ?st = fgRuns st @ [length (fgMade st)]"
    "fgCalls ?st = (fgCalls st)(key \<mapsto> length (fgMade st))"
    "fgCallers ?st = (fgCallers st)(who \<mapsto> (if detached then Waits (length (fgMade st)) else Leads (length (fgMade st))))"
    by (simp_all add: make_call_def Let_def)
  show "distinct (fgRuns ?st)" using ok(1,2) by (simp add: f)
  show "c \<in> set (fgRuns ?st) \<longleftrightarrow> c < length (fgMade ?st) \<and> \<not> clDone (fgMade ?st ! c)" for c
    using ok(2) [of c] by (auto simp: f nth_append less_Suc_eq)
  show "fgCalls ?st k = Some c \<longleftrightarrow> c \<in> set (fgRuns ?st) \<and> clKey (fgMade ?st ! c) = k" for k c
    using ok(3) [of k c] ok(2) [of c] ok(3) [of key c] assms(2) by (auto simp: f nth_append)
  show "clResult (fgMade ?st ! c) \<noteq> None" if "c < length (fgMade ?st)" "clDone (fgMade ?st ! c)" for c
    using that ok(4) [of c] by (auto simp: f nth_append less_Suc_eq split: if_splits)
  show "caller_ok ?st w" for w
  proof (cases "w = who")
    case True
    then show ?thesis by (simp add: caller_ok_def make_call_def Let_def phase_ok_def)
  next
    case False
    then have "fgCallers ?st w = fgCallers st w" "fgAsked ?st w = fgAsked st w" by (simp_all add: make_call_def Let_def)
    then show ?thesis by (rule caller_ok_made [OF ok(5)]) (simp add: f phase_ok_append)
  qed
qed

lemma caller_moves:
  assumes "flights_ok st" "fgCalls st' = fgCalls st" "fgMade st' = fgMade st" "fgRuns st' = fgRuns st"
    and "\<And>w. w \<noteq> who \<Longrightarrow> fgCallers st' w = fgCallers st w \<and> fgAsked st' w = fgAsked st w" and "caller_ok st' who"
  shows "flights_ok st'"
proof (rule flights_okI)
  note ok = flights_okD [OF assms(1)]
  show "distinct (fgRuns st')" unfolding assms(4) by (rule ok(1))
  show "c \<in> set (fgRuns st') \<longleftrightarrow> c < length (fgMade st') \<and> \<not> clDone (fgMade st' ! c)" for c
    unfolding assms(3,4) by (rule ok(2))
  show "fgCalls st' key = Some c \<longleftrightarrow> c \<in> set (fgRuns st') \<and> clKey (fgMade st' ! c) = key" for key c
    unfolding assms(2-4) by (rule ok(3))
  show "clResult (fgMade st' ! c) \<noteq> None" if "c < length (fgMade st')" "clDone (fgMade st' ! c)" for c
    using that unfolding assms(3) by (rule ok(4))
  show "caller_ok st' w" for w
  proof (cases "w = who")
    case False
    then show ?thesis using assms(5) by (intro caller_ok_made [OF ok(5)]) (simp_all add: assms(3))
  qed (simp add: assms(6))
qed

lemma joined_ok:
  assumes "flights_ok st" "fgCalls st key = Some c"
  shows "flights_ok (st\<lparr>fgAsked := (fgAsked st)(who \<mapsto> key), fgCallers := (fgCallers st)(who \<mapsto> Waits c)\<rparr>)"
proof -
  have "c < length (fgMade st) \<and> clKey (fgMade st ! c) = key" using flights_okD(2,3) [OF assms(1)] assms(2) by blast
  then show ?thesis by (intro caller_moves [OF assms(1), where who = who]) (simp_all add: caller_ok_def phase_ok_def)
qed

lemma step_ok:
  assumes "flight_step st st'" "flights_ok st"
  shows "flights_ok st'"
  using assms(1)
proof cases
  case (call who key)
  then show ?thesis using make_call_ok [OF assms(2)] joined_ok [OF assms(2)] by (simp add: repo_do_def split: option.split)
next
  case (call_detached who ctxErr key)
  have "flights_ok (st\<lparr>fgAsked := (fgAsked st)(who \<mapsto> key), fgCallers := (fgCallers st)(who \<mapsto> Returned None (ContextErr e))\<rparr>)" for e
    by (rule caller_moves [OF assms(2), where who = who]) (simp_all add: caller_ok_def phase_ok_def)
  then show ?thesis using call_detached make_call_ok [OF assms(2)] joined_ok [OF assms(2)]
    by (simp add: doDetached_def split: option.split)
next
  case (ran c r)
  note ok = flights_okD [OF assms(2)]
  have c: "c < length (fgMade st)" "\<not> clDone (fgMade st ! c)" using ran ok(2) by blast+
  show ?thesis
    unfolding ran(1) operation_returns_def
  proof (rule flights_okI, simp_all, goal_cases)
    case 1 then show ?case using ok(1) .
  next
    case (2 d) then show ?case using ok(2) [of d] c by (cases "d = c") auto
  next
    case (3 key d) then show ?case using ok(3) [of key d] c by (cases "d = c") auto
  next
    case (4 d) then show ?case using ok(4) [of d] c by (cases "d = c") auto
  next
    case (5 who) show ?case using c(2) by (intro caller_ok_made [OF ok(5)]) (auto intro: phase_ok_update)
  qed
next
  case (published c r)
  note ok = flights_okD [OF assms(2)]
  have c: "c < length (fgMade st)" "\<not> clDone (fgMade st ! c)" using published ok(2) by blast+
  show ?thesis
    unfolding published(1) publish_def
  proof (rule flights_okI, simp_all, goal_cases)
    case 1 then show ?case using ok(1) by simp
  next
    case (2 d) then show ?case using ok(1) ok(2) [of d] c by (auto simp: nth_list_update)
  next
    case (3 key d)
    have "fgCalls st (clKey (fgMade st ! c)) = Some c" using ok(3) published by blast
    then show ?case using ok(1) ok(3) [of key d] by (cases "d = c") auto
  next
    case (4 d) then show ?case using ok(4) [of d] published(3) c by (cases "d = c") auto
  next
    case (5 who) show ?case using c(2) by (intro caller_ok_made [OF ok(5)]) (auto intro: phase_ok_update)
  qed
next
  case (answered who c r)
  have "caller_ok (caller_returns who c r st) who"
    using answered flights_okD(5) [OF assms(2), of who] by (auto simp: caller_ok_def phase_ok_def caller_returns_def split: option.splits)
  then show ?thesis unfolding answered(1) by (intro caller_moves [OF assms(2), where who = who]) (simp_all add: caller_returns_def)
next
  case (cancelled who c e)
  have "caller_ok (caller_gives_up who e st) who"
    using cancelled flights_okD(5) [OF assms(2), of who] by (auto simp: caller_ok_def phase_ok_def caller_gives_up_def split: option.splits)
  then show ?thesis unfolding cancelled(1) by (intro caller_moves [OF assms(2), where who = who]) (simp_all add: caller_gives_up_def)
qed

lemma run_ok: "flight_run st st' \<Longrightarrow> flights_ok st \<Longrightarrow> flights_ok st'"
  by (induction rule: rtranclp_induct) (auto intro: step_ok)

lemma no_flights_ok: "flights_ok no_flights"
  by (simp add: flights_ok_def caller_ok_def no_flights_def)

lemmas reached_ok = run_ok [OF _ no_flights_ok]

section \<open>The key of a repository\<close>

definition repoOperationKey :: "string \<Rightarrow> string \<Rightarrow> string" where
  "repoOperationKey repoCacheDir repoName = path_Join [repoCacheDir, safeName repoName]"

text \<open>Nothing in the configuration keeps two names from having the same safe name: the two repositories then share a run, and
  the cache directory.\<close>

lemma operation_keys_can_collide:
  "''Infra'' \<noteq> ''infra'' \<and> repoOperationKey ''/var/cache'' ''Infra'' = repoOperationKey ''/var/cache'' ''infra''"
  by code_simp

section \<open>What callers rely on\<close>

lemma run_of_key: "flights_ok st \<Longrightarrow> c \<in> set (fgRuns st) \<Longrightarrow> fgCalls st (clKey (fgMade st ! c)) = Some c"
  using flights_okD(3) by blast

text \<open>at any moment at most one operation of a key runs, however many callers ask for it, and the map leads
  to exactly the calls whose operations run.\<close>

lemma one_run_per_key:
  assumes "flight_run no_flights st"
  shows "distinct (map (\<lambda>c. clKey (fgMade st ! c)) (fgRuns st)) \<and> ran (fgCalls st) = set (fgRuns st)"
proof -
  note ok = reached_ok [OF assms]
  have "inj_on (\<lambda>c. clKey (fgMade st ! c)) (set (fgRuns st))"
    by (rule inj_onI) (metis run_of_key [OF ok] option.inject)
  then show ?thesis using flights_okD(1) [OF ok] flights_okD(3) [OF ok] by (auto simp: distinct_map ran_def)
qed

lemma made_step:
  assumes "flight_step st st'" "flights_ok st" "c < length (fgMade st)"
  shows "c < length (fgMade st') \<and> clKey (fgMade st' ! c) = clKey (fgMade st ! c) \<and> (clDone (fgMade st ! c) \<longrightarrow> clDone (fgMade st' ! c))"
  using assms(1)
proof cases
  case (ran d r)
  then show ?thesis using assms(3) by (cases "c = d") (simp_all add: operation_returns_def)
next
  case (published d r)
  then show ?thesis using assms(3) by (cases "c = d") (simp_all add: publish_def)
qed (use assms(3) in \<open>auto simp: repo_do_def doDetached_def make_call_def Let_def caller_returns_def caller_gives_up_def nth_append split: option.splits\<close>)

text \<open>A caller that waits, waits for a call that was open when it came.\<close>

definition came_before :: "nat set \<Rightarrow> nat \<Rightarrow> 'r flights \<Rightarrow> bool" where
  "came_before closed who st \<longleftrightarrow>
     (case fgCallers st who of
        Some (Waits c) \<Rightarrow> c \<notin> closed | Some (Leads c) \<Rightarrow> c \<notin> closed | Some (Returned (Some c) a) \<Rightarrow> c \<notin> closed | _ \<Rightarrow> True)"

definition closed_calls :: "'r flights \<Rightarrow> nat set" where
  "closed_calls st = {c. c < length (fgMade st) \<and> clDone (fgMade st ! c)}"

lemma closed_step: "flight_step st st' \<Longrightarrow> flights_ok st \<Longrightarrow> closed_calls st \<subseteq> closed_calls st'"
  using made_step by (auto simp: closed_calls_def)

lemma open_call: "flights_ok st \<Longrightarrow> fgCalls st key = Some c \<Longrightarrow> c \<notin> closed_calls st"
  using flights_okD(2,3) by (fastforce simp: closed_calls_def)

lemma came_step:
  assumes "flight_step st st'" "flights_ok st" "closed \<subseteq> closed_calls st" "came_before closed who st"
  shows "came_before closed who st'"
proof -
  have new: "length (fgMade st) \<notin> closed" using assms(3) by (auto simp: closed_calls_def)
  have joined: "c \<notin> closed" if "fgCalls st key = Some c" for c key using open_call [OF assms(2) that] assms(3) by blast
  show ?thesis
    using assms(1)
  proof cases
    case (call w key)
    then show ?thesis using assms(4) new joined by (auto simp: came_before_def repo_do_def make_call_def Let_def split: option.split)
  next
    case (call_detached w e key)
    then show ?thesis using assms(4) new joined by (auto simp: came_before_def doDetached_def make_call_def Let_def split: option.split)
  next
    case (answered w c r)
    then show ?thesis using assms(4) by (auto simp: came_before_def caller_returns_def)
  qed (use assms(4) in \<open>auto simp: came_before_def operation_returns_def publish_def caller_gives_up_def\<close>)
qed

lemma came_run:
  assumes "flight_run st st'" "flights_ok st" "came_before (closed_calls st) who st"
  shows "came_before (closed_calls st) who st' \<and> flights_ok st' \<and> closed_calls st \<subseteq> closed_calls st'"
  using assms(1)
proof (induction rule: rtranclp_induct)
  case base
  then show ?case using assms(2,3) by simp
next
  case (step y z)
  then show ?case using came_step closed_step step_ok by (metis order_trans)
qed

text \<open>C15: an answer a caller shares is never an old one: it is the result of a run of the key it asked for, and that run had
  not been published when the caller came.\<close>

theorem answers_are_fresh:
  assumes "flight_run no_flights st" and "fgCallers st who = None" and "flight_run st st'"
    and "fgCallers st' who = Some (Returned (Some c) a)"
  shows "c \<notin> closed_calls st \<and> c \<in> closed_calls st' \<and> fgAsked st' who = Some (clKey (fgMade st' ! c)) \<and>
    (\<exists>r. a = Shared r \<and> clResult (fgMade st' ! c) = Some r)"
proof -
  have "came_before (closed_calls st) who st" using assms(2) by (simp add: came_before_def)
  from came_run [OF assms(3) reached_ok [OF assms(1)] this]
  have came: "came_before (closed_calls st) who st'" and ok: "flights_ok st'" by simp_all
  have "caller_ok st' who" using flights_okD(5) [OF ok] .
  then show ?thesis using came assms(4)
    by (auto simp: caller_ok_def came_before_def phase_ok_def closed_calls_def split: option.splits answer.splits)
qed

text \<open>no caller is stuck: from every state that can be reached, one that waits for a call can still come to share
  its answer, once the operation returns.\<close>

lemma waiting_callers_return:
  assumes "flight_run no_flights st" and "fgCallers st who = Some (Waits c)"
  shows "\<exists>st' r. flight_run st st' \<and> fgCallers st' who = Some (Returned (Some c) (Shared r))"
proof -
  note ok = reached_ok [OF assms(1)]
  have c: "c < length (fgMade st)" using flights_okD(5) [OF ok, of who] assms(2) by (auto simp: caller_ok_def phase_ok_def split: option.splits)
  have finish: "\<exists>st' r. flight_run u st' \<and> fgCallers st' who = Some (Returned (Some c) (Shared r))"
    if "fgCallers u who = Some (Waits c)" "clDone (fgMade u ! c)" "clResult (fgMade u ! c) = Some r" for u r
    using r_into_rtranclp [of flight_step, OF answered [of u who c r]] that by (fastforce simp: caller_returns_def)
  have close: "\<exists>st' r. flight_run u st' \<and> fgCallers st' who = Some (Returned (Some c) (Shared r))"
    if u: "fgCallers u who = Some (Waits c)" "c \<in> set (fgRuns u)" "c < length (fgMade u)" "clResult (fgMade u ! c) = Some r" for u r
    using finish [of "publish c u" r] u converse_rtranclp_into_rtranclp [of flight_step, OF published [of c u r]]
    by (force simp: publish_def)
  show ?thesis
  proof (cases "clDone (fgMade st ! c)")
    case True
    then show ?thesis using finish [OF assms(2)] flights_okD(4) [OF ok c] by blast
  next
    case False
    then have run: "c \<in> set (fgRuns st)" using flights_okD(2) [OF ok] c by blast
    show ?thesis
    proof (cases "clResult (fgMade st ! c)")
      case None
      have "\<exists>st' r'. flight_run (operation_returns c r st) st' \<and> fgCallers st' who = Some (Returned (Some c) (Shared r'))" for r
        using close [of "operation_returns c r st" r] assms(2) run c by (simp add: operation_returns_def)
      with None run show ?thesis using flight_step.ran by (meson converse_rtranclp_into_rtranclp)
    qed (use close [OF assms(2) run c] in blast)
  qed
qed

text \<open>A leads, B joins it, the operation returns 7, and B has its answer.\<close>

definition demo_flight :: "nat flights" where "demo_flight = repo_do ''k'' 1 no_flights"
definition demo_joined :: "nat flights" where "demo_joined = doDetached None ''k'' 2 demo_flight"
definition demo_shared :: "nat flights" where
  "demo_shared = caller_returns 2 0 7 (publish 0 (operation_returns 0 7 demo_joined))"

lemmas demo_flight_defs = demo_flight_def demo_joined_def demo_shared_def repo_do_def doDetached_def make_call_def no_flights_def Let_def
  operation_returns_def publish_def caller_returns_def

lemma demo_steps: "flight_run no_flights demo_flight" "flight_run demo_flight demo_joined" "flight_run demo_joined demo_shared"
proof -
  have "flight_step no_flights demo_flight" unfolding demo_flight_def by (rule flight_step.call) (simp add: no_flights_def)
  then show "flight_run no_flights demo_flight" by simp
  have "flight_step demo_flight demo_joined" unfolding demo_joined_def by (rule flight_step.call_detached) (simp add: demo_flight_defs)
  then show "flight_run demo_flight demo_joined" by simp
  let ?a = "operation_returns 0 7 demo_joined"
  have 1: "flight_step demo_joined ?a" by (rule flight_step.ran) (simp_all add: demo_flight_defs)
  have 2: "flight_step ?a (publish 0 ?a)" by (rule flight_step.published [where r = 7]) (simp_all add: demo_flight_defs)
  have 3: "flight_step (publish 0 ?a) demo_shared" unfolding demo_shared_def by (rule flight_step.answered) (simp_all add: demo_flight_defs)
  from 1 2 3 show "flight_run demo_joined demo_shared" by (metis rtranclp.simps)
qed

lemma answers_are_fresh_witness:
  "0 \<notin> closed_calls demo_flight \<and> 0 \<in> closed_calls demo_shared \<and> fgCallers demo_shared 2 = Some (Returned (Some 0) (Shared 7))"
proof -
  have "fgCallers demo_flight 2 = None" "fgCallers demo_shared 2 = Some (Returned (Some 0) (Shared 7))"
    by (simp_all add: demo_flight_defs)
  then show ?thesis using answers_are_fresh [OF demo_steps(1) _ rtranclp_trans [OF demo_steps(2,3)], of 2 0 "Shared 7"] by blast
qed

end
