(* ===== verification/RouteEvidence.thy ===== *)
theory RouteEvidence
  imports EgressPolicy GoText "HOL-Library.AList"
begin

text \<open>
  What the parsers of \<open>internal/parser\<close> share (\<open>routes.go\<close>, and \<open>mapValue\<close>, \<open>listValue\<close> of \<open>kubernetes.go\<close>), and the
  routes of Traefik's file provider (\<open>traefik.go\<close>). The text of a document is decoded by a library: the parsers here
  start from the decoded value. A Go map is an association list; the order of its entries is one Go may iterate in.
\<close>

section \<open>Decoded values\<close>

text \<open>Values of type \<open>any\<close>. A number that is no integer, a boolean and a time are the text \<open>fmt.Sprint\<close> prints; a map with
  keys that are not all strings carries the text printed of it.\<close>

datatype gval =
    VNull
  | VString string
  | VInt int
  | VOther string
  | VList "gval list"
  | VMap "(string \<times> gval) list"
  | VAnyMap "(gval \<times> gval) list" string

text \<open>\<open>fmt.Sprint\<close>: the entries of a map in the order of their keys.\<close>

fun sprint :: "gval \<Rightarrow> string" where
  "sprint VNull = ''<nil>''"
| "sprint (VString s) = s"
| "sprint (VInt i) = string_of_int i"
| "sprint (VOther t) = t"
| "sprint (VList vs) = ''['' @ Join (map sprint vs) '' '' @ '']''"
| "sprint (VMap m) = ''map['' @ Join (map (\<lambda>(k, t). k @ '':'' @ t) (sort_key fst (map (\<lambda>(k, v). (k, sprint v)) m))) '' '' @ '']''"
| "sprint (VAnyMap m t) = t"

definition stringValue :: "gval \<Rightarrow> string" where
  "stringValue v = (case v of VNull \<Rightarrow> [] | VString s \<Rightarrow> s | VInt i \<Rightarrow> string_of_int i | _ \<Rightarrow> sprint v)"

definition mapValue :: "gval \<Rightarrow> (string \<times> gval) list" where
  "mapValue v =
     (case v of
        VMap m \<Rightarrow> m
      | VAnyMap m _ \<Rightarrow> concat (map (\<lambda>(k, x). case k of VString s \<Rightarrow> [(s, x)] | _ \<Rightarrow> []) m)
      | _ \<Rightarrow> [])"

definition listValue :: "gval \<Rightarrow> gval list" where
  "listValue v = (case v of VList vs \<Rightarrow> vs | _ \<Rightarrow> [])"

definition entry_of :: "(string \<times> gval) list \<Rightarrow> string \<Rightarrow> gval" where
  "entry_of m k = (case map_of m k of Some v \<Rightarrow> v | None \<Rightarrow> VNull)"

section \<open>Lists of strings\<close>

definition uniqueSorted :: "string list \<Rightarrow> string list" where
  "uniqueSorted vals = sort (remdups (filter (\<lambda>v. v \<noteq> []) (map TrimSpace vals)))"

lemma set_uniqueSorted: "set (uniqueSorted vals) = TrimSpace ` set vals - {[]}"
  by (auto simp: uniqueSorted_def)

lemma uniqueSorted_sorted: "sorted (uniqueSorted vals)" "distinct (uniqueSorted vals)"
  by (simp_all add: uniqueSorted_def)

lemma uniqueSorted_cong: "set vals = set ws \<Longrightarrow> uniqueSorted vals = uniqueSorted ws"
  using sorted_distinct_set_unique [OF uniqueSorted_sorted uniqueSorted_sorted] set_uniqueSorted by metis

section \<open>TCP endpoints\<close>

definition TCPEndpointPrefix :: string where "TCPEndpointPrefix = ''tcp/''"

record TCPEndpoint =
  teHost :: string
  tePort :: string
  teSNI :: bool

definition brackets :: "char set" where "brackets = {CHR ''['', CHR '']''}"
definition quotes :: "char set" where "quotes = {CHR 0x22, CHR 0x27}"

definition endpoint_Exposure :: "TCPEndpoint \<Rightarrow> string" where
  "endpoint_Exposure endpoint =
     (let host = TrimCutset (TrimSpace (teHost endpoint)) brackets in
      if host = [] then []
      else if tePort endpoint = [] then TCPEndpointPrefix @ host
      else TCPEndpointPrefix @ JoinHostPort host (tePort endpoint))"

definition tcpEndpointsExposure :: "TCPEndpoint list \<Rightarrow> string list" where
  "tcpEndpointsExposure endpoints = uniqueSorted (filter (\<lambda>v. v \<noteq> []) (map endpoint_Exposure endpoints))"

text \<open>Endpoints of the same host and port differ in \<open>SNI\<close> only; in what order Go leaves them does not show in their exposure.\<close>

definition uniqueTCPEndpoints :: "TCPEndpoint list \<Rightarrow> TCPEndpoint list" where
  "uniqueTCPEndpoints endpoints = sort_key (\<lambda>e. (teHost e, tePort e)) (remdups (filter (\<lambda>e. teHost e \<noteq> []) endpoints))"

lemma set_uniqueTCPEndpoints: "set (uniqueTCPEndpoints endpoints) = {e \<in> set endpoints. teHost e \<noteq> []}"
  by (auto simp: uniqueTCPEndpoints_def)

section \<open>Access routes\<close>

definition ParseIP_ok :: "string \<Rightarrow> bool" where
  "ParseIP_ok s = (case ParseAddr s of None \<Rightarrow> False | Some a \<Rightarrow> Zone a = [])"

definition schemeForHost :: "string \<Rightarrow> string" where
  "schemeForHost host = (if HasSuffix host ''.lan'' \<or> ParseIP_ok host then ''http'' else ''https'')"

definition schemeForPort :: "string \<Rightarrow> string" where
  "schemeForPort port =
     (let p = TrimSpace port in
      if p = ''22'' then ''ssh'' else if p \<in> {''443'', ''8443'', ''9443''} then ''https'' else ''http'')"

definition accessRoute :: "string \<Rightarrow> string \<Rightarrow> string" where
  "accessRoute host0 port0 =
     (let host1 = TrimSpace (TrimCutset host0 quotes);
          port = TrimSpace (TrimCutset port0 quotes);
          host = (if host1 = [] \<or> host1 = ''0.0.0.0'' \<or> host1 = ''::'' then ''localhost'' else host1) in
      if port = [] then
        (if HasPrefix host ''http://'' \<or> HasPrefix host ''https://'' \<or> HasPrefix host ''ssh://'' then host
         else if ParseIP_ok (TrimCutset host brackets) then
           (let literal = TrimCutset host brackets
            in if CHR '':'' \<in> set literal then ''http://['' @ literal @ '']'' else ''http://'' @ literal)
         else schemeForHost host @ ''://'' @ host)
      else schemeForPort port @ ''://'' @ JoinHostPort (TrimCutset host brackets) port)"

lemma accessRoute_examples:
  "accessRoute ''app.lan'' [] = ''http://app.lan''" "accessRoute ''app.example'' [] = ''https://app.example''"
  "accessRoute ''[::1]'' ''8443'' = ''https://[::1]:8443''" "accessRoute [] ''80'' = ''http://localhost:80''"
  by code_simp+

section \<open>Rules of routers\<close>

text \<open>The matches of \<open>Host(SNI)?\\(([^)]*)\\)\<close>: whether the matcher is on the server name, and what is in the parentheses.\<close>

definition host_match :: "string \<Rightarrow> (bool \<times> string \<times> string) option" where
  "host_match s =
     (let at = (if HasPrefix s ''Host('' then Some (False, drop 5 s) else if HasPrefix s ''HostSNI('' then Some (True, drop 8 s) else None) in
      case at of
        None \<Rightarrow> None
      | Some (sni, r) \<Rightarrow>
          (if CHR '')'' \<in> set r then Some (sni, takeWhile (\<lambda>c. c \<noteq> CHR '')'') r, tl (dropWhile (\<lambda>c. c \<noteq> CHR '')'') r)) else None))"

lemma host_match_shorter: "host_match s = Some (sni, inner, rest) \<Longrightarrow> length rest < length s"
proof -
  assume m: "host_match s = Some (sni, inner, rest)"
  then have ne: "s \<noteq> []" by (auto simp: host_match_def Let_def HasPrefix_def)
  from m obtain n where n: "rest = tl (dropWhile (\<lambda>c. c \<noteq> CHR '')'') (drop n s))" "n = 5 \<or> n = 8"
    by (auto simp: host_match_def Let_def split: if_splits)
  have "length rest \<le> length (drop n s)"
    unfolding n(1) by (metis length_tl diff_le_self le_trans length_dropWhile_le)
  then show ?thesis using n(2) ne by (cases s) auto
qed

function host_matches :: "string \<Rightarrow> (bool \<times> string) list" where
  "host_matches s =
     (if s = [] then []
      else (case host_match s of
          None \<Rightarrow> host_matches (tl s)
        | Some (sni, inner, rest) \<Rightarrow> (sni, inner) # host_matches rest))"
  by pat_completeness auto
termination
  by (relation "measure length") (auto dest: host_match_shorter)

declare host_matches.simps [simp del]

text \<open>The hosts of one match; one with a wildcard is left out.\<close>

definition rule_hosts :: "bool \<times> string \<Rightarrow> (bool \<times> string) list" where
  "rule_hosts m =
     (case m of (sni, inner) \<Rightarrow>
        map (Pair sni) (filter (\<lambda>host. host \<noteq> [] \<and> \<not> ContainsAny host {CHR ''*'', CHR 0x5E, CHR ''$''})
          (map (\<lambda>raw. TrimSpace (TrimCutset raw {CHR 0x60, CHR 0x27, CHR 0x22})) (split_char (CHR '','') inner))))"

definition hostRules :: "string \<Rightarrow> string list \<times> TCPEndpoint list" where
  "hostRules value =
     (let hosts = concat (map rule_hosts (host_matches value))
      in (uniqueSorted (map (\<lambda>(sni, host). accessRoute host []) (filter (\<lambda>(sni, host). \<not> sni) hosts)),
          uniqueTCPEndpoints (map (\<lambda>(sni, host). \<lparr>teHost = host, tePort = [], teSNI = True\<rparr>) (filter (\<lambda>(sni, host). sni) hosts))))"

lemma hostRules_example:
  "hostRules ''Host(`a.lan`, `*.lan`) || HostSNI(`db.lan`) || HostRegexp(`x`)'' =
     ([''http://a.lan''], [\<lparr>teHost = ''db.lan'', tePort = [], teSNI = True\<rparr>])"
  by code_simp

section \<open>Traefik\<close>

record TraefikRoute =
  trService :: string
  trRoutes :: "string list"

record TraefikTCPRoute =
  ttService :: string
  ttEndpoints :: "TCPEndpoint list"

text \<open>A map from names to lists that \<open>append\<close> grows.\<close>

definition append_at :: "string \<Rightarrow> 'a list \<Rightarrow> (string \<times> 'a list) list \<Rightarrow> (string \<times> 'a list) list" where
  "append_at k vals m =
     (if vals = [] then m
      else AList.update k ((case map_of m k of None \<Rightarrow> [] | Some old \<Rightarrow> old) @ vals) m)"

definition at_key :: "(string \<times> 'a list) list \<Rightarrow> string \<Rightarrow> 'a list" where
  "at_key m k = (case map_of m k of None \<Rightarrow> [] | Some vals \<Rightarrow> vals)"

lemma at_key_append [simp]: "at_key (append_at k vals m) k' = at_key m k' @ (if k' = k then vals else [])"
  by (auto simp: at_key_def append_at_def update_conv' split: option.split)

lemma append_at_keys: "distinct (map fst m) \<Longrightarrow> distinct (map fst (append_at k vals m))"
  by (simp add: append_at_def distinct_update)

lemma at_key_fold:
  "at_key (fold (\<lambda>x. append_at (key x) (vals x)) xs m) k = at_key m k @ concat (map vals (filter (\<lambda>x. key x = k) xs))"
  by (induction xs arbitrary: m) auto

lemma append_at_fold_keys: "distinct (map fst m) \<Longrightarrow> distinct (map fst (fold (\<lambda>x. append_at (key x) (vals x)) xs m))"
  by (induction xs arbitrary: m) (simp_all add: append_at_keys)

text \<open>A router stands for its service, or for one of its own name.\<close>

definition router_service :: "string \<times> gval \<Rightarrow> string" where
  "router_service entry =
     (let service = stringValue (entry_of (mapValue (snd entry)) ''service'') in if service = [] then fst entry else service)"

definition router_rule :: "string \<times> gval \<Rightarrow> string list \<times> TCPEndpoint list" where
  "router_rule entry = hostRules (stringValue (entry_of (mapValue (snd entry)) ''rule''))"

definition collectTraefikRouters ::
  "(string \<times> gval) list \<Rightarrow> (string \<times> string list) list \<times> (string \<times> TCPEndpoint list) list \<Rightarrow>
   (string \<times> string list) list \<times> (string \<times> TCPEndpoint list) list" where
  "collectTraefikRouters routers acc =
     (fold (\<lambda>e. append_at (router_service e) (fst (router_rule e))) routers (fst acc),
      fold (\<lambda>e. append_at (router_service e) (snd (router_rule e))) routers (snd acc))"

definition balancer_servers :: "gval \<Rightarrow> gval list" where
  "balancer_servers value = listValue (entry_of (mapValue (entry_of (mapValue value) ''loadBalancer'')) ''servers'')"

definition traefikServerURLs :: "gval \<Rightarrow> string list" where
  "traefikServerURLs value =
     filter (\<lambda>r. r \<noteq> []) (map (\<lambda>server. accessRoute (stringValue (entry_of (mapValue server) ''url'')) []) (balancer_servers value))"

definition parseTCPAddress :: "string \<Rightarrow> TCPEndpoint option" where
  "parseTCPAddress address0 =
     (let address = TrimSpace (TrimCutset address0 quotes) in
      if address = [] then None
      else (case SplitHostPort address of
          None \<Rightarrow>
            (let host = TrimCutset address brackets
             in if host = [] then None else Some \<lparr>teHost = host, tePort = [], teSNI = False\<rparr>)
        | Some (h, port) \<Rightarrow>
            (let host = TrimCutset h brackets
             in Some \<lparr>teHost = (if host = [] \<or> host = ''0.0.0.0'' \<or> host = ''::'' then ''localhost'' else host),
                      tePort = port, teSNI = False\<rparr>)))"

definition traefikServerAddresses :: "gval \<Rightarrow> TCPEndpoint list" where
  "traefikServerAddresses value =
     concat (map (\<lambda>server. case parseTCPAddress (stringValue (entry_of (mapValue server) ''address'')) of None \<Rightarrow> [] | Some e \<Rightarrow> [e])
       (balancer_servers value))"

definition traefik_maps :: "gval \<Rightarrow> (string \<times> string list) list \<times> (string \<times> TCPEndpoint list) list" where
  "traefik_maps raw =
     (let doc = mapValue raw;
          httpConfig = mapValue (entry_of doc ''http'');
          tcpConfig = mapValue (entry_of doc ''tcp'');
          routers = collectTraefikRouters (mapValue (entry_of tcpConfig ''routers''))
            (collectTraefikRouters (mapValue (entry_of httpConfig ''routers'')) ([], []))
      in (fold (\<lambda>e. append_at (fst e) (traefikServerURLs (snd e))) (mapValue (entry_of httpConfig ''services'')) (fst routers),
          fold (\<lambda>e. append_at (fst e) (traefikServerAddresses (snd e))) (mapValue (entry_of tcpConfig ''services'')) (snd routers)))"

text \<open>\<open>readDoc\<close> is what reading and decoding the file returned.\<close>

definition ParseTraefikRoutes :: "(string + gval) \<Rightarrow> string + (TraefikRoute list \<times> TraefikTCPRoute list)" where
  "ParseTraefikRoutes readDoc =
     (case readDoc of
        Inl e \<Rightarrow> Inl e
      | Inr raw \<Rightarrow>
          if mapValue raw = [] then Inr ([], [])
          else Inr (map (\<lambda>(service, vals). \<lparr>trService = service, trRoutes = uniqueSorted vals\<rparr>) (fst (traefik_maps raw)),
                    map (\<lambda>(service, es). \<lparr>ttService = service, ttEndpoints = uniqueTCPEndpoints es\<rparr>) (snd (traefik_maps raw))))"

lemma traefik_keys: "distinct (map fst (fst (traefik_maps raw)))" "distinct (map fst (snd (traefik_maps raw)))"
  by (simp_all add: traefik_maps_def collectTraefikRouters_def Let_def append_at_fold_keys)

end
