(* ===== verification/Compose.thy ===== *)
theory Compose
  imports RouteEvidence
begin

text \<open>
  \<open>internal/parser/compose.go\<close>: the services of a Compose file, from the nodes the decoder left undecoded. An alias
  carries the node it stands for; a document whose anchors contain themselves is not a value of the type.
\<close>

section \<open>Nodes\<close>

datatype ynode =
    YNone
  | YDocument "ynode list"
  | YScalar string
  | YSeq "ynode list"
  | YMap "(ynode \<times> ynode) list"
  | YAlias string ynode

definition node_Value :: "ynode \<Rightarrow> string" where
  "node_Value v = (case v of YScalar s \<Rightarrow> s | YAlias name _ \<Rightarrow> name | _ \<Rightarrow> [])"

definition maxAliasDepth :: nat where "maxAliasDepth = 64"

fun resolveAliasSeen :: "nat \<Rightarrow> ynode \<Rightarrow> ynode" where
  "resolveAliasSeen depth (YAlias name t) = (if maxAliasDepth \<le> depth then YNone else resolveAliasSeen (depth + 1) t)"
| "resolveAliasSeen depth v = v"

definition resolveAlias :: "ynode \<Rightarrow> ynode" where "resolveAlias v = resolveAliasSeen 0 v"

definition mappingValue :: "ynode \<Rightarrow> string \<Rightarrow> ynode" where
  "mappingValue v key =
     (case resolveAlias v of
        YMap kvs \<Rightarrow> (case find (\<lambda>(k, x). node_Value k = key) kvs of Some (k, x) \<Rightarrow> x | None \<Rightarrow> YNone)
      | _ \<Rightarrow> YNone)"

definition mappingValues :: "ynode \<Rightarrow> ynode list" where
  "mappingValues v = (case resolveAlias v of YMap kvs \<Rightarrow> map snd kvs | _ \<Rightarrow> [])"

definition nodeSequence :: "ynode \<Rightarrow> ynode list" where
  "nodeSequence v = (case resolveAlias v of YSeq vs \<Rightarrow> vs | _ \<Rightarrow> [])"

lemma resolve_size: "size (resolveAliasSeen depth v) \<le> size v"
  by (induction depth v rule: resolveAliasSeen.induct) auto

text \<open>The value of a node; of entries with the same key the last one counts.\<close>

function nodeToValueSeen :: "nat \<Rightarrow> ynode \<Rightarrow> gval" where
  "nodeToValueSeen depth v =
     (case resolveAliasSeen depth v of
        YScalar s \<Rightarrow> VString s
      | YSeq vs \<Rightarrow> VList (map (nodeToValueSeen (depth + 1)) vs)
      | YMap kvs \<Rightarrow> VMap (fold (\<lambda>(k, x). AList.update (node_Value k) x) (map (\<lambda>(k, x). (k, nodeToValueSeen (depth + 2) x)) kvs) [])
      | _ \<Rightarrow> VNull)"
  by pat_completeness auto
termination
proof (relation "measure (\<lambda>(depth, v). size v)")
  fix depth :: nat and v vs x
  assume "resolveAliasSeen depth v = YSeq vs" "x \<in> set vs"
  then show "((depth + 1, x), depth, v) \<in> measure (\<lambda>(depth, v). size v)"
    using resolve_size [of depth v] size_list_estimation' [of x vs "size x" size] by simp
next
  fix depth :: nat and v kvs e k x
  assume "resolveAliasSeen depth v = YMap kvs" "e \<in> set kvs" "(k, x) = e"
  then show "((depth + 2, x), depth, v) \<in> measure (\<lambda>(depth, v). size v)"
    using resolve_size [of depth v] size_list_estimation' [of e kvs "size x" "size_prod size size"] by auto
qed simp

declare nodeToValueSeen.simps [simp del]

definition nodeToValue :: "ynode \<Rightarrow> gval" where "nodeToValue v = nodeToValueSeen 0 v"

definition nodeToMap :: "ynode \<Rightarrow> gval" where
  "nodeToMap v =
     (case resolveAlias v of
        YMap kvs \<Rightarrow> VMap (fold (\<lambda>(k, x). AList.update (node_Value k) x) (map (\<lambda>(k, x). (k, nodeToValue x)) kvs) [])
      | _ \<Rightarrow> VMap [])"

definition stringValueNode :: "ynode \<Rightarrow> string" where
  "stringValueNode v =
     (case resolveAlias v of
        YNone \<Rightarrow> []
      | YScalar s \<Rightarrow> s
      | w \<Rightarrow> stringValue (nodeToValue w))"

definition stringifyNode :: "ynode \<Rightarrow> string" where
  "stringifyNode v =
     (case resolveAlias v of
        YNone \<Rightarrow> []
      | YScalar s \<Rightarrow> s
      | YMap kvs \<Rightarrow>
          (let ctx = stringValueNode (mappingValue (YMap kvs) ''context'')
           in if ctx \<noteq> [] then ctx else sprint (nodeToMap (YMap kvs)))
      | w \<Rightarrow> sprint (nodeToValue w))"

definition stringifyNodeSlice :: "ynode \<Rightarrow> string list" where
  "stringifyNodeSlice vals = filter (\<lambda>t. t \<noteq> []) (map stringifyNode (nodeSequence vals))"

text \<open>The names of a sequence, or of the keys of a mapping.\<close>

definition key_names :: "(ynode \<times> ynode) list \<Rightarrow> string list" where
  "key_names kvs = sort (filter (\<lambda>n. n \<noteq> []) (map (\<lambda>(k, x). stringifyNode k) kvs))"

definition networks :: "ynode \<Rightarrow> string list" where
  "networks v = (case resolveAlias v of YSeq vs \<Rightarrow> stringifyNodeSlice (YSeq vs) | YMap kvs \<Rightarrow> key_names kvs | _ \<Rightarrow> [])"

definition dependsOn :: "ynode \<Rightarrow> string list" where
  "dependsOn v = (case resolveAlias v of YSeq vs \<Rightarrow> stringifyNodeSlice (YSeq vs) | YMap kvs \<Rightarrow> key_names kvs | _ \<Rightarrow> [])"

definition envVars :: "ynode \<Rightarrow> string list" where
  "envVars v =
     (case resolveAlias v of
        YSeq vs \<Rightarrow> sort (filter (\<lambda>n. n \<noteq> []) (map (\<lambda>item. fst (Cut (stringifyNode item) ''='')) vs))
      | YMap kvs \<Rightarrow> key_names kvs
      | _ \<Rightarrow> [])"

section \<open>Ports\<close>

definition ParseUint16 :: "string \<Rightarrow> nat option" where
  "ParseUint16 s = (if s \<noteq> [] \<and> list_all is_digit s \<and> nat_of_digits s \<le> 65535 then Some (nat_of_digits s) else None)"

definition isPortRange :: "string \<Rightarrow> bool" where
  "isPortRange value \<longleftrightarrow> Contains (TrimSpace value) ''-''"

definition composePortRange :: "string \<Rightarrow> string list" where
  "composePortRange value0 =
     (let value = TrimSpace value0 in
      if value = [] then []
      else if \<not> Contains value ''-'' then
        (case ParseUint16 value of None \<Rightarrow> [] | Some port \<Rightarrow> if port = 0 then [] else [value])
      else (case split_char (CHR ''-'') value of
          [a, b] \<Rightarrow>
            (case (ParseUint16 a, ParseUint16 b) of
               (Some start, Some stop) \<Rightarrow> if start = 0 \<or> stop < start then [] else map string_of_nat [start..<Suc stop]
             | _ \<Rightarrow> [])
        | _ \<Rightarrow> []))"

definition splitPortProtocol :: "string \<Rightarrow> string \<times> string" where
  "splitPortProtocol value = (case Cut (TrimSpace value) ''/'' of (port, protocol, found) \<Rightarrow> (port, if found then protocol else []))"

definition httpRouteProtocol :: "string \<Rightarrow> bool" where
  "httpRouteProtocol protocol \<longleftrightarrow> protocol = [] \<or> EqualFold (TrimSpace protocol) ''tcp''"

text \<open>Host, published port, target and protocol of the short syntax.\<close>

definition shortPublishedPort :: "string \<Rightarrow> (string \<times> string \<times> string \<times> string) option" where
  "shortPublishedPort value0 =
     (case splitPortProtocol value0 of (value, protocol) \<Rightarrow>
        if \<not> Contains value '':'' then None
        else (case rev (split_char (CHR '':'') value) of
            target # published # hosts \<Rightarrow>
              if published = [] \<or> target = [] then None else Some (Join (rev hosts) '':'', published, target, protocol)
          | _ \<Rightarrow> None))"

definition addr_unspecified :: "Addr \<Rightarrow> bool" where
  "addr_unspecified a = (case Unmap a of V4 w \<Rightarrow> w = 0 | V6 w z \<Rightarrow> w = 0 \<and> z = [])"

definition wildcardBind :: "string \<Rightarrow> bool" where
  "wildcardBind host0 =
     (let host = TrimCutset (TrimSpace host0) brackets in
      case ParseAddr host of Some a \<Rightarrow> addr_unspecified a | None \<Rightarrow> host = ''0.0.0.0'' \<or> host = ''::'')"

definition publishedRoutes :: "string \<Rightarrow> string \<Rightarrow> string \<Rightarrow> bool \<Rightarrow> string list" where
  "publishedRoutes host published target allowTargetRange =
     (if \<not> allowTargetRange \<and> isPortRange target then []
      else
       (let publishedPorts = composePortRange published; targetPorts = composePortRange target in
        if publishedPorts = [] \<or> length publishedPorts \<noteq> length targetPorts then []
        else map (accessRoute host) publishedPorts))"

definition publishedPortRoutes :: "ynode \<Rightarrow> string list" where
  "publishedPortRoutes v =
     (case resolveAlias v of
        YScalar typed \<Rightarrow>
          (case shortPublishedPort typed of
             None \<Rightarrow> []
           | Some (host, published, target, protocol) \<Rightarrow>
               if host = [] \<or> wildcardBind host \<or> \<not> httpRouteProtocol protocol then [] else publishedRoutes host published target True)
      | YMap kvs \<Rightarrow>
          (let published = stringValueNode (mappingValue (YMap kvs) ''published'');
               target = stringValueNode (mappingValue (YMap kvs) ''target'');
               host = stringValueNode (mappingValue (YMap kvs) ''host_ip'');
               protocol = stringValueNode (mappingValue (YMap kvs) ''protocol'') in
           if published = [] \<or> host = [] \<or> wildcardBind host \<or> \<not> httpRouteProtocol protocol then []
           else publishedRoutes host published target False)
      | _ \<Rightarrow> [])"

definition targetPorts :: "ynode \<Rightarrow> string list" where
  "targetPorts v =
     (let ports = (\<lambda>target protocol. if \<not> httpRouteProtocol protocol then [] else composePortRange target) in
      case resolveAlias v of
        YScalar s \<Rightarrow> (case splitPortProtocol s of (raw, protocol) \<Rightarrow> ports (last (split_char (CHR '':'') raw)) protocol)
      | YMap kvs \<Rightarrow>
          (let target = stringValueNode (mappingValue (YMap kvs) ''target'') in
           if isPortRange target then [] else ports target (stringValueNode (mappingValue (YMap kvs) ''protocol'')))
      | _ \<Rightarrow> [])"

definition composeTargetPorts :: "ynode \<Rightarrow> ynode \<Rightarrow> string list" where
  "composeTargetPorts ports expose = uniqueSorted (concat (map (\<lambda>source. concat (map targetPorts (nodeSequence source))) [ports, expose]))"

definition static_addresses :: "ynode \<Rightarrow> string list" where
  "static_addresses nets =
     concat (map (\<lambda>network. filter (\<lambda>ip. ip \<noteq> [])
       (map (\<lambda>key. stringValueNode (mappingValue network key)) [''ipv4_address'', ''ipv6_address''])) (mappingValues nets))"

definition staticAddressRoutes :: "ynode \<Rightarrow> ynode \<Rightarrow> ynode \<Rightarrow> string list" where
  "staticAddressRoutes nets ports expose =
     (let addresses = static_addresses nets;
          targets = composeTargetPorts ports expose
      in uniqueSorted (concat (map (\<lambda>address.
           if targets = [] then [''address/'' @ address] else map (accessRoute address) (uniqueSorted targets)) (uniqueSorted addresses))))"

definition labelRoutes :: "ynode \<Rightarrow> string list" where
  "labelRoutes v =
     (let rules = (case resolveAlias v of
            YSeq vs \<Rightarrow> map (\<lambda>item. hostRules (stringifyNode item)) vs
          | YMap kvs \<Rightarrow> map (\<lambda>item. hostRules (stringValueNode item)) (mappingValues (YMap kvs))
          | _ \<Rightarrow> [])
      in uniqueSorted (concat (map fst rules) @ tcpEndpointsExposure (concat (map snd rules))))"

section \<open>Services\<close>

record composeService =
  csImage :: string
  csBuild :: ynode
  csPorts :: ynode
  csExpose :: ynode
  csNetworkMode :: ynode
  csVolumes :: ynode
  csNetworks :: ynode
  csDependsOn :: ynode
  csEnvironment :: ynode
  csLabels :: ynode
  csHealthcheck :: ynode

record composeFile =
  cfName :: string
  cfServices :: "(string \<times> composeService) list"

record ComposeService =
  kpName :: string
  kpImage :: string
  kpBuild :: string
  kpPorts :: "string list"
  kpNetworkMode :: string
  kpVolumes :: "string list"
  kpNetworks :: "string list"
  kpExposure :: "string list"
  kpDependsOn :: "string list"
  kpEnvVars :: "string list"
  kpWarnings :: "string list"

record ComposeProject =
  cpName :: string
  cpServices :: "ComposeService list"

definition IsComposeFile :: "string \<Rightarrow> bool" where
  "IsComposeFile path \<longleftrightarrow> path_Base path \<in> {''compose.yaml'', ''compose.yml'', ''docker-compose.yaml'', ''docker-compose.yml''}"

text \<open>\<open>filepath.Ext\<close>: from the last dot of the last element.\<close>

definition filepath_Ext :: "string \<Rightarrow> string" where
  "filepath_Ext path =
     (let name = rev (takeWhile (\<lambda>c. c \<noteq> CHR ''/'') (rev path)) in
      case LastIndexByte name (CHR ''.'') of None \<Rightarrow> [] | Some i \<Rightarrow> drop i name)"

definition IsYAMLFile :: "string \<Rightarrow> bool" where
  "IsYAMLFile path \<longleftrightarrow> (let ext = ToLower (filepath_Ext path) in ext = ''.yaml'' \<or> ext = ''.yml'')"

text \<open>A name is literal; one that is interpolated is not known.\<close>

fun project_literal :: "string \<Rightarrow> string option" where
  "project_literal [] = Some []"
| "project_literal (c # s) =
     (if c \<noteq> CHR ''$'' then map_option ((#) c) (project_literal s)
      else (case s of
          d # r \<Rightarrow> if d = CHR ''$'' then map_option ((#) (CHR ''$'')) (project_literal r) else None
        | [] \<Rightarrow> None))"

definition normalizeComposeProjectName :: "string \<Rightarrow> string" where
  "normalizeComposeProjectName name = (case project_literal (TrimSpace name) of Some literal \<Rightarrow> literal | None \<Rightarrow> [])"

definition composeNetworkMode :: "ynode \<Rightarrow> string" where
  "composeNetworkMode v = ToLower (TrimSpace (stringValueNode v))"

definition composeExposure :: "composeService \<Rightarrow> string list" where
  "composeExposure service =
     (if composeNetworkMode (csNetworkMode service) = ''host'' then labelRoutes (csLabels service)
      else uniqueSorted (concat (map publishedPortRoutes (nodeSequence (csPorts service))) @
             staticAddressRoutes (csNetworks service) (csPorts service) (csExpose service) @ labelRoutes (csLabels service)))"

definition hasComposeHealthcheck :: "ynode \<Rightarrow> bool" where
  "hasComposeHealthcheck v =
     (case resolveAlias v of YSeq vs \<Rightarrow> vs \<noteq> [] | YMap kvs \<Rightarrow> kvs \<noteq> [] | YDocument vs \<Rightarrow> vs \<noteq> [] | _ \<Rightarrow> False)"

definition yamlKindName :: "ynode \<Rightarrow> string" where
  "yamlKindName v =
     (case v of YDocument _ \<Rightarrow> ''document'' | YSeq _ \<Rightarrow> ''sequence'' | YMap _ \<Rightarrow> ''mapping'' | YScalar _ \<Rightarrow> ''scalar''
      | YAlias _ _ \<Rightarrow> ''alias'' | YNone \<Rightarrow> ''unknown'')"

definition shape_warning :: "string \<Rightarrow> string \<times> ynode \<times> string set \<Rightarrow> string list" where
  "shape_warning serviceName field =
     (case field of (name, v, supported) \<Rightarrow>
        let w = resolveAlias v in
        if w = YNone \<or> yamlKindName w \<in> supported then []
        else [''unsupported compose services.'' @ serviceName @ ''.'' @ name @ '' shape: '' @ yamlKindName w])"

definition composeShapeWarnings :: "string \<Rightarrow> composeService \<Rightarrow> string list" where
  "composeShapeWarnings serviceName service =
     sort (concat (map (shape_warning serviceName)
       [(''build'', csBuild service, {''scalar'', ''mapping''}), (''ports'', csPorts service, {''sequence''}),
        (''volumes'', csVolumes service, {''sequence''}), (''networks'', csNetworks service, {''sequence'', ''mapping''}),
        (''depends_on'', csDependsOn service, {''sequence'', ''mapping''}), (''environment'', csEnvironment service, {''sequence'', ''mapping''}),
        (''labels'', csLabels service, {''sequence'', ''mapping''})]))"

definition composePortWarnings :: "string \<Rightarrow> ynode \<Rightarrow> string list" where
  "composePortWarnings serviceName ports =
     sort (concat (map (\<lambda>port. case resolveAlias port of
         YMap kvs \<Rightarrow> if isPortRange (stringValueNode (mappingValue (YMap kvs) ''target''))
           then [''invalid compose services.'' @ serviceName @ ''.ports target range skipped: long syntax target must be a single container port'']
           else []
       | _ \<Rightarrow> []) (nodeSequence ports)))"

definition parsed_service :: "string \<Rightarrow> composeService \<Rightarrow> ComposeService" where
  "parsed_service name raw =
     \<lparr>kpName = name, kpImage = csImage raw, kpBuild = stringifyNode (csBuild raw), kpPorts = stringifyNodeSlice (csPorts raw),
      kpNetworkMode = stringValueNode (csNetworkMode raw), kpVolumes = stringifyNodeSlice (csVolumes raw), kpNetworks = networks (csNetworks raw),
      kpExposure = composeExposure raw, kpDependsOn = dependsOn (csDependsOn raw), kpEnvVars = envVars (csEnvironment raw),
      kpWarnings = composeShapeWarnings name raw @ composePortWarnings name (csPorts raw) @
        (if hasComposeHealthcheck (csHealthcheck raw) then [] else [''missing healthcheck''])\<rparr>"

text \<open>\<open>readFile\<close> is what reading and decoding the file returned.\<close>

definition ParseCompose :: "(string + composeFile) \<Rightarrow> string + ComposeProject" where
  "ParseCompose readFile =
     (case readFile of
        Inl e \<Rightarrow> Inl e
      | Inr f \<Rightarrow>
          if cfServices f = [] then Inr \<lparr>cpName = [], cpServices = []\<rparr>
          else Inr \<lparr>cpName = normalizeComposeProjectName (cfName f),
                    cpServices = map (\<lambda>(name, raw). parsed_service name raw) (sort_key fst (cfServices f))\<rparr>)"

lemma compose_examples:
  "publishedPortRoutes (YScalar ''10.0.0.5:8443-8444:443-444'') = [''https://10.0.0.5:8443'', ''http://10.0.0.5:8444'']"
  "publishedPortRoutes (YScalar ''[::1]:80:80/tcp'') = [''http://[::1]:80'']" "publishedPortRoutes (YScalar ''0.0.0.0:80:80'') = []"
  "normalizeComposeProjectName '' a$$b '' = ''a$b''" "normalizeComposeProjectName ''a${B}'' = []"
  "stringifyNode (YMap [(YScalar ''b'', YSeq [YScalar ''x'', YNone]), (YScalar ''a'', YScalar ''1'')]) = ''map[a:1 b:[x <nil>]]''"
  by code_simp+

section \<open>No route is guessed\<close>

definition is_port :: "string \<Rightarrow> bool" where
  "is_port p \<longleftrightarrow> p \<noteq> [] \<and> list_all is_digit p \<and> 0 < nat_of_digits p \<and> nat_of_digits p \<le> 65535"

lemma digits_of_nat: "list_all is_digit (string_of_nat n)" "string_of_nat n \<noteq> []"
proof -
  show "list_all is_digit (string_of_nat n)"
  proof (induction n rule: string_of_nat.induct)
    case (1 n)
    then show ?case by (cases "n < 10") (simp_all add: string_of_nat.simps [of n] digit_char_props)
  qed
  show "string_of_nat n \<noteq> []" by (subst string_of_nat.simps) simp
qed

lemma composePortRange_port:
  assumes "p \<in> set (composePortRange v)"
  shows "is_port p"
proof (cases "Contains (TrimSpace v) ''-''")
  case False
  then show ?thesis using assms by (auto simp: composePortRange_def Let_def ParseUint16_def is_port_def split: if_splits option.splits)
next
  case True
  note range = True assms
  show ?thesis
  proof (cases "split_char (CHR ''-'') (TrimSpace v)" rule: remdups_adj.cases)
    case (3 a b rest)
    show ?thesis
    proof (cases "ParseUint16 a"; cases "ParseUint16 b"; cases rest)
      fix lo hi
      assume "ParseUint16 a = Some lo" "ParseUint16 b = Some hi" "rest = []"
      with range 3 obtain n where "p = string_of_nat n" "lo \<le> n" "n \<le> hi" "0 < lo" "hi \<le> 65535"
        by (auto simp: composePortRange_def Let_def ParseUint16_def atLeastLessThanSuc_atLeastAtMost split: if_splits)
      then show ?thesis by (simp add: is_port_def digits_of_nat)
    qed (use range 3 in \<open>simp_all add: composePortRange_def Let_def split: if_splits\<close>)
  qed (use range in \<open>simp_all add: composePortRange_def Let_def split: if_splits\<close>)
qed

text \<open>A published port is bound to an address of its own, and is known.\<close>

definition bound_route :: "string \<Rightarrow> bool" where
  "bound_route route \<longleftrightarrow> (\<exists>host port. route = accessRoute host port \<and> host \<noteq> [] \<and> \<not> wildcardBind host \<and> is_port port)"

lemma published_bound: "route \<in> set (publishedPortRoutes v) \<Longrightarrow> bound_route route"
  unfolding publishedPortRoutes_def bound_route_def
  by (auto simp: publishedRoutes_def Let_def dest!: composePortRange_port split: ynode.splits option.splits prod.splits if_splits)

lemma target_port: "p \<in> set (targetPorts v) \<Longrightarrow> is_port p"
  unfolding targetPorts_def Let_def by (auto dest: composePortRange_port split: ynode.splits prod.splits if_splits)

lemma is_port_trim: "is_port p \<Longrightarrow> TrimSpace p = p"
proof -
  assume p: "is_port p"
  have digit: "\<not> ascii_space c \<and> \<not> space_rune2 c d \<and> \<not> space_rune2 d c \<and> \<not> space_rune3 c d e \<and> \<not> space_rune3 e d c" if "is_digit c" for c d e
    using that by (auto simp: is_digit_def ascii_space_def space_rune2_def space_rune3_def)
  have lead: "lead_space q = 0" "last_space q = 0" if "list_all is_digit q" for q
    using that digit by (auto simp: lead_space_def last_space_def split: list.splits)
  from p have "list_all is_digit p" "list_all is_digit (rev p)" by (simp_all add: is_port_def list_all_iff)
  with lead show ?thesis by (simp add: TrimSpace_def TrimLeftSpace_id TrimRevSpace_id)
qed

lemma compose_target_port: "p \<in> set (composeTargetPorts ports expose) \<Longrightarrow> is_port p"
  using target_port is_port_trim by (fastforce simp: composeTargetPorts_def set_uniqueSorted)

definition address_route :: "ynode \<Rightarrow> string \<Rightarrow> bool" where
  "address_route nets route \<longleftrightarrow>
     (\<exists>address \<in> TrimSpace ` set (static_addresses nets).
        route = ''address/'' @ address \<or> (\<exists>port. is_port port \<and> route = accessRoute address port))"

lemma static_route: "e \<in> set (staticAddressRoutes nets ports expose) \<Longrightarrow> e \<in> TrimSpace ` Collect (address_route nets)"
proof -
  assume "e \<in> set (staticAddressRoutes nets ports expose)"
  then obtain address where a: "address \<in> TrimSpace ` set (static_addresses nets)"
    and e: "e \<in> TrimSpace ` (if composeTargetPorts ports expose = [] then {''address/'' @ address}
      else accessRoute address ` set (uniqueSorted (composeTargetPorts ports expose)))"
    unfolding staticAddressRoutes_def Let_def set_uniqueSorted by (auto simp: set_uniqueSorted split: if_splits)
  have "is_port p" if "p \<in> set (uniqueSorted (composeTargetPorts ports expose))" for p
    using that compose_target_port is_port_trim by (fastforce simp: set_uniqueSorted)
  with a e show ?thesis by (auto simp: address_route_def image_iff split: if_splits)
qed


definition demo_compose :: composeService where
  "demo_compose = \<lparr>csImage = ''web:1'', csBuild = YNone, csPorts = YSeq [YScalar ''10.0.0.5:8080:80''], csExpose = YNone, csNetworkMode = YNone,
     csVolumes = YNone, csNetworks = YNone, csDependsOn = YNone, csEnvironment = YNone, csLabels = YNone, csHealthcheck = YNone\<rparr>"


section \<open>The name of a project\<close>

text \<open>A name whose dollars are doubled is read back.\<close>

definition escape_dollars :: "string \<Rightarrow> string" where
  "escape_dollars name = concat (map (\<lambda>c. if c = CHR ''$'' then ''$$'' else [c]) name)"

lemma project_literal_escaped: "project_literal (escape_dollars name) = Some name"
  by (induction name) (simp_all add: escape_dollars_def)

end
