(* ===== verification/Kubernetes.thy ===== *)
theory Kubernetes
  imports Compose
begin

text \<open>
  \<open>internal/parser/kubernetes.go\<close>: the resources of the documents of a file. Where the code decodes a node into a
  structure, the decoder is an argument: it returns the structure, in part when it also returns an error.
\<close>

section \<open>Structures\<close>

record kubeMetadata =
  kmName :: string
  kmNamespace :: string
  kmLabels :: "(string \<times> string) list option"

record kubeContainer =
  kcImage :: string
  kcPorts :: "ynode list"
  kcReadinessProbe :: ynode
  kcLivenessProbe :: ynode
  kcEnvFrom :: "(string option \<times> string option) list"
  kcEnv :: "(string option \<times> string option) list"

text \<open>The pairs are the names of the references to a config map and to a secret, if there are any; of the volumes the claims count.\<close>

record kubePodTemplate =
  ktLabels :: "(string \<times> string) list"
  ktInitContainers :: "kubeContainer list"
  ktContainers :: "kubeContainer list"
  ktVolumes :: "string option list"

record kubeObjectRef =
  korKind :: string
  korName :: string

record kubeHelmReleaseSpec =
  khChart :: string
  khSourceRef :: kubeObjectRef
  khValuesFrom :: "kubeObjectRef list"

record kubeServiceSpec =
  ksSelector :: "(string \<times> string) list"
  ksLoadBalancerIP :: string
  ksExternalIPs :: "string list"
  ksPorts :: "ynode list"

record kubeIngressPath =
  kiPath :: string
  kiBackendService :: string
  kiService :: string

record kubeIngressRule =
  kiHost :: string
  kiPaths :: "kubeIngressPath list"

record kubeIngressSpec =
  kiRules :: "kubeIngressRule list"
  kiTLS :: "string list list"
  kiDefaultBackend :: string

text \<open>The decoder: the structure it filled and the error; \<open>ydAny\<close> and \<open>ydText\<close> decode a node or a text into a value.\<close>

type_synonym 'a decoded = "'a \<times> string option"

record yaml_decoder =
  ydMetadata :: "ynode \<Rightarrow> kubeMetadata decoded"
  ydLabels :: "ynode \<Rightarrow> (string \<times> string) list option"
  ydData :: "ynode \<Rightarrow> (string \<times> string) list decoded"
  ydWorkload :: "ynode \<Rightarrow> kubePodTemplate decoded"
  ydCronJob :: "ynode \<Rightarrow> kubePodTemplate decoded"
  ydHelmRelease :: "ynode \<Rightarrow> kubeHelmReleaseSpec decoded"
  ydService :: "ynode \<Rightarrow> kubeServiceSpec decoded"
  ydIngress :: "ynode \<Rightarrow> kubeIngressSpec decoded"
  ydAny :: "ynode \<Rightarrow> gval option"
  ydText :: "string \<Rightarrow> gval option"

record KubernetesResource =
  krKind :: string
  krName :: string
  krNamespace :: string
  krSourcePath :: string
  krLabels :: "(string \<times> string) list"
  krSelector :: "(string \<times> string) list"
  krBackends :: "string list"
  krImages :: "string list"
  krPorts :: "string list"
  krDependencies :: "string list"
  krStorage :: "string list"
  krExposure :: "string list"
  krConfigRefs :: "string list"
  krWarnings :: "string list"

record kubeDocument =
  kdAPIVersion :: string
  kdKind :: string
  kdMetadata :: kubeMetadata
  kdSpec :: ynode
  kdData :: "(string \<times> string) list"
  kdWarnings :: "string list"

definition empty_metadata :: kubeMetadata where "empty_metadata = \<lparr>kmName = [], kmNamespace = [], kmLabels = None\<rparr>"
definition empty_template :: kubePodTemplate where
  "empty_template = \<lparr>ktLabels = [], ktInitContainers = [], ktContainers = [], ktVolumes = []\<rparr>"
definition empty_service_spec :: kubeServiceSpec where
  "empty_service_spec = \<lparr>ksSelector = [], ksLoadBalancerIP = [], ksExternalIPs = [], ksPorts = []\<rparr>"
definition empty_ingress_spec :: kubeIngressSpec where
  "empty_ingress_spec = \<lparr>kiRules = [], kiTLS = [], kiDefaultBackend = []\<rparr>"
definition empty_helm_spec :: kubeHelmReleaseSpec where
  "empty_helm_spec = \<lparr>khChart = [], khSourceRef = \<lparr>korKind = [], korName = []\<rparr>, khValuesFrom = []\<rparr>"

section \<open>Documents\<close>

definition stringValueFromYAMLNode :: "yaml_decoder \<Rightarrow> ynode \<Rightarrow> string" where
  "stringValueFromYAMLNode yd v =
     (case v of
        YNone \<Rightarrow> []
      | YScalar s \<Rightarrow> s
      | _ \<Rightarrow> (case ydAny yd v of None \<Rightarrow> [] | Some x \<Rightarrow> stringValue x))"

definition workload_kinds :: "string set" where
  "workload_kinds = {''Deployment'', ''StatefulSet'', ''DaemonSet'', ''Job'', ''CronJob'', ''HelmRelease''}"

definition IsWorkload :: "KubernetesResource \<Rightarrow> bool" where
  "IsWorkload resource \<longleftrightarrow> krKind resource \<in> workload_kinds"

definition supportedKubernetesKind :: "string \<Rightarrow> bool" where
  "supportedKubernetesKind kind \<longleftrightarrow>
     kind \<in> workload_kinds \<union> {''Service'', ''Ingress'', ''PersistentVolumeClaim'', ''Namespace'', ''ConfigMap'', ''Secret''}"

definition documentContentNode :: "ynode \<Rightarrow> ynode" where
  "documentContentNode v = (case v of YDocument (x # _) \<Rightarrow> x | _ \<Rightarrow> v)"

text \<open>A node that is there is decoded; an error is a warning.\<close>

definition decode_field :: "(ynode \<Rightarrow> 'a decoded) \<Rightarrow> 'a \<Rightarrow> string \<Rightarrow> string \<Rightarrow> ynode \<Rightarrow> 'a \<times> string list" where
  "decode_field decoder zero kind field v =
     (if v = YNone then (zero, [])
      else (case decoder v of
          (x, None) \<Rightarrow> (x, [])
        | (x, Some e) \<Rightarrow> (x, [''unsupported Kubernetes '' @ kind @ '' '' @ field @ '' shape: '' @ e])))"

definition applyKubeMetadataFallback :: "yaml_decoder \<Rightarrow> ynode \<Rightarrow> kubeMetadata \<Rightarrow> kubeMetadata" where
  "applyKubeMetadataFallback yd node0 metadata =
     (case resolveAlias node0 of
        YMap kvs \<Rightarrow>
          (let node = YMap kvs;
               name = stringValueFromYAMLNode yd (mappingValue node ''name'');
               namespace = stringValueFromYAMLNode yd (mappingValue node ''namespace'');
               labels = mappingValue node ''labels''
           in \<lparr>kmName = (if name \<noteq> [] then name else kmName metadata),
               kmNamespace = (if namespace \<noteq> [] then namespace else kmNamespace metadata),
               kmLabels = (if kmLabels metadata = None \<and> labels \<noteq> YNone then ydLabels yd labels else kmLabels metadata)\<rparr>)
      | _ \<Rightarrow> metadata)"

definition decodeKubeDocument :: "yaml_decoder \<Rightarrow> ynode \<Rightarrow> string \<Rightarrow> kubeDocument" where
  "decodeKubeDocument yd docNode kind =
     (let metadataNode = mappingValue docNode ''metadata'' in
      case decode_field (ydMetadata yd) empty_metadata kind ''metadata'' metadataNode of (metadata, w1) \<Rightarrow>
      case (if kind \<in> {''ConfigMap'', ''Secret''} then decode_field (ydData yd) [] kind ''data'' (mappingValue docNode ''data'') else ([], [])) of
        (data, w2) \<Rightarrow>
        \<lparr>kdAPIVersion = stringValueFromYAMLNode yd (mappingValue docNode ''apiVersion''), kdKind = kind,
         kdMetadata = applyKubeMetadataFallback yd metadataNode metadata, kdSpec = mappingValue docNode ''spec'',
         kdData = data, kdWarnings = sort (w1 @ w2)\<rparr>)"

section \<open>Workloads\<close>

definition mergeStringMaps :: "(string \<times> string) list \<Rightarrow> (string \<times> string) list \<Rightarrow> (string \<times> string) list" where
  "mergeStringMaps base override = fold (\<lambda>(k, v). AList.update k v) override base"

definition named_ref :: "string \<Rightarrow> string option \<Rightarrow> string list" where
  "named_ref kind ref = (case ref of Some name \<Rightarrow> if name \<noteq> [] then [kind @ ''/'' @ name] else [] | None \<Rightarrow> [])"

definition envValueRefs :: "string option \<times> string option \<Rightarrow> string list" where
  "envValueRefs env = sort (named_ref ''configMapKeyRef'' (fst env) @ named_ref ''secretKeyRef'' (snd env))"

definition container_refs :: "kubeContainer \<Rightarrow> string list" where
  "container_refs item =
     concat (map (\<lambda>e. named_ref ''configMapRef'' (fst e) @ named_ref ''secretRef'' (snd e)) (kcEnvFrom item)) @
     concat (map envValueRefs (kcEnv item))"

definition probe_warnings :: "string \<Rightarrow> kubeContainer \<Rightarrow> string list" where
  "probe_warnings kind item =
     (if kind = ''Job'' \<or> kind = ''CronJob'' then []
      else (if kcReadinessProbe item = YNone then [''missing readiness probe''] else []) @
           (if kcLivenessProbe item = YNone then [''missing liveness probe''] else []))"

definition nonempty_values :: "yaml_decoder \<Rightarrow> ynode list \<Rightarrow> string list" where
  "nonempty_values yd vs = filter (\<lambda>s. s \<noteq> []) (map (stringValueFromYAMLNode yd) vs)"

definition podTemplateForWorkload :: "yaml_decoder \<Rightarrow> string \<Rightarrow> ynode \<Rightarrow> kubePodTemplate \<times> string list" where
  "podTemplateForWorkload yd kind specNode =
     decode_field (if kind = ''CronJob'' then ydCronJob yd else ydWorkload yd) empty_template kind ''spec'' specNode"

definition parseWorkload :: "yaml_decoder \<Rightarrow> kubeDocument \<Rightarrow> KubernetesResource \<Rightarrow> KubernetesResource" where
  "parseWorkload yd doc resource =
     (case podTemplateForWorkload yd (krKind resource) (kdSpec doc) of (template, w) \<Rightarrow>
      let containers = ktInitContainers template @ ktContainers template in
      resource\<lparr>
        krLabels := mergeStringMaps (krLabels resource) (ktLabels template),
        krImages := sort (krImages resource @ filter (\<lambda>i. i \<noteq> []) (map kcImage containers)),
        krPorts := sort (krPorts resource @ concat (map (\<lambda>c. nonempty_values yd (kcPorts c)) containers)),
        krStorage := sort (krStorage resource @ concat (map (\<lambda>v. case v of Some c \<Rightarrow> if c \<noteq> [] then [c] else [] | None \<Rightarrow> []) (ktVolumes template))),
        krDependencies := sort (krDependencies resource),
        krConfigRefs := sort (krConfigRefs resource @ concat (map container_refs containers)),
        krWarnings := sort (krWarnings resource @ w @ concat (map (probe_warnings (krKind resource)) containers))\<rparr>)"

definition object_ref :: "kubeObjectRef \<Rightarrow> string list" where
  "object_ref ref = (if korKind ref \<noteq> [] \<and> korName ref \<noteq> [] then [korKind ref @ ''/'' @ korName ref] else [])"

definition parseHelmRelease :: "yaml_decoder \<Rightarrow> kubeDocument \<Rightarrow> KubernetesResource \<Rightarrow> KubernetesResource" where
  "parseHelmRelease yd doc resource =
     (case decode_field (ydHelmRelease yd) empty_helm_spec (krKind resource) ''spec'' (kdSpec doc) of (spec, w) \<Rightarrow>
      resource\<lparr>
        krDependencies := sort (krDependencies resource @ (if khChart spec \<noteq> [] then [''chart/'' @ khChart spec] else [])),
        krConfigRefs := sort (krConfigRefs resource @ object_ref (khSourceRef spec) @ concat (map object_ref (khValuesFrom spec))),
        krWarnings := sort (krWarnings resource @ w)\<rparr>)"

section \<open>Services and ingresses\<close>

definition portsFromService :: "yaml_decoder \<Rightarrow> kubeServiceSpec \<Rightarrow> string list" where
  "portsFromService yd spec = nonempty_values yd (ksPorts spec)"

definition serviceExposure :: "yaml_decoder \<Rightarrow> kubeServiceSpec \<Rightarrow> string list" where
  "serviceExposure yd spec =
     (let addresses = (if ksLoadBalancerIP spec \<noteq> [] then [ksLoadBalancerIP spec] else []) @ ksExternalIPs spec;
          ports = nonempty_values yd (ksPorts spec)
      in uniqueSorted (concat (map (\<lambda>address. if ports = [] then [accessRoute address []] else map (accessRoute address) (uniqueSorted ports))
           (uniqueSorted addresses))))"

definition backendServiceName :: "kubeIngressPath \<Rightarrow> string list" where
  "backendServiceName path =
     (if kiBackendService path \<noteq> [] then [kiBackendService path] else if kiService path \<noteq> [] then [kiService path] else [])"

definition ingressTLSHosts :: "kubeIngressSpec \<Rightarrow> string \<Rightarrow> bool" where
  "ingressTLSHosts spec host \<longleftrightarrow> host \<noteq> [] \<and> list_ex (\<lambda>hosts. host \<in> set hosts) (kiTLS spec)"

definition ingressAccessRoute :: "string \<Rightarrow> string \<Rightarrow> bool \<Rightarrow> string" where
  "ingressAccessRoute host path0 hasTLS =
     (let path1 = (if path0 = [] then ''/'' else path0);
          path = (if HasPrefix path1 ''/'' then path1 else ''/'' @ path1)
      in if hasTLS \<or> \<not> HasSuffix host ''.lan'' then ''https://'' @ host @ path else ''http://'' @ host @ path)"

definition ingressRoutes :: "kubeIngressSpec \<Rightarrow> string list \<times> string list" where
  "ingressRoutes spec =
     (let rules = filter (\<lambda>r. kiHost r \<noteq> []) (kiRules spec)
      in (uniqueSorted (concat (map (\<lambda>r. concat (map backendServiceName (kiPaths r))) rules) @
            (if kiDefaultBackend spec \<noteq> [] then [kiDefaultBackend spec] else [])),
          uniqueSorted (concat (map (\<lambda>r. map (\<lambda>p. ingressAccessRoute (kiHost r) (kiPath p) (ingressTLSHosts spec (kiHost r))) (kiPaths r)) rules))))"

section \<open>Config maps\<close>

definition route_keys :: "string set" where "route_keys = {''host'', ''hosts'', ''url'', ''root_url'', ''externalurl''}"

fun routesFromValue :: "string \<Rightarrow> gval \<Rightarrow> string list" where
  "routesFromValue key (VMap m) = concat (map (\<lambda>(k, v). routesFromValue k v) m)"
| "routesFromValue key (VList vs) = concat (map (routesFromValue (ToLower key)) vs)"
| "routesFromValue key (VString s) = (if ToLower key \<in> route_keys then [accessRoute s []] else [])"
| "routesFromValue key v = []"

definition routesFromEmbeddedYAML :: "yaml_decoder \<Rightarrow> string \<Rightarrow> string list" where
  "routesFromEmbeddedYAML yd value = (case ydText yd value of None \<Rightarrow> [] | Some raw \<Rightarrow> routesFromValue [] raw)"

definition configMapRoutes :: "yaml_decoder \<Rightarrow> kubeDocument \<Rightarrow> string list" where
  "configMapRoutes yd doc = uniqueSorted (concat (map (\<lambda>(k, t). routesFromEmbeddedYAML yd t) (kdData doc)))"

section \<open>Resources\<close>

definition empty_resource :: "string \<Rightarrow> string \<Rightarrow> string \<Rightarrow> (string \<times> string) list \<Rightarrow> string list \<Rightarrow> KubernetesResource" where
  "empty_resource kind name namespace labels warnings =
     \<lparr>krKind = kind, krName = name, krNamespace = namespace, krSourcePath = [], krLabels = labels, krSelector = [], krBackends = [],
      krImages = [], krPorts = [], krDependencies = [], krStorage = [], krExposure = [], krConfigRefs = [], krWarnings = warnings\<rparr>"

definition parseKubeDoc :: "yaml_decoder \<Rightarrow> kubeDocument \<Rightarrow> KubernetesResource option" where
  "parseKubeDoc yd doc =
     (let kind = kdKind doc;
          name = kmName (kdMetadata doc);
          namespace = (if kmNamespace (kdMetadata doc) = [] then ''default'' else kmNamespace (kdMetadata doc));
          resource = empty_resource kind name namespace (case kmLabels (kdMetadata doc) of Some l \<Rightarrow> l | None \<Rightarrow> []) (kdWarnings doc) in
      if kind = [] \<or> name = [] then None
      else if kind \<in> workload_kinds - {''HelmRelease''} then Some (parseWorkload yd doc resource)
      else if kind = ''HelmRelease'' then Some (parseHelmRelease yd doc resource)
      else if kind = ''Service'' then
        (case decode_field (ydService yd) empty_service_spec kind ''spec'' (kdSpec doc) of (spec, w) \<Rightarrow>
           Some (resource\<lparr>krWarnings := krWarnings resource @ w, krPorts := portsFromService yd spec, krSelector := ksSelector spec,
             krExposure := serviceExposure yd spec @ [''service/'' @ name]\<rparr>))
      else if kind = ''Ingress'' then
        (case decode_field (ydIngress yd) empty_ingress_spec kind ''spec'' (kdSpec doc) of (spec, w) \<Rightarrow>
           Some (resource\<lparr>krWarnings := krWarnings resource @ w, krBackends := fst (ingressRoutes spec), krExposure := snd (ingressRoutes spec)\<rparr>))
      else if kind = ''PersistentVolumeClaim'' then Some (resource\<lparr>krStorage := [name]\<rparr>)
      else if kind = ''ConfigMap'' then Some (resource\<lparr>krExposure := configMapRoutes yd doc\<rparr>)
      else if kind \<in> {''Namespace'', ''Secret''} then Some resource
      else None)"

text \<open>The documents of a file up to its end, or the error of one that does not decode.\<close>

definition kube_resource :: "yaml_decoder \<Rightarrow> ynode \<Rightarrow> KubernetesResource list" where
  "kube_resource yd node =
     (let docNode = documentContentNode node in
      case docNode of
        YMap kvs \<Rightarrow>
          (let kind = stringValueFromYAMLNode yd (mappingValue docNode ''kind'') in
           if \<not> supportedKubernetesKind kind then []
           else (case parseKubeDoc yd (decodeKubeDocument yd docNode kind) of Some r \<Rightarrow> [r] | None \<Rightarrow> []))
      | _ \<Rightarrow> [])"

definition ParseKubernetes :: "yaml_decoder \<Rightarrow> (string + ynode list) \<Rightarrow> string + KubernetesResource list" where
  "ParseKubernetes yd readFile =
     (case readFile of Inl e \<Rightarrow> Inl e | Inr docs \<Rightarrow> Inr (concat (map (kube_resource yd) docs)))"

end
