(* ===== verification/Sha1.thy ===== *)
theory Sha1
  imports Sha256
begin

text \<open>\<open>crypto/sha1\<close>, which makes the ids of services. As with SHA-256, nothing is proved of it but its length.\<close>

type_synonym sha1_state = "u32 \<times> u32 \<times> u32 \<times> u32 \<times> u32"

definition sha1_h0 :: sha1_state where
  "sha1_h0 = (0x67452301, 0xEFCDAB89, 0x98BADCFE, 0x10325476, 0xC3D2E1F0)"

text \<open>The message schedule, most recent word first.\<close>

fun sha1_extend :: "nat \<Rightarrow> u32 list \<Rightarrow> u32 list" where
  "sha1_extend 0 r = r"
| "sha1_extend (Suc n) r = sha1_extend n (word_rotl 1 (r ! 2 XOR r ! 7 XOR r ! 13 XOR r ! 15) # r)"

definition sha1_f :: "nat \<Rightarrow> u32 \<Rightarrow> u32 \<Rightarrow> u32 \<Rightarrow> u32 \<times> u32" where
  "sha1_f i b c d =
     (if i < 20 then ((b AND c) OR (NOT b AND d), 0x5A827999)
      else if i < 40 then (b XOR c XOR d, 0x6ED9EBA1)
      else if i < 60 then ((b AND c) OR (b AND d) OR (c AND d), 0x8F1BBCDC)
      else (b XOR c XOR d, 0xCA62C1D6))"

fun sha1_round :: "nat \<times> u32 \<Rightarrow> sha1_state \<Rightarrow> sha1_state" where
  "sha1_round (i, w) (a, b, c, d, e) =
     (case sha1_f i b c d of (f, k) \<Rightarrow> (word_rotl 5 a + f + e + k + w, a, word_rotl 30 b, c, d))"

fun sha1_add :: "sha1_state \<Rightarrow> sha1_state \<Rightarrow> sha1_state" where
  "sha1_add (a, b, c, d, e) (a', b', c', d', e') = (a + a', b + b', c + c', d + d', e + e')"

definition sha1_block :: "nat list \<Rightarrow> sha1_state \<Rightarrow> sha1_state" where
  "sha1_block blk st =
     sha1_add st (fold sha1_round (zip [0..<80] (rev (sha1_extend 64 (rev (words_of_block blk))))) st)"

fun sha1_blocks :: "nat \<Rightarrow> nat list \<Rightarrow> sha1_state \<Rightarrow> sha1_state" where
  "sha1_blocks 0 m st = st"
| "sha1_blocks (Suc n) m st = sha1_blocks n (drop 64 m) (sha1_block (take 64 m) st)"

fun sha1_words :: "sha1_state \<Rightarrow> u32 list" where
  "sha1_words (a, b, c, d, e) = [a, b, c, d, e]"

definition sha1_Sum :: "nat list \<Rightarrow> nat list" where
  "sha1_Sum m = concat (map (\<lambda>w. be_bytes 4 (unat w)) (sha1_words (sha1_blocks (length (sha_pad m) div 64) (sha_pad m) sha1_h0)))"

lemma length_sha1_Sum [simp]: "length (sha1_Sum m) = 20"
  by (cases "sha1_blocks (length (sha_pad m) div 64) (sha_pad m) sha1_h0" rule: sha1_words.cases) (simp add: sha1_Sum_def)

text \<open>Parts that are each closed by a zero byte, in hexadecimal digits.\<close>

definition hash_parts :: "string list \<Rightarrow> string" where
  "hash_parts parts = EncodeToString (sha1_Sum (concat (map (\<lambda>p. bytes_of p @ [0]) parts)))"

end
