(* ===== verification/HostInventory.thy ===== *)
theory HostInventory
  imports RouteEvidence Sha1 Images ConfigTypes
begin

text \<open>
  Hosts as services: \<open>internal/parser/ansible.go\<close> and \<open>internal/hostinventory/hostinventory.go\<close>. The order of a map is one
  Go may iterate in.
\<close>

section \<open>Ansible inventories\<close>

record AnsibleHost =
  ahName :: string
  ahAddress :: string

text \<open>One host of a group: a known host gets an address only while its own is its name.\<close>

definition collect_host :: "string \<times> gval \<Rightarrow> (string \<times> AnsibleHost) list \<Rightarrow> (string \<times> AnsibleHost) list" where
  "collect_host entry hosts =
     (let name = TrimSpace (fst entry);
          given = TrimSpace (stringValue (entry_of (mapValue (snd entry)) ''ansible_host''));
          address = (if given = [] then name else given) in
      if name = [] then hosts
      else (case map_of hosts name of
          Some existing \<Rightarrow>
            if ahAddress existing = ahName existing \<and> address \<noteq> name then AList.update name (existing\<lparr>ahAddress := address\<rparr>) hosts else hosts
        | None \<Rightarrow> AList.update name \<lparr>ahName = name, ahAddress = address\<rparr> hosts))"

definition has_key :: "string \<Rightarrow> gval \<Rightarrow> bool" where
  "has_key k v \<longleftrightarrow> map_of (mapValue v) k \<noteq> None"

text \<open>The groups below a group: its children, and the entries that look like groups.\<close>

definition child_groups :: "(string \<times> gval) list \<Rightarrow> gval list" where
  "child_groups grp =
     map snd (mapValue (entry_of grp ''children'')) @
     map snd (filter (\<lambda>(k, child). k \<notin> {''children'', ''hosts'', ''vars''} \<and> (has_key ''hosts'' child \<or> has_key ''children'' child)) grp)"

lemma mapValue_smaller: "(k, x) \<in> set (mapValue v) \<Longrightarrow> size x < size v"
proof (cases v)
  case (VMap m)
  assume "(k, x) \<in> set (mapValue v)"
  with VMap have "(k, x) \<in> set m" by (simp add: mapValue_def)
  then have "size x < Suc (size_list (size_prod (\<lambda>_. 0) size) m)" by (induction m) auto
  then show ?thesis using VMap by simp
next
  case (VAnyMap m t)
  assume "(k, x) \<in> set (mapValue v)"
  with VAnyMap obtain k' where "(k', x) \<in> set m" by (auto simp: mapValue_def split: gval.splits)
  then have "size x < Suc (size_list (size_prod size size) m)" by (induction m) auto
  then show ?thesis using VAnyMap by simp
qed (simp_all add: mapValue_def)

lemma child_smaller: "g \<in> set (child_groups (mapValue v)) \<Longrightarrow> size g < size v"
proof -
  assume "g \<in> set (child_groups (mapValue v))"
  then consider k c where "(k, g) \<in> set (mapValue c)" "c = entry_of (mapValue v) ''children''" | k where "(k, g) \<in> set (mapValue v)"
    by (auto simp: child_groups_def)
  then show ?thesis
  proof cases
    case 1
    then have "c \<noteq> VNull" by (auto simp: mapValue_def)
    then have "(''children'', c) \<in> set (mapValue v)" using 1(2) by (auto simp: entry_of_def map_of_SomeD split: option.splits)
    then show ?thesis using mapValue_smaller 1(1) less_trans by blast
  next
    case 2
    then show ?thesis by (rule mapValue_smaller)
  qed
qed

function collectAnsibleHosts :: "gval \<Rightarrow> (string \<times> AnsibleHost) list \<Rightarrow> (string \<times> AnsibleHost) list" where
  "collectAnsibleHosts value hosts =
     fold collectAnsibleHosts (child_groups (mapValue value))
       (fold collect_host (mapValue (entry_of (mapValue value) ''hosts'')) hosts)"
  by pat_completeness auto
termination
  by (relation "measure (\<lambda>(value, hosts). size value)") (auto intro: child_smaller)

declare collectAnsibleHosts.simps [simp del]

definition ParseAnsibleHosts :: "(string + gval) \<Rightarrow> string + AnsibleHost list" where
  "ParseAnsibleHosts readFile =
     (case readFile of
        Inl e \<Rightarrow> Inl e
      | Inr raw \<Rightarrow> Inr (sort_key ahName (map snd (collectAnsibleHosts raw []))))"

section \<open>Services of a target\<close>

definition host_RepositoryName :: "PingTarget \<Rightarrow> string" where
  "host_RepositoryName target = (if ptRepository target \<noteq> [] then ptRepository target else ''ping/'' @ EffectiveName target)"

definition host_Source :: "PingTarget \<Rightarrow> string" where
  "host_Source target =
     (if ptAnsibleInventory target \<noteq> [] then ptAnsibleInventory target else if ptHost target \<noteq> [] then ptHost target else ''runtime.ping'')"

definition hostServiceID :: "string \<Rightarrow> string \<Rightarrow> string" where
  "hostServiceID repository name = hash_parts [''host'', repository, name]"

definition host_service :: "PingTarget \<Rightarrow> string \<Rightarrow> string \<times> AnsibleHost \<Rightarrow> Service" where
  "host_service target commit entry =
     (let name = fst entry;
          trimmed = TrimSpace (ahAddress (snd entry));
          address = (if trimmed = [] then name else trimmed);
          env = TrimSpace (ptEnvironment target)
      in (bare_service (hostServiceID (host_RepositoryName target) name) name)\<lparr>
           svRepository := host_RepositoryName target, svSourceCommit := commit, svSourcePath := host_Source target,
           svRuntime := ''host'', svKind := ''Host'', svResourceName := address,
           svEnvironment := (if env = [] then ''infrastructure'' else env), svHealth := HealthUnknown,
           svExposure := [''host/'' @ address], svConfigRefs := [''ansible_host='' @ address]\<rparr>)"

definition target_hosts :: "PingTarget \<Rightarrow> AnsibleHost list \<Rightarrow> (string \<times> AnsibleHost) list" where
  "target_hosts target parsed =
     (let hosts = fold (\<lambda>h. AList.update (ahName h) h) parsed [] in
      if ptHost target = [] then hosts
      else (let name = (if ptAnsibleInventory target = [] \<and> ptName target \<noteq> [] then ptName target else ptHost target)
            in AList.update name \<lparr>ahName = name, ahAddress = ptHost target\<rparr> hosts))"

definition ServicesForTarget :: "PingTarget \<Rightarrow> (string + gval) \<Rightarrow> string \<Rightarrow> string + Service list" where
  "ServicesForTarget target readFile commit =
     (case (if ptAnsibleInventory target \<noteq> [] then ParseAnsibleHosts readFile else Inr []) of
        Inl e \<Rightarrow> Inl e
      | Inr parsed \<Rightarrow> Inr (map (host_service target commit) (sort_key fst (target_hosts target parsed))))"

section \<open>The order of groups shows\<close>

definition demo_group :: "string \<Rightarrow> gval" where
  "demo_group address = VMap [(''hosts'', VMap [(''web'', VMap [(''ansible_host'', VString address)])])]"

text \<open>A host with two addresses keeps the one of the group Go comes to first: two parses of one file may differ.\<close>

lemma inventory_order_shows:
  "ParseAnsibleHosts (Inr (VMap [(''children'', VMap [(''a'', demo_group ''10.0.0.1''), (''b'', demo_group ''10.0.0.2'')])])) =
     Inr [\<lparr>ahName = ''web'', ahAddress = ''10.0.0.1''\<rparr>] \<and>
   ParseAnsibleHosts (Inr (VMap [(''children'', VMap [(''b'', demo_group ''10.0.0.2''), (''a'', demo_group ''10.0.0.1'')])])) =
     Inr [\<lparr>ahName = ''web'', ahAddress = ''10.0.0.2''\<rparr>]"
  by code_simp

end
