(* ===== verification/PathFilter.thy ===== *)
theory PathFilter
  imports GitSync ConfigProps
begin

text \<open>
  \<open>internal/scanner/path_filter.go\<close>: which files of a repository are scanned, with \<open>path.Match\<close>, and the walk of
  \<open>parseRepo\<close> over the tree of the repository.
\<close>

section \<open>Runes\<close>

text \<open>The first rune of a string and its width; a byte that starts no rune is \<open>U+FFFD\<close> of width 1.\<close>

definition byte_in :: "nat \<Rightarrow> nat \<Rightarrow> char \<Rightarrow> bool" where
  "byte_in lo hi c \<longleftrightarrow> lo \<le> of_char c \<and> of_char c \<le> hi"

definition tail_bits :: "char \<Rightarrow> nat" where "tail_bits c = of_char c mod 64"

definition decode_rune :: "string \<Rightarrow> nat \<times> nat" where
  "decode_rune s =
     (case s of
        [] \<Rightarrow> (0xFFFD, 0)
      | a # s1 \<Rightarrow>
          if byte_in 0 0x7F a then (of_char a, 1)
          else (case s1 of
             [] \<Rightarrow> (0xFFFD, 1)
           | b # s2 \<Rightarrow>
               if byte_in 0xC2 0xDF a \<and> byte_in 0x80 0xBF b then (of_char a mod 32 * 64 + tail_bits b, 2)
               else (case s2 of
                  [] \<Rightarrow> (0xFFFD, 1)
                | c # s3 \<Rightarrow>
                    if byte_in 0xE0 0xEF a \<and> byte_in (if of_char a = (0xE0 :: nat) then 0xA0 else 0x80) (if of_char a = (0xED :: nat) then 0x9F else 0xBF) b \<and>
                       byte_in 0x80 0xBF c
                    then (of_char a mod 16 * 4096 + tail_bits b * 64 + tail_bits c, 3)
                    else (case s3 of
                       [] \<Rightarrow> (0xFFFD, 1)
                     | d # _ \<Rightarrow>
                         if byte_in 0xF0 0xF4 a \<and> byte_in (if of_char a = (0xF0 :: nat) then 0x90 else 0x80) (if of_char a = (0xF4 :: nat) then 0x8F else 0xBF) b \<and>
                            byte_in 0x80 0xBF c \<and> byte_in 0x80 0xBF d
                         then (of_char a mod 8 * 262144 + tail_bits b * 4096 + tail_bits c * 64 + tail_bits d, 4)
                         else (0xFFFD, 1)))))"

lemma decode_width: "s \<noteq> [] \<Longrightarrow> 0 < snd (decode_rune s) \<and> snd (decode_rune s) \<le> length s"
  by (auto simp: decode_rune_def split: list.splits)

function runes :: "string \<Rightarrow> nat list" where
  "runes s = (if s = [] then [] else fst (decode_rune s) # runes (drop (snd (decode_rune s)) s))"
  by pat_completeness auto
termination
  by (relation "measure length") (use decode_width in force)+

declare runes.simps [simp del]

section \<open>\<open>path.Match\<close>\<close>

text \<open>One character, or range end, of a class; what is wrong with the pattern is no match.\<close>

definition getEsc :: "string \<Rightarrow> (nat \<times> string) option" where
  "getEsc chunk =
     (if chunk = [] \<or> hd chunk = CHR ''-'' \<or> hd chunk = CHR '']'' then None
      else
        (let c = (if hd chunk = CHR 0x5C then tl chunk else chunk) in
         if c = [] then None
         else (case decode_rune c of (r, n) \<Rightarrow>
           if r = 0xFFFD \<and> n = 1 then None else if drop n c = [] then None else Some (r, drop n c))))"

lemma getEsc_shorter: "getEsc chunk = Some (r, rest) \<Longrightarrow> length rest < length chunk"
proof -
  assume e: "getEsc chunk = Some (r, rest)"
  let ?c = "if hd chunk = CHR 0x5C then tl chunk else chunk"
  from e have "?c \<noteq> []" "rest = drop (snd (decode_rune ?c)) ?c"
    by (auto simp: getEsc_def Let_def split: if_splits prod.splits)
  then have "length rest < length ?c" using decode_width [of ?c] by simp
  also have "\<dots> \<le> length chunk" by simp
  finally show ?thesis .
qed

text \<open>The ranges of a class after \<open>[\<close> and \<open>^\<close>: is the rune in one of them, and what follows the class.\<close>

function class_ranges :: "nat \<Rightarrow> bool \<Rightarrow> bool \<Rightarrow> string \<Rightarrow> (bool \<times> string) option" where
  "class_ranges r found some chunk =
     (if chunk \<noteq> [] \<and> hd chunk = CHR '']'' \<and> some then Some (found, tl chunk)
      else (case getEsc chunk of
          None \<Rightarrow> None
        | Some (lo, rest) \<Rightarrow>
            if rest \<noteq> [] \<and> hd rest = CHR ''-'' then
              (case getEsc (tl rest) of
                 None \<Rightarrow> None
               | Some (hi, rest2) \<Rightarrow> class_ranges r (found \<or> lo \<le> r \<and> r \<le> hi) True rest2)
            else class_ranges r (found \<or> r = lo) True rest))"
  by pat_completeness auto
termination
proof (relation "measure (\<lambda>(r, found, some, chunk). length chunk)")
  fix chunk lo rest lo' rest' and x y :: "nat \<times> string"
  fix r :: nat and found some :: bool
  assume "getEsc chunk = Some x" "(lo, rest) = x" "getEsc (tl rest) = Some y" "(lo', rest') = y"
  then have "length rest < length chunk" "length rest' < length (tl rest)" using getEsc_shorter by blast+
  then show "((r, found \<or> lo \<le> r \<and> r \<le> lo', True, rest'), r, found, some, chunk) \<in> measure (\<lambda>(r, found, some, chunk). length chunk)"
    by simp
qed (auto dest: getEsc_shorter)

declare class_ranges.simps [simp del]

lemma class_shorter: "class_ranges r found some chunk = Some (f, rest) \<Longrightarrow> length rest < length chunk"
proof (induction r found some chunk arbitrary: f rest rule: class_ranges.induct)
  case (1 r found some chunk)
  show ?case
  proof (cases "chunk \<noteq> [] \<and> hd chunk = CHR '']'' \<and> some")
    case True
    then show ?thesis using 1(3) by (auto simp: class_ranges.simps [of _ _ _ chunk] split: if_splits)
  next
    case False
    then obtain lo rest1 where lo: "getEsc chunk = Some (lo, rest1)"
      using 1(3) by (auto simp: class_ranges.simps [of _ _ _ chunk] split: option.splits if_splits)
    show ?thesis
    proof (cases "rest1 \<noteq> [] \<and> hd rest1 = CHR ''-''")
      case True
      then obtain hi rest2 where hi: "getEsc (tl rest1) = Some (hi, rest2)"
        and more: "class_ranges r (found \<or> lo \<le> r \<and> r \<le> hi) True rest2 = Some (f, rest)"
        using 1(3) False lo by (auto simp: class_ranges.simps [of _ _ _ chunk] split: option.splits if_splits)
      have "length rest < length rest2" by (rule 1(1) [OF False lo refl True hi refl more])
      then show ?thesis using getEsc_shorter [OF lo] getEsc_shorter [OF hi] by simp
    next
      case not_range: False
      have "class_ranges r (found \<or> r = lo) True rest1 = Some (f, rest)"
        using 1(3) False lo not_range by (simp add: class_ranges.simps [of _ _ _ chunk] split: if_splits)
      then have "length rest < length rest1" by (rule 1(2) [OF False lo refl not_range])
      then show ?thesis using getEsc_shorter [OF lo] by simp
    qed
  qed
qed

text \<open>A chunk against the front of a name: what is left of the name.\<close>

function matchChunk :: "string \<Rightarrow> string \<Rightarrow> string option" where
  "matchChunk chunk s =
     (if chunk = [] then Some s
      else if s = [] then None
      else if hd chunk = CHR ''['' then
        (let (r, n) = decode_rune s;
             negated = (tl chunk \<noteq> [] \<and> hd (tl chunk) = CHR ''^'')
         in case class_ranges r False False (if negated then tl (tl chunk) else tl chunk) of
              None \<Rightarrow> None
            | Some (found, rest) \<Rightarrow> if found = negated then None else matchChunk rest (drop n s))
      else if hd chunk = CHR ''?'' then
        (if hd s = CHR ''/'' then None else matchChunk (tl chunk) (drop (snd (decode_rune s)) s))
      else
        (let c = (if hd chunk = CHR 0x5C then tl chunk else chunk) in
         if c = [] \<or> hd c \<noteq> hd s then None else matchChunk (tl c) (tl s)))"
  by pat_completeness auto
termination
proof (relation "measure (\<lambda>(chunk, s). length chunk)")
  fix chunk s rest :: string and x :: "nat \<times> nat" and r n negated found and y :: "bool \<times> string"
  assume "chunk \<noteq> []" "class_ranges r False False (if negated then tl (tl chunk) else tl chunk) = Some y" "(found, rest) = y"
  then have "length rest < length (if negated then tl (tl chunk) else tl chunk)" using class_shorter by blast
  then show "((rest, drop n s), chunk, s) \<in> measure (\<lambda>(chunk, s). length chunk)" by (auto split: if_splits)
next
  fix chunk s c :: string
  assume "chunk \<noteq> []" "c = (if hd chunk = CHR 0x5C then tl chunk else chunk)" "\<not> (c = [] \<or> hd c \<noteq> hd s)"
  then show "((tl c, tl s), chunk, s) \<in> measure (\<lambda>(chunk, s). length chunk)" by (cases chunk) auto
qed auto

declare matchChunk.simps [simp del]

text \<open>A chunk ends at the next star outside of a class.\<close>

fun split_chunk :: "bool \<Rightarrow> string \<Rightarrow> string \<times> string" where
  "split_chunk inrange [] = ([], [])"
| "split_chunk inrange (c # s) =
     (if c = CHR 0x5C then
        (case s of [] \<Rightarrow> ([c], []) | d # r \<Rightarrow> (case split_chunk inrange r of (a, b) \<Rightarrow> (c # d # a, b)))
      else if c = CHR ''*'' \<and> \<not> inrange then ([], c # s)
      else (case split_chunk (if c = CHR ''['' then True else if c = CHR '']'' then False else inrange) s of (a, b) \<Rightarrow> (c # a, b)))"

definition scanChunk :: "string \<Rightarrow> bool \<times> string \<times> string" where
  "scanChunk pattern =
     (let star = (pattern \<noteq> [] \<and> hd pattern = CHR ''*'') in (star, split_chunk False (dropWhile (\<lambda>c. c = CHR ''*'') pattern)))"

lemma split_chunk_append: "fst (split_chunk inrange s) @ snd (split_chunk inrange s) = s"
proof (induction inrange s rule: split_chunk.induct)
  case (2 inrange c s)
  show ?case
  proof (cases "c = CHR 0x5C")
    case True
    then show ?thesis using 2(1) by (cases s) (simp_all add: case_prod_beta)
  next
    case False
    then show ?thesis using 2(2) by (simp add: case_prod_beta del: char.inject)
  qed
qed simp

lemma split_chunk_first: "s \<noteq> [] \<Longrightarrow> hd s \<noteq> CHR ''*'' \<Longrightarrow> fst (split_chunk False s) \<noteq> []"
  by (cases s) (auto simp: case_prod_beta split: list.split)

lemma scanChunk_shorter: "pattern \<noteq> [] \<Longrightarrow> scanChunk pattern = (star, chunk, rest) \<Longrightarrow> length rest < length pattern"
proof -
  let ?p = "dropWhile (\<lambda>c. c = CHR ''*'') pattern"
  assume p: "pattern \<noteq> []" "scanChunk pattern = (star, chunk, rest)"
  then have cr: "chunk @ rest = ?p" using split_chunk_append [of False ?p] by (auto simp: scanChunk_def Let_def)
  show "length rest < length pattern"
  proof (cases "hd pattern = CHR ''*''")
    case True
    then have "length ?p < length pattern" using p(1) by (cases pattern) (auto simp: le_imp_less_Suc length_dropWhile_le)
    then show ?thesis using arg_cong [OF cr, of length] by simp
  next
    case False
    then have "?p = pattern" using p(1) by (cases pattern) auto
    moreover from this have "chunk \<noteq> []" using split_chunk_first [OF p(1) False] p(2) by (auto simp: scanChunk_def Let_def)
    ultimately show ?thesis using arg_cong [OF cr, of length] by (cases chunk) auto
  qed
qed

fun first_fit :: "bool \<Rightarrow> string \<Rightarrow> bool \<Rightarrow> string \<Rightarrow> string option" where
  "first_fit star chunk final name =
     (case matchChunk chunk name of
        Some t \<Rightarrow> if t = [] \<or> \<not> final then Some t
                  else if star then (case name of [] \<Rightarrow> None | c # r \<Rightarrow> if c = CHR ''/'' then None else first_fit star chunk final r)
                  else None
      | None \<Rightarrow> if star then (case name of [] \<Rightarrow> None | c # r \<Rightarrow> if c = CHR ''/'' then None else first_fit star chunk final r)
                  else None)"

declare first_fit.simps [simp del]

text \<open>Does \<open>path.Match\<close> answer true, without an error?\<close>

function path_Match :: "string \<Rightarrow> string \<Rightarrow> bool" where
  "path_Match pattern name =
     (if pattern = [] then name = []
      else (case scanChunk pattern of (star, chunk, rest) \<Rightarrow>
        if star \<and> chunk = [] then CHR ''/'' \<notin> set name
        else (case first_fit star chunk (rest = []) name of None \<Rightarrow> False | Some t \<Rightarrow> path_Match rest t)))"
  by pat_completeness auto
termination
  by (relation "measure (\<lambda>(pattern, name). length pattern)") (auto dest: scanChunk_shorter [OF _ sym])

declare path_Match.simps [simp del]

lemma path_Match_examples:
  "path_Match ''*.y?ml'' ''a.yaml''" "\<not> path_Match ''*'' ''a/b''" "path_Match ''a/*/c'' ''a/b/c''"
  "path_Match ''[a-c]x[^0-9]'' ''bxy''" "\<not> path_Match ''[a-c]x[^0-9]'' ''bx1''" "\<not> path_Match ''[a'' ''a''"
  by code_simp+

section \<open>The expression of a pattern with a double star\<close>

text \<open>The pieces \<open>globRegex\<close> writes: \<open>(?:.*/)?\<close>, \<open>.*\<close>, \<open>[^/]*\<close>, \<open>[^/]\<close>, and a quoted rune. A byte is quoted as the rune of its
  number.\<close>

datatype piece = AnyDirs | AnyRunes | InSegment | OneRune | Rune nat

fun globRegex :: "string \<Rightarrow> piece list" where
  "globRegex [] = []"
| "globRegex (c # s) =
     (if c = CHR ''*'' then
        (case s of
           [] \<Rightarrow> [InSegment]
         | d # r \<Rightarrow>
             if d = CHR ''*'' then
               (case r of
                  [] \<Rightarrow> [AnyRunes]
                | e # r2 \<Rightarrow> if e = CHR ''/'' then AnyDirs # globRegex r2 else AnyRunes # globRegex (e # r2))
             else InSegment # globRegex (d # r))
      else if c = CHR ''?'' then OneRune # globRegex s
      else Rune (of_char c) # globRegex s)"

fun piece_weight :: "piece \<Rightarrow> nat" where
  "piece_weight AnyDirs = 3"
| "piece_weight _ = 1"

text \<open>The anchored expression against the runes of a path; a dot does not match a new line.\<close>

function pieces_match :: "piece list \<Rightarrow> nat list \<Rightarrow> bool" where
  "pieces_match [] s = (s = [])"
| "pieces_match (Rune r # ps) s = (case s of [] \<Rightarrow> False | x # xs \<Rightarrow> x = r \<and> pieces_match ps xs)"
| "pieces_match (OneRune # ps) s = (case s of [] \<Rightarrow> False | x # xs \<Rightarrow> x \<noteq> 0x2F \<and> pieces_match ps xs)"
| "pieces_match (InSegment # ps) s =
     (pieces_match ps s \<or> (case s of [] \<Rightarrow> False | x # xs \<Rightarrow> x \<noteq> 0x2F \<and> pieces_match (InSegment # ps) xs))"
| "pieces_match (AnyRunes # ps) s =
     (pieces_match ps s \<or> (case s of [] \<Rightarrow> False | x # xs \<Rightarrow> x \<noteq> 0x0A \<and> pieces_match (AnyRunes # ps) xs))"
| "pieces_match (AnyDirs # ps) s = (pieces_match ps s \<or> pieces_match (AnyRunes # Rune 0x2F # ps) s)"
  by pat_completeness auto
termination
  by (relation "measure (\<lambda>(ps, s). sum_list (map piece_weight ps) + length s)") auto

section \<open>Patterns\<close>

definition normalizeRepoPath :: "string \<Rightarrow> string" where
  "normalizeRepoPath value =
     (let v = TrimChar (CHR ''/'') (TrimPrefix (TrimSpace (map (\<lambda>c. if c = CHR 0x5C then CHR ''/'' else c) value)) ''./'')
      in if v = [] \<or> v = ''.'' then ''.'' else path_Clean v)"

definition hasGlob :: "string \<Rightarrow> bool" where
  "hasGlob value \<longleftrightarrow> ContainsAny value {CHR ''*'', CHR ''?'', CHR ''[''}"

record repoPathPattern =
  ppValue :: string
  ppHasGlob :: bool
  ppRegex :: "piece list option"

record repoPathFilter =
  pfInclude :: "repoPathPattern list"
  pfExclude :: "repoPathPattern list"

text \<open>The expression is made of quoted runes and of these four pieces: it always compiles, and no pattern is invalid.\<close>

definition compileRepoPathPattern :: "string \<Rightarrow> repoPathPattern" where
  "compileRepoPathPattern pattern =
     (let value = normalizeRepoPath pattern
      in \<lparr>ppValue = value, ppHasGlob = hasGlob value,
          ppRegex = (if hasGlob value \<and> Contains value ''**'' then Some (globRegex value) else None)\<rparr>)"

definition newRepoPathFilter :: "RepositoryConfig \<Rightarrow> repoPathFilter" where
  "newRepoPathFilter repo =
     \<lparr>pfInclude = map compileRepoPathPattern (rcIncludePaths repo), pfExclude = map compileRepoPathPattern (rcExcludePaths repo)\<rparr>"

definition globMatch :: "repoPathPattern \<Rightarrow> string \<Rightarrow> bool" where
  "globMatch pattern rel =
     (if \<not> Contains (ppValue pattern) ''**'' then path_Match (ppValue pattern) rel
      else (case ppRegex pattern of None \<Rightarrow> False | Some ps \<Rightarrow> pieces_match ps (runes rel)))"

text \<open>The directories above a path, up to the root: each is shorter than the one below it.\<close>

abbreviation path_Dir :: "string \<Rightarrow> string" where "path_Dir \<equiv> filepath_Dir"

definition part_weight :: "string list \<Rightarrow> nat" where
  "part_weight ps = sum_list (map (\<lambda>c. if c = [] then 0 else Suc (length c)) ps)"

lemma part_weight_simps [simp]:
  "part_weight [] = 0" "part_weight (c # ps) = (if c = [] then 0 else Suc (length c)) + part_weight ps"
  "part_weight (ps @ qs) = part_weight ps + part_weight qs" "part_weight (rev ps) = part_weight ps"
  by (simp_all add: part_weight_def rev_map [symmetric])

lemma clean_weight: "part_weight (fold (clean_step rooted) ps stack) \<le> part_weight ps + part_weight stack"
proof (induction ps arbitrary: stack)
  case (Cons c ps)
  have "part_weight (clean_step rooted c stack) \<le> part_weight [c] + part_weight stack"
    by (cases stack) (auto simp: clean_step_def)
  with Cons.IH [of "clean_step rooted c stack"] show ?case by simp
qed simp

lemma Join_weight: "[] \<notin> set ws \<Longrightarrow> ws \<noteq> [] \<Longrightarrow> Suc (length (Join ws ''/'')) = part_weight ws"
  by (induction ws "''/''" rule: Join.induct) auto

lemma split_weight_hd: "part_weight (split_char (CHR ''/'') s) \<le> length s + (if hd (split_char (CHR ''/'') s) = [] then 0 else 1)"
proof (induction s)
  case (Cons c s)
  then show ?case by (cases "split_char (CHR ''/'') s") (auto split: if_splits)
qed simp

lemma split_weight: "part_weight (split_char (CHR ''/'') s) \<le> Suc (length s)"
  using split_weight_hd [of s] by (auto split: if_splits)

lemma split_weight_slash: "part_weight (split_char (CHR ''/'') (s @ ''/'')) \<le> Suc (length s)"
  using split_char_append [of "CHR ''/''" s "[]"] split_weight [of s] by simp

lemma clean_no_empty: "[] \<notin> set stack \<Longrightarrow> [] \<notin> set (fold (clean_step rooted) ps stack)"
proof (induction ps arbitrary: stack)
  case (Cons c ps)
  have "[] \<notin> set (clean_step rooted c stack)" using Cons.prems by (cases stack) (auto simp: clean_step_def)
  then show ?case using Cons.IH by simp
qed simp

lemma clean_shorter:
  assumes "path_Clean (q @ ''/'') \<noteq> ''/''"
  shows "length (path_Clean (q @ ''/'')) \<le> length q \<or> path_Clean (q @ ''/'') = ''.''"
proof (cases "clean_parts (q @ ''/'')")
  case Nil
  then show ?thesis using assms by (auto simp: path_Clean_def Let_def split: if_splits)
next
  case (Cons w ws)
  have ne: "[] \<notin> set (clean_parts (q @ ''/''))" using clean_no_empty by (simp add: clean_parts_def)
  have len: "Suc (length (Join (clean_parts (q @ ''/'')) ''/'')) = part_weight (clean_parts (q @ ''/''))"
    using Join_weight [OF ne] Cons by simp
  have w: "part_weight (clean_parts (q @ ''/'')) \<le> part_weight (split_char (CHR ''/'') (q @ ''/''))"
    unfolding clean_parts_def part_weight_simps(4)
    using clean_weight [of "HasPrefix (q @ ''/'') ''/''" "split_char (CHR ''/'') (q @ ''/'')" "[]"] by simp
  show ?thesis
  proof (cases "HasPrefix (q @ ''/'') ''/''")
    case False
    then show ?thesis using len w split_weight_slash [of q] Cons by (simp add: path_Clean_def Let_def)
  next
    case True
    show ?thesis
    proof (cases q)
      case Nil
      then show ?thesis using Cons by (simp add: clean_parts_def clean_step_def)
    next
      case q: (Cons c q')
      then have c: "c = CHR ''/''" using True by (simp add: HasPrefix_def)
      have "part_weight (split_char (CHR ''/'') (q @ ''/'')) \<le> length q" using split_weight_slash [of q'] by (simp add: q c)
      then show ?thesis using True len w Cons by (simp add: path_Clean_def Let_def)
    qed
  qed
qed

lemma Dir_shorter:
  assumes "path_Dir p \<noteq> ''.''" "path_Dir p \<noteq> ''/''"
  shows "length (path_Dir p) < length p"
proof (cases "dropWhile (\<lambda>c. c \<noteq> CHR ''/'') (rev p)")
  case Nil
  have "path_Clean [] = ''.''" by code_simp
  then show ?thesis using assms(1) Nil by (simp add: filepath_Dir_def)
next
  case (Cons c r)
  then have "c = CHR ''/''" using hd_dropWhile [of "\<lambda>c. c \<noteq> CHR ''/''" "rev p"] by simp
  then have q: "path_Dir p = path_Clean (rev r @ ''/'')" using Cons by (simp add: filepath_Dir_def)
  have "length (c # r) \<le> length p" using length_dropWhile_le [of "\<lambda>c. c \<noteq> CHR ''/''" "rev p"] unfolding Cons by simp
  then show ?thesis using clean_shorter [of "rev r"] assms q by auto
qed

function ancestors :: "string \<Rightarrow> string list" where
  "ancestors rel = (let a = path_Dir rel in if a = ''.'' \<or> a = ''/'' then [] else a # ancestors a)"
  by pat_completeness auto
termination
  by (relation "measure length") (auto intro: Dir_shorter)

declare ancestors.simps [simp del]

definition pattern_matches :: "repoPathPattern \<Rightarrow> string \<Rightarrow> bool" where
  "pattern_matches pattern rel0 =
     (let rel = normalizeRepoPath rel0 in
      if ppValue pattern = ''.'' \<or> rel = ''.'' then False
      else if \<not> ppHasGlob pattern then rel = ppValue pattern \<or> HasPrefix rel (ppValue pattern @ ''/'')
      else globMatch pattern rel \<or> list_ex (globMatch pattern) (ancestors rel))"

definition matchesAny :: "repoPathPattern list \<Rightarrow> string \<Rightarrow> bool" where
  "matchesAny patterns rel = list_ex (\<lambda>p. pattern_matches p rel) patterns"

definition filter_shouldScan :: "repoPathFilter \<Rightarrow> string \<Rightarrow> bool" where
  "filter_shouldScan filt rel0 =
     (let rel = normalizeRepoPath rel0 in
      if rel = ''.'' then True
      else if matchesAny (pfExclude filt) rel then False
      else if pfInclude filt = [] then True
      else matchesAny (pfInclude filt) rel)"

definition filter_shouldSkipDir :: "repoPathFilter \<Rightarrow> string \<Rightarrow> bool" where
  "filter_shouldSkipDir filt rel0 =
     (let rel = normalizeRepoPath rel0 in rel \<noteq> ''.'' \<and> matchesAny (pfExclude filt) rel)"

definition shouldScanRepoPath :: "RepositoryConfig \<Rightarrow> string \<Rightarrow> bool" where
  "shouldScanRepoPath repo rel = filter_shouldScan (newRepoPathFilter repo) rel"

definition shouldSkipRepoDir :: "RepositoryConfig \<Rightarrow> string \<Rightarrow> bool" where
  "shouldSkipRepoDir repo rel = filter_shouldSkipDir (newRepoPathFilter repo) rel"

text \<open>A letter that is two bytes long is two runes in the expression and one in the path: a pattern with a
  double star and such a letter matches nothing, while the same pattern without the star does.\<close>

lemma double_star_misses_non_ascii:
  "\<not> pattern_matches (compileRepoPathPattern ([CHR 0xC3, CHR 0xA9] @ ''/**'')) ([CHR 0xC3, CHR 0xA9] @ ''/a.yml'') \<and>
   pattern_matches (compileRepoPathPattern ([CHR 0xC3, CHR 0xA9] @ ''/*'')) ([CHR 0xC3, CHR 0xA9] @ ''/a.yml'') \<and>
   pattern_matches (compileRepoPathPattern ''e/**'') ''e/a.yml''"
  by code_simp

section \<open>The walk\<close>

text \<open>The tree of a repository, in the order of \<open>filepath.WalkDir\<close>; a directory may fail to be read, wholly or in
  part. A link is a file.\<close>

datatype repo_entry = RepoFile string | RepoDir string "string option" "repo_entry list"

datatype visit = Visited string | WalkError string

abbreviation rel_path :: "string list \<Rightarrow> string" where "rel_path names \<equiv> Join names ''/''"

fun walk_entry :: "repoPathFilter \<Rightarrow> string list \<Rightarrow> repo_entry \<Rightarrow> visit list" where
  "walk_entry filt path (RepoFile name) =
     (let rel = rel_path (path @ [name]) in if filter_shouldScan filt rel then [Visited rel] else [])"
| "walk_entry filt path (RepoDir name readErr entries) =
     (if name = ''.git'' \<or> filter_shouldSkipDir filt (rel_path (path @ [name])) then []
      else (case readErr of Some e \<Rightarrow> [WalkError e] | None \<Rightarrow> []) @ concat (map (walk_entry filt (path @ [name])) entries))"

text \<open>The root is the directory of the cache; a root of the name \<open>.git\<close> is not walked.\<close>

definition walk_repo :: "repoPathFilter \<Rightarrow> string \<Rightarrow> string option \<Rightarrow> repo_entry list \<Rightarrow> visit list" where
  "walk_repo filt rootName readErr entries =
     (if rootName = ''.git'' then []
      else (case readErr of Some e \<Rightarrow> [WalkError e] | None \<Rightarrow> []) @ concat (map (walk_entry filt []) entries))"

definition visited :: "visit list \<Rightarrow> string list" where
  "visited vs = concat (map (\<lambda>v. case v of Visited rel \<Rightarrow> [rel] | WalkError _ \<Rightarrow> []) vs)"

text \<open>All files of the tree outside of directories of Git.\<close>

fun files_of :: "string list \<Rightarrow> repo_entry \<Rightarrow> string list" where
  "files_of path (RepoFile name) = [rel_path (path @ [name])]"
| "files_of path (RepoDir name readErr entries) =
     (if name = ''.git'' then [] else concat (map (files_of (path @ [name])) entries))"

definition plain_name :: "string \<Rightarrow> bool" where
  "plain_name n \<longleftrightarrow> n \<noteq> [] \<and> n \<noteq> ''.'' \<and> n \<noteq> ''..'' \<and> CHR ''/'' \<notin> set n \<and> CHR 0x5C \<notin> set n \<and> lead_space n = 0 \<and> last_space (rev n) = 0"

fun plain_entry :: "repo_entry \<Rightarrow> bool" where
  "plain_entry (RepoFile name) = plain_name name"
| "plain_entry (RepoDir name readErr entries) = (plain_name name \<and> list_all plain_entry entries)"

section \<open>The path of plain names is normal\<close>

lemma rel_path_split: "list_all plain_name ns \<Longrightarrow> ns \<noteq> [] \<Longrightarrow> split_char (CHR ''/'') (rel_path ns) = ns"
  by (rule split_char_Join) (auto simp: list_all_iff plain_name_def)

lemma rel_path_Cons: "rel_path (n # ns) = (if ns = [] then n else n @ ''/'' @ rel_path ns)"
  by (cases ns) auto

lemma rel_path_snoc: "rel_path (ns @ [n]) = (if ns = [] then n else rel_path ns @ ''/'' @ n)"
  using Join_append [of ns "[n]" "''/''"] by simp

lemma slash_no_space: "\<not> ascii_space (CHR ''/'')" "\<not> space_rune2 c (CHR ''/'')" "\<not> space_rune2 (CHR ''/'') c"
    "\<not> space_rune3 c d (CHR ''/'')" "\<not> space_rune3 c (CHR ''/'') d" "\<not> space_rune3 (CHR ''/'') c d"
  by (simp_all add: ascii_space_def space_rune2_def space_rune3_def)

lemma lead_space_slash: "lead_space n = 0 \<Longrightarrow> n \<noteq> [] \<Longrightarrow> lead_space (n @ CHR ''/'' # r) = 0"
  unfolding lead_space_def by (auto simp: slash_no_space split: list.split list.split_asm if_split_asm)

lemma last_space_slash: "last_space n = 0 \<Longrightarrow> n \<noteq> [] \<Longrightarrow> last_space (n @ CHR ''/'' # r) = 0"
  unfolding last_space_def by (auto simp: slash_no_space split: list.split list.split_asm if_split_asm)

lemma rel_path_trimmed:
  assumes "list_all plain_name ns" "ns \<noteq> []"
  shows "TrimSpace (rel_path ns) = rel_path ns"
proof -
  obtain n ms where n: "ns = n # ms" using assms(2) by (cases ns) auto
  obtain ks k where k: "ns = ks @ [k]" using assms(2) by (metis rev_exhaust)
  have p: "plain_name n" "plain_name k" using assms(1) n assms(1) [unfolded k] by simp_all
  have "lead_space (rel_path ns) = 0" using p(1) lead_space_slash [of n "rel_path ms"] by (simp add: n rel_path_Cons plain_name_def)
  moreover have "last_space (rev (rel_path ns)) = 0"
    using p(2) last_space_slash [of "rev k" "rev (rel_path ks)"] by (simp add: k rel_path_snoc plain_name_def)
  ultimately show ?thesis by (simp add: TrimSpace_def TrimLeftSpace_id TrimRevSpace_id)
qed

lemma rel_path_clean:
  assumes "list_all plain_name ns" "ns \<noteq> []"
  shows "path_Clean (rel_path ns) = rel_path ns" "rel_path ns \<noteq> []" "\<not> HasPrefix (rel_path ns) ''/''"
proof -
  have step: "fold (clean_step rooted) ms stack = rev ms @ stack" if "list_all plain_name ms" for rooted ms stack
    using that by (induction ms arbitrary: stack) (auto simp: clean_step_def plain_name_def)
  have parts: "clean_parts (rel_path ns) = ns" using assms by (simp add: clean_parts_def rel_path_split step)
  obtain n ms where n: "ns = n # ms" using assms(2) by (cases ns) auto
  then have "plain_name n" using assms(1) by simp
  then obtain c r where c: "n = c # r" "c \<noteq> CHR ''/''" by (cases n) (auto simp: plain_name_def)
  then show ne: "rel_path ns \<noteq> []" and rel: "\<not> HasPrefix (rel_path ns) ''/''" by (auto simp: n rel_path_Cons HasPrefix_def)
  show "path_Clean (rel_path ns) = rel_path ns" using ne rel by (simp add: path_Clean_def Let_def parts)
qed

lemma rel_path_no_dot:
  assumes "list_all plain_name ns" "ns \<noteq> []"
  shows "rel_path ns \<noteq> ''.''" "\<not> HasPrefix (rel_path ns) ''./''"
proof -
  have hd: "hd ns \<noteq> ''.''" using assms by (cases ns) (auto simp: plain_name_def)
  show "rel_path ns \<noteq> ''.''" using rel_path_split [OF assms] hd by fastforce
  show "\<not> HasPrefix (rel_path ns) ''./''"
  proof
    assume "HasPrefix (rel_path ns) ''./''"
    then have "take 2 (rel_path ns) = ''./''" by (simp add: HasPrefix_def numeral_2_eq_2)
    then have "rel_path ns = ''.'' @ CHR ''/'' # drop 2 (rel_path ns)" by (metis append_take_drop_id append_Cons append_Nil)
    then obtain r where r: "rel_path ns = ''.'' @ CHR ''/'' # r" by blast
    have "ns = ''.'' # split_char (CHR ''/'') r" using rel_path_split [OF assms] unfolding r by simp
    with hd show False by simp
  qed
qed

lemma rel_path_chars: "list_all plain_name ns \<Longrightarrow> CHR 0x5C \<notin> set (rel_path ns)"
  by (induction ns) (auto simp: rel_path_Cons plain_name_def)

lemma rel_path_slashes:
  assumes "list_all plain_name ns" "ns \<noteq> []"
  shows "TrimChar (CHR ''/'') (rel_path ns) = rel_path ns"
proof -
  obtain ks k where k: "ns = ks @ [k]" using assms(2) by (metis rev_exhaust)
  then have "plain_name k" using assms(1) by simp
  then obtain c r where c: "rev k = c # r" "c \<noteq> CHR ''/''"
    by (cases "rev k") (auto simp: plain_name_def dest: arg_cong [of _ _ set])
  have "rev (rel_path ns) = c # (r @ (if ks = [] then [] else ''/'' @ rev (rel_path ks)))" using c by (simp add: k rel_path_snoc)
  then have "TrimRightChar (CHR ''/'') (rel_path ns) = rel_path ns" using c(2) by (simp add: TrimRightChar_def)
  moreover have "dropWhile (\<lambda>c. c = CHR ''/'') (rel_path ns) = rel_path ns"
    using rel_path_clean(2,3) [OF assms] by (cases "rel_path ns") (auto simp: HasPrefix_def)
  ultimately show ?thesis by (simp add: TrimChar_def)
qed

lemma rel_path_normal:
  assumes "list_all plain_name ns" "ns \<noteq> []"
  shows "normalizeRepoPath (rel_path ns) = rel_path ns"
proof -
  have "map (\<lambda>c. if c = CHR 0x5C then CHR ''/'' else c) (rel_path ns) = rel_path ns"
    using rel_path_chars [OF assms(1)] by (intro map_idI) auto
  then show ?thesis
    using rel_path_no_dot [OF assms] rel_path_clean(1,2) [OF assms]
    by (simp add: normalizeRepoPath_def Let_def rel_path_trimmed [OF assms] TrimPrefix_def rel_path_slashes [OF assms])
qed

section \<open>Skipping a directory hides nothing\<close>

lemma path_Dir_rel:
  assumes "list_all plain_name (ns @ [n])" "ns \<noteq> []"
  shows "path_Dir (rel_path (ns @ [n])) = rel_path ns"
proof -
  have p: "CHR ''/'' \<notin> set n" "list_all plain_name ns" using assms(1) by (simp_all add: plain_name_def)
  have drop: "dropWhile (\<lambda>c. c \<noteq> CHR ''/'') (rev n @ CHR ''/'' # r) = CHR ''/'' # r" for r
    using p(1) by (subst dropWhile_append2) auto
  have dir: "path_Dir (rel_path (ns @ [n])) = path_Clean (rel_path ns @ ''/'')"
    using assms(2) by (simp add: filepath_Dir_def rel_path_snoc drop)
  have "clean_parts (rel_path ns @ ''/'') = clean_parts (rel_path ns)"
    using rel_path_clean(2,3) [OF p(2) assms(2)] split_char_append [of "CHR ''/''" "rel_path ns" "[]"]
    by (cases "rel_path ns") (simp_all add: clean_parts_def HasPrefix_def clean_step_def)
  then have "path_Clean (rel_path ns @ ''/'') = path_Clean (rel_path ns)"
    using rel_path_clean(2,3) [OF p(2) assms(2)] by (cases "rel_path ns") (simp_all add: path_Clean_def HasPrefix_def)
  then show ?thesis using dir rel_path_clean(1) [OF p(2) assms(2)] by simp
qed

lemma ancestors_up:
  assumes "list_all plain_name (ds @ es)" "ds \<noteq> []" "es \<noteq> []"
  shows "rel_path ds \<in> set (ancestors (rel_path (ds @ es))) \<and> set (ancestors (rel_path ds)) \<subseteq> set (ancestors (rel_path (ds @ es)))"
  using assms(1,3)
proof (induction es rule: rev_induct)
  case (snoc e es)
  let ?p = "ds @ es"
  have plain: "list_all plain_name (?p @ [e])" "list_all plain_name ?p" "?p \<noteq> []" using snoc.prems(1) assms(2) by simp_all
  have dir: "path_Dir (rel_path (?p @ [e])) = rel_path ?p" using plain(1,3) by (rule path_Dir_rel)
  have "rel_path ?p \<noteq> ''.''" "rel_path ?p \<noteq> ''/''"
    using rel_path_no_dot(1) [OF plain(2,3)] rel_path_clean(3) [OF plain(2,3)] by (auto simp: HasPrefix_def)
  then have "ancestors (rel_path (?p @ [e])) = rel_path ?p # ancestors (rel_path ?p)"
    by (subst ancestors.simps) (simp add: dir [simplified] Let_def)
  then show ?case using snoc.IH plain(2) by (cases "es = []") auto
qed simp

lemma matches_below:
  assumes "list_all plain_name (ds @ es)" "ds \<noteq> []" "es \<noteq> []" "pattern_matches p (rel_path ds)"
  shows "pattern_matches p (rel_path (ds @ es))"
proof -
  have ds: "list_all plain_name ds" "ds @ es \<noteq> []" using assms(1,2) by simp_all
  note norm = rel_path_normal [OF ds(1) assms(2)] rel_path_normal [OF assms(1) ds(2)]
  have dot: "rel_path (ds @ es) \<noteq> ''.''" using rel_path_no_dot(1) [OF assms(1) ds(2)] .
  have below: "rel_path (ds @ es) = rel_path ds @ ''/'' @ rel_path es" by (rule Join_append [OF assms(2,3)])
  show ?thesis
  proof (cases "ppHasGlob p")
    case False
    have front: "HasPrefix (a @ b) (q @ ''/'')" if "a = q \<and> HasPrefix b ''/'' \<or> HasPrefix a (q @ ''/'')" for a b q :: string
    proof -
      from that consider "a = q" "HasPrefix b ''/''" | "take (Suc (length q)) a = q @ ''/''" by (auto simp: HasPrefix_def)
      then show ?thesis
      proof cases
        case 1
        then show ?thesis by (cases b) (auto simp: HasPrefix_def)
      next
        case 2
        have "length (take (Suc (length q)) a) = length (q @ ''/'')" by (simp only: 2)
        then have "Suc (length q) \<le> length a" by simp
        with 2 show ?thesis by (simp add: HasPrefix_def)
      qed
    qed
    have "HasPrefix (''/'' @ rel_path es) ''/''" by (simp add: HasPrefix_def)
    then show ?thesis using False assms(4) dot front [of "rel_path ds" "ppValue p"] below
      unfolding pattern_matches_def norm Let_def by (metis append_assoc)
  next
    case True
    then show ?thesis using assms(4) dot ancestors_up [OF assms(1-3)] unfolding pattern_matches_def norm Let_def
      by (auto simp: list_ex_iff split: if_splits)
  qed
qed

lemma skipped_dir_hides_no_file:
  assumes "list_all plain_name (ds @ es)" "ds \<noteq> []" "es \<noteq> []" "filter_shouldSkipDir filt (rel_path ds)"
  shows "\<not> filter_shouldScan filt (rel_path (ds @ es))"
proof -
  have ds: "list_all plain_name ds" "ds @ es \<noteq> []" using assms(1,2) by simp_all
  note norm = rel_path_normal [OF ds(1) assms(2)] rel_path_normal [OF assms(1) ds(2)]
  have "matchesAny (pfExclude filt) (rel_path (ds @ es))"
    using assms(4) matches_below [OF assms(1-3)] unfolding filter_shouldSkipDir_def norm Let_def by (auto simp: matchesAny_def list_ex_iff)
  then show ?thesis using rel_path_no_dot(1) [OF assms(1) ds(2)] unfolding filter_shouldScan_def norm Let_def by simp
qed

lemma files_below: "f \<in> set (files_of path e) \<Longrightarrow> plain_entry e \<Longrightarrow> \<exists>es. es \<noteq> [] \<and> list_all plain_name es \<and> f = rel_path (path @ es)"
proof (induction path e rule: files_of.induct)
  case (1 path name)
  then show ?case by (intro exI [of _ "[name]"]) simp
next
  case (2 path name readErr entries)
  then obtain e where e: "e \<in> set entries" "f \<in> set (files_of (path @ [name]) e)" "plain_entry e" "name \<noteq> ''.git''"
    by (auto simp: list_all_iff split: if_splits)
  from 2(1) [OF e(4,1,2,3)] obtain es where "es \<noteq> []" "list_all plain_name es" "f = rel_path ((path @ [name]) @ es)" by blast
  then show ?case using 2(3) by (intro exI [of _ "name # es"]) simp
qed

lemma visited_append: "visited (vs @ ws) = visited vs @ visited ws"
  by (simp add: visited_def)

lemma visited_concat: "visited (concat vss) = concat (map visited vss)"
  by (induction vss) (simp_all add: visited_append, simp add: visited_def)

lemma visited_error: "visited (case readErr of Some e \<Rightarrow> [WalkError e] | None \<Rightarrow> []) = []"
  by (cases readErr) (simp_all add: visited_def)

lemma walk_entry_is_filter:
  "plain_entry e \<Longrightarrow> list_all plain_name path \<Longrightarrow>
   visited (walk_entry filt path e) = filter (filter_shouldScan filt) (files_of path e)"
proof (induction filt path e rule: walk_entry.induct)
  case (1 filt path name)
  then show ?case by (simp add: visited_def Let_def)
next
  case (2 filt path name readErr entries)
  let ?dir = "path @ [name]"
  show ?case
  proof (cases "name = ''.git''")
    case git: False
    show ?thesis
    proof (cases "filter_shouldSkipDir filt (rel_path ?dir)")
      case True
      have "\<not> filter_shouldScan filt f" if f: "f \<in> set (files_of ?dir e)" and e: "e \<in> set entries" for f e
      proof -
        have "plain_entry e" using e 2(2) by (simp add: list_all_iff)
        from files_below [OF f this] obtain es where "es \<noteq> []" "list_all plain_name es" "f = rel_path (?dir @ es)" by blast
        then show ?thesis using skipped_dir_hides_no_file [of ?dir es filt] True 2(2,3) by simp
      qed
      then show ?thesis using True by (auto simp: visited_def filter_empty_conv intro!: filter_False [symmetric])
    next
      case False
      have "visited (walk_entry filt ?dir e) = filter (filter_shouldScan filt) (files_of ?dir e)" if "e \<in> set entries" for e
        using 2(1) [of e] git False that 2(2,3) by (auto simp: list_all_iff)
      then show ?thesis using False git
        by (simp add: visited_append visited_error visited_concat filter_concat o_def cong: map_cong)
    qed
  qed (simp add: visited_def)
qed

lemma walk_visits:
  assumes "list_all plain_entry entries" and "rootName \<noteq> ''.git''"
  shows "visited (walk_repo filt rootName readErr entries) = filter (filter_shouldScan filt) (concat (map (files_of []) entries))"
proof -
  have "visited (walk_entry filt [] e) = filter (filter_shouldScan filt) (files_of [] e)" if "e \<in> set entries" for e
    using that assms(1) by (simp add: walk_entry_is_filter list_all_iff)
  then show ?thesis using assms(2)
    by (simp add: walk_repo_def visited_append visited_error visited_concat filter_concat o_def cong: map_cong)
qed


definition demo_filter :: repoPathFilter where
  "demo_filter = \<lparr>pfInclude = [], pfExclude = map compileRepoPathPattern [''**/secrets'', ''vendor'']\<rparr>"

definition demo_tree :: "repo_entry list" where
  "demo_tree = [RepoDir ''.git'' None [RepoFile ''config''], RepoDir ''app'' None [RepoFile ''a.yml'', RepoDir ''secrets'' None [RepoFile ''s.yml'']],
     RepoDir ''vendor'' None [RepoDir ''x'' None [RepoFile ''v.yml'']]]"


end
