(* ===== verification/RepoParse.thy ===== *)
theory RepoParse
  imports Kubernetes HostInventory PathFilter
begin

text \<open>
  From the files of a repository to its services (\<open>internal/scanner/scanner.go\<close>, \<open>internal/environment\<close>): Compose
  services, Kubernetes workloads with what exposes them, Traefik's routes, and the hosts of ping targets. What
  reading and decoding each file returned is an argument.
\<close>

section \<open>Services\<close>

definition env_aliases :: "(string \<times> string) list" where
  "env_aliases =
     [(''prod'', ''production''), (''production'', ''production''), (''stage'', ''staging''), (''staging'', ''staging''),
      (''dev'', ''development''), (''development'', ''development''), (''test'', ''testing''), (''testing'', ''testing''),
      (''homelab'', ''homelab''), (''lab'', ''homelab''), (''local'', ''local'')]"

definition env_Infer :: "string \<Rightarrow> string" where
  "env_Infer path =
     (case find (\<lambda>part. map_of env_aliases (ToLower part) \<noteq> None) (split_char (CHR ''/'') path) of
        Some part \<Rightarrow> the (map_of env_aliases (ToLower part))
      | None \<Rightarrow> [])"

definition serviceID :: "string list \<Rightarrow> string" where
  "serviceID parts = hash_parts parts"

definition compact :: "string list \<Rightarrow> string list" where
  "compact vals = filter (\<lambda>v. v \<noteq> []) vals"

text \<open>The scanner's own \<open>uniqueSorted\<close> does not trim.\<close>

definition scan_uniqueSorted :: "string list \<Rightarrow> string list" where
  "scan_uniqueSorted vals = remdups_adj (sort (compact vals))"

lemma distinct_sorted_adj: "sorted xs \<Longrightarrow> distinct (remdups_adj xs)" for xs :: "'a::linorder list"
  by (induction xs rule: remdups_adj.induct) auto

lemma scan_uniqueSorted_props:
  "set (scan_uniqueSorted vals) = set vals - {[]}" "sorted (scan_uniqueSorted vals)" "distinct (scan_uniqueSorted vals)"
proof -
  show "set (scan_uniqueSorted vals) = set vals - {[]}" by (auto simp: scan_uniqueSorted_def compact_def)
  show "sorted (scan_uniqueSorted vals)" by (simp add: scan_uniqueSorted_def sorted_remdups_adj)
  show "distinct (scan_uniqueSorted vals)" by (simp add: scan_uniqueSorted_def distinct_sorted_adj)
qed

definition composeServices :: "string \<Rightarrow> string \<Rightarrow> string \<Rightarrow> ComposeProject \<Rightarrow> Service list" where
  "composeServices repoName commit sourcePath project =
     map (\<lambda>svc. (bare_service (serviceID [repoName, ''compose'', sourcePath, kpName svc]) (kpName svc))\<lparr>
         svRepository := repoName, svSourceCommit := commit, svSourcePath := sourcePath, svRuntime := ''compose'',
         svComposeProject := cpName project, svKind := ''Service'', svResourceName := kpName svc, svEnvironment := env_Infer sourcePath,
         svHealth := HealthUnknown, svImages := compact [kpImage svc], svPorts := kpPorts svc, svDependencies := kpDependsOn svc,
         svStorage := kpVolumes svc, svExposure := scan_uniqueSorted (kpNetworks svc @ kpExposure svc), svConfigRefs := kpEnvVars svc,
         svWarnings := kpWarnings svc @ MutableImageWarnings [kpImage svc]\<rparr>) (cpServices project)"

definition kube_service :: "string \<Rightarrow> string \<Rightarrow> KubernetesResource \<Rightarrow> Service" where
  "kube_service repoName commit resource =
     (bare_service (serviceID [repoName, ''kubernetes'', krSourcePath resource, krNamespace resource @ ''/'' @ krName resource]) (krName resource))\<lparr>
       svRepository := repoName, svSourceCommit := commit, svSourcePath := krSourcePath resource, svRuntime := ''kubernetes'',
       svKind := krKind resource, svNamespace := krNamespace resource, svResourceName := krName resource,
       svEnvironment := env_Infer (krSourcePath resource), svHealth := HealthUnknown, svImages := krImages resource, svPorts := krPorts resource,
       svDependencies := krDependencies resource, svStorage := krStorage resource, svExposure := krExposure resource,
       svConfigRefs := krConfigRefs resource, svWarnings := krWarnings resource @ MutableImageWarnings (krImages resource)\<rparr>"

definition kubeServices :: "string \<Rightarrow> string \<Rightarrow> KubernetesResource list \<Rightarrow> Service list" where
  "kubeServices repoName commit resources = map (kube_service repoName commit) (filter IsWorkload resources)"

text \<open>The id of a workload leaves out its kind.\<close>

lemma workloads_of_two_kinds_share_id:
  "krSourcePath r1 = krSourcePath r2 \<Longrightarrow> krNamespace r1 = krNamespace r2 \<Longrightarrow> krName r1 = krName r2 \<Longrightarrow>
   svID (kube_service repo commit r1) = svID (kube_service repo commit r2)"
  by (simp add: kube_service_def bare_service_def)

section \<open>What exposes a workload\<close>

definition namespacedName :: "string \<Rightarrow> string \<Rightarrow> string" where
  "namespacedName namespace name = (if namespace = [] then ''default'' else namespace) @ ''/'' @ name"

definition selectorMatches :: "(string \<times> string) list \<Rightarrow> (string \<times> string) list \<Rightarrow> bool" where
  "selectorMatches selector labels =
     (if selector = [] \<or> labels = [] then False
      else list_all (\<lambda>(k, v). (case map_of labels k of Some w \<Rightarrow> w | None \<Rightarrow> []) = v) selector)"

text \<open>The exposure the ingresses of a namespace give a service, and the one of config maps.\<close>

definition ingress_exposure :: "KubernetesResource list \<Rightarrow> string \<Rightarrow> string list" where
  "ingress_exposure resources key =
     concat (map (\<lambda>r. if krKind r = ''Ingress'' then
         concat (map (\<lambda>backend. if namespacedName (krNamespace r) backend = key then krExposure r else []) (krBackends r))
       else []) resources)"

definition config_exposure :: "KubernetesResource list \<Rightarrow> string \<Rightarrow> string list" where
  "config_exposure resources key =
     concat (map (\<lambda>r. if krKind r = ''ConfigMap'' \<and> namespacedName (krNamespace r) (krName r) = key then krExposure r else []) resources)"

definition service_exposure_of :: "KubernetesResource list \<Rightarrow> KubernetesResource \<Rightarrow> KubernetesResource \<Rightarrow> string list" where
  "service_exposure_of resources resource service =
     (if krNamespace service \<noteq> krNamespace resource \<or> \<not> selectorMatches (krSelector service) (krLabels resource) then []
      else krExposure service @ ingress_exposure resources (namespacedName (krNamespace service) (krName service)))"

definition config_ref_exposure :: "KubernetesResource list \<Rightarrow> KubernetesResource \<Rightarrow> string \<Rightarrow> string list" where
  "config_ref_exposure resources resource ref =
     (if HasPrefix ref ''ConfigMap/'' then config_exposure resources (namespacedName (krNamespace resource) (TrimPrefix ref ''ConfigMap/'')) else [])"

definition enriched :: "KubernetesResource list \<Rightarrow> KubernetesResource \<Rightarrow> KubernetesResource" where
  "enriched resources resource =
     (if \<not> IsWorkload resource then resource
      else resource\<lparr>krExposure := scan_uniqueSorted (krExposure resource @
        concat (map (service_exposure_of resources resource) (filter (\<lambda>r. krKind r = ''Service'') resources)) @
        concat (map (config_ref_exposure resources resource) (krConfigRefs resource)))\<rparr>)"

definition enrichKubernetesExposure :: "KubernetesResource list \<Rightarrow> KubernetesResource list" where
  "enrichKubernetesExposure resources = map (enriched resources) resources"

section \<open>Traefik's routes\<close>

definition normalizedName :: "string \<Rightarrow> string" where
  "normalizedName value = map (\<lambda>c. if c = CHR ''_'' \<or> c = CHR ''.'' then CHR ''-'' else c) (ToLower value)"

definition serviceRouteKeys :: "Service \<Rightarrow> string list" where
  "serviceRouteKeys service = scan_uniqueSorted [normalizedName (svName service), normalizedName (svResourceName service)]"

definition routes_by_name :: "TraefikRoute list \<Rightarrow> TraefikTCPRoute list \<Rightarrow> string \<Rightarrow> string list" where
  "routes_by_name routes tcpRoutes key =
     concat (map (\<lambda>r. if normalizedName (trService r) = key then trRoutes r else []) routes) @
     concat (map (\<lambda>r. if normalizedName (ttService r) = key then filter (\<lambda>v. v \<noteq> []) (map endpoint_Exposure (ttEndpoints r)) else []) tcpRoutes)"

definition applyTraefikRoutes :: "Service list \<Rightarrow> TraefikRoute list \<Rightarrow> TraefikTCPRoute list \<Rightarrow> Service list" where
  "applyTraefikRoutes services routes tcpRoutes =
     map (\<lambda>s. s\<lparr>svExposure := scan_uniqueSorted (svExposure s @ concat (map (routes_by_name routes tcpRoutes) (serviceRouteKeys s)))\<rparr>) services"

section \<open>The files of a repository\<close>

text \<open>What the files decode to, by their path: as a Compose file, as documents, and as one value.\<close>

record repo_documents =
  rdCompose :: "string \<Rightarrow> string + composeFile"
  rdKubernetes :: "string \<Rightarrow> string + ynode list"
  rdTraefik :: "string \<Rightarrow> string + gval"
  rdAnsible :: "string \<Rightarrow> string + gval"

record parse_state =
  psServices :: "Service list"
  psResources :: "KubernetesResource list"
  psRoutes :: "TraefikRoute list"
  psTCPRoutes :: "TraefikTCPRoute list"
  psErrors :: "string list"

definition parse_error :: "string \<Rightarrow> string \<Rightarrow> parse_state \<Rightarrow> parse_state" where
  "parse_error rel e st = st\<lparr>psErrors := psErrors st @ [rel @ '': '' @ e]\<rparr>"

definition parse_file :: "yaml_decoder \<Rightarrow> repo_documents \<Rightarrow> string \<Rightarrow> string \<Rightarrow> string \<Rightarrow> parse_state \<Rightarrow> parse_state" where
  "parse_file yd docs repoName commit rel st =
     (if IsComposeFile rel then
        (case ParseCompose (rdCompose docs rel) of
           Inl e \<Rightarrow> parse_error rel e st
         | Inr parsed \<Rightarrow> st\<lparr>psServices := psServices st @ composeServices repoName commit rel parsed\<rparr>)
      else if IsYAMLFile rel then
        (case ParseKubernetes yd (rdKubernetes docs rel) of
           Inl e \<Rightarrow> parse_error rel e st
         | Inr parsed \<Rightarrow>
             (let st1 = st\<lparr>psResources := psResources st @ map (krSourcePath_update (\<lambda>_. rel)) parsed\<rparr> in
              case ParseTraefikRoutes (rdTraefik docs rel) of
                Inl e \<Rightarrow> parse_error rel e st1
              | Inr (routes, tcpRoutes) \<Rightarrow>
                  st1\<lparr>psRoutes := psRoutes st1 @ routes, psTCPRoutes := psTCPRoutes st1 @ tcpRoutes\<rparr>))
      else st)"

definition parse_visit :: "yaml_decoder \<Rightarrow> repo_documents \<Rightarrow> string \<Rightarrow> string \<Rightarrow> visit \<Rightarrow> parse_state \<Rightarrow> parse_state" where
  "parse_visit yd docs repoName commit v st =
     (case v of WalkError e \<Rightarrow> st\<lparr>psErrors := psErrors st @ [e]\<rparr> | Visited rel \<Rightarrow> parse_file yd docs repoName commit rel st)"

definition empty_parse :: parse_state where
  "empty_parse = \<lparr>psServices = [], psResources = [], psRoutes = [], psTCPRoutes = [], psErrors = []\<rparr>"

text \<open>The hosts of the targets that name the repository; the first error ends the loop.\<close>

fun pingServices :: "repo_documents \<Rightarrow> string \<Rightarrow> string \<Rightarrow> PingTarget list \<Rightarrow> string + Service list" where
  "pingServices docs repoName commit [] = Inr []"
| "pingServices docs repoName commit (target # targets) =
     (if ptRepository target \<noteq> repoName \<or> ptAnsibleInventory target = [] then pingServices docs repoName commit targets
      else (case ServicesForTarget target (rdAnsible docs (ptAnsibleInventory target)) commit of
          Inl e \<Rightarrow> Inl (ptAnsibleInventory target @ '': '' @ e)
        | Inr parsed \<Rightarrow> (case pingServices docs repoName commit targets of Inl e \<Rightarrow> Inl e | Inr others \<Rightarrow> Inr (parsed @ others))))"

definition parseRepo ::
  "yaml_decoder \<Rightarrow> repo_documents \<Rightarrow> RepositoryConfig \<Rightarrow> PingTarget list \<Rightarrow> string \<Rightarrow> string \<Rightarrow> string option \<Rightarrow> repo_entry list \<Rightarrow>
   Service list \<times> string option" where
  "parseRepo yd docs repo pings commit rootName readErr entries =
     (let st = fold (parse_visit yd docs (rcName repo) commit) (walk_repo (newRepoPathFilter repo) rootName readErr entries) empty_parse in
      if psErrors st \<noteq> [] then (psServices st, Some (''parse errors: '' @ Join (sort (psErrors st)) ''; ''))
      else
       (let services = applyTraefikRoutes
              (psServices st @ kubeServices (rcName repo) commit (enrichKubernetesExposure (psResources st))) (psRoutes st) (psTCPRoutes st) in
        case pingServices docs (rcName repo) commit pings of
          Inl e \<Rightarrow> (services, Some e)
        | Inr hosts \<Rightarrow> (services @ hosts, None)))"

end
