(* ===== verification/RouteChanges.thy ===== *)
theory RouteChanges
  imports Inventory
begin

text \<open>
  What a scan makes of routes that change their port (\<open>routeTargetReplacements\<close> of \<open>internal/scanner/scanner.go\<close>):
  an old route with one candidate that has no other owner is replaced, any other one with candidates is
  excluded and looked at again in the next scan. The two maps of a search are kept as the list of its pairs.
\<close>

section \<open>Candidates\<close>

definition url_Fragment :: "string \<Rightarrow> string option" where
  "url_Fragment rawURL = (case Cut rawURL ''#'' of (_, frag, _) \<Rightarrow> unescape encodeFragment frag)"

definition replacementInvariantMatch :: "string \<Rightarrow> string \<Rightarrow> bool" where
  "replacementInvariantMatch oldRoute newRoute =
     (case (url_Parse oldRoute, url_Parse newRoute) of
        (Some oldURL, Some newURL) \<Rightarrow>
          urlScheme oldURL = urlScheme newURL \<and> Hostname oldURL = Hostname newURL \<and> EscapedPath oldURL = EscapedPath newURL \<and>
          urlRawQuery oldURL = urlRawQuery newURL \<and> url_Fragment oldRoute = url_Fragment newRoute \<and> Port oldURL \<noteq> Port newURL
      | _ \<Rightarrow> False)"

definition routeContains :: "string list \<Rightarrow> string \<Rightarrow> bool" where
  "routeContains routes route = list_ex (\<lambda>candidate. candidate = route) routes"

definition routeDifference :: "string list \<Rightarrow> string list \<Rightarrow> string list" where
  "routeDifference left right = filter (\<lambda>route. route \<notin> set right) left"

text \<open>The service of an id, where the last one of a list wins.\<close>

definition service_by_id :: "string \<Rightarrow> Service list \<Rightarrow> string \<Rightarrow> Service option" where
  "service_by_id repository services i = find (\<lambda>s. svRepository s = repository \<and> svID s = i) (rev services)"

section \<open>The changes of one service\<close>

definition candidate_pairs :: "string list \<Rightarrow> string list \<Rightarrow> (string \<times> string) list" where
  "candidate_pairs oldOnly newOnly = filter (\<lambda>(oldRoute, newRoute). replacementInvariantMatch oldRoute newRoute) (List.product oldOnly newOnly)"

definition candidates_of :: "('a \<times> string) list \<Rightarrow> 'a \<Rightarrow> string list" where
  "candidates_of pairs k = map snd (filter (\<lambda>p. fst p = k) pairs)"

definition owners_of :: "(string \<times> string) list \<Rightarrow> string \<Rightarrow> nat" where
  "owners_of pairs newRoute = length (filter (\<lambda>p. snd p = newRoute) pairs)"

text \<open>What becomes of one old route.\<close>

datatype route_fate = Replaced string | Excluded | Dropped

definition route_fate_of :: "(string \<times> string) list \<Rightarrow> string \<Rightarrow> route_fate" where
  "route_fate_of pairs oldRoute =
     (case candidates_of pairs oldRoute of
        [] \<Rightarrow> Dropped
      | [newRoute] \<Rightarrow> if owners_of pairs newRoute = 1 then Replaced newRoute else Excluded
      | _ \<Rightarrow> Excluded)"

definition replaced_by :: "string \<Rightarrow> string \<Rightarrow> route_fate \<Rightarrow> RouteTargetReplacement list" where
  "replaced_by sid oldRoute fate =
     (case fate of Replaced newRoute \<Rightarrow> [\<lparr>rrServiceID = sid, rrOldRoute = oldRoute, rrNewRoute = newRoute\<rparr>] | _ \<Rightarrow> [])"

definition excluded_by :: "string \<Rightarrow> string \<Rightarrow> route_fate \<Rightarrow> RouteTargetExclusion list" where
  "excluded_by sid oldRoute fate = (case fate of Excluded \<Rightarrow> [\<lparr>reServiceID = sid, reOldRoute = oldRoute\<rparr>] | _ \<Rightarrow> [])"

definition changed_pairs :: "Service \<Rightarrow> Service \<Rightarrow> (string \<times> string) list" where
  "changed_pairs oldService service =
     candidate_pairs (routeDifference (Routes (svExposure oldService)) (Routes (svExposure service)))
       (routeDifference (Routes (svExposure service)) (Routes (svExposure oldService)))"

text \<open>The fates of the old routes that are gone, in order.\<close>

definition service_fates :: "Service \<Rightarrow> Service \<Rightarrow> (string \<times> route_fate) list" where
  "service_fates oldService service =
     map (\<lambda>oldRoute. (oldRoute, route_fate_of (changed_pairs oldService service) oldRoute))
       (routeDifference (Routes (svExposure oldService)) (Routes (svExposure service)))"

definition fates_since :: "Service list \<Rightarrow> string \<Rightarrow> Service \<Rightarrow> (string \<times> string \<times> route_fate) list" where
  "fates_since previous repository service =
     (case service_by_id repository previous (svID service) of
        None \<Rightarrow> []
      | Some oldService \<Rightarrow> map (Pair (svID service)) (service_fates oldService service))"

definition current_fates :: "Service list \<Rightarrow> Service list \<Rightarrow> string \<Rightarrow> (string \<times> string \<times> route_fate) list" where
  "current_fates previous current repository = concat (map (fates_since previous repository) current)"

section \<open>Earlier exclusions\<close>

text \<open>The candidates of an exclusion are all current routes, unless the old route is one of them.\<close>

definition prior_candidates :: "Service list \<Rightarrow> string \<Rightarrow> RouteTargetExclusion \<Rightarrow> string list" where
  "prior_candidates current repository exclusion =
     (case service_by_id repository current (reServiceID exclusion) of
        None \<Rightarrow> []
      | Some service \<Rightarrow>
          if routeContains (Routes (svExposure service)) (reOldRoute exclusion) then []
          else filter (replacementInvariantMatch (reOldRoute exclusion)) (Routes (svExposure service)))"

definition prior_pairs :: "Service list \<Rightarrow> string \<Rightarrow> RouteTargetExclusion list \<Rightarrow> (RouteTargetExclusion \<times> string) list" where
  "prior_pairs current repository unresolved =
     concat (map (\<lambda>exclusion. map (Pair exclusion) (prior_candidates current repository exclusion)) unresolved)"

definition owner_key :: "string \<Rightarrow> string \<Rightarrow> string" where
  "owner_key sid route = sid @ [CHR 0x00] @ route"

definition prior_owners :: "(RouteTargetExclusion \<times> string) list \<Rightarrow> string \<Rightarrow> nat" where
  "prior_owners pairs key = length (filter (\<lambda>p. owner_key (reServiceID (fst p)) (snd p) = key) pairs)"

definition prior_fate :: "(RouteTargetExclusion \<times> string) list \<Rightarrow> RouteTargetExclusion \<Rightarrow> route_fate" where
  "prior_fate pairs exclusion =
     (case candidates_of pairs exclusion of
        [] \<Rightarrow> Dropped
      | [newRoute] \<Rightarrow> if prior_owners pairs (owner_key (reServiceID exclusion) newRoute) = 1 then Replaced newRoute else Excluded
      | _ \<Rightarrow> Excluded)"

definition prior_fates :: "Service list \<Rightarrow> string \<Rightarrow> RouteTargetExclusion list \<Rightarrow> (string \<times> string \<times> route_fate) list" where
  "prior_fates current repository unresolved =
     map (\<lambda>exclusion. (reServiceID exclusion, reOldRoute exclusion, prior_fate (prior_pairs current repository unresolved) exclusion)) unresolved"

definition routeTargetReplacements ::
  "Service list \<Rightarrow> Service list \<Rightarrow> string \<Rightarrow> RouteTargetExclusion list \<Rightarrow> RouteTargetReplacement list \<times> RouteTargetExclusion list" where
  "routeTargetReplacements previous current repository unresolved =
     (let fates = current_fates previous current repository @ prior_fates current repository unresolved in
      (concat (map (\<lambda>(sid, oldRoute, fate). replaced_by sid oldRoute fate) fates),
       concat (map (\<lambda>(sid, oldRoute, fate). excluded_by sid oldRoute fate) fates)))"

section \<open>Replacements are justified\<close>

lemma candidate_pairs_set:
  "(a, b) \<in> set (candidate_pairs oldOnly newOnly) \<longleftrightarrow> a \<in> set oldOnly \<and> b \<in> set newOnly \<and> replacementInvariantMatch a b"
  by (auto simp: candidate_pairs_def)

lemma candidates_one: "candidates_of pairs k = [n] \<Longrightarrow> (k, n) \<in> set pairs \<and> (\<forall>m. (k, m) \<in> set pairs \<longrightarrow> m = n)"
proof -
  assume one: "candidates_of pairs k = [n]"
  have "m \<in> set (candidates_of pairs k) \<longleftrightarrow> (k, m) \<in> set pairs" for m by (force simp: candidates_of_def)
  with one show ?thesis by (metis empty_iff insert_iff list.set(1) list.simps(15))
qed

lemma one_owner:
  assumes "length (filter P xs) = 1" "x \<in> set xs" "P x" "y \<in> set xs" "P y"
  shows "x = y"
proof -
  obtain z where "filter P xs = [z]" using assms(1) by (auto simp: length_Suc_conv)
  moreover have "x \<in> set (filter P xs)" "y \<in> set (filter P xs)" using assms(2-5) by simp_all
  ultimately show ?thesis by simp
qed

lemma fate_replaced:
  assumes "route_fate_of pairs old = Replaced new"
  shows "(old, new) \<in> set pairs \<and> (\<forall>m. (old, m) \<in> set pairs \<longrightarrow> m = new) \<and> (\<forall>a. (a, new) \<in> set pairs \<longrightarrow> a = old)"
proof -
  from assms have one: "candidates_of pairs old = [new]" "owners_of pairs new = 1"
    by (auto simp: route_fate_of_def split: list.splits if_splits)
  from candidates_one [OF one(1)] have c: "(old, new) \<in> set pairs" "\<forall>m. (old, m) \<in> set pairs \<longrightarrow> m = new" by auto
  have "a = old" if "(a, new) \<in> set pairs" for a
    using one_owner [of "\<lambda>p. snd p = new" pairs "(a, new)" "(old, new)"] one(2) that c(1) by (simp add: owners_of_def)
  with c show ?thesis by blast
qed

lemma prior_replaced:
  assumes "prior_fate pairs x = Replaced new"
  shows "(x, new) \<in> set pairs \<and> (\<forall>m. (x, m) \<in> set pairs \<longrightarrow> m = new) \<and>
    (\<forall>y. (y, new) \<in> set pairs \<longrightarrow> reServiceID y = reServiceID x \<longrightarrow> y = x)"
proof -
  from assms have one: "candidates_of pairs x = [new]" "prior_owners pairs (owner_key (reServiceID x) new) = 1"
    by (auto simp: prior_fate_def split: list.splits if_splits)
  from candidates_one [OF one(1)] have c: "(x, new) \<in> set pairs" "\<forall>m. (x, m) \<in> set pairs \<longrightarrow> m = new" by auto
  have "y = x" if "(y, new) \<in> set pairs" "reServiceID y = reServiceID x" for y
    using one_owner [of "\<lambda>p. owner_key (reServiceID (fst p)) (snd p) = owner_key (reServiceID x) new" pairs "(y, new)" "(x, new)"] one(2) that c(1)
    by (simp add: prior_owners_def)
  with c show ?thesis by blast
qed

lemma service_by_id_set: "service_by_id repository services i = Some s \<Longrightarrow> s \<in> set services \<and> svRepository s = repository \<and> svID s = i"
  by (auto simp: service_by_id_def dest: find_Some_iff_set)

lemma prior_candidate:
  assumes "r \<in> set (prior_candidates current repository x)"
  shows "replacementInvariantMatch (reOldRoute x) r \<and>
    (\<exists>s \<in> set current. svID s = reServiceID x \<and> r \<in> set (Routes (svExposure s)) \<and> reOldRoute x \<notin> set (Routes (svExposure s)))"
proof (cases "service_by_id repository current (reServiceID x)")
  case None
  then show ?thesis using assms by (simp add: prior_candidates_def)
next
  case (Some s)
  then show ?thesis using assms service_by_id_set [OF Some]
    by (auto simp: prior_candidates_def routeContains_def list_ex_iff split: if_splits intro!: bexI [of _ s])
qed

lemma prior_pairs_set: "(x, r) \<in> set (prior_pairs current repository unresolved) \<longleftrightarrow> x \<in> set unresolved \<and> r \<in> set (prior_candidates current repository x)"
  by (auto simp: prior_pairs_def)

lemma changed_pairs_set:
  "(a, b) \<in> set (changed_pairs oldService service) \<longleftrightarrow> replacementInvariantMatch a b \<and>
     a \<in> set (Routes (svExposure oldService)) \<and> a \<notin> set (Routes (svExposure service)) \<and>
     b \<in> set (Routes (svExposure service)) \<and> b \<notin> set (Routes (svExposure oldService))"
  by (auto simp: changed_pairs_def candidate_pairs_set routeDifference_def)

lemma fates_since_set:
  "(sid, oldRoute, fate) \<in> set (fates_since previous repository service) \<longleftrightarrow> svID service = sid \<and>
     (\<exists>oldService. service_by_id repository previous sid = Some oldService \<and>
        oldRoute \<in> set (routeDifference (Routes (svExposure oldService)) (Routes (svExposure service))) \<and>
        fate = route_fate_of (changed_pairs oldService service) oldRoute)"
  by (cases "service_by_id repository previous (svID service)") (auto simp: fates_since_def service_fates_def)

lemma current_fates_set:
  "f \<in> set (current_fates previous current repository) \<longleftrightarrow> (\<exists>service \<in> set current. f \<in> set (fates_since previous repository service))"
  by (simp add: current_fates_def)

lemma replaced_set: "r \<in> set (replaced_by sid old fate) \<longleftrightarrow> fate = Replaced (rrNewRoute r) \<and> rrServiceID r = sid \<and> rrOldRoute r = old"
  by (auto simp: replaced_by_def split: route_fate.splits)

lemma excluded_set: "x \<in> set (excluded_by sid old fate) \<longleftrightarrow> fate = Excluded \<and> reServiceID x = sid \<and> reOldRoute x = old"
  by (auto simp: excluded_by_def split: route_fate.splits)

text \<open>The pair is the only one of either side.\<close>

definition sole_pair :: "('a \<times> 'b) set \<Rightarrow> 'a \<Rightarrow> 'b \<Rightarrow> bool" where
  "sole_pair pairs a b \<longleftrightarrow> (a, b) \<in> pairs \<and> (\<forall>m. (a, m) \<in> pairs \<longrightarrow> m = b) \<and> (\<forall>c. (c, b) \<in> pairs \<longrightarrow> c = a)"

text \<open>The pairs of an old and a new route of one service that differ in nothing but the port.\<close>

definition moved_routes :: "Service \<Rightarrow> Service \<Rightarrow> (string \<times> string) set" where
  "moved_routes oldService service =
     {(a, b). replacementInvariantMatch a b \<and> a \<in> set (Routes (svExposure oldService)) - set (Routes (svExposure service)) \<and>
        b \<in> set (Routes (svExposure service)) - set (Routes (svExposure oldService))}"

lemma changed_pairs_moved: "set (changed_pairs oldService service) = moved_routes oldService service"
  using changed_pairs_set [of _ _ oldService service] by (auto simp: moved_routes_def)


text \<open>no change of a port is lost: an old route of a service that stays is replaced or excluded exactly when it has a
  candidate among the new ones, and never both.\<close>

lemma moved_routes_are_accounted:
  assumes "service \<in> set current" and "service_by_id repository previous (svID service) = Some oldService"
    and "(old, new) \<in> moved_routes oldService service"
  shows "(\<exists>m. (svID service, old, Replaced m) \<in> set (current_fates previous current repository) \<and>
        \<lparr>rrServiceID = svID service, rrOldRoute = old, rrNewRoute = m\<rparr> \<in> set (fst (routeTargetReplacements previous current repository unresolved))) \<or>
    \<lparr>reServiceID = svID service, reOldRoute = old\<rparr> \<in> set (snd (routeTargetReplacements previous current repository unresolved))"
proof -
  have pair: "(old, new) \<in> set (changed_pairs oldService service)" using assms(3) by (simp add: changed_pairs_moved)
  then have "old \<in> set (routeDifference (Routes (svExposure oldService)) (Routes (svExposure service)))"
    by (auto simp: changed_pairs_def candidate_pairs_set)
  then have fate: "(svID service, old, route_fate_of (changed_pairs oldService service) old) \<in> set (current_fates previous current repository)"
    using assms(1,2) by (auto simp: current_fates_set fates_since_set)
  have "new \<in> set (candidates_of (changed_pairs oldService service) old)" using pair by (force simp: candidates_of_def)
  then have "route_fate_of (changed_pairs oldService service) old \<noteq> Dropped"
    by (cases "candidates_of (changed_pairs oldService service) old") (auto simp: route_fate_of_def split: list.split)
  then consider m where "route_fate_of (changed_pairs oldService service) old = Replaced m"
    | "route_fate_of (changed_pairs oldService service) old = Excluded"
    by (cases "route_fate_of (changed_pairs oldService service) old") auto
  then show ?thesis
  proof cases
    case (1 m)
    with fate have "\<lparr>rrServiceID = svID service, rrOldRoute = old, rrNewRoute = m\<rparr> \<in> set (fst (routeTargetReplacements previous current repository unresolved))"
      unfolding routeTargetReplacements_def Let_def by (force simp: replaced_set)
    with 1 fate show ?thesis by auto
  next
    case 2
    with fate have "\<lparr>reServiceID = svID service, reOldRoute = old\<rparr> \<in> set (snd (routeTargetReplacements previous current repository unresolved))"
      unfolding routeTargetReplacements_def Let_def by (force simp: excluded_set)
    then show ?thesis ..
  qed
qed

section \<open>Examples\<close>

definition route_service :: "string list \<Rightarrow> Service" where
  "route_service routes = (bare_service ''s'' ''web'')\<lparr>svRepository := ''infra'', svExposure := routes\<rparr>"

definition old_exclusion :: "string \<Rightarrow> RouteTargetExclusion" where
  "old_exclusion route = \<lparr>reServiceID = ''s'', reOldRoute = route\<rparr>"

abbreviation demo_r1 :: string where "demo_r1 \<equiv> ''http://a.lan:1''"
abbreviation demo_r2 :: string where "demo_r2 \<equiv> ''http://a.lan:2''"
abbreviation demo_r4 :: string where "demo_r4 \<equiv> ''http://a.lan:4''"

text \<open>Three scans in a row, of the routes on the ports 2 and 4, 1, and 4. The second excludes both old routes. The third
  replaces the route on port 1 and the excluded one on port 2 by the one on port 4, so that two targets become one.\<close>

lemma replacements_can_merge:
  "routeTargetReplacements [route_service [demo_r2, demo_r4]] [route_service [demo_r1]] ''infra'' [] =
     ([], [old_exclusion demo_r2, old_exclusion demo_r4])"
  "map rrNewRoute (fst (routeTargetReplacements [route_service [demo_r1]] [route_service [demo_r4]] ''infra''
     [old_exclusion demo_r2, old_exclusion demo_r4])) = [demo_r4, demo_r4]"
  by code_simp+


end
