(* ===== verification/ScanRun.thy ===== *)
theory ScanRun
  imports RouteChanges GitSync StatusProps InventoryProps
begin

text \<open>
  One scan of a repository (\<open>internal/scanner/scanner.go\<close>): its row is started, the repository is synchronized and
  parsed, the changes of its routes are derived from the services that are stored, and the row is finished.
  What the synchronization and the parsing returned, the errors of the reads and what other writers
  commit in between are arguments.
\<close>

section \<open>One scan\<close>

datatype scan_error = ScanFailed string | ScanNotStarted string | ScanNotStored inventory_error

record scan_world =
  swStartErr :: "string option"
  swSync :: "string + syncResult"
  swParse :: "syncResult \<Rightarrow> Service list \<times> string option"
  swMeanwhile :: "DashDB \<Rightarrow> DashDB"
  swServicesErr :: "string option"
  swExclusionsErr :: "string option"
  swRepositoriesErr :: "string option"
  swStarted :: gotime
  swFinished :: gotime
  swFresh :: "nat \<Rightarrow> string"
  swCleanup :: "string option"

definition priorSuccessfulCommit :: "string option \<Rightarrow> string \<Rightarrow> DashDB \<Rightarrow> string + string" where
  "priorSuccessfulCommit readErr repoName db =
     (case readErr of
        Some e \<Rightarrow> Inl e
      | None \<Rightarrow> Inr (case find (\<lambda>r. rpName r = repoName) (Repositories db) of Some r \<Rightarrow> rpLastCommit r | None \<Rightarrow> []))"

text \<open>The synchronization and the parsing: the result, the services, and the error.\<close>

definition no_result :: syncResult where "no_result = \<lparr>syncPath = [], syncCommit = []\<rparr>"

definition scan_attempt :: "scan_world \<Rightarrow> syncResult \<times> Service list \<times> string option" where
  "scan_attempt w =
     (case swSync w of
        Inl e \<Rightarrow> (no_result, [], Some e)
      | Inr result \<Rightarrow> (result, swParse w result))"

text \<open>The changes of the routes, read from the stored services; the errors of these reads fail the scan.\<close>

definition scan_changes ::
  "scan_world \<Rightarrow> string \<Rightarrow> Service list \<Rightarrow> DashDB \<Rightarrow> string option \<Rightarrow>
   RouteTargetReplacement list \<times> RouteTargetExclusion list \<times> string option" where
  "scan_changes w repoName services db scanErr =
     (case scanErr of
        Some e \<Rightarrow> ([], [], Some e)
      | None \<Rightarrow>
          (case swServicesErr w of
             Some e \<Rightarrow> ([], [], Some e)
           | None \<Rightarrow>
               (case swExclusionsErr w of
                  Some e \<Rightarrow> ([], [], Some e)
                | None \<Rightarrow>
                    (case routeTargetReplacements (Services db) services repoName (RouteTargetExclusions db repoName) of
                       (replacements, exclusions) \<Rightarrow> (replacements, exclusions, None)))))"

definition scan_commit :: "scan_world \<Rightarrow> string \<Rightarrow> syncResult \<Rightarrow> string option \<Rightarrow> DashDB \<Rightarrow> string" where
  "scan_commit w repoName result scanErr db =
     (case scanErr of
        None \<Rightarrow> syncCommit result
      | Some _ \<Rightarrow> (case priorSuccessfulCommit (swRepositoriesErr w) repoName db of Inl _ \<Rightarrow> syncCommit result | Inr prior \<Rightarrow> prior))"

definition scanOneUnshared :: "scan_world \<Rightarrow> string list \<Rightarrow> string \<Rightarrow> DashDB \<Rightarrow> DashDB \<times> scan_error option" where
  "scanOneUnshared w httpTargets repoName db =
     (case swStartErr w of
        Some e \<Rightarrow> (db, Some (ScanNotStarted e))
      | None \<Rightarrow>
          (case StartScan repoName (swStarted w) db of (started, scanID) \<Rightarrow>
           let db1 = swMeanwhile w started in
           case scan_attempt w of (result, services, attemptErr) \<Rightarrow>
           case scan_changes w repoName services db1 attemptErr of (replacements, exclusions, scanErr) \<Rightarrow>
           (case FinishScanWithRouteTargetChanges scanID repoName (scan_commit w repoName result scanErr db1) services scanErr
                   replacements exclusions httpTargets (swFinished w) (swFresh w) (swCleanup w) db1 of
              (db2, Some e) \<Rightarrow> (db2, Some (ScanNotStored e))
            | (db2, None) \<Rightarrow> (db2, map_option ScanFailed scanErr))))"

section \<open>All repositories\<close>

text \<open>\<open>ScanAll\<close>: one repository after the other; the last error is returned.\<close>

definition scan_each :: "(RepositoryConfig \<Rightarrow> scan_world) \<Rightarrow> string list \<Rightarrow> RepositoryConfig \<Rightarrow> DashDB \<times> scan_error option \<Rightarrow> DashDB \<times> scan_error option" where
  "scan_each worlds httpTargets repo acc =
     (case scanOneUnshared (worlds repo) httpTargets (rcName repo) (fst acc) of
        (db, Some e) \<Rightarrow> (db, Some e)
      | (db, None) \<Rightarrow> (db, snd acc))"

definition ScanAll ::
  "string option \<Rightarrow> (RepositoryConfig \<Rightarrow> scan_world) \<Rightarrow> string list \<Rightarrow> RepositoryConfig list \<Rightarrow> DashDB \<Rightarrow> DashDB \<times> scan_error option" where
  "ScanAll ensureErr worlds httpTargets repos db =
     (case ensureErr of
        Some e \<Rightarrow> (db, Some (ScanNotStarted e))
      | None \<Rightarrow> fold (scan_each worlds httpTargets) repos
          (EnsureRepositories (map (\<lambda>r. (rcName r, rcURL r, rcDefaultRef r)) repos) db, None))"

text \<open>The repositories \<open>RunScheduled\<close> starts a loop for, with their intervals.\<close>

definition scheduled_loops :: "RepositoryConfig list \<Rightarrow> (RepositoryConfig \<times> duration) list" where
  "scheduled_loops repos =
     concat (map (\<lambda>repo. case ScanDuration repo of Inl _ \<Rightarrow> [] | Inr interval \<Rightarrow> if interval = 0 then [] else [(repo, interval)]) repos)"

section \<open>A failed scan\<close>

definition last_commits :: "DashDB \<Rightarrow> (string \<times> string) list" where
  "last_commits db = map (\<lambda>r. (rpName r, rpLastCommit r)) (dbRepositories db)"

lemma after_inventory_more:
  "dbRepositories (after_inventory cleanup db) = dbRepositories db" "dbExclusions (after_inventory cleanup db) = dbExclusions db"
  by (simp_all add: after_inventory_def reconcileHealthAlertStates_def beginHealthAlertCleanup_def delete_orphan_states_def
      completeHealthAlertCleanup_def commitAndInvalidateSummary_def set_store_def Let_def cong: if_cong split: option.splits)

lemma close_scan_tables:
  "dbServices (close_scan i repo commit status e now db) = dbServices db"
  "dbExclusions (close_scan i repo commit status e now db) = dbExclusions db"
  "dbStatuses (close_scan i repo commit status e now db) = dbStatuses db"
  "last_commits (close_scan i repo commit status e now db) =
     map (\<lambda>r. (rpName r, if rpName r = repo then commit else rpLastCommit r)) (dbRepositories db)"
  by (simp_all add: close_scan_def on_repositories_def last_commits_def if_distrib cong: if_cong)

lemma start_tables:
  "dbServices (fst (StartScan repo now db)) = dbServices db" "dbExclusions (fst (StartScan repo now db)) = dbExclusions db"
  "dbStatuses (fst (StartScan repo now db)) = dbStatuses db" "dbRepositories (fst (StartScan repo now db)) = dbRepositories db"
  by (simp_all add: StartScan_def Let_def commitAndInvalidateSummary_def)

lemma find_by_key: "distinct (map f xs) \<Longrightarrow> x \<in> set xs \<Longrightarrow> find (\<lambda>y. f y = f x) xs = Some x"
  by (induction xs) (auto simp: image_iff)

lemma prior_commit:
  assumes "distinct (map rpName (dbRepositories db))" "r \<in> set (dbRepositories db)"
  shows "priorSuccessfulCommit None (rpName r) db = Inr (rpLastCommit r)"
proof -
  let ?rs = "Repositories db"
  let ?q = "r\<lparr>rpURL := db_redact db (rpURL r), rpError := db_redact db (rpError r)\<rparr>"
  have names: "map rpName ?rs = map rpName (sort_key rpName (dbRepositories db))" by (simp add: Repositories_def o_def)
  then have d: "distinct (map rpName ?rs)" using assms(1) by (metis distinct_map distinct_sort set_sort)
  moreover have "?q \<in> set ?rs" using assms(2) by (simp add: Repositories_def)
  ultimately show ?thesis using find_by_key [OF d, of ?q] by (simp add: priorSuccessfulCommit_def)
qed

lemma on_health_exclusions: "dbExclusions (on_health f db) = dbExclusions db"
  by (simp add: on_health_def)

text \<open>The error of an attempt that failed is the error of its row.\<close>

lemma finish_failed:
  assumes "FinishScanWithRouteTargetChanges i repo commit services (Some e) reps exs hs now fresh cleanup db = (db', r)"
  shows "r = None \<and> dbServices db' = dbServices db \<and> dbStatuses db' = dbStatuses db \<and> dbExclusions db' = dbExclusions db \<and>
    last_commits db' = map (\<lambda>r. (rpName r, if rpName r = repo then commit else rpLastCommit r)) (dbRepositories db)"
  using assms close_scan_tables(4) [of i repo commit]
  by (auto simp: FinishScanWithRouteTargetChanges_def Let_def close_scan_tables after_inventory_tables after_inventory_more last_commits_def
      on_health_exclusions)

lemma scan_failed:
  assumes "scanOneUnshared w hs repo db = (db', Some (ScanFailed e))" "swMeanwhile w = (\<lambda>x. x)"
  shows "dbServices db' = dbServices db" "dbStatuses db' = dbStatuses db" "dbExclusions db' = dbExclusions db"
    "last_commits db' = map (\<lambda>r. (rpName r, if rpName r = repo
       then scan_commit w repo (fst (scan_attempt w)) (Some e) (fst (StartScan repo (swStarted w) db)) else rpLastCommit r)) (dbRepositories db)"
proof -
  obtain started scanID where st: "StartScan repo (swStarted w) db = (started, scanID)" by fastforce
  obtain result services e1 where at: "scan_attempt w = (result, services, e1)" by (metis prod_cases3)
  obtain reps exs e2 where ch: "scan_changes w repo services started e1 = (reps, exs, e2)" by (metis prod_cases3)
  let ?finish = "FinishScanWithRouteTargetChanges scanID repo (scan_commit w repo result e2 started) services e2 reps exs hs
      (swFinished w) (swFresh w) (swCleanup w) started"
  obtain db2 r where fin: "?finish = (db2, r)" by fastforce
  have start: "swStartErr w = None" using assms(1) by (auto simp: scanOneUnshared_def split: option.splits)
  with assms st at ch fin have r: "r = None" "e2 = Some e" "db' = db2"
    by (auto simp: scanOneUnshared_def Let_def split: option.splits)
  have tables: "dbServices started = dbServices db" "dbExclusions started = dbExclusions db" "dbStatuses started = dbStatuses db"
    "dbRepositories started = dbRepositories db"
    using start_tables [of repo "swStarted w" db] by (simp_all add: st)
  from finish_failed [OF fin [unfolded r(2)]] tables
  show "dbServices db' = dbServices db" "dbStatuses db' = dbStatuses db" "dbExclusions db' = dbExclusions db"
    "last_commits db' = map (\<lambda>r. (rpName r, if rpName r = repo
       then scan_commit w repo (fst (scan_attempt w)) (Some e) (fst (StartScan repo (swStarted w) db)) else rpLastCommit r)) (dbRepositories db)"
    by (simp_all add: at r st)
qed


text \<open>Where the last commit cannot be read, the commit of the failed attempt is stored instead.\<close>

lemma failed_scan_can_move_commit:
  assumes "scanOneUnshared w httpTargets repo db = (db', Some (ScanFailed e))" "swMeanwhile w = (\<lambda>x. x)"
    "swRepositoriesErr w = Some readErr" "swSync w = Inr result"
  shows "last_commits db' = map (\<lambda>r. (rpName r, if rpName r = repo then syncCommit result else rpLastCommit r)) (dbRepositories db)"
  using scan_failed(4) [OF assms(1,2)] assms(3,4) by (simp add: scan_attempt_def scan_commit_def priorSuccessfulCommit_def)

text \<open>A scan whose synchronization is refused.\<close>

definition demo_world :: scan_world where
  "demo_world = \<lparr>swStartErr = None, swSync = Inl ''refused'', swParse = (\<lambda>_. ([], None)), swMeanwhile = (\<lambda>x. x), swServicesErr = None,
     swExclusionsErr = None, swRepositoriesErr = None, swStarted = zero_time, swFinished = zero_time, swFresh = (\<lambda>_. []), swCleanup = None\<rparr>"

lemma demo_scan_fails: "snd (scanOneUnshared demo_world [] ''r'' db) = Some (ScanFailed ''refused'')"
  by (simp add: scanOneUnshared_def demo_world_def scan_attempt_def scan_changes_def Let_def FinishScanWithRouteTargetChanges_def
      split: prod.split)

definition demo_scanned :: DashDB where
  "demo_scanned = demo_inventory\<lparr>dbRepositories := [\<lparr>rpName = ''r'', rpURL = [], rpDefaultRef = ''HEAD'', rpLastCommit = ''c1'',
     rpLastScanAt = [], rpStatus = ''ok'', rpError = []\<rparr>]\<rparr>"


end
