(* ===== verification/RepoProps.thy ===== *)
theory RepoProps
  imports RepoParse ScanRun
begin

text \<open>What the services of a repository are, and what becomes of two of the same id.\<close>

section \<open>What exposes a workload\<close>

text \<open>A service of the namespace whose selector is not empty and agrees with the labels; an ingress of that service; a config
  map the workload refers to.\<close>

definition selects :: "KubernetesResource \<Rightarrow> KubernetesResource \<Rightarrow> bool" where
  "selects service resource \<longleftrightarrow>
     krKind service = ''Service'' \<and> krNamespace service = krNamespace resource \<and> krSelector service \<noteq> [] \<and> krLabels resource \<noteq> [] \<and>
     (\<forall>(k, v) \<in> set (krSelector service). (case map_of (krLabels resource) k of Some w \<Rightarrow> w | None \<Rightarrow> []) = v)"

definition backed_by :: "KubernetesResource \<Rightarrow> KubernetesResource \<Rightarrow> bool" where
  "backed_by ingress service \<longleftrightarrow>
     krKind ingress = ''Ingress'' \<and>
     (\<exists>backend \<in> set (krBackends ingress). namespacedName (krNamespace ingress) backend = namespacedName (krNamespace service) (krName service))"

definition refers_to :: "KubernetesResource \<Rightarrow> KubernetesResource \<Rightarrow> bool" where
  "refers_to resource config \<longleftrightarrow>
     krKind config = ''ConfigMap'' \<and>
     (\<exists>name. ''ConfigMap/'' @ name \<in> set (krConfigRefs resource) \<and>
        namespacedName (krNamespace config) (krName config) = namespacedName (krNamespace resource) name)"

lemma selector_matches: "selectorMatches (krSelector s) (krLabels r) \<longleftrightarrow>
    krSelector s \<noteq> [] \<and> krLabels r \<noteq> [] \<and> (\<forall>(k, v) \<in> set (krSelector s). (case map_of (krLabels r) k of Some w \<Rightarrow> w | None \<Rightarrow> []) = v)"
  by (auto simp: selectorMatches_def list_all_iff)

lemma ingress_exposure_iff: "e \<in> set (ingress_exposure rs (namespacedName (krNamespace s) (krName s))) \<longleftrightarrow> (\<exists>i \<in> set rs. backed_by i s \<and> e \<in> set (krExposure i))"
  by (auto simp: ingress_exposure_def backed_by_def split: if_splits)

lemma service_exposure_iff:
  "krKind s = ''Service'' \<Longrightarrow> e \<in> set (service_exposure_of rs r s) \<longleftrightarrow>
     selects s r \<and> (e \<in> set (krExposure s) \<or> (\<exists>i \<in> set rs. backed_by i s \<and> e \<in> set (krExposure i)))"
proof -
  assume "krKind s = ''Service''"
  then have "selects s r \<longleftrightarrow> krNamespace s = krNamespace r \<and> selectorMatches (krSelector s) (krLabels r)"
    by (simp add: selects_def selector_matches)
  then show ?thesis using ingress_exposure_iff [of e rs s] by (auto simp: service_exposure_of_def)
qed

lemma config_exposure_set:
  "e \<in> set (config_exposure rs key) \<longleftrightarrow>
     (\<exists>c \<in> set rs. krKind c = ''ConfigMap'' \<and> namespacedName (krNamespace c) (krName c) = key \<and> e \<in> set (krExposure c))"
  by (auto simp: config_exposure_def split: if_splits)

lemma config_exposure_iff:
  "(\<exists>ref \<in> set (krConfigRefs r). e \<in> set (config_ref_exposure rs r ref)) \<longleftrightarrow> (\<exists>c \<in> set rs. refers_to r c \<and> e \<in> set (krExposure c))"
proof -
  have pre: "HasPrefix ref ''ConfigMap/'' \<longleftrightarrow> (\<exists>name. ref = ''ConfigMap/'' @ name)" for ref
  proof
    assume "HasPrefix ref ''ConfigMap/''"
    then have "ref = ''ConfigMap/'' @ drop (length ''ConfigMap/'') ref" unfolding HasPrefix_def by (metis append_take_drop_id)
    then show "\<exists>name. ref = ''ConfigMap/'' @ name" by blast
  qed (auto simp: HasPrefix_def)
  have trim: "TrimPrefix (''ConfigMap/'' @ name) ''ConfigMap/'' = name" for name by (simp add: TrimPrefix_def HasPrefix_def)
  have "e \<in> set (config_ref_exposure rs r ref) \<longleftrightarrow> (\<exists>name. ref = ''ConfigMap/'' @ name \<and> (\<exists>c \<in> set rs. krKind c = ''ConfigMap'' \<and>
      namespacedName (krNamespace c) (krName c) = namespacedName (krNamespace r) name \<and> e \<in> set (krExposure c)))" for ref
  proof (cases "\<exists>name. ref = ''ConfigMap/'' @ name")
    case True
    then obtain name where ref: "ref = ''ConfigMap/'' @ name" by blast
    have "HasPrefix ref ''ConfigMap/''" using True pre by blast
    then have "config_ref_exposure rs r ref = config_exposure rs (namespacedName (krNamespace r) name)"
      unfolding config_ref_exposure_def ref trim by simp
    then show ?thesis unfolding ref by (simp add: config_exposure_set)
  next
    case False
    then have none: "\<not> HasPrefix ref ''ConfigMap/''" using pre [of ref] by (rule contrapos_nn [OF _ iffD1])
    have "config_ref_exposure rs r ref = []" unfolding config_ref_exposure_def by (rule if_not_P [OF none])
    moreover have "ref \<noteq> ''ConfigMap/'' @ name" for name using False by (rule contrapos_nn) (rule exI)
    ultimately show ?thesis by simp
  qed
  moreover have "(\<exists>ref \<in> R. \<exists>name. ref = f name \<and> (\<exists>c \<in> S. K c \<and> N c name \<and> E c)) \<longleftrightarrow> (\<exists>c \<in> S. (K c \<and> (\<exists>name. f name \<in> R \<and> N c name)) \<and> E c)"
    for R :: "string set" and f :: "string \<Rightarrow> string" and S :: "KubernetesResource set" and K N E by blast
  ultimately show ?thesis unfolding refers_to_def by (simp only:)
qed

text \<open>C24: a workload is exposed by exactly what its document says, by the services of its namespace that select it, by
  the ingresses these services back, and by the config maps it refers to.\<close>

theorem workload_exposure:
  assumes "r \<in> set rs" and "IsWorkload r" and "r' = enriched rs r"
  shows "r' \<in> set (enrichKubernetesExposure rs) \<and> sorted (krExposure r') \<and> distinct (krExposure r') \<and>
    set (krExposure r') = {e. e \<noteq> [] \<and> (e \<in> set (krExposure r) \<or>
       (\<exists>s \<in> set rs. selects s r \<and> (e \<in> set (krExposure s) \<or> (\<exists>i \<in> set rs. backed_by i s \<and> e \<in> set (krExposure i)))) \<or>
       (\<exists>c \<in> set rs. refers_to r c \<and> e \<in> set (krExposure c)))}"
proof -
  let ?all = "krExposure r @ concat (map (service_exposure_of rs r) (filter (\<lambda>r. krKind r = ''Service'') rs)) @
        concat (map (config_ref_exposure rs r) (krConfigRefs r))"
  have e: "krExposure r' = scan_uniqueSorted ?all" using assms(2,3) by (simp add: enriched_def)
  have services: "e \<in> set (concat (map (service_exposure_of rs r) (filter (\<lambda>r. krKind r = ''Service'') rs))) \<longleftrightarrow>
      (\<exists>s \<in> set rs. selects s r \<and> (e \<in> set (krExposure s) \<or> (\<exists>i \<in> set rs. backed_by i s \<and> e \<in> set (krExposure i))))" for e
    using service_exposure_iff [of _ e rs r] by (auto simp: selects_def)
  have configs: "e \<in> set (concat (map (config_ref_exposure rs r) (krConfigRefs r))) \<longleftrightarrow>
      (\<exists>c \<in> set rs. refers_to r c \<and> e \<in> set (krExposure c))" for e
    using config_exposure_iff [of r e rs] by simp
  have "set (krExposure r') = {e. e \<noteq> [] \<and> (e \<in> set (krExposure r) \<or>
       (\<exists>s \<in> set rs. selects s r \<and> (e \<in> set (krExposure s) \<or> (\<exists>i \<in> set rs. backed_by i s \<and> e \<in> set (krExposure i)))) \<or>
       (\<exists>c \<in> set rs. refers_to r c \<and> e \<in> set (krExposure c)))}"
    unfolding e scan_uniqueSorted_props(1) set_append using services configs by blast
  moreover have "sorted (krExposure r')" "distinct (krExposure r')" unfolding e by (rule scan_uniqueSorted_props)+
  moreover have "r' \<in> set (enrichKubernetesExposure rs)" using assms(1,3) by (simp add: enrichKubernetesExposure_def)
  ultimately show ?thesis by simp
qed

definition demo_workload :: KubernetesResource where
  "demo_workload = empty_resource ''Deployment'' ''web'' ''apps'' [(''app'', ''web'')] []"

definition demo_selecting :: KubernetesResource where
  "demo_selecting = (empty_resource ''Service'' ''web-svc'' ''apps'' [] [])\<lparr>krSelector := [(''app'', ''web'')], krExposure := [''service/web-svc'']\<rparr>"

definition demo_ingress :: KubernetesResource where
  "demo_ingress = (empty_resource ''Ingress'' ''in'' ''apps'' [] [])\<lparr>krBackends := [''web-svc''], krExposure := [''https://web.test/'']\<rparr>"

lemma workload_exposure_witness:
  "krExposure (enriched [demo_workload, demo_selecting, demo_ingress] demo_workload) = [''https://web.test/'', ''service/web-svc''] \<and>
   enriched [demo_workload, demo_selecting, demo_ingress] demo_workload \<in> set (enrichKubernetesExposure [demo_workload, demo_selecting, demo_ingress])"
proof -
  have "IsWorkload demo_workload" by code_simp
  moreover have "krExposure (enriched [demo_workload, demo_selecting, demo_ingress] demo_workload) = [''https://web.test/'', ''service/web-svc'']"
    by code_simp
  ultimately show ?thesis using workload_exposure [of demo_workload "[demo_workload, demo_selecting, demo_ingress]"] by simp
qed

section \<open>Where services come from\<close>

definition from_files :: "string \<Rightarrow> string set \<Rightarrow> parse_state \<Rightarrow> bool" where
  "from_files repo files st \<longleftrightarrow>
     (\<forall>s \<in> set (psServices st). svRepository s = repo \<and> svSourcePath s \<in> files) \<and> (\<forall>r \<in> set (psResources st). krSourcePath r \<in> files)"

lemma compose_origin: "s \<in> set (composeServices repo commit path project) \<Longrightarrow> svRepository s = repo \<and> svSourcePath s = path"
  by (auto simp: composeServices_def)

lemma parse_file_origin: "rel \<in> files \<Longrightarrow> from_files repo files st \<Longrightarrow> from_files repo files (parse_file yd docs repo commit rel st)"
  by (auto simp: parse_file_def parse_error_def from_files_def Let_def dest: compose_origin split: sum.split)

lemma parse_fold_origin:
  "set (visited vs) \<subseteq> files \<Longrightarrow> from_files repo files st \<Longrightarrow> from_files repo files (fold (parse_visit yd docs repo commit) vs st)"
proof (induction vs arbitrary: st)
  case (Cons v vs)
  have "from_files repo files (parse_visit yd docs repo commit v st)"
    using Cons.prems parse_file_origin [of _ files repo st] by (cases v) (auto simp: parse_visit_def visited_def from_files_def)
  then show ?case using Cons by (simp add: visited_def)
qed simp

lemma ping_origin:
  "pingServices docs repo commit targets = Inr services \<Longrightarrow> s \<in> set services \<Longrightarrow> repo \<noteq> [] \<Longrightarrow>
   svRepository s = repo \<and> (\<exists>t \<in> set targets. ptRepository t = repo \<and> ptAnsibleInventory t \<noteq> [] \<and> svSourcePath s = ptAnsibleInventory t)"
proof (induction targets arbitrary: services)
  case (Cons t targets)
  show ?case
  proof (cases "ptRepository t \<noteq> repo \<or> ptAnsibleInventory t = []")
    case True
    then have "pingServices docs repo commit targets = Inr services" using Cons.prems(1) by simp
    from Cons.IH [OF this Cons.prems(2,3)] show ?thesis by auto
  next
    case False
    then obtain parsed others where p: "ServicesForTarget t (rdAnsible docs (ptAnsibleInventory t)) commit = Inr parsed"
      "pingServices docs repo commit targets = Inr others" "services = parsed @ others"
      using Cons.prems(1) by (auto split: sum.splits)
    show ?thesis
    proof (cases "s \<in> set others")
      case True
      from Cons.IH [OF p(2) True Cons.prems(3)] show ?thesis by auto
    next
      case out: False
      then have "s \<in> set parsed" using p(3) Cons.prems(2) by simp
      then have "svRepository s = host_RepositoryName t \<and> svSourcePath s = host_Source t"
        using p(1) by (auto simp: ServicesForTarget_def host_service_def Let_def split: sum.splits)
      moreover have "repo \<noteq> [] \<longrightarrow> host_RepositoryName t = repo" "host_Source t = ptAnsibleInventory t"
        using False by (simp_all add: host_RepositoryName_def host_Source_def)
      ultimately show ?thesis using False Cons.prems(3) by auto
    qed
  qed
qed simp

lemma traefik_origin:
  "s \<in> set (applyTraefikRoutes services routes tcpRoutes) \<Longrightarrow> \<exists>s0 \<in> set services. svRepository s = svRepository s0 \<and> svSourcePath s = svSourcePath s0"
  by (auto simp: applyTraefikRoutes_def)

lemma kube_origin:
  "s \<in> set (kubeServices repo commit (enrichKubernetesExposure rs)) \<Longrightarrow> svRepository s = repo \<and> (\<exists>r \<in> set rs. svSourcePath s = krSourcePath r)"
  by (auto simp: kubeServices_def enrichKubernetesExposure_def kube_service_def enriched_def)

text \<open>C12: each service a scan finds is one of its repository, and of a file of the tree that the path filter admits, or a host of an
  inventory that a ping target of this repository names: nothing comes from a file that is excluded.\<close>

theorem services_come_from_admitted_files:
  assumes "parseRepo yd docs repo pings commit rootName readErr entries = (services, err)" and "s \<in> set services"
    and "list_all plain_entry entries" and "rootName \<noteq> ''.git''" and "rcName repo \<noteq> []"
  shows "svRepository s = rcName repo \<and>
    (svSourcePath s \<in> set (concat (map (files_of []) entries)) \<and> shouldScanRepoPath repo (svSourcePath s) \<or>
     (\<exists>t \<in> set pings. ptRepository t = rcName repo \<and> ptAnsibleInventory t \<noteq> [] \<and> svSourcePath s = ptAnsibleInventory t))"
proof -
  let ?vs = "walk_repo (newRepoPathFilter repo) rootName readErr entries"
  let ?files = "{f \<in> set (concat (map (files_of []) entries)). shouldScanRepoPath repo f}"
  let ?st = "fold (parse_visit yd docs (rcName repo) commit) ?vs empty_parse"
  have "set (visited ?vs) \<subseteq> ?files"
    unfolding walk_visits [OF assms(3,4)] shouldScanRepoPath_def by auto
  then have st: "from_files (rcName repo) ?files ?st"
    by (rule parse_fold_origin) (simp add: from_files_def empty_parse_def)
  have routed: "svRepository x = rcName repo \<and> svSourcePath x \<in> ?files"
    if "x \<in> set (applyTraefikRoutes (psServices ?st @ kubeServices (rcName repo) commit (enrichKubernetesExposure (psResources ?st))) rs ts)" for x rs ts
    using traefik_origin [OF that] st unfolding from_files_def by (auto dest!: kube_origin)
  show ?thesis
  proof (cases "psErrors ?st = []")
    case False
    then have "s \<in> set (psServices ?st)" using assms(1,2) by (simp add: parseRepo_def Let_def)
    then show ?thesis using st by (auto simp: from_files_def)
  next
    case True
    then consider "s \<in> set (applyTraefikRoutes (psServices ?st @ kubeServices (rcName repo) commit (enrichKubernetesExposure (psResources ?st)))
        (psRoutes ?st) (psTCPRoutes ?st))"
      | hosts where "pingServices docs (rcName repo) commit pings = Inr hosts" "s \<in> set hosts"
      using assms(1,2) by (auto simp: parseRepo_def Let_def split: sum.splits)
    then show ?thesis
    proof cases
      case 1
      from routed [OF this] show ?thesis by simp
    next
      case 2
      from ping_origin [OF this assms(5)] show ?thesis by simp
    qed
  qed
qed

definition demo_docs :: repo_documents where
  "demo_docs = \<lparr>rdCompose = (\<lambda>_. Inr \<lparr>cfName = [], cfServices = [(''web'', demo_compose)]\<rparr>), rdKubernetes = (\<lambda>_. Inl ''none''),
     rdTraefik = (\<lambda>_. Inl ''none''), rdAnsible = (\<lambda>_. Inl ''none'')\<rparr>"

definition demo_entries :: "repo_entry list" where
  "demo_entries = [RepoDir ''app'' None [RepoFile ''compose.yml'']]"

text \<open>A decoder that finds nothing.\<close>

definition demo_yaml :: yaml_decoder where
  "demo_yaml = \<lparr>ydMetadata = (\<lambda>_. (empty_metadata, None)), ydLabels = (\<lambda>_. None), ydData = (\<lambda>_. ([], None)), ydWorkload = (\<lambda>_. (empty_template, None)),
     ydCronJob = (\<lambda>_. (empty_template, None)), ydHelmRelease = (\<lambda>_. (empty_helm_spec, None)), ydService = (\<lambda>_. (empty_service_spec, None)),
     ydIngress = (\<lambda>_. (empty_ingress_spec, None)), ydAny = (\<lambda>_. None), ydText = (\<lambda>_. None)\<rparr>"

lemma demo_parse:
  fixes yd :: yaml_decoder
  defines "services \<equiv> fst (parseRepo yd demo_docs demo_repo [] ''c1'' ''infra'' None demo_entries)"
  shows "\<exists>s. s \<in> set services"
proof -
  have walk: "walk_repo (newRepoPathFilter demo_repo) ''infra'' None demo_entries = [Visited ''app/compose.yml'']" by code_simp
  have "IsComposeFile ''app/compose.yml''" by code_simp
  then have "services \<noteq> []"
    by (simp add: services_def parseRepo_def Let_def walk parse_visit_def parse_file_def demo_docs_def ParseCompose_def empty_parse_def
        composeServices_def applyTraefikRoutes_def)
  then show ?thesis using hd_in_set by blast
qed

lemma services_come_from_admitted_files_witness:
  "\<exists>s. s \<in> set (fst (parseRepo demo_yaml demo_docs demo_repo [] ''c1'' ''infra'' None demo_entries)) \<and>
     svRepository s = ''Team/Infra'' \<and> svSourcePath s = ''app/compose.yml''"
proof -
  obtain s where s: "s \<in> set (fst (parseRepo demo_yaml demo_docs demo_repo [] ''c1'' ''infra'' None demo_entries))" using demo_parse by blast
  have plain: "list_all plain_entry demo_entries" by code_simp
  have name: "rcName demo_repo = ''Team/Infra''" by (simp add: demo_repo_def)
  have files: "concat (map (files_of []) demo_entries) = [''app/compose.yml'']" by code_simp
  from services_come_from_admitted_files [OF prod.collapse [symmetric] s plain] show ?thesis using s by (auto simp: name files)
qed

section \<open>Services of the same id\<close>

lemma adopt_duplicates:
  assumes "\<not> distinct (map svID services)"
  shows "\<exists>db' e. adopt_scan repo services reps exs hs now fresh db = (db', Some e)"
proof -
  have no: "\<nexists>db3. replaceServiceRows scope services orphans fresh db2 = Inr db3" for scope orphans db2
    using assms by (simp add: replace_rows_iff)
  obtain db2 m where m: "migrateRouteTargetReplacements now reps (httpRouteTargetNames hs)
      (setRouteTargetExclusions exs (delete_repository_exclusions repo db)) = (db2, m)" by fastforce
  show ?thesis
  proof (cases m)
    case None
    from no [of "\<lambda>s. svRepository s = repo" False db2] obtain e where
      "replaceServiceRows (\<lambda>s. svRepository s = repo) services False fresh db2 = Inl e"
      by (cases "replaceServiceRows (\<lambda>s. svRepository s = repo) services False fresh db2") auto
    with m None show ?thesis by (simp add: adopt_scan_def Let_def)
  qed (use m in \<open>simp add: adopt_scan_def Let_def\<close>)
qed


text \<open>A Deployment and a CronJob of one name, in one namespace and one file, are such services.\<close>

lemma two_kinds_share_id:
  "\<not> distinct (map svID (kubeServices repo commit [empty_resource ''Deployment'' ''web'' ''apps'' labels [], empty_resource ''CronJob'' ''web'' ''apps'' labels []]))"
proof -
  have "IsWorkload (empty_resource ''Deployment'' ''web'' ''apps'' labels [])" "IsWorkload (empty_resource ''CronJob'' ''web'' ''apps'' labels [])"
    by (simp_all add: IsWorkload_def workload_kinds_def empty_resource_def)
  moreover have "svID (kube_service repo commit (empty_resource ''Deployment'' ''web'' ''apps'' labels [])) =
      svID (kube_service repo commit (empty_resource ''CronJob'' ''web'' ''apps'' labels []))"
    by (rule workloads_of_two_kinds_share_id) (simp_all add: empty_resource_def)
  ultimately show ?thesis by (simp add: kubeServices_def)
qed

definition two_kinds_world :: scan_world where
  "two_kinds_world = demo_world\<lparr>swSync := Inr no_result, swParse := (\<lambda>r. (kubeServices ''r'' (syncCommit r)
     [empty_resource ''Deployment'' ''web'' ''apps'' [] [], empty_resource ''CronJob'' ''web'' ''apps'' [] []], None))\<rparr>"


end
