(* ===== verification/Spec2Isabelle.thy ===== *)
theory Spec2Isabelle
  imports AlertOutbox ImageProps Versions TimeParse EgressPolicy StoreProps EvaluatorProps WorkerProps AgentProps
    Actions GitSyncProps SingleFlight RepoProps
begin

text \<open>
  \<^bold>\<open>gitops-dashboard\<close>: a server that scans Git repositories and configured hosts for services, probes
  them, keeps what it found in an SQLite database, and sends alerts about changes of their health.

  \<^bold>\<open>Parts.\<close> The configuration is loaded, checked, and its secrets are registered for redaction. The scanner
  synchronizes each repository with Git, walks and parses it and stores its services; agents on other hosts
  report their containers over a connection that is authenticated by a token; the monitors probe the services
  and write statuses. The store (\<open>internal/storage\<close>) holds inventory, statuses, history and the alert
  outbox and decides when a change of health is an alert; the evaluator turns lost agents and failed scans
  into events; the alert worker claims dispatches from the outbox, sends them and records the results. The
  version allocator picks release tags in CI.

  \<^bold>\<open>Theories and sources.\<close> A theory whose name ends in \<open>Props\<close> holds the lemmas and properties of the one before.
  \<^item> \<open>Prelude\<close>, \<open>GoStrings\<close>, \<open>GoText\<close>, \<open>GoTime\<close>, \<open>TimeParse\<close>, \<open>NetIP\<close>, \<open>Url\<close>, \<open>Sha256\<close>: the used part of the
    standard library of Go, and shared lemmas.
  \<^item> \<open>Sanitizer\<close>: \<open>internal/sanitizer\<close>. \<open>Images\<close>, \<open>ImageProps\<close>, \<open>Models\<close>: \<open>internal/core\<close>. \<open>Versions\<close>:
    \<open>internal/ci/version.go\<close> and \<open>cmd/version-allocator\<close>.
  \<^item> \<open>AlertRetry\<close>, \<open>AlertStore\<close>, \<open>AlertOps\<close>: \<open>internal/storage/alerts.go\<close>; the tables are lists of rows, an
    operation is a function on the store that returns its error as the left summand. \<open>AlertInv\<close>,
    \<open>AlertSafe\<close>, \<open>AlertHistory\<close>, \<open>AlertProps\<close>: the invariant, the frame of each operation, runs of
    operations and the properties. \<open>AlertOutbox\<close>: the interface of the outbox as a locale, interpreted on
    the store.
  \<^item> \<open>Health\<close>, \<open>HealthProps\<close>: the roll-up and the alert producer of \<open>internal/storage/status.go\<close>. \<open>StatusOps\<close>,
    \<open>StatusProps\<close>: its results, overrides, freshness, pruning and uptime.
  \<^item> \<open>SummaryCache\<close>: \<open>summary_cache.go\<close>, with the race of readers and writers as a step relation. \<open>StoreProps\<close>: what
    all operations on the tables keep, and the summary that is served.
  \<^item> \<open>EgressPolicy\<close>: \<open>internal/routetarget/policy.go\<close> and the dialer \<open>internal/monitor/http_route_policy.go\<close>.
    \<open>RouteTarget\<close>: \<open>internal/routetarget/routetarget.go\<close>.
  \<^item> \<open>Dashboard\<close>: all tables, and \<open>sqlutil.go\<close>. \<open>RouteMigration\<close>, \<open>RouteProps\<close>: \<open>route_targets.go\<close>.
    \<open>Inventory\<close>, \<open>InventoryProps\<close>: \<open>services.go\<close> and the scans.
  \<^item> \<open>ConfigTypes\<close>, \<open>ConfigSecrets\<close>, \<open>ConfigCheck\<close>, \<open>ConfigProps\<close>: \<open>internal/config/config.go\<close>, its defaults, secrets and
    validation; \<open>AlertRedaction\<close>: \<open>alert_redaction.go\<close>; \<open>AppConfig\<close>: how \<open>internal/app/app.go\<close> hands them on.
  \<^item> \<open>AlertEvaluator\<close>, \<open>EvaluatorProps\<close>: \<open>internal/app/alert_evaluator.go\<close>, refined to an abstract machine of edges.
    \<open>AlertWorker\<close>, \<open>WorkerProps\<close>: \<open>internal/alerter\<close>, polls with their deliveries in any order.
  \<^item> \<open>Auth\<close>: \<open>internal/auth\<close>. \<open>Docker\<close>: \<open>internal/dockerapi\<close> and the Docker monitor of \<open>internal/monitor/monitor.go\<close>.
    \<open>AgentWire\<close>, \<open>AgentReport\<close>, \<open>AgentProps\<close>: \<open>internal/agent\<close>, \<open>internal/agentprotocol\<close> and
    \<open>internal/app/agent_report.go\<close>, both ends of the protocol, and the connection of an agent.
  \<^item> \<open>Actions\<close>: \<open>internal/app/actions.go\<close>, the goroutines as a step relation.
  \<^item> \<open>GitCredentials\<close>, \<open>GitSync\<close>, \<open>GitSyncProps\<close>: \<open>internal/scanner/credentials.go\<close>, \<open>git_exec.go\<close> and the synchronization of
    \<open>scanner.go\<close>. Git is a function on a world; what is assumed of it is what is documented of its configuration
    commands. \<open>RouteChanges\<close>: the routes replaced by a scan. \<open>ScanRun\<close>: the run of a scan on the tables.
    \<open>SingleFlight\<close>: \<open>repo_singleflight.go\<close>, its goroutines as a step relation. \<open>PathFilter\<close>: \<open>path_filter.go\<close> and the walk.
  \<^item> \<open>RouteEvidence\<close>, \<open>Compose\<close>, \<open>Kubernetes\<close>: \<open>internal/parser\<close>: \<open>routes.go\<close> and \<open>traefik.go\<close>, \<open>compose.go\<close>,
    \<open>kubernetes.go\<close>, on trees of nodes and values. \<open>HostInventory\<close>: its \<open>ansible.go\<close> and
    \<open>internal/hostinventory\<close>, with the ids by \<open>Sha1\<close>. \<open>RepoParse\<close>, \<open>RepoProps\<close>: \<open>internal/environment\<close> and the services
    \<open>scanner.go\<close> builds from the parsed files of a repository.

  \<^bold>\<open>Conventions.\<close> A string is a list of bytes, \<open>gotime\<close> and \<open>duration\<close> count nanoseconds, a JSON column
  holds the value itself, an instant stored as RFC 3339 text with its nanoseconds is stored once. Random
  values, the wall clock, key material, files, processes and what SQLite or a peer answers are arguments. A Go map is
  a partial function, or an association list where its order can show. A loop that ends when a
  table is exhausted is a recursion with the table's length as measure; the retry loop over SQLite's busy
  errors ends by its time bound. No definition needs fuel.

  \<^bold>\<open>Not modelled.\<close> The migrations of databases of earlier releases and the JSON columns; the HTTP server and its
  pages, the probes of HTTP and ping targets, the Kubernetes and Docker clients beyond what they answer, Git
  itself: they are calls of libraries or process boundaries. The decoders of YAML and JSON text are arguments, and
  documents whose anchors contain themselves are left out. What a scan parses is an argument of its run, and \<open>parseRepo\<close> is
  what the program puts there. The release command drives Git and GitHub. SQLite failures other than a violated constraint are modelled for the alert tables
  only. Case folding is that of ASCII, and JSON is modelled on texts that are valid UTF-8.
\<close>

end
